(* ===== verification/Prelude.thy ===== *)
theory Prelude
  imports Main "HOL-Library.Word" "HOL-Library.Multiset" "HOL-Library.List_Lexorder"
    "HOL-Library.Char_ord"
begin

text \<open>
  Shared vocabulary of the development: the types that stand for Go's built-in types, the
  result type of fallible Go functions, Go's error values with \<^verbatim>\<open>errors.Is\<close>, the parts of
  the packages \<^verbatim>\<open>strings\<close>, \<^verbatim>\<open>strconv\<close> and \<^verbatim>\<open>fmt\<close> that the program uses, and generic list
  lemmas.

  Conventions.  A Go \<^verbatim>\<open>string\<close> or \<^verbatim>\<open>[]byte\<close> is a \<^typ>\<open>string\<close> (a list of bytes).  Go's
  \<^verbatim>\<open>int\<close> and \<^verbatim>\<open>int64\<close> are \<^typ>\<open>int\<close>; \<^verbatim>\<open>uint32\<close>, whose wrap-around the hash and the shard
  arithmetic rely on, is \<^typ>\<open>32 word\<close>.  A \<^verbatim>\<open>time.Time\<close> is the number of nanoseconds since
  the zero time of Go (so \<^verbatim>\<open>IsZero\<close> is equality with 0) and a \<^verbatim>\<open>time.Duration\<close> a number of
  nanoseconds.  A pointer that may be nil is an \<^typ>\<open>'a option\<close>.  A function that returns a
  value and an error is a function into the sum \<open>gerr + 'a\<close> (\<open>Inl\<close> is a non-nil error).
\<close>

named_theorems go_simps \<open>unfolding rules for the model's small helper definitions\<close>
named_theorems table_simps \<open>how each repository operation acts on the rows of its table\<close>

type_synonym u32 = "32 word"
type_synonym time = int
type_synonym duration = int

definition second :: duration where "second = 1000000000"
definition millisecond :: duration where "millisecond = 1000000"
definition minute :: duration where "minute = 60 * second"

lemmas duration_defs [go_simps] = second_def millisecond_def minute_def

text \<open>\<^verbatim>\<open>t.IsZero()\<close>.\<close>

definition IsZero :: "time \<Rightarrow> bool" where
  [go_simps]: "IsZero t = (t = 0)"

section \<open>Decimal numbers\<close>

definition digit_char :: "nat \<Rightarrow> char" where
  "digit_char n = ''0123456789'' ! n"

text \<open>The \<^verbatim>\<open>%d\<close> rendering of a non-negative and of a signed integer.\<close>

fun nat_dec :: "nat \<Rightarrow> string" where
  "nat_dec n = (if n < 10 then [digit_char n] else nat_dec (n div 10) @ [digit_char (n mod 10)])"

declare nat_dec.simps [simp del]

definition int_dec :: "int \<Rightarrow> string" where
  "int_dec i = (if i < 0 then CHR ''-'' # nat_dec (nat (- i)) else nat_dec (nat i))"

abbreviation is_digit :: "char \<Rightarrow> bool" where
  "is_digit c \<equiv> c \<in> set ''0123456789''"

lemma less_10_cases:
  "n < 10 \<Longrightarrow> n = 0 \<or> n = 1 \<or> n = 2 \<or> n = 3 \<or> n = 4 \<or> n = 5 \<or> n = 6 \<or> n = 7 \<or> n = 8 \<or> n = (9::nat)"
  by arith

lemma digit_char_is_digit: "n < 10 \<Longrightarrow> is_digit (digit_char n)"
  by (drule less_10_cases) (auto simp: digit_char_def)

lemma digit_char_inj: "m < 10 \<Longrightarrow> n < 10 \<Longrightarrow> digit_char m = digit_char n \<Longrightarrow> m = n"
  by (drule less_10_cases, drule less_10_cases) (auto simp: digit_char_def)

lemma nat_dec_nonempty [simp]: "nat_dec n \<noteq> []"
  by (subst nat_dec.simps) simp

lemma nat_dec_digits: "c \<in> set (nat_dec n) \<Longrightarrow> is_digit c"
proof (induction n rule: nat_dec.induct)
  case (1 n)
  show ?case
  proof (cases "n < 10")
    case True
    with 1(2) have "c = digit_char n" by (simp add: nat_dec.simps [of n])
    then show ?thesis using digit_char_is_digit [OF True] by simp
  next
    case False
    then have "nat_dec n = nat_dec (n div 10) @ [digit_char (n mod 10)]"
      by (simp add: nat_dec.simps [of n])
    then have "c \<in> set (nat_dec (n div 10)) \<or> c = digit_char (n mod 10)"
      using 1(2) by auto
    then show ?thesis
      using 1(1) [OF False] digit_char_is_digit [of "n mod 10"] by auto
  qed
qed

lemma nat_dec_inj: "nat_dec m = nat_dec n \<Longrightarrow> m = n"
proof (induction m arbitrary: n rule: nat_dec.induct)
  case (1 m)
  show ?case
  proof (cases "m < 10")
    case True
    then have m: "nat_dec m = [digit_char m]" by (simp add: nat_dec.simps [of m])
    have n: "n < 10"
    proof (rule ccontr)
      assume "\<not> n < 10"
      then have "nat_dec n = nat_dec (n div 10) @ [digit_char (n mod 10)]"
        by (simp add: nat_dec.simps [of n])
      with m 1(2) show False by (simp add: append_eq_Cons_conv)
    qed
    then have "nat_dec n = [digit_char n]" by (simp add: nat_dec.simps [of n])
    with m 1(2) True n show ?thesis by (auto dest: digit_char_inj)
  next
    case False
    then have m: "nat_dec m = nat_dec (m div 10) @ [digit_char (m mod 10)]"
      by (simp add: nat_dec.simps [of m])
    have n: "\<not> n < 10"
    proof
      assume "n < 10"
      then have "nat_dec n = [digit_char n]" by (simp add: nat_dec.simps [of n])
      with m 1(2) nat_dec_nonempty [of "m div 10"] show False by simp
    qed
    then have "nat_dec n = nat_dec (n div 10) @ [digit_char (n mod 10)]"
      by (simp add: nat_dec.simps [of n])
    with m 1(2) have "nat_dec (m div 10) = nat_dec (n div 10)"
      and "digit_char (m mod 10) = digit_char (n mod 10)" by simp_all
    then have "m div 10 = n div 10" and "m mod 10 = n mod 10"
      using 1(1) [OF False] digit_char_inj [of "m mod 10" "n mod 10"] by auto
    then show ?thesis by (metis div_mult_mod_eq)
  qed
qed

lemma int_dec_inj: "int_dec i = int_dec j \<Longrightarrow> i = j"
proof -
  have sign: "nat_dec n \<noteq> CHR ''-'' # s" for n s
    using nat_dec_digits [of "CHR ''-''" n] by auto
  assume "int_dec i = int_dec j"
  then show ?thesis
    using sign [of "nat i"] sign [of "nat j"] sign [of "nat i", symmetric] sign [of "nat j", symmetric]
    by (auto simp: int_dec_def split: if_splits dest!: nat_dec_inj)
qed

lemma int_dec_eq_iff [simp]: "int_dec i = int_dec j \<longleftrightarrow> i = j"
  using int_dec_inj by blast

text \<open>A decimal length, a colon and the bytes: the self-delimiting fields of
  \<^verbatim>\<open>fmt.Sprintf("%d:%s", len(s), s)\<close>.\<close>

definition len_prefixed :: "string \<Rightarrow> string" where
  "len_prefixed s = nat_dec (length s) @ CHR '':'' # s"

lemma append_sep_eq:
  assumes "xs @ c # ys = xs' @ c # ys'" and "c \<notin> set xs" and "c \<notin> set xs'"
  shows "xs = xs' \<and> ys = ys'"
  using assms
proof (induction xs arbitrary: xs')
  case Nil
  then show ?case by (cases xs') auto
next
  case (Cons x xs)
  then show ?case by (cases xs') auto
qed

lemma colon_notin_nat_dec: "CHR '':'' \<notin> set (nat_dec n)"
  using nat_dec_digits [of "CHR '':''" n] by auto

lemma len_prefixed_append_eq [simp]:
  "len_prefixed s @ r = len_prefixed s' @ r' \<longleftrightarrow> s = s' \<and> r = r'"
proof
  assume eq: "len_prefixed s @ r = len_prefixed s' @ r'"
  have "nat_dec (length s) = nat_dec (length s') \<and> s @ r = s' @ r'"
    using eq by (intro append_sep_eq [where c = "CHR '':''"])
      (simp_all add: len_prefixed_def colon_notin_nat_dec)
  then have "length s = length s'" and "s @ r = s' @ r'"
    by (auto dest: nat_dec_inj)
  then show "s = s' \<and> r = r'" by simp
qed simp

section \<open>Strings\<close>

definition HasPrefix :: "string \<Rightarrow> string \<Rightarrow> bool" where
  [go_simps]: "HasPrefix s p = (take (length p) s = p)"

definition TrimPrefix :: "string \<Rightarrow> string \<Rightarrow> string" where
  [go_simps]: "TrimPrefix s p = (if HasPrefix s p then drop (length p) s else s)"

text \<open>\<^verbatim>\<open>strings.Split(s, sep)\<close> for a separator of one byte.\<close>

fun split_on :: "char \<Rightarrow> string \<Rightarrow> string list" where
  "split_on c [] = [[]]"
| "split_on c (x # xs) =
     (if x = c then [] # split_on c xs
      else (case split_on c xs of [] \<Rightarrow> [[x]] | y # ys \<Rightarrow> (x # y) # ys))"

definition ContainsAny :: "string \<Rightarrow> string \<Rightarrow> bool" where
  [go_simps]: "ContainsAny s chars = list_ex (\<lambda>c. c \<in> set chars) s"

fun join_with :: "string \<Rightarrow> string list \<Rightarrow> string" where
  "join_with sep [] = []"
| "join_with sep [s] = s"
| "join_with sep (s # t # ss) = s @ sep @ join_with sep (t # ss)"

lemma split_on_nonempty [simp]: "split_on c s \<noteq> []"
  by (cases s) (auto split: list.splits)

lemma HasPrefix_append [simp]: "HasPrefix (p @ s) p"
  by (simp add: HasPrefix_def)

lemma HasPrefix_iff: "HasPrefix s p \<longleftrightarrow> (\<exists>r. s = p @ r)"
  by (metis HasPrefix_append HasPrefix_def append_take_drop_id)

section \<open>Lists\<close>

lemma find_SomeD: "find P xs = Some x \<Longrightarrow> x \<in> set xs \<and> P x"
  by (induction xs) (auto split: if_splits)

lemma find_append: "find P (xs @ ys) = (case find P xs of None \<Rightarrow> find P ys | Some x \<Rightarrow> Some x)"
  by (induction xs) auto

lemma find_key_distinct:
  "distinct (map k xs) \<Longrightarrow> x \<in> set xs \<Longrightarrow> find (\<lambda>r. k r = k x) xs = Some x"
  by (induction xs) (auto simp: image_iff)

lemma sorted_wrt_strict_distinct:
  "sorted (map f xs) \<Longrightarrow> distinct (map f xs) \<Longrightarrow> sorted_wrt (\<lambda>x y. f x < (f y :: 'a::linorder)) xs"
  by (induction xs) (auto simp: order_less_le image_iff)

lemma length_filter_le_1:
  "distinct (map k xs) \<Longrightarrow> (\<And>x. P x \<Longrightarrow> k x = a) \<Longrightarrow> length (filter P xs) \<le> 1"
proof (induction xs)
  case Nil
  then show ?case by simp
next
  case (Cons x xs)
  have "filter P xs = []" if "P x"
  proof -
    have "\<not> P y" if "y \<in> set xs" for y
      using Cons.prems(1) Cons.prems(2) [OF \<open>P x\<close>] Cons.prems(2) [of y] that
      by (force simp: image_iff)
    then show ?thesis by (simp add: filter_empty_conv)
  qed
  with Cons show ?case by auto
qed

end
