(* ===== verification/DomainErrors.thy ===== *)
theory DomainErrors
  imports Prelude
begin

text \<open>
  \<^verbatim>\<open>internal/domain/errors.go\<close>: the sentinel errors of the domain, the error values built from
  them with \<^verbatim>\<open>fmt.Errorf("...%w...")\<close> and \<^verbatim>\<open>errors.Join\<close>, the search \<^verbatim>\<open>errors.Is\<close>, and the
  classification that decides whether a failure is retried or quarantined.
\<close>

text \<open>The sentinels of the domain package in the groups and the order of the source, followed
  by the sentinels of \<^verbatim>\<open>internal/services/domainservices\<close>, of the driver (\<^verbatim>\<open>pgx.ErrNoRows\<close> and the code 23505 of
  a unique violation) and of \<^verbatim>\<open>context\<close>.\<close>

datatype event_error =
    EventIDRequired | EventTypeRequired | TenantIDRequired | PartitionKeyRequired
    | OccurredAtRequired | InvalidEventEnvelope

datatype rule_error =
    RuleIDRequired | RevisionRequired | RuleSourceRequired | InvalidMatchMode | InvalidOperator
    | InvalidPredicate | InvalidAction | DuplicateRuleID | AmbiguousPriority | UnknownDestination
    | DestinationNotAllowed | RuleExceedsLimits | InvalidRuleSchema | RuleNotFound
    | RuleNotActive | RuleNotReady

datatype effect_error =
    EffectIDRequired | ExecutionIDRequired | InvalidEffectType | EffectNotFound
    | MaxAttemptsExceeded | OutboxClaimLost

datatype execution_error =
    ExecutionNotFound | InvalidExecutionStatus | ExecutionAlreadyExists

datatype inbox_error =
    InboxEntryNotFound | InboxDuplicate | InboxInvalidStatus

datatype lease_error =
    LeaseNotFound | LeaseExpired | LeaseOwnedByOther | FencingTokenMismatch

datatype quarantine_error =
    QuarantineNotFound | QuarantineReplayFailed

datatype activation_error =
    ActivationNotFound | ActivationConflict

datatype workflow_error =
    WorkflowNotFound | WorkflowConflict | WorkflowInvalidTransition | BatchProcessingUnavailable
    | DomainServiceConflict

datatype broker_error =
    BrokerFetchFailed | BrokerAckFailed | BrokerRetryFailed

datatype delivery_error =
    EffectSendFailed | EffectDestinationDown

datatype database_error =
    DatabaseError | TransactionFailed | SerializationFailed | DeserializationFailed

datatype authorization_error =
    Unauthorized | Forbidden

datatype evaluation_error =
    EvaluationTimeout | EvaluationError | FactSnapshotRequired | InvalidFactPath

datatype other_error =
    InvalidInput | NotFound | Conflict | PgxNoRows | PgUnique | CtxCanceled
    | CtxDeadlineExceeded

datatype sentinel =
    EventE event_error | RuleE rule_error | EffectE effect_error | ExecutionE execution_error
    | InboxE inbox_error | LeaseE lease_error | QuarantineE quarantine_error
    | ActivationE activation_error | WorkflowE workflow_error | BrokerE broker_error
    | DeliveryE delivery_error | DatabaseE database_error | AuthorizationE authorization_error
    | EvaluationE evaluation_error | OtherE other_error

abbreviation ErrEventIDRequired :: sentinel where "ErrEventIDRequired \<equiv> EventE EventIDRequired"
abbreviation ErrEventTypeRequired :: sentinel where "ErrEventTypeRequired \<equiv> EventE EventTypeRequired"
abbreviation ErrTenantIDRequired :: sentinel where "ErrTenantIDRequired \<equiv> EventE TenantIDRequired"
abbreviation ErrPartitionKeyRequired :: sentinel where "ErrPartitionKeyRequired \<equiv> EventE PartitionKeyRequired"
abbreviation ErrOccurredAtRequired :: sentinel where "ErrOccurredAtRequired \<equiv> EventE OccurredAtRequired"
abbreviation ErrInvalidEventEnvelope :: sentinel where "ErrInvalidEventEnvelope \<equiv> EventE InvalidEventEnvelope"
abbreviation ErrRuleIDRequired :: sentinel where "ErrRuleIDRequired \<equiv> RuleE RuleIDRequired"
abbreviation ErrRevisionRequired :: sentinel where "ErrRevisionRequired \<equiv> RuleE RevisionRequired"
abbreviation ErrRuleSourceRequired :: sentinel where "ErrRuleSourceRequired \<equiv> RuleE RuleSourceRequired"
abbreviation ErrInvalidMatchMode :: sentinel where "ErrInvalidMatchMode \<equiv> RuleE InvalidMatchMode"
abbreviation ErrInvalidOperator :: sentinel where "ErrInvalidOperator \<equiv> RuleE InvalidOperator"
abbreviation ErrInvalidPredicate :: sentinel where "ErrInvalidPredicate \<equiv> RuleE InvalidPredicate"
abbreviation ErrInvalidAction :: sentinel where "ErrInvalidAction \<equiv> RuleE InvalidAction"
abbreviation ErrDuplicateRuleID :: sentinel where "ErrDuplicateRuleID \<equiv> RuleE DuplicateRuleID"
abbreviation ErrAmbiguousPriority :: sentinel where "ErrAmbiguousPriority \<equiv> RuleE AmbiguousPriority"
abbreviation ErrUnknownDestination :: sentinel where "ErrUnknownDestination \<equiv> RuleE UnknownDestination"
abbreviation ErrDestinationNotAllowed :: sentinel where "ErrDestinationNotAllowed \<equiv> RuleE DestinationNotAllowed"
abbreviation ErrRuleExceedsLimits :: sentinel where "ErrRuleExceedsLimits \<equiv> RuleE RuleExceedsLimits"
abbreviation ErrInvalidRuleSchema :: sentinel where "ErrInvalidRuleSchema \<equiv> RuleE InvalidRuleSchema"
abbreviation ErrRuleNotFound :: sentinel where "ErrRuleNotFound \<equiv> RuleE RuleNotFound"
abbreviation ErrRuleNotActive :: sentinel where "ErrRuleNotActive \<equiv> RuleE RuleNotActive"
abbreviation ErrRuleNotReady :: sentinel where "ErrRuleNotReady \<equiv> RuleE RuleNotReady"
abbreviation ErrEffectIDRequired :: sentinel where "ErrEffectIDRequired \<equiv> EffectE EffectIDRequired"
abbreviation ErrExecutionIDRequired :: sentinel where "ErrExecutionIDRequired \<equiv> EffectE ExecutionIDRequired"
abbreviation ErrInvalidEffectType :: sentinel where "ErrInvalidEffectType \<equiv> EffectE InvalidEffectType"
abbreviation ErrEffectNotFound :: sentinel where "ErrEffectNotFound \<equiv> EffectE EffectNotFound"
abbreviation ErrMaxAttemptsExceeded :: sentinel where "ErrMaxAttemptsExceeded \<equiv> EffectE MaxAttemptsExceeded"
abbreviation ErrOutboxClaimLost :: sentinel where "ErrOutboxClaimLost \<equiv> EffectE OutboxClaimLost"
abbreviation ErrExecutionNotFound :: sentinel where "ErrExecutionNotFound \<equiv> ExecutionE ExecutionNotFound"
abbreviation ErrInvalidExecutionStatus :: sentinel where "ErrInvalidExecutionStatus \<equiv> ExecutionE InvalidExecutionStatus"
abbreviation ErrExecutionAlreadyExists :: sentinel where "ErrExecutionAlreadyExists \<equiv> ExecutionE ExecutionAlreadyExists"
abbreviation ErrInboxEntryNotFound :: sentinel where "ErrInboxEntryNotFound \<equiv> InboxE InboxEntryNotFound"
abbreviation ErrInboxDuplicate :: sentinel where "ErrInboxDuplicate \<equiv> InboxE InboxDuplicate"
abbreviation ErrInboxInvalidStatus :: sentinel where "ErrInboxInvalidStatus \<equiv> InboxE InboxInvalidStatus"
abbreviation ErrLeaseNotFound :: sentinel where "ErrLeaseNotFound \<equiv> LeaseE LeaseNotFound"
abbreviation ErrLeaseExpired :: sentinel where "ErrLeaseExpired \<equiv> LeaseE LeaseExpired"
abbreviation ErrLeaseOwnedByOther :: sentinel where "ErrLeaseOwnedByOther \<equiv> LeaseE LeaseOwnedByOther"
abbreviation ErrFencingTokenMismatch :: sentinel where "ErrFencingTokenMismatch \<equiv> LeaseE FencingTokenMismatch"
abbreviation ErrQuarantineNotFound :: sentinel where "ErrQuarantineNotFound \<equiv> QuarantineE QuarantineNotFound"
abbreviation ErrQuarantineReplayFailed :: sentinel where "ErrQuarantineReplayFailed \<equiv> QuarantineE QuarantineReplayFailed"
abbreviation ErrActivationNotFound :: sentinel where "ErrActivationNotFound \<equiv> ActivationE ActivationNotFound"
abbreviation ErrActivationConflict :: sentinel where "ErrActivationConflict \<equiv> ActivationE ActivationConflict"
abbreviation ErrWorkflowNotFound :: sentinel where "ErrWorkflowNotFound \<equiv> WorkflowE WorkflowNotFound"
abbreviation ErrWorkflowConflict :: sentinel where "ErrWorkflowConflict \<equiv> WorkflowE WorkflowConflict"
abbreviation ErrWorkflowInvalidTransition :: sentinel where "ErrWorkflowInvalidTransition \<equiv> WorkflowE WorkflowInvalidTransition"
abbreviation ErrBatchProcessingUnavailable :: sentinel where "ErrBatchProcessingUnavailable \<equiv> WorkflowE BatchProcessingUnavailable"
abbreviation ErrDomainServiceConflict :: sentinel where "ErrDomainServiceConflict \<equiv> WorkflowE DomainServiceConflict"
abbreviation ErrBrokerFetchFailed :: sentinel where "ErrBrokerFetchFailed \<equiv> BrokerE BrokerFetchFailed"
abbreviation ErrBrokerAckFailed :: sentinel where "ErrBrokerAckFailed \<equiv> BrokerE BrokerAckFailed"
abbreviation ErrBrokerRetryFailed :: sentinel where "ErrBrokerRetryFailed \<equiv> BrokerE BrokerRetryFailed"
abbreviation ErrEffectSendFailed :: sentinel where "ErrEffectSendFailed \<equiv> DeliveryE EffectSendFailed"
abbreviation ErrEffectDestinationDown :: sentinel where "ErrEffectDestinationDown \<equiv> DeliveryE EffectDestinationDown"
abbreviation ErrDatabaseError :: sentinel where "ErrDatabaseError \<equiv> DatabaseE DatabaseError"
abbreviation ErrTransactionFailed :: sentinel where "ErrTransactionFailed \<equiv> DatabaseE TransactionFailed"
abbreviation ErrSerializationFailed :: sentinel where "ErrSerializationFailed \<equiv> DatabaseE SerializationFailed"
abbreviation ErrDeserializationFailed :: sentinel where "ErrDeserializationFailed \<equiv> DatabaseE DeserializationFailed"
abbreviation ErrUnauthorized :: sentinel where "ErrUnauthorized \<equiv> AuthorizationE Unauthorized"
abbreviation ErrForbidden :: sentinel where "ErrForbidden \<equiv> AuthorizationE Forbidden"
abbreviation ErrEvaluationTimeout :: sentinel where "ErrEvaluationTimeout \<equiv> EvaluationE EvaluationTimeout"
abbreviation ErrEvaluationError :: sentinel where "ErrEvaluationError \<equiv> EvaluationE EvaluationError"
abbreviation ErrFactSnapshotRequired :: sentinel where "ErrFactSnapshotRequired \<equiv> EvaluationE FactSnapshotRequired"
abbreviation ErrInvalidFactPath :: sentinel where "ErrInvalidFactPath \<equiv> EvaluationE InvalidFactPath"
abbreviation ErrInvalidInput :: sentinel where "ErrInvalidInput \<equiv> OtherE InvalidInput"
abbreviation ErrNotFound :: sentinel where "ErrNotFound \<equiv> OtherE NotFound"
abbreviation ErrConflict :: sentinel where "ErrConflict \<equiv> OtherE Conflict"
abbreviation PgxErrNoRows :: sentinel where "PgxErrNoRows \<equiv> OtherE PgxNoRows"
abbreviation PgUniqueViolation :: sentinel where "PgUniqueViolation \<equiv> OtherE PgUnique"
abbreviation ContextCanceled :: sentinel where "ContextCanceled \<equiv> OtherE CtxCanceled"
abbreviation ContextDeadlineExceeded :: sentinel where "ContextDeadlineExceeded \<equiv> OtherE CtxDeadlineExceeded"

primrec event_error_text :: "event_error \<Rightarrow> string" where
  "event_error_text EventIDRequired = ''event id is required''"
| "event_error_text EventTypeRequired = ''event type is required''"
| "event_error_text TenantIDRequired = ''tenant id is required''"
| "event_error_text PartitionKeyRequired = ''partition key is required''"
| "event_error_text OccurredAtRequired = ''occurred at is required''"
| "event_error_text InvalidEventEnvelope = ''invalid event envelope''"

primrec rule_error_text :: "rule_error \<Rightarrow> string" where
  "rule_error_text RuleIDRequired = ''rule id is required''"
| "rule_error_text RevisionRequired = ''revision is required''"
| "rule_error_text RuleSourceRequired = ''rule source is required''"
| "rule_error_text InvalidMatchMode = ''invalid match mode''"
| "rule_error_text InvalidOperator = ''invalid operator''"
| "rule_error_text InvalidPredicate = ''invalid predicate''"
| "rule_error_text InvalidAction = ''invalid action''"
| "rule_error_text DuplicateRuleID = ''duplicate rule id''"
| "rule_error_text AmbiguousPriority = ''ambiguous priority''"
| "rule_error_text UnknownDestination = ''unknown destination''"
| "rule_error_text DestinationNotAllowed = ''destination not allowed''"
| "rule_error_text RuleExceedsLimits = ''rule exceeds limits''"
| "rule_error_text InvalidRuleSchema = ''invalid rule schema''"
| "rule_error_text RuleNotFound = ''rule not found''"
| "rule_error_text RuleNotActive = ''rule not active''"
| "rule_error_text RuleNotReady = ''rule not ready, retry later''"

primrec effect_error_text :: "effect_error \<Rightarrow> string" where
  "effect_error_text EffectIDRequired = ''effect id is required''"
| "effect_error_text ExecutionIDRequired = ''execution id is required''"
| "effect_error_text InvalidEffectType = ''invalid effect type''"
| "effect_error_text EffectNotFound = ''effect not found''"
| "effect_error_text MaxAttemptsExceeded = ''max attempts exceeded''"
| "effect_error_text OutboxClaimLost = ''outbox claim lost''"

primrec execution_error_text :: "execution_error \<Rightarrow> string" where
  "execution_error_text ExecutionNotFound = ''execution not found''"
| "execution_error_text InvalidExecutionStatus = ''invalid execution status''"
| "execution_error_text ExecutionAlreadyExists = ''execution already exists''"

primrec inbox_error_text :: "inbox_error \<Rightarrow> string" where
  "inbox_error_text InboxEntryNotFound = ''inbox entry not found''"
| "inbox_error_text InboxDuplicate = ''duplicate event id''"
| "inbox_error_text InboxInvalidStatus = ''invalid inbox status''"

primrec lease_error_text :: "lease_error \<Rightarrow> string" where
  "lease_error_text LeaseNotFound = ''lease not found''"
| "lease_error_text LeaseExpired = ''lease expired''"
| "lease_error_text LeaseOwnedByOther = ''lease owned by another worker''"
| "lease_error_text FencingTokenMismatch = ''fencing token mismatch''"

primrec quarantine_error_text :: "quarantine_error \<Rightarrow> string" where
  "quarantine_error_text QuarantineNotFound = ''quarantine entry not found''"
| "quarantine_error_text QuarantineReplayFailed = ''quarantine replay failed''"

primrec activation_error_text :: "activation_error \<Rightarrow> string" where
  "activation_error_text ActivationNotFound = ''activation not found''"
| "activation_error_text ActivationConflict = ''activation conflict''"

primrec workflow_error_text :: "workflow_error \<Rightarrow> string" where
  "workflow_error_text WorkflowNotFound = ''workflow not found''"
| "workflow_error_text WorkflowConflict = ''workflow version conflict''"
| "workflow_error_text WorkflowInvalidTransition = ''invalid workflow state transition''"
| "workflow_error_text BatchProcessingUnavailable = ''batch processing is not configured''"
| "workflow_error_text DomainServiceConflict = ''tenant domain or service already exists''"

primrec broker_error_text :: "broker_error \<Rightarrow> string" where
  "broker_error_text BrokerFetchFailed = ''broker fetch failed''"
| "broker_error_text BrokerAckFailed = ''broker ack failed''"
| "broker_error_text BrokerRetryFailed = ''broker retry failed''"

primrec delivery_error_text :: "delivery_error \<Rightarrow> string" where
  "delivery_error_text EffectSendFailed = ''effect send failed''"
| "delivery_error_text EffectDestinationDown = ''effect destination down''"

primrec database_error_text :: "database_error \<Rightarrow> string" where
  "database_error_text DatabaseError = ''database error''"
| "database_error_text TransactionFailed = ''transaction failed''"
| "database_error_text SerializationFailed = ''serialization failed''"
| "database_error_text DeserializationFailed = ''deserialization failed''"

primrec authorization_error_text :: "authorization_error \<Rightarrow> string" where
  "authorization_error_text Unauthorized = ''unauthorized''"
| "authorization_error_text Forbidden = ''forbidden''"

primrec evaluation_error_text :: "evaluation_error \<Rightarrow> string" where
  "evaluation_error_text EvaluationTimeout = ''evaluation timeout''"
| "evaluation_error_text EvaluationError = ''evaluation error''"
| "evaluation_error_text FactSnapshotRequired = ''fact snapshot required''"
| "evaluation_error_text InvalidFactPath = ''invalid fact path''"

primrec other_error_text :: "other_error \<Rightarrow> string" where
  "other_error_text InvalidInput = ''invalid domain service input''"
| "other_error_text NotFound = ''domain or service not found''"
| "other_error_text Conflict = ''domain or service name already exists''"
| "other_error_text PgxNoRows = ''no rows in result set''"
| "other_error_text PgUnique = ''duplicate key value violates unique constraint''"
| "other_error_text CtxCanceled = ''context canceled''"
| "other_error_text CtxDeadlineExceeded = ''context deadline exceeded''"

primrec sentinel_text :: "sentinel \<Rightarrow> string" where
  "sentinel_text (EventE e) = event_error_text e"
| "sentinel_text (RuleE e) = rule_error_text e"
| "sentinel_text (EffectE e) = effect_error_text e"
| "sentinel_text (ExecutionE e) = execution_error_text e"
| "sentinel_text (InboxE e) = inbox_error_text e"
| "sentinel_text (LeaseE e) = lease_error_text e"
| "sentinel_text (QuarantineE e) = quarantine_error_text e"
| "sentinel_text (ActivationE e) = activation_error_text e"
| "sentinel_text (WorkflowE e) = workflow_error_text e"
| "sentinel_text (BrokerE e) = broker_error_text e"
| "sentinel_text (DeliveryE e) = delivery_error_text e"
| "sentinel_text (DatabaseE e) = database_error_text e"
| "sentinel_text (AuthorizationE e) = authorization_error_text e"
| "sentinel_text (EvaluationE e) = evaluation_error_text e"
| "sentinel_text (OtherE e) = other_error_text e"

text \<open>An error value: a sentinel, an \<^verbatim>\<open>errors.New\<close> or driver error known only by its text, or
  a formatted error that wraps others.  \<open>Errorf [(s1, e1), (s2, e2)] s\<close> renders as
  \<open>s1\<close>, the text of \<open>e1\<close>, \<open>s2\<close>, the text of \<open>e2\<close> and \<open>s\<close>.\<close>

datatype gerr =
    Sentinel sentinel
  | ErrorString string
  | Errorf "(string \<times> gerr) list" string

type_synonym 'a result = "gerr + 'a"

text \<open>\<^verbatim>\<open>fmt.Errorf("msg: %w", err)\<close>.\<close>

abbreviation wrap :: "string \<Rightarrow> gerr \<Rightarrow> gerr" where
  "wrap msg e \<equiv> Errorf [(msg @ '': '', e)] []"

primrec error_text :: "gerr \<Rightarrow> string" where
  "error_text (Sentinel s) = sentinel_text s"
| "error_text (ErrorString s) = s"
| "error_text (Errorf ps s) = concat (map (\<lambda>p. fst p @ snd p) (map (map_prod id error_text) ps)) @ s"

primrec errors_Is :: "gerr \<Rightarrow> sentinel \<Rightarrow> bool" where
  "errors_Is (Sentinel s) t = (s = t)"
| "errors_Is (ErrorString s) t = False"
| "errors_Is (Errorf ps s) t = list_ex snd (map (map_prod id (\<lambda>e. errors_Is e t)) ps)"

text \<open>\<^verbatim>\<open>errors.Join\<close> of a list of errors: nil for the empty list.\<close>

definition errors_Join :: "gerr list \<Rightarrow> gerr option" where
  "errors_Join es = (case es of [] \<Rightarrow> None
     | e # es' \<Rightarrow> Some (Errorf (zip ([] # replicate (length es') [CHR 0x0A]) es) []))"

datatype ErrorClass =
    ErrorClassValidation | ErrorClassRule | ErrorClassEvaluation | ErrorClassExecution
  | ErrorClassEffect | ErrorClassBroker | ErrorClassDatabase | ErrorClassAuthorization
  | ErrorClassQuarantine | ErrorClassInternal

primrec error_class_string :: "ErrorClass \<Rightarrow> string" where
  "error_class_string ErrorClassValidation = ''validation''"
| "error_class_string ErrorClassRule = ''rule''"
| "error_class_string ErrorClassEvaluation = ''evaluation''"
| "error_class_string ErrorClassExecution = ''execution''"
| "error_class_string ErrorClassEffect = ''effect''"
| "error_class_string ErrorClassBroker = ''broker''"
| "error_class_string ErrorClassDatabase = ''database''"
| "error_class_string ErrorClassAuthorization = ''authorization''"
| "error_class_string ErrorClassQuarantine = ''quarantine''"
| "error_class_string ErrorClassInternal = ''internal''"

definition is_any :: "gerr \<Rightarrow> sentinel list \<Rightarrow> bool" where
  "is_any err ts = list_ex (errors_Is err) ts"

definition ClassifyError :: "gerr option \<Rightarrow> ErrorClass" where
  "ClassifyError e = (case e of None \<Rightarrow> ErrorClassInternal | Some err \<Rightarrow>
      if is_any err [ErrEventIDRequired, ErrEventTypeRequired, ErrTenantIDRequired,
          ErrPartitionKeyRequired, ErrOccurredAtRequired, ErrInvalidEventEnvelope]
        then ErrorClassValidation
      else if is_any err [ErrRuleIDRequired, ErrRevisionRequired, ErrRuleSourceRequired,
          ErrInvalidMatchMode, ErrInvalidOperator, ErrInvalidPredicate, ErrInvalidAction,
          ErrDuplicateRuleID, ErrAmbiguousPriority, ErrUnknownDestination,
          ErrDestinationNotAllowed, ErrRuleExceedsLimits, ErrInvalidRuleSchema, ErrRuleNotFound,
          ErrRuleNotActive]
        then ErrorClassRule
      else if is_any err [ErrRuleNotReady]
        then ErrorClassBroker
      else if is_any err [ErrEvaluationTimeout, ErrEvaluationError, ErrFactSnapshotRequired,
          ErrInvalidFactPath]
        then ErrorClassEvaluation
      else if is_any err [ErrExecutionNotFound, ErrInvalidExecutionStatus,
          ErrExecutionAlreadyExists]
        then ErrorClassExecution
      else if is_any err [ErrEffectIDRequired, ErrExecutionIDRequired, ErrInvalidEffectType,
          ErrEffectNotFound, ErrMaxAttemptsExceeded, ErrOutboxClaimLost]
        then ErrorClassEffect
      else if is_any err [ErrBrokerFetchFailed, ErrBrokerAckFailed, ErrBrokerRetryFailed]
        then ErrorClassBroker
      else if is_any err [ErrInboxEntryNotFound, ErrInboxDuplicate, ErrInboxInvalidStatus,
          ErrLeaseNotFound, ErrLeaseExpired, ErrLeaseOwnedByOther, ErrFencingTokenMismatch,
          ErrDatabaseError, ErrTransactionFailed]
        then ErrorClassDatabase
      else if is_any err [ErrUnauthorized, ErrForbidden]
        then ErrorClassAuthorization
      else if is_any err [ErrQuarantineNotFound, ErrQuarantineReplayFailed]
        then ErrorClassQuarantine
      else ErrorClassInternal)"

definition IsRetryable :: "gerr option \<Rightarrow> bool" where
  "IsRetryable err = (let cls = ClassifyError err in
     cls = ErrorClassBroker \<or> cls = ErrorClassEffect \<or> cls = ErrorClassDatabase)"

definition IsPermanent :: "gerr option \<Rightarrow> bool" where
  "IsPermanent err = (let cls = ClassifyError err in
     cls = ErrorClassValidation \<or> cls = ErrorClassRule \<or> cls = ErrorClassEvaluation \<or>
     cls = ErrorClassAuthorization)"

end
