(* ===== verification/GoFloat.thy ===== *)
theory GoFloat
  imports Prelude
begin

text \<open>
  Go's \<^verbatim>\<open>float64\<close> as far as the rule engine uses it: conversion from decimal and hexadecimal text
  (\<^verbatim>\<open>strconv.ParseFloat\<close>, also the number literals of JSON) with rounding to nearest, ties to
  even; comparison; the test for an integral value that fits \<^verbatim>\<open>int64\<close>; and the shortest decimal
  rendering that reads back as the same number (\<^verbatim>\<open>strconv.FormatFloat\<close> with precision \<open>-1\<close> in
  the formats \<^verbatim>\<open>g\<close>, \<^verbatim>\<open>f\<close> and \<^verbatim>\<open>e\<close>).

  \<open>Finite neg m e\<close> is \<open>(-1)^neg * m * 2^e\<close>, with \<open>m < 2^53\<close> and \<open>-1074 \<le> e \<le> 971\<close>; a value below
  \<open>2^52\<close> in the mantissa has exponent \<open>-1074\<close> (zero and the subnormal numbers).
\<close>

datatype float64 = Finite bool int int | Infinity bool | NaN

fun bitlen :: "int \<Rightarrow> int" where
  "bitlen n = (if n \<le> 0 then 0 else 1 + bitlen (n div 2))"

declare bitlen.simps [simp del]

definition scaled :: "int \<Rightarrow> int \<Rightarrow> int \<Rightarrow> int \<times> int" where
  "scaled n d e = (if 0 \<le> e then (n, d * 2 ^ nat e) else (n * 2 ^ nat (- e), d))"

text \<open>The float nearest to the non-negative ratio \<open>n / d\<close> with the given sign; \<open>None\<close> when it
  exceeds the largest finite float (\<^verbatim>\<open>strconv.ErrRange\<close>).\<close>

definition round_ratio :: "bool \<Rightarrow> int \<Rightarrow> int \<Rightarrow> float64 option" where
  "round_ratio neg n d =
     (if n = 0 then Some (Finite neg 0 (- 1074))
      else
        let e0 = bitlen n - bitlen d - 53;
            (a0, b0) = scaled n d e0;
            e = max (if a0 div b0 \<ge> 2 ^ 53 then e0 + 1 else e0) (- 1074);
            (a, b) = scaled n d e;
            q = a div b;
            r = a mod b;
            m = (if 2 * r > b \<or> (2 * r = b \<and> odd q) then q + 1 else q);
            (m', e') = (if m \<ge> 2 ^ 53 then (2 ^ 52, e + 1) else (m, e))
        in if e' > 971 then None else Some (Finite neg m' e'))"

text \<open>\<open>n * 10^k\<close> and \<open>n * 2^k\<close> as ratios.\<close>

definition round_dec :: "bool \<Rightarrow> int \<Rightarrow> int \<Rightarrow> float64 option" where
  "round_dec neg n k =
     (if 0 \<le> k then round_ratio neg (n * 10 ^ nat k) 1 else round_ratio neg n (10 ^ nat (- k)))"

definition round_bin :: "bool \<Rightarrow> int \<Rightarrow> int \<Rightarrow> float64 option" where
  "round_bin neg n k =
     (if 0 \<le> k then round_ratio neg (n * 2 ^ nat k) 1 else round_ratio neg n (2 ^ nat (- k)))"

section \<open>Comparison\<close>

text \<open>The finite values as integers over the common scale \<open>2^-1074\<close>.\<close>

definition scaled_value :: "bool \<Rightarrow> int \<Rightarrow> int \<Rightarrow> int" where
  "scaled_value neg m e = (if neg then - 1 else 1) * m * 2 ^ nat (e + 1074)"

fun f64_less :: "float64 \<Rightarrow> float64 \<Rightarrow> bool" where
  "f64_less NaN _ = False"
| "f64_less _ NaN = False"
| "f64_less (Infinity n1) (Infinity n2) = (n1 \<and> \<not> n2)"
| "f64_less (Infinity n1) (Finite _ _ _) = n1"
| "f64_less (Finite _ _ _) (Infinity n2) = (\<not> n2)"
| "f64_less (Finite n1 m1 e1) (Finite n2 m2 e2) = (scaled_value n1 m1 e1 < scaled_value n2 m2 e2)"

text \<open>The integer a float denotes, when it denotes one.\<close>

fun f64_to_int :: "float64 \<Rightarrow> int option" where
  "f64_to_int (Finite neg m e) =
     (let s = (if neg then - 1 else 1) in
      if 0 \<le> e then Some (s * m * 2 ^ nat e)
      else if m mod 2 ^ nat (- e) = 0 then Some (s * (m div 2 ^ nat (- e))) else None)"
| "f64_to_int _ = None"

definition in_int64 :: "int \<Rightarrow> bool" where
  "in_int64 i = (- (2 ^ 63) \<le> i \<and> i < 2 ^ 63)"

text \<open>The test \<^verbatim>\<open>n == float64(int64(n))\<close> and its \<^verbatim>\<open>int64(n)\<close>.  A value outside \<^verbatim>\<open>int64\<close> (also
  an infinity or a NaN) converts to an implementation-defined integer; on the supported
  platforms that is \<open>-2^63\<close>, which differs from such a value.\<close>

definition f64_int64 :: "float64 \<Rightarrow> int option" where
  "f64_int64 f = (case f64_to_int f of Some i \<Rightarrow> if in_int64 i then Some i else None | None \<Rightarrow> None)"

section \<open>Reading numbers\<close>

definition lower :: "char \<Rightarrow> char" where
  "lower c = (if CHR ''A'' \<le> c \<and> c \<le> CHR ''Z'' then char_of (of_char c + 32 :: nat) else c)"

definition digit_val :: "char \<Rightarrow> int option" where
  "digit_val c = (if CHR ''0'' \<le> c \<and> c \<le> CHR ''9'' then Some (of_char c - 48) else None)"

definition hex_val :: "char \<Rightarrow> int option" where
  "hex_val c = (case digit_val c of Some d \<Rightarrow> Some d
     | None \<Rightarrow> if CHR ''a'' \<le> lower c \<and> lower c \<le> CHR ''f'' then Some (of_char (lower c) - 87) else None)"

text \<open>The mantissa loop of \<^verbatim>\<open>readFloat\<close>: the digits so far as an integer, the number of digits
  after the point, whether a point, a digit and an underscore were seen, and the rest.\<close>

fun read_mantissa ::
  "int \<Rightarrow> (char \<Rightarrow> int option) \<Rightarrow> int \<Rightarrow> int \<Rightarrow> bool \<Rightarrow> bool \<Rightarrow> bool \<Rightarrow> string
    \<Rightarrow> int \<times> int \<times> bool \<times> bool \<times> string" where
  "read_mantissa base dv mant frac dot digs und [] = (mant, frac, digs, und, [])"
| "read_mantissa base dv mant frac dot digs und (c # cs) =
     (if c = CHR ''_'' then read_mantissa base dv mant frac dot digs True cs
      else if c = CHR ''.'' then
        (if dot then (mant, frac, digs, und, c # cs)
         else read_mantissa base dv mant frac True digs und cs)
      else (case dv c of
        Some d \<Rightarrow> read_mantissa base dv (mant * base + d) (if dot then frac + 1 else frac) dot True und cs
      | None \<Rightarrow> (mant, frac, digs, und, c # cs)))"

fun read_exp_digits :: "int \<Rightarrow> bool \<Rightarrow> string \<Rightarrow> int \<times> bool \<times> string" where
  "read_exp_digits e und [] = (e, und, [])"
| "read_exp_digits e und (c # cs) =
     (if c = CHR ''_'' then read_exp_digits e True cs
      else (case digit_val c of
        Some d \<Rightarrow> read_exp_digits (e * 10 + d) und cs
      | None \<Rightarrow> (e, und, c # cs)))"

text \<open>The exponent after its marker: an optional sign and at least one digit.\<close>

definition read_exponent :: "string \<Rightarrow> (int \<times> bool \<times> string) option" where
  "read_exponent cs =
     (let (sgn, ds) = (case cs of c # r \<Rightarrow>
            if c = CHR ''+'' then (1, r) else if c = CHR ''-'' then (- 1, r) else (1, cs) | [] \<Rightarrow> (1, []))
      in case ds of
        [] \<Rightarrow> None
      | d # _ \<Rightarrow> if digit_val d = None then None
                else (case read_exp_digits 0 False ds of (e, und, r) \<Rightarrow> Some (sgn * e, und, r)))"

text \<open>\<^verbatim>\<open>underscoreOK\<close>: underscores separate digits (a base prefix counts as a digit).\<close>

fun underscore_scan :: "bool \<Rightarrow> char \<Rightarrow> string \<Rightarrow> bool" where
  "underscore_scan hex prev [] = (prev \<noteq> CHR ''_'')"
| "underscore_scan hex prev (c # cs) =
     (if (if hex then hex_val c else digit_val c) \<noteq> None then underscore_scan hex CHR ''0'' cs
      else if c = CHR ''_'' then (if prev \<noteq> CHR ''0'' then False else underscore_scan hex CHR ''_'' cs)
      else if prev = CHR ''_'' then False
      else underscore_scan hex CHR ''!'' cs)"

definition strip_sign :: "string \<Rightarrow> bool \<times> string" where
  "strip_sign s = (case s of c # r \<Rightarrow>
     if c = CHR ''+'' then (False, r) else if c = CHR ''-'' then (True, r) else (False, s)
   | [] \<Rightarrow> (False, []))"

definition underscore_ok :: "string \<Rightarrow> bool" where
  "underscore_ok s =
     (case snd (strip_sign s) of
        a # b # r \<Rightarrow>
          if a = CHR ''0'' \<and> lower b \<in> set ''box'' then underscore_scan (lower b = CHR ''x'') CHR ''0'' r
          else underscore_scan False CHR ''^'' (a # b # r)
      | r \<Rightarrow> underscore_scan False CHR ''^'' r)"

definition ParseFloat :: "string \<Rightarrow> float64 option" where
  "ParseFloat s =
     (let (neg, r) = strip_sign s; l = map lower r in
      if l = ''inf'' \<or> l = ''infinity'' then Some (Infinity neg)
      else if map lower s = ''nan'' then Some NaN
      else
        let hex = (case r of a # b # c # _ \<Rightarrow> a = CHR ''0'' \<and> lower b = CHR ''x'' | _ \<Rightarrow> False);
            (mant, frac, digs, und, rest) =
              read_mantissa (if hex then 16 else 10) (if hex then hex_val else digit_val)
                0 0 False False False (if hex then drop 2 r else r);
            fin = (\<lambda>e und'. if (und \<or> und') \<and> \<not> underscore_ok s then None
                     else if hex then round_bin neg mant (e - 4 * frac) else round_dec neg mant (e - frac))
        in if \<not> digs then None
           else (case rest of
             [] \<Rightarrow> (if hex then None else fin 0 False)
           | c # r' \<Rightarrow>
               (if lower c \<noteq> (if hex then CHR ''p'' else CHR ''e'') then None
                else (case read_exponent r' of
                    Some (e, und', []) \<Rightarrow> fin e und'
                  | _ \<Rightarrow> None))))"

text \<open>\<^verbatim>\<open>strconv.ParseInt(s, 10, 64)\<close>.\<close>

fun all_digits_val :: "int \<Rightarrow> string \<Rightarrow> int option" where
  "all_digits_val n [] = Some n"
| "all_digits_val n (c # cs) =
     (case digit_val c of None \<Rightarrow> None | Some d \<Rightarrow> all_digits_val (n * 10 + d) cs)"

definition ParseInt64 :: "string \<Rightarrow> int option" where
  "ParseInt64 s = (case strip_sign s of (neg, ds) \<Rightarrow>
     if ds = [] then None
     else (case all_digits_val 0 ds of
       None \<Rightarrow> None
     | Some n \<Rightarrow> (let i = (if neg then - n else n) in if in_int64 i then Some i else None)))"

section \<open>Writing numbers\<close>

fun pos_dec :: "int \<Rightarrow> string" where
  "pos_dec i = (if i < 10 then [digit_char (nat i)] else pos_dec (i div 10) @ [digit_char (nat (i mod 10))])"

declare pos_dec.simps [simp del]

fun dec_point_up :: "nat \<Rightarrow> int \<Rightarrow> int \<Rightarrow> int" where
  "dec_point_up 0 a b = 0"
| "dec_point_up (Suc fuel) a b = (if a < b then 0 else 1 + dec_point_up fuel a (b * 10))"

fun dec_point_down :: "nat \<Rightarrow> int \<Rightarrow> int \<Rightarrow> int" where
  "dec_point_down 0 a b = 0"
| "dec_point_down (Suc fuel) a b = (if b \<le> 10 * a then 0 else dec_point_down fuel (10 * a) b - 1)"

text \<open>The \<open>dp\<close> with \<open>10^(dp - 1) \<le> a / b < 10^dp\<close>.  The largest float is below \<open>10^309\<close> and the
  least positive one above \<open>10^-324\<close>, so 400 steps are enough.\<close>

definition dec_point :: "int \<Rightarrow> int \<Rightarrow> int" where
  "dec_point a b = (if a < b then dec_point_down 400 a b else dec_point_up 400 a b)"

text \<open>With \<open>n\<close> significant digits the candidates are the two neighbours of the exact value; the
  first \<open>n\<close> for which one of them reads back as the float wins, the nearer one if both do.
  Seventeen digits always suffice for a \<^verbatim>\<open>float64\<close>.\<close>

definition digit_choice :: "int \<Rightarrow> float64 \<Rightarrow> int \<Rightarrow> int \<Rightarrow> int \<Rightarrow> int option" where
  "digit_choice n v a b dp =
     (let k = dp - n;
          num = a * 10 ^ nat (max 0 (- k));
          den = b * 10 ^ nat (max 0 k);
          q = num div den;
          r = num mod den;
          okdown = (round_dec False q k = Some v);
          okup = (round_dec False (q + 1) k = Some v)
      in if okdown \<and> okup then Some (if 2 * r > den \<or> (2 * r = den \<and> odd q) then q + 1 else q)
         else if okdown then Some q
         else if okup then Some (q + 1)
         else None)"

primrec shortest_digits :: "nat \<Rightarrow> int \<Rightarrow> float64 \<Rightarrow> int \<Rightarrow> int \<Rightarrow> int \<Rightarrow> int \<times> int" where
  "shortest_digits 0 n v a b dp = (0, n)"
| "shortest_digits (Suc fuel) n v a b dp =
     (case digit_choice n v a b dp of
        Some c \<Rightarrow> (c, n)
      | None \<Rightarrow> shortest_digits fuel (n + 1) v a b dp)"

definition trim_zeros :: "string \<Rightarrow> string" where
  "trim_zeros ds = rev (dropWhile (\<lambda>c. c = CHR ''0'') (rev ds))"

text \<open>The digits and the position of the decimal point of a positive finite float.\<close>

definition shortest :: "int \<Rightarrow> int \<Rightarrow> string \<times> int" where
  "shortest m e =
     (let (a, b) = (if 0 \<le> e then (m * 2 ^ nat e, 1) else (m, 2 ^ nat (- e)));
          dp = dec_point a b;
          (c, n) = shortest_digits 17 1 (Finite False m e) a b dp;
          ds = pos_dec c
      in (trim_zeros ds, dp + (int (length ds) - n)))"

definition fmt_e :: "string \<Rightarrow> int \<Rightarrow> string" where
  "fmt_e ds x =
     take 1 ds @ (if length ds > 1 then CHR ''.'' # drop 1 ds else []) @ ''e'' @
     (if x < 0 then ''-'' else ''+'') @ (if \<bar>x\<bar> < 10 then ''0'' else []) @ pos_dec \<bar>x\<bar>"

definition fmt_f :: "string \<Rightarrow> int \<Rightarrow> string" where
  "fmt_f ds dp =
     (if dp \<le> 0 then ''0.'' @ replicate (nat (- dp)) CHR ''0'' @ ds
      else if int (length ds) \<le> dp then ds @ replicate (nat dp - length ds) CHR ''0''
      else take (nat dp) ds @ CHR ''.'' # drop (nat dp) ds)"

text \<open>The rendering under \<^verbatim>\<open>%v\<close>: format \<^verbatim>\<open>g\<close> with the shortest digits, exponential for decimal
  exponents below \<open>-4\<close> and from 6 on.\<close>

fun float_v :: "float64 \<Rightarrow> string" where
  "float_v NaN = ''NaN''"
| "float_v (Infinity neg) = (if neg then ''-Inf'' else ''+Inf'')"
| "float_v (Finite neg m e) =
     (if neg then ''-'' else []) @
     (if m = 0 then ''0''
      else case shortest m e of (ds, dp) \<Rightarrow>
        if dp - 1 < - 4 \<or> dp - 1 \<ge> 6 then fmt_e ds (dp - 1) else fmt_f ds dp)"

end
