(* ===== verification/GoJson.thy ===== *)
theory GoJson
  imports GoFloat
begin

text \<open>
  The dynamic values of Go's \<^verbatim>\<open>interface{}\<close> that the rule engine handles, and the functions of
  \<^verbatim>\<open>encoding/json\<close> and \<^verbatim>\<open>fmt\<close> that read and write them: \<^verbatim>\<open>json.Unmarshal\<close> into an
  \<^verbatim>\<open>interface{}\<close>, \<^verbatim>\<open>json.Valid\<close>, \<^verbatim>\<open>json.Marshal\<close> and the verb \<^verbatim>\<open>%v\<close>.

  A \<^verbatim>\<open>map[string]interface{}\<close> is kept as the association list of its entries sorted by key, so
  that equal maps are equal lists and iteration in key order (\<^verbatim>\<open>json.Marshal\<close> and \<^verbatim>\<open>%v\<close> sort
  keys) is iteration over the list.
\<close>

datatype iface =
    INil
  | IBool bool
  | IFloat float64
  | IInt int
  | INumber string
  | IStr string
  | ISlice "iface list"
  | IMap "(string \<times> iface) list"

section \<open>UTF-8\<close>

abbreviation byte :: "char \<Rightarrow> nat" where
  "byte c \<equiv> of_char c"

abbreviation cont :: "char \<Rightarrow> bool" where
  "cont c \<equiv> 0x80 \<le> byte c \<and> byte c \<le> 0xBF"

text \<open>The length of the well-formed encoding at the head of a string; 0 if there is none.\<close>

definition utf8_len :: "string \<Rightarrow> nat" where
  "utf8_len s = (case s of
     [] \<Rightarrow> 0
   | a # r \<Rightarrow>
      (if byte a < 0x80 then 1
       else if 0xC2 \<le> byte a \<and> byte a \<le> 0xDF then
         (case r of b # _ \<Rightarrow> if cont b then 2 else 0 | [] \<Rightarrow> 0)
       else if 0xE0 \<le> byte a \<and> byte a \<le> 0xEF then
         (case r of b # c # _ \<Rightarrow>
            if (if byte a = 0xE0 then 0xA0 \<le> byte b else 0x80 \<le> byte b) \<and>
               (if byte a = 0xED then byte b \<le> 0x9F else byte b \<le> 0xBF) \<and> cont c then 3 else 0
          | _ \<Rightarrow> 0)
       else if 0xF0 \<le> byte a \<and> byte a \<le> 0xF4 then
         (case r of b # c # d # _ \<Rightarrow>
            if (if byte a = 0xF0 then 0x90 \<le> byte b else 0x80 \<le> byte b) \<and>
               (if byte a = 0xF4 then byte b \<le> 0x8F else byte b \<le> 0xBF) \<and> cont c \<and> cont d then 4 else 0
          | _ \<Rightarrow> 0)
       else 0))"

definition replacement :: string where
  "replacement = [CHR 0xEF, CHR 0xBF, CHR 0xBD]"

definition utf8_encode :: "nat \<Rightarrow> string" where
  "utf8_encode u =
     (if u < 0x80 then [char_of u]
      else if u < 0x800 then [char_of (0xC0 + u div 0x40), char_of (0x80 + u mod 0x40)]
      else if u < 0x10000 then
        [char_of (0xE0 + u div 0x1000), char_of (0x80 + u div 0x40 mod 0x40), char_of (0x80 + u mod 0x40)]
      else
        [char_of (0xF0 + u div 0x40000), char_of (0x80 + u div 0x1000 mod 0x40),
         char_of (0x80 + u div 0x40 mod 0x40), char_of (0x80 + u mod 0x40)])"

section \<open>Reading JSON\<close>

definition is_ws :: "char \<Rightarrow> bool" where
  "is_ws c = (c \<in> {CHR '' '', CHR 0x09, CHR 0x0D, CHR 0x0A})"

definition skip_ws :: "string \<Rightarrow> string" where
  "skip_ws s = dropWhile is_ws s"

text \<open>Four hexadecimal digits after \<^verbatim>\<open>\u\<close>.\<close>

definition hex4 :: "string \<Rightarrow> (nat \<times> string) option" where
  "hex4 s = (case s of
     a # b # c # d # r \<Rightarrow>
       (case (hex_val a, hex_val b, hex_val c, hex_val d) of
          (Some p, Some q, Some u, Some v) \<Rightarrow> Some (nat (((p * 16 + q) * 16 + u) * 16 + v), r)
        | _ \<Rightarrow> None)
   | _ \<Rightarrow> None)"

definition simple_escape :: "char \<Rightarrow> string option" where
  "simple_escape c = map_of
     [(CHR ''\"'', [CHR ''\"'']), (CHR 0x5C, [CHR 0x5C]), (CHR ''/'', ''/''), (CHR ''b'', [CHR 0x08]),
      (CHR ''f'', [CHR 0x0C]), (CHR ''n'', [CHR 0x0A]), (CHR ''r'', [CHR 0x0D]), (CHR ''t'', [CHR 0x09])] c"

text \<open>A \<^verbatim>\<open>\u\<close> escape whose four digits are read: a surrogate pair is one code point, an unpaired
  surrogate is the replacement character.\<close>

definition unicode_escape :: "nat \<Rightarrow> string \<Rightarrow> string \<times> string" where
  "unicode_escape u r =
     (if 0xD800 \<le> u \<and> u < 0xE000 then
        (case r of
           x # y # r' \<Rightarrow>
             (if x = CHR 0x5C \<and> y = CHR ''u'' then
                (case hex4 r' of
                   Some (v, r'') \<Rightarrow>
                     if u < 0xDC00 \<and> 0xDC00 \<le> v \<and> v < 0xE000
                     then (utf8_encode ((u - 0xD800) * 0x400 + (v - 0xDC00) + 0x10000), r'')
                     else (replacement, r)
                 | None \<Rightarrow> (replacement, r))
              else (replacement, r))
         | _ \<Rightarrow> (replacement, r))
      else (utf8_encode u, r))"

text \<open>The body of a string literal after its opening quote.  Every step consumes at least one
  byte, so the length of the input is enough fuel.\<close>

primrec read_string :: "nat \<Rightarrow> string \<Rightarrow> (string \<times> string) option" where
  "read_string 0 s = None"
| "read_string (Suc fuel) s = (case s of
     [] \<Rightarrow> None
   | c # r \<Rightarrow>
      (if c = CHR ''\"'' then Some ([], r)
       else if c = CHR 0x5C then
         (case r of
            [] \<Rightarrow> None
          | x # r' \<Rightarrow>
             (case simple_escape x of
                Some t \<Rightarrow> map_option (map_prod ((@) t) id) (read_string fuel r')
              | None \<Rightarrow>
                 (if x = CHR ''u'' then
                    (case hex4 r' of
                       None \<Rightarrow> None
                     | Some (u, r'') \<Rightarrow>
                        (case unicode_escape u r'' of
                           (t, r3) \<Rightarrow> map_option (map_prod ((@) t) id) (read_string fuel r3)))
                  else None)))
       else if byte c < 0x20 then None
       else if utf8_len s = 0 then map_option (map_prod ((@) replacement) id) (read_string fuel r)
       else map_option (map_prod ((@) (take (utf8_len s) s)) id) (read_string fuel (drop (utf8_len s) s))))"

text \<open>A number literal of the JSON grammar, and what follows it.\<close>

definition span_digits :: "string \<Rightarrow> string \<times> string" where
  "span_digits s = (takeWhile is_digit s, dropWhile is_digit s)"

definition read_sign :: "string \<Rightarrow> string \<times> string" where
  "read_sign s = (case s of c # r \<Rightarrow> if c = CHR ''-'' then (''-'', r) else ([], s) | [] \<Rightarrow> ([], []))"

definition read_int_part :: "string \<Rightarrow> string \<times> string" where
  "read_int_part s = (case s of c # r \<Rightarrow> if c = CHR ''0'' then (''0'', r) else span_digits s | [] \<Rightarrow> ([], []))"

definition read_fraction :: "string \<Rightarrow> (string \<times> string) option" where
  "read_fraction s = (case s of
     c # r \<Rightarrow> (if c = CHR ''.'' then
         (case span_digits r of (fs, r') \<Rightarrow> if fs = [] then None else Some (c # fs, r'))
       else Some ([], s))
   | [] \<Rightarrow> Some ([], []))"

definition read_exp_part :: "string \<Rightarrow> (string \<times> string) option" where
  "read_exp_part s = (case s of
     c # r \<Rightarrow>
      (if c = CHR ''e'' \<or> c = CHR ''E'' then
         (let (es, r1) = (case r of d # r' \<Rightarrow> if d = CHR ''+'' \<or> d = CHR ''-'' then ([d], r') else ([], r)
                          | [] \<Rightarrow> ([], []));
              (xs, r2) = span_digits r1
          in if xs = [] then None else Some (c # es @ xs, r2))
       else Some ([], s))
   | [] \<Rightarrow> Some ([], []))"

definition number_literal :: "string \<Rightarrow> (string \<times> string) option" where
  "number_literal s =
     (case read_sign s of (sg, s1) \<Rightarrow>
      (case read_int_part s1 of (ds, s2) \<Rightarrow>
       (if ds = [] then None
        else (case read_fraction s2 of
            None \<Rightarrow> None
          | Some (frac, s3) \<Rightarrow>
             (case read_exp_part s3 of
                None \<Rightarrow> None
              | Some (ex, s4) \<Rightarrow> Some (sg @ ds @ frac @ ex, s4))))))"

text \<open>A document as it is written: numbers are their literals, the members of an object are in
  order of appearance, and each nested value comes with its text, which is what a
  \<^verbatim>\<open>json.RawMessage\<close> receives.\<close>

datatype jval =
    JNull
  | JBool bool
  | JNum string
  | JStr string
  | JArr "(string \<times> jval) list"
  | JObj "(string \<times> string \<times> jval) list"

text \<open>\<^verbatim>\<open>encoding/json\<close> rejects documents nested deeper than 10000 levels.\<close>

definition max_nesting :: int where
  "max_nesting = 10000"

text \<open>The reader of values, of the elements of an array and of the members of an object, each
  with what it has collected so far.\<close>

datatype reading = Value | Elems "(string \<times> jval) list" | Members "(string \<times> string \<times> jval) list"

text \<open>The text between a position and the rest after it.\<close>

definition text_between :: "string \<Rightarrow> string \<Rightarrow> string" where
  "text_between s r = (let s' = skip_ws s in take (length s' - length r) s')"

definition read_scalar :: "string \<Rightarrow> (jval \<times> string) option" where
  "read_scalar s =
     (if HasPrefix s [CHR ''\"''] then map_option (map_prod JStr id) (read_string (length s) (tl s))
      else if HasPrefix s ''true'' then Some (JBool True, drop 4 s)
      else if HasPrefix s ''false'' then Some (JBool False, drop 5 s)
      else if HasPrefix s ''null'' then Some (JNull, drop 4 s)
      else map_option (map_prod JNum id) (number_literal s))"

definition read_key :: "string \<Rightarrow> (string \<times> string) option" where
  "read_key s = (case skip_ws s of
     q # r \<Rightarrow>
       (if q \<noteq> CHR ''\"'' then None
        else (case read_string (length r) r of
            None \<Rightarrow> None
          | Some (k, r1) \<Rightarrow>
             (case skip_ws r1 of x # r2 \<Rightarrow> if x = CHR '':'' then Some (k, r2) else None | [] \<Rightarrow> None)))
   | [] \<Rightarrow> None)"

primrec read_json :: "nat \<Rightarrow> reading \<Rightarrow> int \<Rightarrow> string \<Rightarrow> (jval \<times> string) option" where
  "read_json 0 m d s = None"
| "read_json (Suc fuel) m d s = (case m of
     Value \<Rightarrow>
      (case skip_ws s of
         [] \<Rightarrow> None
       | c # r \<Rightarrow>
          (if c = CHR ''{'' then
             (if d \<ge> max_nesting then None
              else (case skip_ws r of
                  x # r' \<Rightarrow> if x = CHR ''}'' then Some (JObj [], r')
                           else read_json fuel (Members []) (d + 1) (x # r')
                | [] \<Rightarrow> None))
           else if c = CHR ''['' then
             (if d \<ge> max_nesting then None
              else (case skip_ws r of
                  x # r' \<Rightarrow> if x = CHR '']'' then Some (JArr [], r')
                           else read_json fuel (Elems []) (d + 1) (x # r')
                | [] \<Rightarrow> None))
           else read_scalar (c # r)))
   | Elems acc \<Rightarrow>
      (case read_json fuel Value d s of
         None \<Rightarrow> None
       | Some (v, r) \<Rightarrow>
          (case skip_ws r of
             x # r' \<Rightarrow>
               if x = CHR '','' then read_json fuel (Elems (acc @ [(text_between s r, v)])) d r'
               else if x = CHR '']'' then Some (JArr (acc @ [(text_between s r, v)]), r')
               else None
           | [] \<Rightarrow> None))
   | Members acc \<Rightarrow>
      (case read_key s of
         None \<Rightarrow> None
       | Some (k, s') \<Rightarrow>
          (case read_json fuel Value d s' of
             None \<Rightarrow> None
           | Some (v, r) \<Rightarrow>
              (case skip_ws r of
                 x # r' \<Rightarrow>
                   if x = CHR '','' then read_json fuel (Members (acc @ [(k, text_between s' r, v)])) d r'
                   else if x = CHR ''}'' then Some (JObj (acc @ [(k, text_between s' r, v)]), r')
                   else None
               | [] \<Rightarrow> None))))"

text \<open>A document is one value.  A value and the separators around it need at most two calls per
  byte: \<open>read_json_fuel\<close> below shows that more fuel changes nothing.\<close>

definition json_parse :: "string \<Rightarrow> jval option" where
  "json_parse s = (case read_json (2 * length s + 1) Value 0 s of
     Some (v, r) \<Rightarrow> if skip_ws r = [] then Some v else None
   | None \<Rightarrow> None)"

definition json_Valid :: "string \<Rightarrow> bool" where
  "json_Valid s = (json_parse s \<noteq> None)"

section \<open>Decoding into \<^verbatim>\<open>interface{}\<close>\<close>

text \<open>Storing a key: the entries stay sorted and a repeated key replaces the earlier value.\<close>

fun obj_put :: "string \<Rightarrow> 'v \<Rightarrow> (string \<times> 'v) list \<Rightarrow> (string \<times> 'v) list" where
  "obj_put k v [] = [(k, v)]"
| "obj_put k v ((k', v') # m) =
     (if k = k' then (k, v) # m
      else if k < k' then (k, v) # (k', v') # m
      else (k', v') # obj_put k v m)"

text \<open>\<open>None\<close> is a number too large for a \<^verbatim>\<open>float64\<close>.\<close>

fun to_iface :: "jval \<Rightarrow> iface option" and
    to_ifaces :: "(string \<times> jval) list \<Rightarrow> iface list option" and
    to_entries :: "(string \<times> string \<times> jval) list \<Rightarrow> (string \<times> iface) list \<Rightarrow> (string \<times> iface) list option" where
  "to_iface JNull = Some INil"
| "to_iface (JBool b) = Some (IBool b)"
| "to_iface (JNum lit) = map_option IFloat (ParseFloat lit)"
| "to_iface (JStr s) = Some (IStr s)"
| "to_iface (JArr es) = map_option ISlice (to_ifaces es)"
| "to_iface (JObj ms) = map_option IMap (to_entries ms [])"
| "to_ifaces [] = Some []"
| "to_ifaces ((_, v) # es) =
     (case to_iface v of
        None \<Rightarrow> None
      | Some x \<Rightarrow> map_option ((#) x) (to_ifaces es))"
| "to_entries [] m = Some m"
| "to_entries ((k, _, v) # ms) m =
     (case to_iface v of
        None \<Rightarrow> None
      | Some x \<Rightarrow> to_entries ms (obj_put k x m))"

text \<open>\<^verbatim>\<open>json.Unmarshal(data, &v)\<close> for an \<^verbatim>\<open>interface{}\<close>: \<open>None\<close> is a syntax error or a number
  that overflows.\<close>

definition json_Unmarshal :: "string \<Rightarrow> iface option" where
  "json_Unmarshal s = Option.bind (json_parse s) to_iface"

section \<open>Decoding into structs\<close>

text \<open>A decoder takes the text of a value and the value, and updates what is stored so far: a
  \<^verbatim>\<open>null\<close> leaves a scalar or a struct as it is, and a repeated key decodes on top of the earlier
  value.  An error makes \<^verbatim>\<open>json.Unmarshal\<close> fail as a whole; its text is not modelled.\<close>

type_synonym 'a decoder = "string \<times> jval \<Rightarrow> 'a \<Rightarrow> 'a option"

text \<open>Keys match a field by name, else by their case folding; the long s and the Kelvin sign fold
  to ASCII letters.\<close>

fun fold_name :: "string \<Rightarrow> string" where
  "fold_name (a # b # c # r) =
     (if [a, b] = [CHR 0xC5, CHR 0xBF] then CHR ''S'' # fold_name (c # r)
      else if [a, b, c] = [CHR 0xE2, CHR 0x84, CHR 0xAA] then CHR ''K'' # fold_name r
      else (if CHR ''a'' \<le> a \<and> a \<le> CHR ''z'' then char_of (byte a - 32) else a) # fold_name (b # c # r))"
| "fold_name [a, b] =
     (if [a, b] = [CHR 0xC5, CHR 0xBF] then ''S''
      else (if CHR ''a'' \<le> a \<and> a \<le> CHR ''z'' then char_of (byte a - 32) else a) # fold_name [b])"
| "fold_name [a] = [if CHR ''a'' \<le> a \<and> a \<le> CHR ''z'' then char_of (byte a - 32) else a]"
| "fold_name [] = []"

definition match_field :: "string list \<Rightarrow> string \<Rightarrow> string option" where
  "match_field names key =
     (if key \<in> set names then Some key else find (\<lambda>n. fold_name n = fold_name key) names)"

definition dec_string :: "string decoder" where
  "dec_string = (\<lambda>(raw, v) cur. case v of JStr s \<Rightarrow> Some s | JNull \<Rightarrow> Some cur | _ \<Rightarrow> None)"

definition dec_int :: "int decoder" where
  "dec_int = (\<lambda>(raw, v) cur. case v of JNum lit \<Rightarrow> ParseInt64 lit | JNull \<Rightarrow> Some cur | _ \<Rightarrow> None)"

definition dec_raw :: "string decoder" where
  "dec_raw = (\<lambda>(raw, v) cur. Some raw)"

definition dec_iface :: "iface decoder" where
  "dec_iface = (\<lambda>(raw, v) cur. to_iface v)"

definition dec_ptr :: "'a \<Rightarrow> 'a decoder \<Rightarrow> 'a option decoder" where
  "dec_ptr zero dec = (\<lambda>(raw, v) cur.
     case v of JNull \<Rightarrow> Some None
     | _ \<Rightarrow> map_option Some (dec (raw, v) (case cur of None \<Rightarrow> zero | Some x \<Rightarrow> x)))"

primrec dec_elems :: "'a \<Rightarrow> 'a decoder \<Rightarrow> (string \<times> jval) list \<Rightarrow> 'a list \<Rightarrow> 'a list option" where
  "dec_elems zero dec [] cur = Some []"
| "dec_elems zero dec (e # es) cur =
     (case dec e (case cur of [] \<Rightarrow> zero | x # _ \<Rightarrow> x) of
        None \<Rightarrow> None
      | Some y \<Rightarrow> map_option ((#) y) (dec_elems zero dec es (tl cur)))"

text \<open>A slice that only its length and its elements are read of: nil is the empty list.\<close>

definition dec_slice :: "'a \<Rightarrow> 'a decoder \<Rightarrow> 'a list decoder" where
  "dec_slice zero dec = (\<lambda>(raw, v) cur.
     case v of JArr es \<Rightarrow> dec_elems zero dec es cur | JNull \<Rightarrow> Some [] | _ \<Rightarrow> None)"

primrec dec_members :: "string list \<Rightarrow> (string \<Rightarrow> 'a decoder) \<Rightarrow> (string \<times> string \<times> jval) list \<Rightarrow> 'a \<Rightarrow> 'a option" where
  "dec_members names field [] cur = Some cur"
| "dec_members names field (m # ms) cur =
     (case match_field names (fst m) of
        None \<Rightarrow> dec_members names field ms cur
      | Some n \<Rightarrow>
         (case field n (snd m) cur of
            None \<Rightarrow> None
          | Some cur' \<Rightarrow> dec_members names field ms cur'))"

definition dec_struct :: "string list \<Rightarrow> (string \<Rightarrow> 'a decoder) \<Rightarrow> 'a decoder" where
  "dec_struct names field = (\<lambda>(raw, v) cur.
     case v of JObj ms \<Rightarrow> dec_members names field ms cur | JNull \<Rightarrow> Some cur | _ \<Rightarrow> None)"

definition json_decode :: "'a decoder \<Rightarrow> 'a \<Rightarrow> string \<Rightarrow> 'a option" where
  "json_decode dec zero s = (case json_parse s of None \<Rightarrow> None | Some v \<Rightarrow> dec (s, v) zero)"

section \<open>The fuel of the readers is enough\<close>

text \<open>Every reader returns a strictly shorter rest, so fuel proportional to the length is never
  used up: with more fuel the readers give the same result.\<close>

lemma skip_ws_length: "length (skip_ws s) \<le> length s"
  by (simp add: skip_ws_def length_dropWhile_le)

lemma skip_ws_Cons_length: "skip_ws s = c # r \<Longrightarrow> length r < length s"
  using skip_ws_length [of s] by simp

lemma hex4_rest: "hex4 s = Some (u, r) \<Longrightarrow> length s = length r + 4"
  by (auto simp: hex4_def split: list.splits option.splits)

lemma unicode_escape_rest: "unicode_escape u r = (t, r') \<Longrightarrow> length r' \<le> length r"
  by (auto simp: unicode_escape_def split: if_splits list.splits option.splits dest!: hex4_rest)

lemma read_string_rest: "read_string n s = Some (t, r) \<Longrightarrow> length r < length s"
proof (induction n arbitrary: s t r)
  case (Suc n)
  show ?case
    using Suc.prems
    by (auto split: list.splits if_splits option.splits prod.splits
        dest!: Suc.IH hex4_rest unicode_escape_rest)
qed simp

lemma read_string_fuel: "length s \<le> n \<Longrightarrow> read_string (Suc n) s = read_string n s"
proof (induction n arbitrary: s)
  case (Suc n)
  show ?case
  proof (cases s)
    case (Cons c r)
    have "unicode_escape u r'' = (t, r3) \<Longrightarrow> hex4 r' = Some (u, r'') \<Longrightarrow> r = x # r' \<Longrightarrow> length r3 \<le> n"
      for u r'' t r3 r' x
      using Suc.prems Cons by (auto dest!: hex4_rest unicode_escape_rest)
    moreover have "utf8_len (c # r) \<noteq> 0 \<Longrightarrow> length (drop (utf8_len (c # r)) (c # r)) \<le> n"
      using Suc.prems Cons by auto
    ultimately show ?thesis
      using Suc.prems Cons Suc.IH
      by (subst (1 2) read_string.simps) (auto split: list.splits option.splits prod.splits simp del: read_string.simps)
  qed simp
qed simp
lemma span_digits_length: "span_digits s = (ds, r) \<Longrightarrow> length s = length ds + length r"
  by (metis span_digits_def fst_conv snd_conv length_append takeWhile_dropWhile_id)

lemma read_sign_rest: "read_sign s = (sg, r) \<Longrightarrow> length r \<le> length s"
  by (auto simp: read_sign_def split: list.splits if_splits)

lemma read_int_part_rest: "read_int_part s = (ds, r) \<Longrightarrow> ds \<noteq> [] \<Longrightarrow> length r < length s"
  by (auto simp: read_int_part_def split: list.splits if_splits dest: span_digits_length)

lemma read_fraction_rest: "read_fraction s = Some (fs, r) \<Longrightarrow> length r \<le> length s"
  by (auto simp: read_fraction_def split: list.splits if_splits prod.splits dest!: span_digits_length)

lemma read_exp_part_rest: "read_exp_part s = Some (xs, r) \<Longrightarrow> length r \<le> length s"
  by (auto simp: read_exp_part_def split: list.splits if_splits prod.splits dest!: span_digits_length)

lemma number_literal_rest: "number_literal s = Some (lit, r) \<Longrightarrow> length r < length s"
  by (fastforce simp: number_literal_def split: prod.splits if_splits option.splits
      dest: read_sign_rest read_int_part_rest read_fraction_rest read_exp_part_rest)

lemma read_scalar_rest: "read_scalar s = Some (v, r) \<Longrightarrow> length r < length s"
  by (cases s) (auto simp: read_scalar_def HasPrefix_def simp del: read_string.simps split: if_splits
      dest!: read_string_rest number_literal_rest)

lemma read_key_rest: "read_key s = Some (k, r) \<Longrightarrow> length r < length s"
  by (auto simp: read_key_def simp del: read_string.simps split: list.splits if_splits option.splits
      dest!: read_string_rest skip_ws_Cons_length)

lemma read_json_rest: "read_json n m d s = Some (v, r) \<Longrightarrow> length r < length s"
proof (induction n arbitrary: m d s v r)
  case (Suc n)
  show ?case
  proof (cases m)
    case Value
    then show ?thesis
      using Suc.prems
      by (auto split: list.splits if_splits dest!: Suc.IH skip_ws_Cons_length read_scalar_rest)
  next
    case (Elems acc)
    then show ?thesis
      using Suc.prems
      by (auto split: option.splits list.splits if_splits dest!: Suc.IH skip_ws_Cons_length)
  next
    case (Members acc)
    then show ?thesis
      using Suc.prems
      by (auto split: option.splits list.splits if_splits dest!: Suc.IH skip_ws_Cons_length read_key_rest)
  qed
qed simp

definition json_need :: "reading \<Rightarrow> string \<Rightarrow> nat" where
  "json_need m s = 2 * length s + (case m of Value \<Rightarrow> 1 | _ \<Rightarrow> 2)"

lemma read_json_fuel: "json_need m s \<le> n \<Longrightarrow> read_json (Suc n) m d s = read_json n m d s"
proof (induction n arbitrary: m d s)
  case 0
  then show ?case by (simp add: json_need_def split: reading.splits)
next
  case (Suc n)
  show ?case
  proof (cases m)
    case Value
    then have "skip_ws s = c # r \<Longrightarrow> skip_ws r = x # r' \<Longrightarrow> json_need (Members []) (x # r') \<le> n \<and> json_need (Elems []) (x # r') \<le> n"
      for c r x r'
      using Suc.prems skip_ws_length [of s] skip_ws_length [of r] by (auto simp: json_need_def)
    then show ?thesis
      using Value Suc.IH by (subst (1 2) read_json.simps) (auto simp del: read_json.simps split: list.splits)
  next
    case (Elems acc)
    then have "json_need Value s \<le> n"
      using Suc.prems by (simp add: json_need_def)
    moreover have "json_need (Elems acc') r' \<le> n"
      if "read_json n Value d s = Some (v, r)" "skip_ws r = x # r'" for v r x r' acc'
      using Elems Suc.prems that by (auto simp: json_need_def dest!: read_json_rest skip_ws_Cons_length)
    ultimately show ?thesis
      using Elems Suc.IH
      by (subst (1 2) read_json.simps) (auto simp del: read_json.simps split: list.splits option.splits)
  next
    case (Members acc)
    then have "json_need Value s' \<le> n" if "read_key s = Some (k, s')" for k s'
      using Suc.prems that by (auto simp: json_need_def dest!: read_key_rest)
    moreover have "json_need (Members acc') r' \<le> n"
      if "read_key s = Some (k, s')" "read_json n Value d s' = Some (v, r)" "skip_ws r = x # r'" for k s' v r x r' acc'
      using Members Suc.prems that by (auto simp: json_need_def dest!: read_json_rest skip_ws_Cons_length read_key_rest)
    ultimately show ?thesis
      using Members Suc.IH
      by (subst (1 2) read_json.simps) (auto simp del: read_json.simps split: list.splits option.splits)
  qed
qed

lemma json_parse_fuel:
  assumes "2 * length s + 1 \<le> n"
  shows "read_json n Value d s = read_json (2 * length s + 1) Value d s"
  using assms
proof (induction n rule: dec_induct)
  case (step n)
  then show ?case
    using read_json_fuel [of Value s n d] by (simp add: json_need_def)
qed simp

section \<open>Writing JSON\<close>

definition hex_digit :: "nat \<Rightarrow> char" where
  "hex_digit n = ''0123456789abcdef'' ! n"

definition escape_byte :: "char \<Rightarrow> string" where
  "escape_byte c =
     (if c = CHR ''\"'' \<or> c = CHR 0x5C then [CHR 0x5C, c]
      else if c = CHR 0x08 then [CHR 0x5C, CHR ''b'']
      else if c = CHR 0x0C then [CHR 0x5C, CHR ''f'']
      else if c = CHR 0x0A then [CHR 0x5C, CHR ''n'']
      else if c = CHR 0x0D then [CHR 0x5C, CHR ''r'']
      else if c = CHR 0x09 then [CHR 0x5C, CHR ''t'']
      else if byte c < 0x20 \<or> c \<in> set ''<>&'' then
        CHR 0x5C # ''u00'' @ [hex_digit (byte c div 16), hex_digit (byte c mod 16)]
      else [c])"

text \<open>The text of a string literal: HTML-sensitive and control characters are escaped, an invalid
  byte becomes the escape of U+FFFD, and the line separators U+2028 and U+2029 are escaped.\<close>

primrec escape_string :: "nat \<Rightarrow> string \<Rightarrow> string" where
  "escape_string 0 s = []"
| "escape_string (Suc fuel) s = (case s of
     [] \<Rightarrow> []
   | c # r \<Rightarrow>
      (if byte c < 0x80 then escape_byte c @ escape_string fuel r
       else if utf8_len s = 0 then CHR 0x5C # ''ufffd'' @ escape_string fuel r
       else if take 3 s = [CHR 0xE2, CHR 0x80, CHR 0xA8] then CHR 0x5C # ''u2028'' @ escape_string fuel (drop 3 s)
       else if take 3 s = [CHR 0xE2, CHR 0x80, CHR 0xA9] then CHR 0x5C # ''u2029'' @ escape_string fuel (drop 3 s)
       else take (utf8_len s) s @ escape_string fuel (drop (utf8_len s) s)))"

definition json_string :: "string \<Rightarrow> string" where
  "json_string s = CHR ''\"'' # escape_string (length s) s @ [CHR ''\"'']"

text \<open>The \<^verbatim>\<open>f\<close> rendering for magnitudes in \<open>[1e-6, 1e21)\<close>, else \<^verbatim>\<open>e\<close> with the leading zero of a
  two-digit exponent dropped.  Infinities and NaN have no JSON text.\<close>

fun json_float :: "float64 \<Rightarrow> string option" where
  "json_float (Finite neg m e) =
     Some ((if neg then ''-'' else []) @
       (if m = 0 then ''0''
        else (case shortest m e of (ds, dp) \<Rightarrow>
          if dp - 1 < - 6 \<or> dp - 1 \<ge> 21 then
            take 1 ds @ (if length ds > 1 then CHR ''.'' # drop 1 ds else []) @ ''e'' @
            (if dp - 1 < 0 then ''-'' else ''+'') @ pos_dec \<bar>dp - 1\<bar>
          else fmt_f ds dp)))"
| "json_float _ = None"

text \<open>\<^verbatim>\<open>json.Marshal(v)\<close>; a map is written in key order.\<close>

primrec json_Marshal :: "iface \<Rightarrow> string option" where
  "json_Marshal INil = Some ''null''"
| "json_Marshal (IBool b) = Some (if b then ''true'' else ''false'')"
| "json_Marshal (IFloat f) = json_float f"
| "json_Marshal (IInt i) = Some (int_dec i)"
| "json_Marshal (INumber s) =
     (if s = [] then Some ''0''
      else if number_literal s = Some (s, []) then Some s else None)"
| "json_Marshal (IStr s) = Some (json_string s)"
| "json_Marshal (ISlice vs) =
     map_option (\<lambda>ts. ''['' @ join_with '','' ts @ '']'') (those (map json_Marshal vs))"
| "json_Marshal (IMap m) =
     map_option (\<lambda>ts. ''{'' @ join_with '','' ts @ ''}'')
       (those (map (\<lambda>p. map_option (\<lambda>t. json_string (fst p) @ '':'' @ t) (snd p))
          (map (map_prod id json_Marshal) m)))"

text \<open>A \<^verbatim>\<open>json.RawMessage\<close> is written compacted: the space between tokens is dropped and the
  HTML-sensitive characters and line separators inside strings are escaped.  Nil is written
  \<^verbatim>\<open>null\<close>; a message that is not valid JSON is an error.\<close>

fun compact_loop :: "bool \<Rightarrow> string \<Rightarrow> string" where
  "compact_loop in_str [] = []"
| "compact_loop False (c # r) =
     (if is_ws c then compact_loop False r
      else c # compact_loop (c = CHR ''\"'') r)"
| "compact_loop True (c # r) =
     (if c = CHR ''\"'' then c # compact_loop False r
      else if c = CHR 0x5C then
        (case r of [] \<Rightarrow> [c] | x # r' \<Rightarrow> c # x # compact_loop True r')
      else if c \<in> set ''<>&'' then
        CHR 0x5C # ''u00'' @ [hex_digit (byte c div 16), hex_digit (byte c mod 16)] @ compact_loop True r
      else if c = CHR 0xE2 \<and> take 2 r = [CHR 0x80, CHR 0xA8] then CHR 0x5C # ''u2028'' @ compact_loop True (drop 2 r)
      else if c = CHR 0xE2 \<and> take 2 r = [CHR 0x80, CHR 0xA9] then CHR 0x5C # ''u2029'' @ compact_loop True (drop 2 r)
      else c # compact_loop True r)"

definition json_raw :: "string \<Rightarrow> string option" where
  "json_raw s = (if s = [] then Some ''null'' else if json_Valid s then Some (compact_loop False s) else None)"

text \<open>A \<^verbatim>\<open>map[string]string\<close>, whose entries are kept sorted.\<close>

definition json_string_map :: "(string \<times> string) list \<Rightarrow> string" where
  "json_string_map m =
     ''{'' @ join_with '','' (map (\<lambda>(k, v). json_string k @ '':'' @ json_string v) m) @ ''}''"

section \<open>The verb \<^verbatim>\<open>%v\<close>\<close>

primrec fmt_v :: "iface \<Rightarrow> string" where
  "fmt_v INil = ''<nil>''"
| "fmt_v (IBool b) = (if b then ''true'' else ''false'')"
| "fmt_v (IFloat f) = float_v f"
| "fmt_v (IInt i) = int_dec i"
| "fmt_v (INumber s) = s"
| "fmt_v (IStr s) = s"
| "fmt_v (ISlice vs) = ''['' @ join_with '' '' (map fmt_v vs) @ '']''"
| "fmt_v (IMap m) =
     ''map['' @ join_with '' '' (map (\<lambda>p. fst p @ '':'' @ snd p) (map (map_prod id fmt_v) m)) @ '']''"

end
