(* ===== verification/DomainTypes.thy ===== *)
theory DomainTypes
  imports DomainErrors GoJson
begin

unbundle bit_operations_syntax

text \<open>
  \<^verbatim>\<open>internal/domain/types.go\<close>, \<^verbatim>\<open>batch.go\<close> and \<^verbatim>\<open>scheduled_status.go\<close>: the records of the
  domain, the routing hash, the identifiers derived from content, and the state machines of
  executions, outbox effects, inbox entries and workflow instances.  A \<^verbatim>\<open>json.RawMessage\<close> is its
  bytes, the empty string standing for nil; a \<^verbatim>\<open>map[string]string\<close> is its sorted entries.

  SHA-256 in hexadecimal is the parameter \<open>H\<close> of every identifier: the code relies on it only
  to tell different inputs apart, and that is what the properties assume where they need it.
\<close>

section \<open>Events and routing\<close>

record EventEnvelope =
  evID :: string
  evType :: string
  evTenantID :: string
  evPartitionKey :: string
  evWorkflowID :: string
  evOccurredAt :: time
  evData :: string
  evHeaders :: "(string \<times> string) list"

text \<open>The FNV-1a loop of \<^verbatim>\<open>ShardHash\<close>; \<^verbatim>\<open>uint32\<close> arithmetic wraps around.\<close>

primrec shard_hash_loop :: "string \<Rightarrow> u32 \<Rightarrow> u32" where
  "shard_hash_loop [] h = h"
| "shard_hash_loop (c # cs) h = shard_hash_loop cs ((h XOR word_of_nat (of_char c)) * 16777619)"

definition ShardHash :: "string \<Rightarrow> u32" where
  "ShardHash key = shard_hash_loop key 2166136261"

text \<open>Every caller passes a positive modulus (a shard count of 0 is replaced by 4096).\<close>

definition VirtualShard :: "EventEnvelope \<Rightarrow> u32 \<Rightarrow> u32" where
  "VirtualShard e modulus = ShardHash (evTenantID e @ '':'' @ evPartitionKey e) mod modulus"

definition Validate :: "EventEnvelope \<Rightarrow> unit result" where
  "Validate e =
     (if evID e = [] then Inl (Sentinel ErrEventIDRequired)
      else if evType e = [] then Inl (Sentinel ErrEventTypeRequired)
      else if evTenantID e = [] then Inl (Sentinel ErrTenantIDRequired)
      else if evPartitionKey e = [] then Inl (Sentinel ErrPartitionKeyRequired)
      else if IsZero (evOccurredAt e) then Inl (Sentinel ErrOccurredAtRequired)
      else Inr ())"

section \<open>Rules\<close>

type_synonym MatchMode = string

definition MatchModeFirstMatch :: MatchMode where [go_simps]: "MatchModeFirstMatch = ''first_match''"
definition MatchModeAllMatches :: MatchMode where [go_simps]: "MatchModeAllMatches = ''all_matches''"

record ContractRef =
  crName :: string
  crVersion :: string
  crSchemaHash :: string

datatype ContractField = ContractField
  (cfType: string) (cfDescription: string) (cfRequired: bool) (cfDefault: iface)
  (cfEnum: "iface list") (cfFormat: string) (cfItems: "ContractField option")
  (cfProperties: "(string \<times> ContractField) list")

record ContractSchema =
  csName :: string
  csVersion :: string
  csNamespace :: string
  csDescription :: string
  csFields :: "(string \<times> ContractField) list"
  csCompatibility :: string
  csOwner :: string
  csDeprecated :: bool
  csCreatedAt :: time
  csUpdatedAt :: time

type_synonym Operator = string

definition OpEq :: Operator where [go_simps]: "OpEq = ''eq''"
definition OpNeq :: Operator where [go_simps]: "OpNeq = ''neq''"
definition OpGt :: Operator where [go_simps]: "OpGt = ''gt''"
definition OpGte :: Operator where [go_simps]: "OpGte = ''gte''"
definition OpLt :: Operator where [go_simps]: "OpLt = ''lt''"
definition OpLte :: Operator where [go_simps]: "OpLte = ''lte''"
definition OpIn :: Operator where [go_simps]: "OpIn = ''in''"
definition OpNotIn :: Operator where [go_simps]: "OpNotIn = ''not_in''"
definition OpExists :: Operator where [go_simps]: "OpExists = ''exists''"
definition OpNotExists :: Operator where [go_simps]: "OpNotExists = ''not_exists''"

lemmas Op_defs = OpEq_def OpNeq_def OpGt_def OpGte_def OpLt_def OpLte_def OpIn_def OpNotIn_def
  OpExists_def OpNotExists_def

definition ValidOp :: "Operator \<Rightarrow> bool" where
  "ValidOp op =
     (op \<in> set [OpEq, OpNeq, OpGt, OpGte, OpLt, OpLte, OpIn, OpNotIn, OpExists, OpNotExists])"

text \<open>A predicate as \<^verbatim>\<open>encoding/json\<close> builds it: the slices and the pointer may be nil, and so may
  the elements of a slice.\<close>

datatype Predicate = Predicate
  (pAll: "Predicate option list option")
  (pAny: "Predicate option list option")
  (pNot: "Predicate option")
  (pPath: string)
  (pOp: Operator)
  (pValue: iface)

record EmitAction =
  emTopic :: string
  emData :: string

type_synonym PartitionKeyPolicy = string

definition PartitionKeyPolicyExplicit :: PartitionKeyPolicy where
  [go_simps]: "PartitionKeyPolicyExplicit = ''explicit''"
definition PartitionKeyPolicyInherit :: PartitionKeyPolicy where
  [go_simps]: "PartitionKeyPolicyInherit = ''inherit''"
definition PartitionKeyPolicyFromData :: PartitionKeyPolicy where
  [go_simps]: "PartitionKeyPolicyFromData = ''from_data''"

record EmitEventAction =
  eeType :: string
  eePartitionKey :: string
  eePartitionKeyPolicy :: PartitionKeyPolicy
  eePartitionKeyPath :: string
  eeData :: string

record CommandAction =
  cmDestination :: string
  cmName :: string
  cmData :: string

record Action =
  acEmit :: "EmitAction option"
  acEmitEvent :: "EmitEventAction option"
  acCommand :: "CommandAction option"

record CompiledRule =
  ruID :: string
  ruName :: string
  ruDescription :: string
  ruTags :: "string list"
  ruPriority :: int
  ruWhen :: Predicate
  ruThen :: "Action list"
  ruOtherwise :: "Action list"

record RuleRevision =
  rvTenantScope :: string
  rvRuleID :: string
  rvRevision :: int
  rvContentHash :: string
  rvMatchMode :: MatchMode
  rvCompiled :: "CompiledRule list"
  rvSource :: string
  rvCompilerVersion :: string
  rvInputContract :: "ContractRef option"
  rvCreatedAt :: time

record RuleActivation =
  raTenantScope :: string
  raRuleSet :: string
  raRevision :: int
  raVersion :: int
  raActor :: string
  raActivatedAt :: time

section \<open>Effects, decisions and executions\<close>

text \<open>\<^verbatim>\<open>EffectType\<close> is a string; \<open>EffectTypeOther\<close> holds every value the source does not name.\<close>

datatype EffectType =
    EffectTypeEmit | EffectTypeEmitEvent | EffectTypeCommand | EffectTypeServiceEvent
  | EffectTypeOther string

record Effect =
  efID :: string
  efExecutionID :: string
  efTenantID :: string
  efDestination :: string
  efName :: string
  efPayload :: string
  efEffectType :: EffectType
  efCreatedAt :: time

record RuleExplanation =
  rxRuleID :: string
  rxRuleName :: string
  rxMatched :: bool
  rxPriority :: int
  rxReason :: string
  rxActions :: "string list"

record Decision =
  dcMatchedRules :: "string list"
  dcEffects :: "Effect list"
  dcHash :: string
  dcExplanations :: "RuleExplanation list"

datatype ExecutionStatus =
    ExecutionStatusPending | ExecutionStatusCompleted | ExecutionStatusFailed
  | ExecutionStatusQuarantined

record Execution =
  exID :: string
  exEventID :: string
  exTenantID :: string
  exRuleSet :: string
  exRevision :: int
  exDecisionHash :: string
  exStatus :: ExecutionStatus
  exError :: string
  exTraceID :: string
  exCreatedAt :: time
  exCompletedAt :: "time option"

primrec execution_status_string :: "ExecutionStatus \<Rightarrow> string" where
  "execution_status_string ExecutionStatusPending = ''pending''"
| "execution_status_string ExecutionStatusCompleted = ''completed''"
| "execution_status_string ExecutionStatusFailed = ''failed''"
| "execution_status_string ExecutionStatusQuarantined = ''quarantined''"

text \<open>The three transitions of an execution are valid from \<^verbatim>\<open>pending\<close> only.\<close>

definition Complete :: "Execution \<Rightarrow> time \<Rightarrow> Execution result" where
  "Complete e now =
     (if exStatus e \<noteq> ExecutionStatusPending
      then Inl (ErrorString (''cannot complete execution in state '' @ execution_status_string (exStatus e)))
      else Inr (e\<lparr>exStatus := ExecutionStatusCompleted, exCompletedAt := Some now\<rparr>))"

definition Fail :: "Execution \<Rightarrow> time \<Rightarrow> string \<Rightarrow> Execution result" where
  "Fail e now errMsg =
     (if exStatus e \<noteq> ExecutionStatusPending
      then Inl (ErrorString (''cannot fail execution in state '' @ execution_status_string (exStatus e)))
      else Inr (e\<lparr>exStatus := ExecutionStatusFailed, exError := errMsg, exCompletedAt := Some now\<rparr>))"

definition QuarantineExecution :: "Execution \<Rightarrow> time \<Rightarrow> string \<Rightarrow> Execution result" where
  "QuarantineExecution e now errMsg =
     (if exStatus e \<noteq> ExecutionStatusPending
      then Inl (ErrorString (''cannot quarantine execution in state '' @ execution_status_string (exStatus e)))
      else Inr (e\<lparr>exStatus := ExecutionStatusQuarantined, exError := errMsg, exCompletedAt := Some now\<rparr>))"

section \<open>The outbox and the inbox\<close>

datatype OutboxStatus =
    OutboxStatusPending | OutboxStatusClaimed | OutboxStatusDelivered | OutboxStatusFailed
  | OutboxStatusQuarantined

primrec outbox_status_string :: "OutboxStatus \<Rightarrow> string" where
  "outbox_status_string OutboxStatusPending = ''pending''"
| "outbox_status_string OutboxStatusClaimed = ''claimed''"
| "outbox_status_string OutboxStatusDelivered = ''delivered''"
| "outbox_status_string OutboxStatusFailed = ''failed''"
| "outbox_status_string OutboxStatusQuarantined = ''quarantined''"

record OutboxEffect =
  obID :: string
  obExecutionID :: string
  obTenantID :: string
  obDestination :: string
  obName :: string
  obPayload :: string
  obEffectType :: EffectType
  obStatus :: OutboxStatus
  obAttempts :: int
  obMaxAttempts :: int
  obAvailableAt :: time
  obClaimedBy :: string
  obClaimedAt :: "time option"
  obClaimExpiresAt :: "time option"
  obLastError :: string
  obCreatedAt :: time
  obUpdatedAt :: time

definition Claim :: "OutboxEffect \<Rightarrow> string \<Rightarrow> time \<Rightarrow> OutboxEffect result" where
  "Claim e claimant now =
     (if obStatus e \<noteq> OutboxStatusPending
      then Inl (ErrorString (''cannot claim effect in state '' @ outbox_status_string (obStatus e)))
      else Inr (e\<lparr>obStatus := OutboxStatusClaimed, obUpdatedAt := now\<rparr>))"

definition Deliver :: "OutboxEffect \<Rightarrow> time \<Rightarrow> OutboxEffect result" where
  "Deliver e now =
     (if obStatus e \<noteq> OutboxStatusClaimed
      then Inl (ErrorString (''cannot deliver effect in state '' @ outbox_status_string (obStatus e)))
      else Inr (e\<lparr>obStatus := OutboxStatusDelivered, obUpdatedAt := now\<rparr>))"

definition Retry :: "OutboxEffect \<Rightarrow> time \<Rightarrow> duration \<Rightarrow> int \<Rightarrow> string \<Rightarrow> OutboxEffect result" where
  "Retry e now delay attempts errMsg =
     (if obStatus e \<noteq> OutboxStatusClaimed
      then Inl (ErrorString (''cannot retry effect in state '' @ outbox_status_string (obStatus e)))
      else Inr (e\<lparr>obStatus := OutboxStatusPending, obAttempts := attempts,
                  obAvailableAt := now + delay, obLastError := errMsg, obUpdatedAt := now\<rparr>))"

definition QuarantineEffect :: "OutboxEffect \<Rightarrow> time \<Rightarrow> string \<Rightarrow> OutboxEffect result" where
  "QuarantineEffect e now errMsg =
     (if obStatus e \<noteq> OutboxStatusClaimed
      then Inl (ErrorString (''cannot quarantine effect in state '' @ outbox_status_string (obStatus e)))
      else Inr (e\<lparr>obStatus := OutboxStatusQuarantined, obLastError := errMsg, obUpdatedAt := now\<rparr>))"

datatype InboxStatus = InboxStatusProcessing | InboxStatusCommitted

primrec inbox_status_string :: "InboxStatus \<Rightarrow> string" where
  "inbox_status_string InboxStatusProcessing = ''processing''"
| "inbox_status_string InboxStatusCommitted = ''committed''"

record InboxEntry =
  inTenantID :: string
  inEventID :: string
  inStatus :: InboxStatus
  inExecutionID :: string
  inPartitionKey :: string
  inRuleSet :: string
  inPayload :: string
  inBatchID :: string
  inFirstSeenAt :: time
  inCommittedAt :: "time option"

definition Commit :: "InboxEntry \<Rightarrow> string \<Rightarrow> time \<Rightarrow> InboxEntry result" where
  "Commit e executionID now =
     (if inStatus e \<noteq> InboxStatusProcessing
      then Inl (ErrorString (''cannot commit inbox entry in state '' @ inbox_status_string (inStatus e)))
      else Inr (e\<lparr>inStatus := InboxStatusCommitted, inExecutionID := executionID, inCommittedAt := Some now\<rparr>))"

definition IsDuplicate :: "InboxEntry \<Rightarrow> bool" where
  "IsDuplicate e = (inStatus e = InboxStatusCommitted \<and> inExecutionID e \<noteq> [])"

record ShardLease =
  slVirtualShard :: u32
  slOwner :: string
  slFencingToken :: int
  slExpiresAt :: time
  slRoutingEpoch :: int

record QuarantineEntry =
  qeID :: string
  qeSourceType :: string
  qeSourceID :: string
  qeErrorClass :: string
  qePayloadRef :: string
  qeEventID :: string
  qeTenantID :: string
  qeError :: string
  qeCreatedAt :: time

section \<open>Tenant domains and services\<close>

record TenantDomain =
  tdID :: string
  tdTenantID :: string
  tdName :: string
  tdEventTypes :: "string list"
  tdCreatedAt :: time
  tdUpdatedAt :: time

record DomainService =
  dsID :: string
  dsTenantID :: string
  dsName :: string
  dsEndpointURL :: string
  dsDomainIDs :: "string list"
  dsActive :: bool
  dsCreatedAt :: time
  dsUpdatedAt :: time

section \<open>Identifiers derived from content\<close>

text \<open>The text that is hashed and its digest, in two definitions each: what the properties say of
  an identifier rests on its text.\<close>

definition execution_id_text :: "string \<Rightarrow> string \<Rightarrow> string \<Rightarrow> int \<Rightarrow> string" where
  "execution_id_text tenantID eventID ruleSet revision =
     ''execution|'' @ len_prefixed tenantID @ ''|'' @ len_prefixed eventID @ ''|'' @
     len_prefixed ruleSet @ ''|'' @ int_dec revision"

definition ComputeExecutionID ::
  "(string \<Rightarrow> string) \<Rightarrow> string \<Rightarrow> string \<Rightarrow> string \<Rightarrow> int \<Rightarrow> string" where
  "ComputeExecutionID H tenantID eventID ruleSet revision =
     H (execution_id_text tenantID eventID ruleSet revision)"

definition effect_id_text :: "string \<Rightarrow> string \<Rightarrow> string \<Rightarrow> int \<Rightarrow> string \<Rightarrow> int \<Rightarrow> string" where
  "effect_id_text tenantID eventID ruleSet revision ruleID actionIndex =
     tenantID @ ''|'' @ eventID @ ''|'' @ ruleSet @ ''|'' @ int_dec revision @ ''|'' @
     ruleID @ ''|'' @ int_dec actionIndex"

definition ComputeEffectID ::
  "(string \<Rightarrow> string) \<Rightarrow> string \<Rightarrow> string \<Rightarrow> string \<Rightarrow> int \<Rightarrow> string \<Rightarrow> int \<Rightarrow> string" where
  "ComputeEffectID H tenantID eventID ruleSet revision ruleID actionIndex =
     H (effect_id_text tenantID eventID ruleSet revision ruleID actionIndex)"

definition ComputeDecisionHash ::
  "(string \<Rightarrow> string) \<Rightarrow> string \<Rightarrow> string \<Rightarrow> string \<Rightarrow> string list \<Rightarrow> Effect list \<Rightarrow> string" where
  "ComputeDecisionHash H revisionHash eventID factsHash matched effects =
     H (revisionHash @ concat matched @ concat (map efID effects) @ eventID @ factsHash)"

definition ComputeSourceHash :: "(string \<Rightarrow> string) \<Rightarrow> string \<Rightarrow> string" where
  "ComputeSourceHash H source = H source"

definition ComputeChildEventID :: "(string \<Rightarrow> string) \<Rightarrow> string \<Rightarrow> string \<Rightarrow> int \<Rightarrow> string" where
  "ComputeChildEventID H parentEventID ruleID actionIndex =
     H (''child|'' @ parentEventID @ ''|'' @ ruleID @ ''|'' @ int_dec actionIndex)"

section \<open>Scheduled events\<close>

datatype ScheduledEventStatus =
    ScheduledEventStatusPending | ScheduledEventStatusClaimed | ScheduledEventStatusReleased
  | ScheduledEventStatusFailed | ScheduledEventStatusCancelled

record ScheduledEvent =
  seEventID :: string
  seTenantID :: string
  seEventType :: string
  sePartitionKey :: string
  seWorkflowID :: string
  sePayload :: string
  seHeaders :: "(string \<times> string) list"
  seScheduledAt :: time
  seStatus :: ScheduledEventStatus
  seRetryAt :: "time option"
  seRetryCount :: int
  seLastError :: string
  seCreatedAt :: time
  seReleasedAt :: "time option"

section \<open>Workflows\<close>

record WorkflowInstance =
  wfWorkflowID :: string
  wfTenantID :: string
  wfWorkflowType :: string
  wfState :: string
  wfVersion :: int
  wfCurrentRevision :: int
  wfContext :: string
  wfCreatedAt :: time
  wfUpdatedAt :: time
  wfCompletedAt :: "time option"

definition WorkflowStatusPending :: string where [go_simps]: "WorkflowStatusPending = ''pending''"
definition WorkflowStatusRunning :: string where [go_simps]: "WorkflowStatusRunning = ''running''"
definition WorkflowStatusCompleted :: string where [go_simps]: "WorkflowStatusCompleted = ''completed''"
definition WorkflowStatusFailed :: string where [go_simps]: "WorkflowStatusFailed = ''failed''"
definition WorkflowStatusPaused :: string where [go_simps]: "WorkflowStatusPaused = ''paused''"

definition validTransitions :: "string \<rightharpoonup> string list" where
  "validTransitions = map_of
     [(WorkflowStatusPending, [WorkflowStatusRunning, WorkflowStatusFailed]),
      (WorkflowStatusRunning, [WorkflowStatusCompleted, WorkflowStatusFailed, WorkflowStatusPaused]),
      (WorkflowStatusPaused, [WorkflowStatusRunning, WorkflowStatusFailed]),
      (WorkflowStatusCompleted, []),
      (WorkflowStatusFailed, [])]"

definition CanTransition :: "string \<Rightarrow> string \<Rightarrow> bool" where
  "CanTransition from to = (case validTransitions from of None \<Rightarrow> False | Some next \<Rightarrow> to \<in> set next)"

text \<open>\<open>now\<close> is the reading of the system clock.\<close>

definition Transition :: "WorkflowInstance \<Rightarrow> string \<Rightarrow> time \<Rightarrow> WorkflowInstance result" where
  "Transition w to now =
     (if \<not> CanTransition (wfState w) to
      then Inl (ErrorString (''invalid workflow transition: '' @ wfState w @ '' -> '' @ to))
      else
        let w' = w\<lparr>wfState := to, wfVersion := wfVersion w + 1, wfUpdatedAt := now\<rparr>
        in Inr (if to = WorkflowStatusCompleted \<or> to = WorkflowStatusFailed
                then w'\<lparr>wfCompletedAt := Some now\<rparr> else w'))"

record WorkflowState =
  wsName :: string
  wsType :: string
  wsRuleSets :: "string list"
  wsOnEnter :: "Action list"
  wsOnExit :: "Action list"

record WorkflowTransition =
  wtFrom :: string
  wtTo :: string
  wtEventType :: string
  wtCondition :: "Predicate option"

record WorkflowDefinition =
  wdWorkflowType :: string
  wdVersion :: int
  wdStates :: "WorkflowState list"
  wdTransitions :: "WorkflowTransition list"
  wdRules :: "(string \<times> string) list"
  wdCreatedAt :: time
  wdUpdatedAt :: time

section \<open>Batches\<close>

datatype BatchMode = BatchModeNone | BatchModeAccumulate | BatchModeWindow | BatchModeOther string

record BatchConfig =
  bcMode :: BatchMode
  bcMaxBatch :: int
  bcWindow :: duration

record BatchRun =
  brBatchID :: string
  brTenantID :: string
  brPartitionKey :: string
  brRuleSet :: string
  brStatus :: string
  brMemberCount :: int
  brExecutionID :: string
  brDecisionHash :: string
  brWindowFrom :: "time option"
  brWindowTo :: "time option"
  brCreatedAt :: time

definition BatchRunStatusFormed :: string where [go_simps]: "BatchRunStatusFormed = ''formed''"
definition BatchRunStatusCompleted :: string where [go_simps]: "BatchRunStatusCompleted = ''completed''"

record BatchMember =
  bmID :: string
  bmType :: string
  bmData :: string

record BatchData =
  bdBatchID :: string
  bdTenantID :: string
  bdPartitionKey :: string
  bdRuleSet :: string
  bdWindowFrom :: time
  bdWindowTo :: time
  bdEvents :: "BatchMember list"

definition BatchRuleSet :: "string \<Rightarrow> string" where
  "BatchRuleSet ruleSet = ruleSet @ ''.batch''"

definition batch_id_text :: "string \<Rightarrow> string \<Rightarrow> string \<Rightarrow> string list \<Rightarrow> string" where
  "batch_id_text tenantID partitionKey ruleSet eventIDs =
     tenantID @ ''|'' @ partitionKey @ ''|'' @ ruleSet @ ''|'' @ join_with '','' (sort eventIDs)"

definition ComputeBatchID ::
  "(string \<Rightarrow> string) \<Rightarrow> string \<Rightarrow> string \<Rightarrow> string \<Rightarrow> string list \<Rightarrow> string" where
  "ComputeBatchID H tenantID partitionKey ruleSet eventIDs =
     H (batch_id_text tenantID partitionKey ruleSet eventIDs)"

section \<open>Properties\<close>

text \<open>A character other than the separator is what a length prefix or a decimal number gives; a
  separator in front of the last number is found from the right.\<close>

lemma int_dec_no_bar: "CHR ''|'' \<notin> set (int_dec n)"
  by (auto simp: int_dec_def dest: nat_dec_digits)

lemma append_bar_int_dec_eq:
  "s @ ''|'' @ int_dec n = s' @ ''|'' @ int_dec n' \<longleftrightarrow> s = s' \<and> n = n'"
proof
  assume eq: "s @ ''|'' @ int_dec n = s' @ ''|'' @ int_dec n'"
  have "rev (int_dec n) @ CHR ''|'' # rev s = rev (int_dec n') @ CHR ''|'' # rev s'"
    using arg_cong [OF eq, of rev] by simp
  then have "rev (int_dec n) = rev (int_dec n') \<and> rev s = rev s'"
    by (rule append_sep_eq) (simp_all add: int_dec_no_bar)
  then show "s = s' \<and> n = n'"
    by simp
qed simp

lemma execution_id_text_eq:
  "execution_id_text t e r v = execution_id_text t' e' r' v' \<longleftrightarrow>
     t = t' \<and> e = e' \<and> r = r' \<and> v = v'"
  by (simp add: execution_id_text_def)

text \<open>Within one execution the effect identifiers separate the rules and the actions: the last
  separator of the hashed text is in front of the action's index.\<close>

lemma effect_id_text_eq:
  "effect_id_text t e r v ruleID i = effect_id_text t e r v ruleID' j \<longleftrightarrow> ruleID = ruleID' \<and> i = j"
  using append_bar_int_dec_eq [of ruleID i ruleID' j] by (simp add: effect_id_text_def)

lemma ComputeEffectID_eq:
  assumes "inj H"
  shows "ComputeEffectID H t e r v ruleID i = ComputeEffectID H t e r v ruleID' j \<longleftrightarrow>
    ruleID = ruleID' \<and> i = j"
  using assms by (simp add: ComputeEffectID_def inj_eq effect_id_text_eq)

text \<open>An execution identifier determines what it was computed from: two different choices of
  tenant, event, rule set and revision get the same identifier only if SHA-256 collides on the
  two texts, which are then different.\<close>

lemma ComputeExecutionID_injective:
  assumes "ComputeExecutionID H t e r v = ComputeExecutionID H t' e' r' v'"
    and "H (execution_id_text t e r v) = H (execution_id_text t' e' r' v') \<Longrightarrow>
      execution_id_text t e r v = execution_id_text t' e' r' v'"
  shows "t = t' \<and> e = e' \<and> r = r' \<and> v = v'"
  using assms unfolding ComputeExecutionID_def execution_id_text_eq by blast

text \<open>Effect identifiers have no length prefixes: whatever the hash, moving the separator between
  two fields gives a different tenant's event the same identifier.\<close>

lemma ComputeEffectID_collision:
  "ComputeEffectID H (t @ ''|'' @ e) e' r v ruleID i = ComputeEffectID H t (e @ ''|'' @ e') r v ruleID i"
  by (simp add: ComputeEffectID_def effect_id_text_def)

lemma ComputeBatchID_permutation:
  assumes "mset xs = mset ys"
  shows "ComputeBatchID H t p r xs = ComputeBatchID H t p r ys"
  using properties_for_sort [of "sort ys" xs] assms
  by (simp add: ComputeBatchID_def batch_id_text_def)

lemma VirtualShard_bound: "0 < m \<Longrightarrow> VirtualShard e m < m"
  by (simp add: VirtualShard_def word_gt_0 word_mod_less_divisor)

end
