(* ===== verification/Reachability.thy ===== *)
theory Reachability
  imports Prelude
begin

text \<open>
  Runs of a state machine.  A component whose operations interleave is given by the predicate of
  its initial states and its labelled step relation; the reachable states are the closure.  The
  interface \<open>safe_machine\<close> asks for a predicate that the initial states satisfy and every step
  keeps, and concludes that it holds in every reachable state and along every run.
\<close>

inductive reachable :: "('s \<Rightarrow> bool) \<Rightarrow> ('s \<Rightarrow> 'l \<Rightarrow> 's \<Rightarrow> bool) \<Rightarrow> 's \<Rightarrow> bool"
  for initial :: "'s \<Rightarrow> bool" and step :: "'s \<Rightarrow> 'l \<Rightarrow> 's \<Rightarrow> bool" where
  reach_initial: "initial s \<Longrightarrow> reachable initial step s"
| reach_step: "reachable initial step s \<Longrightarrow> step s l t \<Longrightarrow> reachable initial step t"

inductive run :: "('s \<Rightarrow> 'l \<Rightarrow> 's \<Rightarrow> bool) \<Rightarrow> 's \<Rightarrow> 'l list \<Rightarrow> 's \<Rightarrow> bool"
  for step :: "'s \<Rightarrow> 'l \<Rightarrow> 's \<Rightarrow> bool" where
  run_nil: "run step s [] s"
| run_cons: "step s l t \<Longrightarrow> run step t ls u \<Longrightarrow> run step s (l # ls) u"

inductive_cases run_nilE: "run step s [] t"
inductive_cases run_consE: "run step s (l # ls) t"
inductive_simps run_Nil_iff [simp]: "run step s [] t"
inductive_simps run_Cons_iff: "run step s (l # ls) t"

lemma run_append: "run step s ls t \<Longrightarrow> run step t ls' u \<Longrightarrow> run step s (ls @ ls') u"
  by (induction rule: run.induct) (auto intro: run.intros)

lemma run_single: "step s l t \<Longrightarrow> run step s [l] t"
  by (auto intro: run.intros)

lemma reachable_run:
  "reachable initial step s \<Longrightarrow> run step s ls t \<Longrightarrow> reachable initial step t"
  by (rotate_tac 1, induction rule: run.induct) (auto intro: reach_step)

locale safe_machine =
  fixes initial :: "'s \<Rightarrow> bool" and step :: "'s \<Rightarrow> 'l \<Rightarrow> 's \<Rightarrow> bool" and inv :: "'s \<Rightarrow> bool"
  assumes inv_initial: "initial s \<Longrightarrow> inv s"
    and inv_step: "inv s \<Longrightarrow> step s l t \<Longrightarrow> inv t"
begin

lemma inv_reachable: "reachable initial step s \<Longrightarrow> inv s"
  by (induction rule: reachable.induct) (auto intro: inv_initial inv_step)

lemma inv_run: "run step s ls t \<Longrightarrow> inv s \<Longrightarrow> inv t"
  by (induction rule: run.induct) (auto intro: inv_step)

end

end
