(* ===== verification/KeyQueue.thy ===== *)
theory KeyQueue
  imports DomainTypes Reachability
begin

text \<open>
  \<^verbatim>\<open>internal/runtime/keyqueue/queue.go\<close>: the queue in front of the event processor.  Submitters
  and workers run concurrently; the model is a state machine whose steps are the critical
  sections and the channel operations of the code, so that a run is an interleaving of them.

  The state holds the map of queues, the queue objects it points to (a queue may be deleted and
  another created for the same key while a goroutine still holds the old one), the number of
  slots taken from the global semaphore, and the position of every submitter and worker in its
  code.  \<open>sent\<close> and \<open>taken\<close> record the items in the order in which they entered a channel and
  were received from one; no operation reads them.

  The properties: at most one item of a key is processed at any time, the items of a key are
  processed in the order of their submission and none is lost, no more items than the global
  limit are in flight, and no goroutine blocks where the code assumes it cannot.
\<close>

section \<open>State\<close>

record QueueItem =
  qiEvent :: "EventEnvelope option"
  qiDelivery :: nat
  qiFencingToken :: int
  qiShard :: u32
  qiWorkerID :: string

record queuedItem =
  env :: EventEnvelope
  delivery :: nat
  fencingToken :: int
  vshard :: u32
  workerID :: string

abbreviation item_key :: "queuedItem \<Rightarrow> string" where
  "item_key item \<equiv> evPartitionKey (env item)"

record keyQueue =
  ch :: "queuedItem list"
  partitionKey :: string
  processing :: bool
  submitters :: int

text \<open>Where a call of \<^verbatim>\<open>Submit\<close> is: admitted, holding a slot, registered with a queue, its item
  sent, about to give the slot back, slot given back, returned.  A number is a queue object.\<close>

datatype submitter =
    Admitted queuedItem
  | HoldsSlot queuedItem
  | Registered queuedItem nat
  | Sent queuedItem nat
  | Aborting queuedItem nat gerr
  | Released queuedItem nat gerr
  | Returned "unit result"

text \<open>Where a worker is: at the head of its loop, with a queue selected by \<^verbatim>\<open>nextEvent\<close> but its
  item not yet received, running the processor, after it, after \<^verbatim>\<open>finishEvent\<close>, or gone.  The
  queue object of an item in progress is kept for the statements; the code finds it by its key.\<close>

datatype worker =
    Looping
  | Selected nat
  | Processing queuedItem nat
  | Finishing queuedItem nat
  | Releasing
  | Exited

record KeyQueue =
  queues :: "(string \<times> nat) list"
  objects :: "keyQueue list"
  started :: bool
  stopped :: bool
  submitWG :: int
  workersStopped :: bool
  ctxDone :: bool
  maxPerKey :: int
  maxGlobalInFlight :: int
  globalSem :: int
  workerCount :: int
  hotKeyThreshold :: int
  hotKeys :: "(string \<times> time) list"
  snapshot :: "(string \<times> nat) list option"
  calls :: "submitter list"
  workers :: "worker list"
  sent :: "queuedItem list"
  taken :: "queuedItem list"

definition NewKeyQueue :: "int \<Rightarrow> int \<Rightarrow> int \<Rightarrow> int \<Rightarrow> KeyQueue" where
  "NewKeyQueue maxGlobal maxPerKeyQueue wCount threshold =
     (let maxGlobal' = (if maxGlobal \<le> 0 then 100 else maxGlobal)
      in \<lparr>queues = [], objects = [], started = False, stopped = False, submitWG = 0,
          workersStopped = False, ctxDone = False,
          maxPerKey = (if maxPerKeyQueue \<le> 0 then 100 else maxPerKeyQueue),
          maxGlobalInFlight = maxGlobal', globalSem = 0,
          workerCount = (if wCount \<le> 0 then 1 else wCount),
          hotKeyThreshold = (if threshold \<le> 0 then 1000 else threshold),
          hotKeys = [], snapshot = None, calls = [], workers = [], sent = [], taken = []\<rparr>)"

section \<open>Lifecycle\<close>

text \<open>A nil context is refused before anything is changed; the calls below have one.\<close>

definition Start :: "KeyQueue \<Rightarrow> KeyQueue" where
  "Start kq = (if started kq \<or> stopped kq then kq
     else kq\<lparr>started := True, workers := replicate (nat (workerCount kq)) Looping\<rparr>)"

text \<open>\<^verbatim>\<open>Stop\<close> closes the submissions, waits for the calls already admitted, and then closes the
  channel of the workers.  Both happen once.\<close>

definition Stop_submitting :: "KeyQueue \<Rightarrow> KeyQueue option" where
  "Stop_submitting kq = (if stopped kq then None else Some (kq\<lparr>stopped := True\<rparr>))"

definition Stop_workers :: "KeyQueue \<Rightarrow> KeyQueue option" where
  "Stop_workers kq = (if stopped kq \<and> submitWG kq = 0 \<and> \<not> workersStopped kq
     then Some (kq\<lparr>workersStopped := True\<rparr>) else None)"

section \<open>Submitting\<close>

definition queuedItem_of :: "QueueItem \<Rightarrow> EventEnvelope \<Rightarrow> queuedItem" where
  "queuedItem_of item e = \<lparr>env = e, delivery = qiDelivery item, fencingToken = qiFencingToken item,
     vshard = qiShard item, workerID = qiWorkerID item\<rparr>"

definition validateQueueSubmission :: "bool \<Rightarrow> QueueItem \<Rightarrow> EventEnvelope result" where
  "validateQueueSubmission has_ctx item =
     (if \<not> has_ctx then Inl (ErrorString ''submit event: context is nil'')
      else (case qiEvent item of
          None \<Rightarrow> Inl (ErrorString ''submit event: envelope is nil'')
        | Some e \<Rightarrow> Inr e))"

definition beginSubmission :: "KeyQueue \<Rightarrow> KeyQueue result" where
  "beginSubmission kq =
     (if \<not> started kq \<or> stopped kq then Inl (ErrorString ''submit event: key queue is not running'')
      else Inr (kq\<lparr>submitWG := submitWG kq + 1\<rparr>))"

text \<open>A new call of \<^verbatim>\<open>Submit\<close>, up to its admission.\<close>

definition Submit :: "bool \<Rightarrow> QueueItem \<Rightarrow> KeyQueue \<Rightarrow> KeyQueue" where
  "Submit has_ctx item kq =
     (case validateQueueSubmission has_ctx item of
        Inl err \<Rightarrow> kq\<lparr>calls := calls kq @ [Returned (Inl err)]\<rparr>
      | Inr e \<Rightarrow>
         (case beginSubmission kq of
            Inl err \<Rightarrow> kq\<lparr>calls := calls kq @ [Returned (Inl err)]\<rparr>
          | Inr kq' \<Rightarrow> kq'\<lparr>calls := calls kq' @ [Admitted (queuedItem_of item e)]\<rparr>))"

text \<open>The return of an admitted call runs the deferred \<^verbatim>\<open>submitWG.Done()\<close>.\<close>

definition return_call :: "nat \<Rightarrow> unit result \<Rightarrow> KeyQueue \<Rightarrow> KeyQueue" where
  "return_call i r kq = kq\<lparr>submitWG := submitWG kq - 1, calls := (calls kq)[i := Returned r]\<rparr>"

definition stopping_error :: gerr where
  "stopping_error = ErrorString ''submit event: key queue is stopping''"

text \<open>The cases of a \<^verbatim>\<open>select\<close>: the operation that can proceed, the context that is done (its
  error is given) or the queue that is stopping.\<close>

datatype select_case = Proceed | CtxDone gerr | Stopping

definition acquireGlobalSlot :: "nat \<Rightarrow> select_case \<Rightarrow> KeyQueue \<Rightarrow> KeyQueue option" where
  "acquireGlobalSlot i c kq =
     (case calls kq ! i of
        Admitted item \<Rightarrow>
         (case c of
            Proceed \<Rightarrow>
              if globalSem kq < maxGlobalInFlight kq
              then Some (kq\<lparr>globalSem := globalSem kq + 1, calls := (calls kq)[i := HoldsSlot item]\<rparr>)
              else None
          | CtxDone err \<Rightarrow> Some (return_call i (Inl err) kq)
          | Stopping \<Rightarrow> if stopped kq then Some (return_call i (Inl stopping_error) kq) else None)
      | _ \<Rightarrow> None)"

definition with_object :: "nat \<Rightarrow> (keyQueue \<Rightarrow> keyQueue) \<Rightarrow> KeyQueue \<Rightarrow> KeyQueue" where
  "with_object r f kq = kq\<lparr>objects := (objects kq)[r := f (objects kq ! r)]\<rparr>"

definition find_or_create :: "string \<Rightarrow> KeyQueue \<Rightarrow> nat \<times> KeyQueue" where
  "find_or_create key kq =
     (case map_of (queues kq) key of
        Some r \<Rightarrow> (r, kq)
      | None \<Rightarrow>
         (length (objects kq),
          kq\<lparr>queues := (key, length (objects kq)) # queues kq,
             objects := objects kq @ [\<lparr>ch = [], partitionKey = key, processing = False, submitters = 0\<rparr>]\<rparr>))"

definition registerQueueSubmitter :: "nat \<Rightarrow> KeyQueue \<Rightarrow> KeyQueue option" where
  "registerQueueSubmitter i kq =
     (case calls kq ! i of
        HoldsSlot item \<Rightarrow>
         (case find_or_create (item_key item) kq of
            (r, kq') \<Rightarrow>
              Some ((with_object r (\<lambda>q. q\<lparr>submitters := submitters q + 1\<rparr>) kq')
                \<lparr>calls := (calls kq)[i := Registered item r]\<rparr>))
      | _ \<Rightarrow> None)"

definition enqueueItem :: "nat \<Rightarrow> select_case \<Rightarrow> KeyQueue \<Rightarrow> KeyQueue option" where
  "enqueueItem i c kq =
     (case calls kq ! i of
        Registered item r \<Rightarrow>
         (case c of
            Proceed \<Rightarrow>
              if int (length (ch (objects kq ! r))) < maxPerKey kq
              then Some ((with_object r (\<lambda>q. q\<lparr>ch := ch q @ [item]\<rparr>) kq)
                     \<lparr>calls := (calls kq)[i := Sent item r], sent := sent kq @ [item]\<rparr>)
              else None
          | CtxDone err \<Rightarrow> Some (kq\<lparr>calls := (calls kq)[i := Aborting item r err]\<rparr>)
          | Stopping \<Rightarrow>
              if stopped kq then Some (kq\<lparr>calls := (calls kq)[i := Aborting item r stopping_error]\<rparr>)
              else None)
      | _ \<Rightarrow> None)"

text \<open>\<^verbatim>\<open><-kq.globalSem\<close> of a call that gives up: a receive, which needs a slot to be taken.\<close>

definition release_slot :: "nat \<Rightarrow> KeyQueue \<Rightarrow> KeyQueue option" where
  "release_slot i kq =
     (case calls kq ! i of
        Aborting item r err \<Rightarrow>
          if globalSem kq > 0
          then Some (kq\<lparr>globalSem := globalSem kq - 1, calls := (calls kq)[i := Released item r err]\<rparr>)
          else None
      | _ \<Rightarrow> None)"

definition delete_queue :: "string \<Rightarrow> KeyQueue \<Rightarrow> KeyQueue" where
  "delete_queue key kq = kq\<lparr>queues := filter (\<lambda>p. fst p \<noteq> key) (queues kq)\<rparr>"

definition finishSubmit :: "nat \<Rightarrow> KeyQueue \<Rightarrow> KeyQueue" where
  "finishSubmit r kq =
     (let kq' = with_object r (\<lambda>q. q\<lparr>submitters := max 0 (submitters q - 1)\<rparr>) kq;
          q = objects kq' ! r
      in if map_of (queues kq') (partitionKey q) = Some r \<and> \<not> processing q \<and> submitters q = 0 \<and> ch q = []
         then delete_queue (partitionKey q) kq' else kq')"

definition finish_call :: "nat \<Rightarrow> KeyQueue \<Rightarrow> KeyQueue option" where
  "finish_call i kq =
     (case calls kq ! i of
        Sent item r \<Rightarrow> Some (return_call i (Inr ()) (finishSubmit r kq))
      | Released item r err \<Rightarrow> Some (return_call i (Inl err) (finishSubmit r kq))
      | _ \<Rightarrow> None)"

section \<open>Workers\<close>

definition workerShouldContinue :: "KeyQueue \<Rightarrow> bool" where
  "workerShouldContinue kq = (\<not> ctxDone kq \<and> \<not> workersStopped kq)"

definition worker_exit :: "nat \<Rightarrow> KeyQueue \<Rightarrow> KeyQueue option" where
  "worker_exit w kq =
     (if workers kq ! w = Looping \<and> \<not> workerShouldContinue kq
      then Some (kq\<lparr>workers := (workers kq)[w := Exited]\<rparr>) else None)"

text \<open>The loop of \<^verbatim>\<open>nextEvent\<close> visits the queues in any order and selects the first that is idle
  and not empty: here the key of the one it selects is given.\<close>

definition nextEvent_select :: "nat \<Rightarrow> string \<Rightarrow> KeyQueue \<Rightarrow> KeyQueue option" where
  "nextEvent_select w key kq =
     (if workers kq ! w \<noteq> Looping then None
      else (case map_of (queues kq) key of
          None \<Rightarrow> None
        | Some r \<Rightarrow>
           (if \<not> processing (objects kq ! r) \<and> ch (objects kq ! r) \<noteq> []
            then Some ((with_object r (\<lambda>q. q\<lparr>processing := True\<rparr>) kq)
                   \<lparr>workers := (workers kq)[w := Selected r]\<rparr>)
            else None)))"

definition nextEvent_receive :: "nat \<Rightarrow> KeyQueue \<Rightarrow> KeyQueue option" where
  "nextEvent_receive w kq =
     (case workers kq ! w of
        Selected r \<Rightarrow>
         (case ch (objects kq ! r) of
            [] \<Rightarrow> None
          | item # items \<Rightarrow>
             Some ((with_object r (\<lambda>q. q\<lparr>ch := items\<rparr>) kq)
               \<lparr>workers := (workers kq)[w := Processing item r], taken := taken kq @ [item]\<rparr>))
      | _ \<Rightarrow> None)"

text \<open>\<^verbatim>\<open>processQueuedItem\<close>: the processor returns (its error is only logged), the key is finished,
  and the slot is given back.\<close>

definition processor_returns :: "nat \<Rightarrow> KeyQueue \<Rightarrow> KeyQueue option" where
  "processor_returns w kq =
     (case workers kq ! w of
        Processing item r \<Rightarrow> Some (kq\<lparr>workers := (workers kq)[w := Finishing item r]\<rparr>)
      | _ \<Rightarrow> None)"

definition finishEvent :: "string \<Rightarrow> KeyQueue \<Rightarrow> KeyQueue" where
  "finishEvent key kq =
     (case map_of (queues kq) key of
        None \<Rightarrow> kq
      | Some r \<Rightarrow>
         (let kq' = with_object r (\<lambda>q. q\<lparr>processing := False\<rparr>) kq
          in if submitters (objects kq' ! r) = 0 \<and> ch (objects kq' ! r) = []
             then delete_queue key kq' else kq'))"

definition finish_processing :: "nat \<Rightarrow> KeyQueue \<Rightarrow> KeyQueue option" where
  "finish_processing w kq =
     (case workers kq ! w of
        Finishing item r \<Rightarrow>
          Some ((finishEvent (item_key item) kq)\<lparr>workers := (workers kq)[w := Releasing]\<rparr>)
      | _ \<Rightarrow> None)"

definition release_worker_slot :: "nat \<Rightarrow> KeyQueue \<Rightarrow> KeyQueue option" where
  "release_worker_slot w kq =
     (if workers kq ! w = Releasing \<and> globalSem kq > 0
      then Some (kq\<lparr>globalSem := globalSem kq - 1, workers := (workers kq)[w := Looping]\<rparr>) else None)"

section \<open>Hot keys and statistics\<close>

definition queueSnapshot :: "KeyQueue \<Rightarrow> KeyQueue" where
  "queueSnapshot kq = kq\<lparr>snapshot := Some (queues kq)\<rparr>"

text \<open>The keys of the snapshot that are deep become hot, the others and those not in the snapshot
  are dropped; the notices are the keys that became hot, with their depth.\<close>

definition updateHotKeyState :: "KeyQueue \<Rightarrow> (string \<times> nat) list \<Rightarrow> time \<Rightarrow> KeyQueue \<times> (string \<times> int) list" where
  "updateHotKeyState kq snap now =
     (let depth = (\<lambda>p. int (length (ch (objects kq ! snd p))));
          hot = filter (\<lambda>p. depth p \<ge> hotKeyThreshold kq) snap;
          fresh = filter (\<lambda>p. map_of (hotKeys kq) (fst p) = None) hot;
          kept = filter (\<lambda>p. fst p \<in> fst ` set hot) (hotKeys kq)
      in (kq\<lparr>hotKeys := map (\<lambda>p. (fst p, now)) fresh @ kept\<rparr>, map (\<lambda>p. (fst p, depth p)) fresh))"

definition checkHotKeys :: "time \<Rightarrow> KeyQueue \<Rightarrow> KeyQueue option" where
  "checkHotKeys now kq =
     (case snapshot kq of
        None \<Rightarrow> None
      | Some snap \<Rightarrow> Some ((fst (updateHotKeyState kq snap now))\<lparr>snapshot := None\<rparr>))"

record QueueStats =
  stActiveKeys :: int
  stProcessing :: int
  stHotKeys :: "(string \<times> int \<times> time) list"
  stGlobalDepth :: int
  stMaxGlobalDepth :: int

text \<open>The depth of each hot key is read from its queue; for a key without one the code
  dereferences nil and panics (\<open>None\<close>).\<close>

definition hot_key_infos :: "KeyQueue \<Rightarrow> (string \<times> int \<times> time) list option" where
  "hot_key_infos kq = those (map (\<lambda>p. map_option
       (\<lambda>r. (fst p, int (length (ch (objects kq ! r))), snd p)) (map_of (queues kq) (fst p))) (hotKeys kq))"

definition Stats :: "KeyQueue \<Rightarrow> QueueStats option" where
  "Stats kq =
     map_option (\<lambda>infos.
       \<lparr>stActiveKeys = int (length (queues kq)),
        stProcessing = int (length (filter (\<lambda>p. ch (objects kq ! snd p) \<noteq> [] \<and> \<not> processing (objects kq ! snd p)) (queues kq))),
        stHotKeys = infos,
        stGlobalDepth = sum_list (map (\<lambda>p. int (length (ch (objects kq ! snd p)))) (queues kq)),
        stMaxGlobalDepth = maxGlobalInFlight kq\<rparr>) (hot_key_infos kq)"

definition QueueDepth :: "string \<Rightarrow> KeyQueue \<Rightarrow> int" where
  "QueueDepth key kq =
     (case map_of (queues kq) key of Some r \<Rightarrow> int (length (ch (objects kq ! r))) | None \<Rightarrow> 0)"

definition ActiveKeys :: "KeyQueue \<Rightarrow> int" where
  "ActiveKeys kq = int (length (queues kq))"

section \<open>Interleavings\<close>

datatype action =
    DoStart | DoStopSubmitting | DoStopWorkers | DoCancel
  | DoSnapshot | DoCheckHotKeys time
  | DoSubmit bool QueueItem

datatype call_step = Acquire select_case | Register | Enqueue select_case | GiveBack | Finish

datatype worker_step = Exit | Select string | Receive | ProcessorReturns | FinishProcessing | ReleaseSlot

datatype label = Env action | Call nat call_step | Work nat worker_step

primrec exec_env :: "action \<Rightarrow> KeyQueue \<Rightarrow> KeyQueue option" where
  "exec_env DoStart kq = Some (Start kq)"
| "exec_env DoStopSubmitting kq = Stop_submitting kq"
| "exec_env DoStopWorkers kq = Stop_workers kq"
| "exec_env DoCancel kq = Some (kq\<lparr>ctxDone := True\<rparr>)"
| "exec_env DoSnapshot kq = Some (queueSnapshot kq)"
| "exec_env (DoCheckHotKeys now) kq = checkHotKeys now kq"
| "exec_env (DoSubmit has_ctx item) kq = Some (Submit has_ctx item kq)"

primrec exec_call :: "nat \<Rightarrow> call_step \<Rightarrow> KeyQueue \<Rightarrow> KeyQueue option" where
  "exec_call i (Acquire c) kq = acquireGlobalSlot i c kq"
| "exec_call i Register kq = registerQueueSubmitter i kq"
| "exec_call i (Enqueue c) kq = enqueueItem i c kq"
| "exec_call i GiveBack kq = release_slot i kq"
| "exec_call i Finish kq = finish_call i kq"

primrec exec_worker :: "nat \<Rightarrow> worker_step \<Rightarrow> KeyQueue \<Rightarrow> KeyQueue option" where
  "exec_worker w Exit kq = worker_exit w kq"
| "exec_worker w (Select key) kq = nextEvent_select w key kq"
| "exec_worker w Receive kq = nextEvent_receive w kq"
| "exec_worker w ProcessorReturns kq = processor_returns w kq"
| "exec_worker w FinishProcessing kq = finish_processing w kq"
| "exec_worker w ReleaseSlot kq = release_worker_slot w kq"

primrec exec :: "label \<Rightarrow> KeyQueue \<Rightarrow> KeyQueue option" where
  "exec (Env a) kq = exec_env a kq"
| "exec (Call i c) kq = (if i < length (calls kq) then exec_call i c kq else None)"
| "exec (Work w c) kq = (if w < length (workers kq) then exec_worker w c kq else None)"

definition kq_step :: "KeyQueue \<Rightarrow> label \<Rightarrow> KeyQueue \<Rightarrow> bool" where
  "kq_step kq l kq' = (exec l kq = Some kq')"

definition kq_initial :: "KeyQueue \<Rightarrow> bool" where
  "kq_initial kq = (\<exists>g k w t. kq = NewKeyQueue g k w t)"

primrec exec_all :: "label list \<Rightarrow> KeyQueue \<Rightarrow> KeyQueue option" where
  "exec_all [] kq = Some kq"
| "exec_all (l # ls) kq = Option.bind (exec l kq) (exec_all ls)"

lemma exec_all_run: "exec_all ls kq = Some kq' \<longleftrightarrow> run kq_step kq ls kq'"
  by (induction ls arbitrary: kq) (auto simp: run_Cons_iff kq_step_def bind_eq_Some_conv)

section \<open>Invariant\<close>

primrec call_queue :: "submitter \<Rightarrow> (queuedItem \<times> nat) option" where
  "call_queue (Admitted item) = None"
| "call_queue (HoldsSlot item) = None"
| "call_queue (Registered item r) = Some (item, r)"
| "call_queue (Sent item r) = Some (item, r)"
| "call_queue (Aborting item r err) = Some (item, r)"
| "call_queue (Released item r err) = Some (item, r)"
| "call_queue (Returned res) = None"

definition call_ref :: "submitter \<Rightarrow> nat option" where
  "call_ref c = map_option snd (call_queue c)"

lemma call_ref_simps [simp]:
  "call_ref (Admitted item) = None" "call_ref (HoldsSlot item) = None"
  "call_ref (Registered item r) = Some r" "call_ref (Sent item r) = Some r"
  "call_ref (Aborting item r err) = Some r" "call_ref (Released item r err) = Some r"
  "call_ref (Returned res) = None"
  by (simp_all add: call_ref_def)

primrec call_slot :: "submitter \<Rightarrow> bool" where
  "call_slot (Admitted item) = False"
| "call_slot (HoldsSlot item) = True"
| "call_slot (Registered item r) = True"
| "call_slot (Sent item r) = False"
| "call_slot (Aborting item r err) = True"
| "call_slot (Released item r err) = False"
| "call_slot (Returned res) = False"

primrec call_open :: "submitter \<Rightarrow> bool" where
  "call_open (Admitted item) = True"
| "call_open (HoldsSlot item) = True"
| "call_open (Registered item r) = True"
| "call_open (Sent item r) = True"
| "call_open (Aborting item r err) = True"
| "call_open (Released item r err) = True"
| "call_open (Returned res) = False"

primrec worker_queue :: "worker \<Rightarrow> nat option" where
  "worker_queue Looping = None"
| "worker_queue (Selected r) = Some r"
| "worker_queue (Processing item r) = Some r"
| "worker_queue (Finishing item r) = Some r"
| "worker_queue Releasing = None"
| "worker_queue Exited = None"

primrec worker_item :: "worker \<Rightarrow> queuedItem option" where
  "worker_item Looping = None"
| "worker_item (Selected r) = None"
| "worker_item (Processing item r) = Some item"
| "worker_item (Finishing item r) = Some item"
| "worker_item Releasing = None"
| "worker_item Exited = None"

primrec worker_slot :: "worker \<Rightarrow> bool" where
  "worker_slot Looping = False"
| "worker_slot (Selected r) = False"
| "worker_slot (Processing item r) = True"
| "worker_slot (Finishing item r) = True"
| "worker_slot Releasing = True"
| "worker_slot Exited = False"

definition number_of :: "('a \<Rightarrow> bool) \<Rightarrow> 'a list \<Rightarrow> int" where
  "number_of P xs = int (length (filter P xs))"

lemma number_of_simps [simp]:
  "number_of P [] = 0"
  "number_of P (x # xs) = (if P x then 1 else 0) + number_of P xs"
  "number_of P (xs @ ys) = number_of P xs + number_of P ys"
  "0 \<le> number_of P xs"
  by (simp_all add: number_of_def)

lemma number_of_replicate [simp]: "\<not> P x \<Longrightarrow> number_of P (replicate n x) = 0"
  by (simp add: number_of_def)

lemma number_of_update [simp]:
  "i < length xs \<Longrightarrow> number_of P (xs[i := x]) =
     number_of P xs - (if P (xs ! i) then 1 else 0) + (if P x then 1 else 0)"
proof (induction xs arbitrary: i)
  case (Cons y ys)
  then show ?case by (cases i) auto
qed simp

lemma number_of_pos: "i < length xs \<Longrightarrow> P (xs ! i) \<Longrightarrow> 0 < number_of P xs"
  by (auto simp: number_of_def filter_empty_conv intro: nth_mem)

lemma sum_list_update_int [simp]:
  "i < length xs \<Longrightarrow> (\<Sum>x\<leftarrow>xs[i := y]. (f x :: int)) = (\<Sum>x\<leftarrow>xs. f x) - f (xs ! i) + f y"
proof (induction xs arbitrary: i)
  case (Cons z zs)
  then show ?case by (cases i) auto
qed simp

text \<open>The parts of the invariant, as conditions on the parts of the state they speak about.\<close>

definition map_ok :: "(string \<times> nat) list \<Rightarrow> keyQueue list \<Rightarrow> bool" where
  "map_ok qs os = (distinct (map fst qs) \<and>
     (\<forall>(k, r) \<in> set qs. r < length os \<and> partitionKey (os ! r) = k))"

definition unmapped_empty :: "(string \<times> nat) list \<Rightarrow> keyQueue list \<Rightarrow> bool" where
  "unmapped_empty qs os = (\<forall>r < length os. (partitionKey (os ! r), r) \<notin> set qs \<longrightarrow> ch (os ! r) = [])"

definition submitters_ok :: "keyQueue list \<Rightarrow> submitter list \<Rightarrow> bool" where
  "submitters_ok os cs = (\<forall>r < length os.
     submitters (os ! r) = number_of (\<lambda>c. call_ref c = Some r) cs)"

definition processing_ok :: "keyQueue list \<Rightarrow> worker list \<Rightarrow> bool" where
  "processing_ok os ws = (\<forall>r < length os.
     processing (os ! r) \<longleftrightarrow> (\<exists>w < length ws. worker_queue (ws ! w) = Some r))"

definition channels_ok :: "keyQueue list \<Rightarrow> int \<Rightarrow> bool" where
  "channels_ok os m = (0 < m \<and> (\<forall>r < length os.
     (\<forall>item \<in> set (ch (os ! r)). item_key item = partitionKey (os ! r)) \<and> int (length (ch (os ! r))) \<le> m))"

definition calls_ok :: "(string \<times> nat) list \<Rightarrow> keyQueue list \<Rightarrow> submitter list \<Rightarrow> bool" where
  "calls_ok qs os cs = (\<forall>i < length cs. \<forall>item r. call_queue (cs ! i) = Some (item, r) \<longrightarrow>
     r < length os \<and> (partitionKey (os ! r), r) \<in> set qs \<and> item_key item = partitionKey (os ! r))"

definition workers_ok :: "(string \<times> nat) list \<Rightarrow> keyQueue list \<Rightarrow> worker list \<Rightarrow> bool" where
  "workers_ok qs os ws = (\<forall>w < length ws. \<forall>r. worker_queue (ws ! w) = Some r \<longrightarrow>
     r < length os \<and> (partitionKey (os ! r), r) \<in> set qs \<and>
     (\<forall>item. worker_item (ws ! w) = Some item \<longrightarrow> item_key item = partitionKey (os ! r)) \<and>
     (ws ! w = Selected r \<longrightarrow> ch (os ! r) \<noteq> []))"

definition exclusive :: "worker list \<Rightarrow> bool" where
  "exclusive ws = (\<forall>w < length ws. \<forall>w' < length ws. \<forall>r.
     worker_queue (ws ! w) = Some r \<longrightarrow> worker_queue (ws ! w') = Some r \<longrightarrow> w = w')"

definition slots_ok :: "int \<Rightarrow> keyQueue list \<Rightarrow> submitter list \<Rightarrow> worker list \<Rightarrow> bool" where
  "slots_ok sem os cs ws = (sem = (\<Sum>q\<leftarrow>os. int (length (ch q))) + number_of call_slot cs + number_of worker_slot ws)"

definition fifo_ok :: "(string \<times> nat) list \<Rightarrow> keyQueue list \<Rightarrow> queuedItem list \<Rightarrow> queuedItem list \<Rightarrow> bool" where
  "fifo_ok qs os snt tkn = (\<forall>key. filter (\<lambda>item. item_key item = key) snt =
     filter (\<lambda>item. item_key item = key) tkn @
     (case map_of qs key of None \<Rightarrow> [] | Some r \<Rightarrow> ch (os ! r)))"

definition kq_inv :: "KeyQueue \<Rightarrow> bool" where
  "kq_inv kq =
     (map_ok (queues kq) (objects kq) \<and> unmapped_empty (queues kq) (objects kq) \<and>
      submitters_ok (objects kq) (calls kq) \<and> processing_ok (objects kq) (workers kq) \<and>
      channels_ok (objects kq) (maxPerKey kq) \<and> calls_ok (queues kq) (objects kq) (calls kq) \<and>
      workers_ok (queues kq) (objects kq) (workers kq) \<and> exclusive (workers kq) \<and>
      slots_ok (globalSem kq) (objects kq) (calls kq) (workers kq) \<and>
      globalSem kq \<le> maxGlobalInFlight kq \<and> submitWG kq = number_of call_open (calls kq) \<and>
      (started kq \<or> workers kq = []) \<and>
      fifo_ok (queues kq) (objects kq) (sent kq) (taken kq))"

lemma kq_inv_initial: "kq_initial kq \<Longrightarrow> kq_inv kq"
  by (auto simp: kq_initial_def NewKeyQueue_def kq_inv_def map_ok_def unmapped_empty_def submitters_ok_def
      processing_ok_def channels_ok_def calls_ok_def workers_ok_def exclusive_def slots_ok_def fifo_ok_def Let_def)

text \<open>How the parts depend on the lists of calls and workers.\<close>

lemma calls_ok_update:
  assumes "calls_ok qs os cs" and "i < length cs"
    and "\<And>item r. call_queue c = Some (item, r) \<Longrightarrow> r < length os \<and> (partitionKey (os ! r), r) \<in> set qs \<and>
      item_key item = partitionKey (os ! r)"
  shows "calls_ok qs os (cs[i := c])"
  using assms unfolding calls_ok_def by (auto simp: nth_list_update)

lemma calls_ok_D:
  "calls_ok qs os cs \<Longrightarrow> i < length cs \<Longrightarrow> call_queue (cs ! i) = Some (item, r) \<Longrightarrow>
     r < length os \<and> (partitionKey (os ! r), r) \<in> set qs \<and> item_key item = partitionKey (os ! r)"
  unfolding calls_ok_def by blast

lemma submitters_ok_same:
  assumes "submitters_ok os cs" and "i < length cs" and "call_ref c = call_ref (cs ! i)"
  shows "submitters_ok os (cs[i := c])"
  using assms unfolding submitters_ok_def by simp

lemma submitters_ok_append: "submitters_ok os cs \<Longrightarrow> call_ref c = None \<Longrightarrow> submitters_ok os (cs @ [c])"
  unfolding submitters_ok_def by simp

lemma calls_ok_append: "calls_ok qs os cs \<Longrightarrow> call_queue c = None \<Longrightarrow> calls_ok qs os (cs @ [c])"
  unfolding calls_ok_def by (auto simp: nth_append less_Suc_eq)

lemma slots_ok_calls:
  assumes "slots_ok sem os cs ws" and "i < length cs"
  shows "slots_ok (sem - (if call_slot (cs ! i) then 1 else 0) + (if call_slot c then 1 else 0)) os (cs[i := c]) ws"
  using assms unfolding slots_ok_def by simp

lemma slots_ok_workers:
  assumes "slots_ok sem os cs ws" and "i < length ws"
  shows "slots_ok (sem - (if worker_slot (ws ! i) then 1 else 0) + (if worker_slot c then 1 else 0)) os cs (ws[i := c])"
  using assms unfolding slots_ok_def by simp

lemma no_workers_ok:
  "processing_ok os [] \<Longrightarrow> processing_ok os (replicate n Looping)"
  "workers_ok qs os (replicate n Looping)" "exclusive (replicate n Looping)"
  "slots_ok sem os cs [] \<Longrightarrow> slots_ok sem os cs (replicate n Looping)"
  by (auto simp: processing_ok_def workers_ok_def exclusive_def slots_ok_def)

lemma exec_env_inv:
  assumes "kq_inv kq" and "exec_env a kq = Some kq'"
  shows "kq_inv kq'"
proof (cases a)
  case DoStart
  then show ?thesis
    using assms by (auto simp: Start_def kq_inv_def no_workers_ok)
next
  case (DoSubmit has_ctx item)
  then show ?thesis
    using assms
    by (auto simp: Submit_def beginSubmission_def kq_inv_def submitters_ok_append calls_ok_append
        slots_ok_def split: sum.splits if_splits)
qed (use assms in \<open>auto simp: Stop_submitting_def Stop_workers_def queueSnapshot_def checkHotKeys_def
    updateHotKeyState_def Let_def kq_inv_def split: if_splits option.splits\<close>)


text \<open>How the parts depend on one queue object, whose key never changes.\<close>

lemma map_ok_object: "map_ok qs os \<Longrightarrow> partitionKey q = partitionKey (os ! r) \<Longrightarrow> map_ok qs (os[r := q])"
  unfolding map_ok_def by (cases "r < length os") (auto simp: nth_list_update)

lemma calls_ok_object: "calls_ok qs os cs \<Longrightarrow> partitionKey q = partitionKey (os ! r) \<Longrightarrow> calls_ok qs (os[r := q]) cs"
  unfolding calls_ok_def by (cases "r < length os") (auto simp: nth_list_update)

lemma unmapped_empty_object:
  "unmapped_empty qs os \<Longrightarrow> partitionKey q = partitionKey (os ! r) \<Longrightarrow>
     (partitionKey q, r) \<in> set qs \<or> ch q = [] \<Longrightarrow> unmapped_empty qs (os[r := q])"
  unfolding unmapped_empty_def by (cases "r < length os") (auto simp: nth_list_update)

lemma processing_ok_object:
  "processing_ok os ws \<Longrightarrow> processing q = processing (os ! r) \<Longrightarrow> processing_ok (os[r := q]) ws"
  unfolding processing_ok_def by (cases "r < length os") (auto simp: nth_list_update)

lemma submitters_ok_object:
  "submitters_ok os cs \<Longrightarrow> submitters q = submitters (os ! r) \<Longrightarrow> submitters_ok (os[r := q]) cs"
  unfolding submitters_ok_def by (cases "r < length os") (auto simp: nth_list_update)

lemma channels_ok_object:
  "channels_ok os m \<Longrightarrow> partitionKey q = partitionKey (os ! r) \<Longrightarrow>
     (\<forall>item \<in> set (ch q). item_key item = partitionKey q) \<and> int (length (ch q)) \<le> m \<Longrightarrow> channels_ok (os[r := q]) m"
  unfolding channels_ok_def by (cases "r < length os") (auto simp: nth_list_update)

lemma channels_ok_same:
  "channels_ok os m \<Longrightarrow> r < length os \<Longrightarrow> partitionKey q = partitionKey (os ! r) \<Longrightarrow> ch q = ch (os ! r) \<Longrightarrow>
     channels_ok (os[r := q]) m"
  by (rule channels_ok_object) (auto simp: channels_ok_def)

lemma workers_ok_object:
  "workers_ok qs os ws \<Longrightarrow> partitionKey q = partitionKey (os ! r) \<Longrightarrow> ch (os ! r) = [] \<or> ch q \<noteq> [] \<Longrightarrow>
     workers_ok qs (os[r := q]) ws"
  unfolding workers_ok_def by (cases "r < length os") (auto simp: nth_list_update)

lemma slots_ok_object:
  assumes "slots_ok sem os cs ws" and "r < length os"
  shows "slots_ok (sem - int (length (ch (os ! r))) + int (length (ch q))) (os[r := q]) cs ws"
  using assms unfolding slots_ok_def by simp

lemma fifo_ok_object: "fifo_ok qs os snt tkn \<Longrightarrow> ch q = ch (os ! r) \<Longrightarrow> fifo_ok qs (os[r := q]) snt tkn"
  unfolding fifo_ok_def
  by (cases "r < length os") (auto simp: nth_list_update list_update_beyond split: option.splits)

lemma map_ok_map_of: "map_ok qs os \<Longrightarrow> map_of qs key = Some r \<longleftrightarrow> (key, r) \<in> set qs"
  unfolding map_ok_def by auto

lemma map_ok_D: "map_ok qs os \<Longrightarrow> (key, r) \<in> set qs \<Longrightarrow> r < length os \<and> partitionKey (os ! r) = key"
  unfolding map_ok_def by auto

lemma fifo_ok_step:
  assumes "map_ok qs os" and "(key, r) \<in> set qs"
    and "filter (\<lambda>item. item_key item = key) snt' = filter (\<lambda>item. item_key item = key) tkn' @ ch q"
    and "\<And>key'. key' \<noteq> key \<Longrightarrow> filter (\<lambda>item. item_key item = key') snt' = filter (\<lambda>item. item_key item = key') snt \<and>
      filter (\<lambda>item. item_key item = key') tkn' = filter (\<lambda>item. item_key item = key') tkn"
    and "fifo_ok qs os snt tkn"
  shows "fifo_ok qs (os[r := q]) snt' tkn'"
  unfolding fifo_ok_def
proof
  fix key'
  show "filter (\<lambda>item. item_key item = key') snt' = filter (\<lambda>item. item_key item = key') tkn' @
    (case map_of qs key' of None \<Rightarrow> [] | Some r' \<Rightarrow> ch (os[r := q] ! r'))"
  proof (cases "key' = key")
    case True
    then show ?thesis
      using assms(1-3) map_ok_D [OF assms(1,2)] by (simp add: map_ok_map_of [OF assms(1), THEN iffD2])
  next
    case False
    then have "map_of qs key' \<noteq> Some r"
      using map_ok_D [OF assms(1,2)] map_ok_D [OF assms(1), of key' r] map_ok_map_of [OF assms(1), of key' r]
      by auto
    then show ?thesis
      using assms(4) [OF False] assms(5) by (cases "map_of qs key'") (simp_all add: fifo_ok_def)
  qed
qed

lemma fifo_ok_head: "map_ok qs os \<Longrightarrow> (key, r) \<in> set qs \<Longrightarrow> fifo_ok qs os snt tkn \<Longrightarrow>
  filter (\<lambda>item. item_key item = key) snt = filter (\<lambda>item. item_key item = key) tkn @ ch (os ! r)"
  by (simp add: fifo_ok_def map_ok_map_of [THEN iffD2])

lemma fifo_ok_send:
  assumes "fifo_ok qs os snt tkn" and "map_ok qs os" and "(partitionKey (os ! r), r) \<in> set qs"
    and "item_key item = partitionKey (os ! r)"
  shows "fifo_ok qs (os[r := (os ! r)\<lparr>ch := ch (os ! r) @ [item]\<rparr>]) (snt @ [item]) tkn"
  using fifo_ok_head [OF assms(2,3,1)] assms by (intro fifo_ok_step [OF assms(2,3)]) auto

lemma fifo_ok_receive:
  assumes "fifo_ok qs os snt tkn" and "map_ok qs os" and "(partitionKey (os ! r), r) \<in> set qs"
    and "ch (os ! r) = item # items" and "item_key item = partitionKey (os ! r)"
  shows "fifo_ok qs (os[r := (os ! r)\<lparr>ch := items\<rparr>]) snt (tkn @ [item])"
  using fifo_ok_head [OF assms(2,3,1)] assms by (intro fifo_ok_step [OF assms(2,3)]) auto

text \<open>A new queue object for a key that has none.\<close>

lemma new_object_ok:
  assumes "q = \<lparr>ch = [], partitionKey = key, processing = False, submitters = 0\<rparr>" and "map_of qs key = None"
  shows "map_ok qs os \<Longrightarrow> map_ok ((key, length os) # qs) (os @ [q])"
    and "unmapped_empty qs os \<Longrightarrow> unmapped_empty ((key, length os) # qs) (os @ [q])"
    and "calls_ok qs os cs \<Longrightarrow> submitters_ok os cs \<Longrightarrow> submitters_ok (os @ [q]) cs"
    and "workers_ok qs os ws \<Longrightarrow> processing_ok os ws \<Longrightarrow> processing_ok (os @ [q]) ws"
    and "channels_ok os m \<Longrightarrow> channels_ok (os @ [q]) m"
    and "calls_ok qs os cs \<Longrightarrow> calls_ok ((key, length os) # qs) (os @ [q]) cs"
    and "workers_ok qs os ws \<Longrightarrow> workers_ok ((key, length os) # qs) (os @ [q]) ws"
    and "slots_ok sem os cs ws \<Longrightarrow> slots_ok sem (os @ [q]) cs ws"
    and "map_ok qs os \<Longrightarrow> fifo_ok qs os snt tkn \<Longrightarrow> fifo_ok ((key, length os) # qs) (os @ [q]) snt tkn"
proof -
  assume "calls_ok qs os cs" "submitters_ok os cs"
  moreover from this(1) have "number_of (\<lambda>c. call_ref c = Some (length os)) cs = 0"
    by (fastforce simp: number_of_def filter_empty_conv calls_ok_def in_set_conv_nth call_ref_def)
  ultimately show "submitters_ok (os @ [q]) cs"
    using assms by (auto simp: submitters_ok_def nth_append less_Suc_eq)
next
  assume "workers_ok qs os ws" "processing_ok os ws"
  then show "processing_ok (os @ [q]) ws"
    using assms by (fastforce simp: processing_ok_def workers_ok_def nth_append less_Suc_eq)
next
  assume "map_ok qs os"
  then show "map_ok ((key, length os) # qs) (os @ [q])"
    using assms by (force simp: map_ok_def map_of_eq_None_iff nth_append)
next
  assume "map_ok qs os" "fifo_ok qs os snt tkn"
  moreover from this(1) have "r < length os" if "map_of qs k = Some r" for k r
    using that by (auto simp: map_ok_map_of dest: map_ok_D)
  ultimately show "fifo_ok ((key, length os) # qs) (os @ [q]) snt tkn"
    using assms by (auto simp: fifo_ok_def nth_append split: option.splits)
next
  assume "unmapped_empty qs os"
  then show "unmapped_empty ((key, length os) # qs) (os @ [q])"
    using assms by (auto simp: unmapped_empty_def nth_append less_Suc_eq)
next
  assume "channels_ok os m"
  then show "channels_ok (os @ [q]) m"
    using assms by (auto simp: channels_ok_def nth_append less_Suc_eq)
next
  assume "calls_ok qs os cs"
  then show "calls_ok ((key, length os) # qs) (os @ [q]) cs"
    unfolding calls_ok_def by (auto simp: nth_append)
next
  assume "workers_ok qs os ws"
  then show "workers_ok ((key, length os) # qs) (os @ [q]) ws"
    unfolding workers_ok_def by (auto simp: nth_append)
next
  assume "slots_ok sem os cs ws"
  then show "slots_ok sem (os @ [q]) cs ws"
    using assms by (simp add: slots_ok_def)
qed


section \<open>Every step keeps the invariant\<close>

lemma acquireGlobalSlot_inv:
  assumes "kq_inv kq" and "i < length (calls kq)" and "acquireGlobalSlot i c kq = Some kq'"
  shows "kq_inv kq'"
proof -
  from assms(3) obtain item where item: "calls kq ! i = Admitted item"
    by (auto simp: acquireGlobalSlot_def split: submitter.splits)
  have parts: "submitters_ok (objects kq) ((calls kq)[i := c'])" "calls_ok (queues kq) (objects kq) ((calls kq)[i := c'])"
    "slots_ok (globalSem kq + (if call_slot c' then 1 else 0)) (objects kq) ((calls kq)[i := c']) (workers kq)"
    if "c' = HoldsSlot item \<or> c' = Returned res" for c' res
    using assms(1,2) item that slots_ok_calls [of "globalSem kq" "objects kq" "calls kq" "workers kq" i c']
    by (auto simp: kq_inv_def intro!: submitters_ok_same calls_ok_update)
  show ?thesis
    using assms item parts [of "HoldsSlot item"] parts [of "Returned (Inl e)" "Inl e" for e]
    by (auto simp: acquireGlobalSlot_def return_call_def kq_inv_def split: select_case.splits if_splits)
qed

lemma registerQueueSubmitter_inv:
  assumes "kq_inv kq" and "i < length (calls kq)" and "registerQueueSubmitter i kq = Some kq'"
  shows "kq_inv kq'"
proof -
  from assms(3) obtain item where item: "calls kq ! i = HoldsSlot item"
    by (auto simp: registerQueueSubmitter_def split: submitter.splits)
  obtain r kq1 where fc: "find_or_create (item_key item) kq = (r, kq1)"
    by fastforce
  have "kq_inv kq1 \<and> calls kq1 = calls kq \<and> (item_key item, r) \<in> set (queues kq1)"
  proof (cases "map_of (queues kq) (item_key item)")
    case None
    then show ?thesis
      using fc assms(1) new_object_ok [OF refl None] by (auto simp: find_or_create_def kq_inv_def)
  next
    case (Some r')
    then show ?thesis
      using fc assms(1) by (auto simp: find_or_create_def dest: map_of_SomeD)
  qed
  then have inv: "kq_inv kq1" and calls: "calls kq1 = calls kq"
    and r: "r < length (objects kq1)" "partitionKey (objects kq1 ! r) = item_key item"
      "(item_key item, r) \<in> set (queues kq1)"
    by (auto simp: kq_inv_def dest: map_ok_D)
  let ?q = "(objects kq1 ! r)\<lparr>submitters := submitters (objects kq1 ! r) + 1\<rparr>"
    and ?cs = "(calls kq1)[i := Registered item r]"
  have "kq' = kq1\<lparr>objects := (objects kq1)[r := ?q], calls := ?cs\<rparr>"
    using assms(3) item fc calls by (simp add: registerQueueSubmitter_def with_object_def)
  moreover have "submitters_ok ((objects kq1)[r := ?q]) ?cs"
    using inv assms(2) item calls r(1)
    by (auto simp: kq_inv_def submitters_ok_def nth_list_update)
  moreover have "calls_ok (queues kq1) ((objects kq1)[r := ?q]) ?cs"
    using inv assms(2) calls r by (auto simp: kq_inv_def intro!: calls_ok_update calls_ok_object)
  moreover have "slots_ok (globalSem kq1) ((objects kq1)[r := ?q]) ?cs (workers kq1)"
    using inv assms(2) item calls r slots_ok_calls [OF slots_ok_object, of "globalSem kq1" "objects kq1" "calls kq1" "workers kq1" r i ?q "Registered item r"]
    by (simp add: kq_inv_def)
  ultimately show ?thesis
    using inv assms(2) item calls r
    by (auto simp: kq_inv_def intro!: map_ok_object unmapped_empty_object processing_ok_object channels_ok_same
        workers_ok_object fifo_ok_object)
qed

lemma enqueueItem_inv:
  assumes "kq_inv kq" and "i < length (calls kq)" and "enqueueItem i c kq = Some kq'"
  shows "kq_inv kq'"
proof -
  from assms(3) obtain item r where item: "calls kq ! i = Registered item r"
    by (auto simp: enqueueItem_def split: submitter.splits)
  have r: "r < length (objects kq)" "(partitionKey (objects kq ! r), r) \<in> set (queues kq)"
      "item_key item = partitionKey (objects kq ! r)"
    using assms(1,2) item calls_ok_D [of "queues kq" "objects kq" "calls kq" i item r] by (auto simp: kq_inv_def)
  have abort: "kq_inv (kq\<lparr>calls := (calls kq)[i := Aborting item r err]\<rparr>)" for err
    using assms(1,2) item r slots_ok_calls [of "globalSem kq" "objects kq" "calls kq" "workers kq" i "Aborting item r err"]
    by (auto simp: kq_inv_def intro!: submitters_ok_same calls_ok_update)
  let ?q = "(objects kq ! r)\<lparr>ch := ch (objects kq ! r) @ [item]\<rparr>" and ?cs = "(calls kq)[i := Sent item r]"
  have "kq_inv (kq\<lparr>objects := (objects kq)[r := ?q], calls := ?cs, sent := sent kq @ [item]\<rparr>)"
    if "int (length (ch (objects kq ! r))) < maxPerKey kq"
  proof -
    have "slots_ok (globalSem kq) ((objects kq)[r := ?q]) ?cs (workers kq)"
      using assms(1,2) item r slots_ok_calls [OF slots_ok_object, of "globalSem kq" "objects kq" "calls kq" "workers kq" r i ?q "Sent item r"]
      by (simp add: kq_inv_def)
    moreover have "submitters_ok ((objects kq)[r := ?q]) ?cs"
      using assms(1,2) item by (auto simp: kq_inv_def intro!: submitters_ok_same submitters_ok_object)
    moreover have "channels_ok ((objects kq)[r := ?q]) (maxPerKey kq)"
      using assms(1) r that by (auto simp: kq_inv_def channels_ok_def nth_list_update)
    ultimately show ?thesis
      using assms(1,2) item r fifo_ok_send [of "queues kq" "objects kq" "sent kq" "taken kq" r item]
      by (auto simp: kq_inv_def intro!: map_ok_object unmapped_empty_object processing_ok_object
          calls_ok_update calls_ok_object workers_ok_object)
  qed
  then show ?thesis
    using assms(3) item abort
    by (auto simp: enqueueItem_def with_object_def split: select_case.splits if_splits)
qed

lemma release_slot_inv:
  assumes "kq_inv kq" and "i < length (calls kq)" and "release_slot i kq = Some kq'"
  shows "kq_inv kq'"
proof -
  from assms(3) obtain item r err where item: "calls kq ! i = Aborting item r err"
    by (auto simp: release_slot_def split: submitter.splits)
  then show ?thesis
    using assms slots_ok_calls [of "globalSem kq" "objects kq" "calls kq" "workers kq" i "Released item r err"]
      calls_ok_D [of "queues kq" "objects kq" "calls kq" i item r]
    by (auto simp: release_slot_def kq_inv_def split: if_splits intro!: submitters_ok_same calls_ok_update)
qed

text \<open>Deleting a queue that no goroutine uses.\<close>

lemma map_of_delete: "map_of (filter (\<lambda>p. fst p \<noteq> key) m) k = (if k = key then None else map_of m k)"
  by (induction m) auto

lemma delete_queue_inv:
  assumes "kq_inv kq" and "map_of (queues kq) key = Some r" and "\<not> processing (objects kq ! r)"
    and "submitters (objects kq ! r) = 0" and "ch (objects kq ! r) = []"
  shows "kq_inv (delete_queue key kq)"
proof -
  let ?qs = "filter (\<lambda>p. fst p \<noteq> key) (queues kq)"
  have map: "map_ok (queues kq) (objects kq)" and r: "r < length (objects kq)" "partitionKey (objects kq ! r) = key"
    using assms(1,2) by (auto simp: kq_inv_def map_ok_map_of dest: map_ok_D)
  have only: "r' = r" if "(key, r') \<in> set (queues kq)" for r'
    using that assms(2) map by (metis map_ok_map_of option.inject)
  have "map_ok ?qs (objects kq)"
    using map by (auto simp: map_ok_def distinct_map_filter)
  moreover have "unmapped_empty ?qs (objects kq)"
    using assms(1,5) only by (auto simp: kq_inv_def unmapped_empty_def)
  moreover have "calls_ok ?qs (objects kq) (calls kq)"
  proof -
    have "number_of (\<lambda>c. call_ref c = Some r) (calls kq) = 0"
      using assms(1,4) r by (simp add: kq_inv_def submitters_ok_def)
    then have "call_queue (calls kq ! i) \<noteq> Some (item, r)" if "i < length (calls kq)" for i item
      using that number_of_pos [of i "calls kq" "\<lambda>c. call_ref c = Some r"] by (auto simp: call_ref_def)
    then show ?thesis
      using assms(1) only r by (fastforce simp: kq_inv_def calls_ok_def)
  qed
  moreover have "workers_ok ?qs (objects kq) (workers kq)"
  proof -
    have "worker_queue (workers kq ! w) \<noteq> Some r" if "w < length (workers kq)" for w
      using that assms(1,3) r by (auto simp: kq_inv_def processing_ok_def)
    then show ?thesis
      using assms(1) only by (fastforce simp: kq_inv_def workers_ok_def)
  qed
  moreover have "fifo_ok ?qs (objects kq) (sent kq) (taken kq)"
  proof -
    show ?thesis
      using assms(1,2,5) by (auto simp: kq_inv_def fifo_ok_def map_of_delete split: option.splits)
  qed
  ultimately show ?thesis
    using assms(1) by (simp add: delete_queue_def kq_inv_def)
qed


lemma finish_call_inv:
  assumes "kq_inv kq" and "i < length (calls kq)" and "finish_call i kq = Some kq'"
  shows "kq_inv kq'"
proof -
  from assms(3) obtain item r res where ref: "call_queue (calls kq ! i) = Some (item, r)"
    and slot: "\<not> call_slot (calls kq ! i)" and opn: "call_open (calls kq ! i)"
    and kq': "kq' = return_call i res (finishSubmit r kq)"
    by (auto simp: finish_call_def split: submitter.splits)
  have r: "r < length (objects kq)" "(partitionKey (objects kq ! r), r) \<in> set (queues kq)"
    using assms(1,2) ref calls_ok_D [of "queues kq" "objects kq" "calls kq" i item r] by (auto simp: kq_inv_def)
  have subs: "submitters (objects kq ! r) = number_of (\<lambda>c. call_ref c = Some r) (calls kq)"
    using assms(1) r by (simp add: kq_inv_def submitters_ok_def)
  then have pos: "0 < submitters (objects kq ! r)"
    using number_of_pos [OF assms(2), of "\<lambda>c. call_ref c = Some r"] ref by (simp add: call_ref_def)
  let ?q = "(objects kq ! r)\<lparr>submitters := submitters (objects kq ! r) - 1\<rparr>"
    and ?cs = "(calls kq)[i := Returned res]"
  let ?kq1 = "kq\<lparr>objects := (objects kq)[r := ?q], submitWG := submitWG kq - 1, calls := ?cs\<rparr>"
  have inv1: "kq_inv ?kq1"
  proof -
    have "submitters_ok ((objects kq)[r := ?q]) ?cs"
      using assms(1,2) ref r(1) by (auto simp: kq_inv_def submitters_ok_def nth_list_update call_ref_def)
    moreover have "slots_ok (globalSem kq) ((objects kq)[r := ?q]) ?cs (workers kq)"
      using assms(1,2) slot r slots_ok_calls [OF slots_ok_object, of "globalSem kq" "objects kq" "calls kq" "workers kq" r i ?q "Returned res"]
      by (simp add: kq_inv_def)
    ultimately show ?thesis
      using assms(1,2) opn r
      by (auto simp: kq_inv_def intro!: map_ok_object unmapped_empty_object processing_ok_object channels_ok_same
          calls_ok_update calls_ok_object workers_ok_object fifo_ok_object)
  qed
  have "kq' = ?kq1 \<or> kq' = delete_queue (partitionKey ?q) ?kq1 \<and>
    map_of (queues ?kq1) (partitionKey ?q) = Some r \<and> \<not> processing ?q \<and> submitters ?q = 0 \<and> ch ?q = []"
    using kq' pos r by (auto simp: finishSubmit_def return_call_def with_object_def delete_queue_def Let_def max_def)
  then show ?thesis
  proof (elim disjE conjE)
    assume "kq' = delete_queue (partitionKey ?q) ?kq1" "map_of (queues ?kq1) (partitionKey ?q) = Some r"
      "\<not> processing ?q" "submitters ?q = 0" "ch ?q = []"
    then show ?thesis
      using delete_queue_inv [OF inv1, of "partitionKey ?q" r] r by simp
  qed (use inv1 in simp)
qed

lemma exec_call_inv:
  assumes "kq_inv kq" and "i < length (calls kq)" and "exec_call i c kq = Some kq'"
  shows "kq_inv kq'"
  using assms
  by (cases c) (auto intro: acquireGlobalSlot_inv registerQueueSubmitter_inv enqueueItem_inv release_slot_inv finish_call_inv)

lemma workers_ok_update:
  assumes "workers_ok qs os ws" and "w < length ws"
    and "\<And>r. worker_queue x = Some r \<Longrightarrow> r < length os \<and> (partitionKey (os ! r), r) \<in> set qs \<and>
      (\<forall>item. worker_item x = Some item \<longrightarrow> item_key item = partitionKey (os ! r)) \<and>
      (x = Selected r \<longrightarrow> ch (os ! r) \<noteq> [])"
  shows "workers_ok qs os (ws[w := x])"
  using assms unfolding workers_ok_def by (auto simp: nth_list_update)

lemma workers_ok_D:
  "workers_ok qs os ws \<Longrightarrow> w < length ws \<Longrightarrow> worker_queue (ws ! w) = Some r \<Longrightarrow>
     r < length os \<and> (partitionKey (os ! r), r) \<in> set qs \<and>
     (\<forall>item. worker_item (ws ! w) = Some item \<longrightarrow> item_key item = partitionKey (os ! r)) \<and>
     (ws ! w = Selected r \<longrightarrow> ch (os ! r) \<noteq> [])"
  unfolding workers_ok_def by blast

lemma same_queue_ok:
  assumes "w < length ws" and "worker_queue x = worker_queue (ws ! w)"
  shows "processing_ok os (ws[w := x]) = processing_ok os ws" and "exclusive (ws[w := x]) = exclusive ws"
proof -
  have "worker_queue (ws[w := x] ! w') = worker_queue (ws ! w')" for w'
    using assms by (cases "w' = w") auto
  then show "processing_ok os (ws[w := x]) = processing_ok os ws" "exclusive (ws[w := x]) = exclusive ws"
    by (simp_all add: processing_ok_def exclusive_def)
qed

lemma processing_ok_take:
  assumes "processing_ok os ws" and "w < length ws" and "worker_queue (ws ! w) = None"
    and "worker_queue x = Some r" and "processing q"
  shows "processing_ok (os[r := q]) (ws[w := x])"
proof -
  have "(\<exists>w' < length ws. worker_queue (ws[w := x] ! w') = Some r') \<longleftrightarrow>
    r' = r \<or> (\<exists>w' < length ws. worker_queue (ws ! w') = Some r')" for r'
    using assms(2-4) by (metis nth_list_update option.discI option.inject)
  then have "processing (os[r := q] ! r') \<longleftrightarrow> (\<exists>w' < length ws. worker_queue (ws[w := x] ! w') = Some r')"
    if "r' < length os" for r'
    using that assms(1,5) by (cases "r' = r") (auto simp: processing_ok_def)
  then show ?thesis
    by (simp add: processing_ok_def)
qed

lemma processing_ok_leave:
  assumes "processing_ok os ws" and "w < length ws" and "worker_queue (ws ! w) = Some r" and "exclusive ws"
    and "worker_queue x = None" and "\<not> processing q"
  shows "processing_ok (os[r := q]) (ws[w := x])"
proof -
  have "(\<exists>w' < length ws. worker_queue (ws[w := x] ! w') = Some r') \<longleftrightarrow>
    r' \<noteq> r \<and> (\<exists>w' < length ws. worker_queue (ws ! w') = Some r')" for r'
    using assms(2-5) unfolding exclusive_def by (metis nth_list_update option.discI option.inject)
  then have "processing (os[r := q] ! r') \<longleftrightarrow> (\<exists>w' < length ws. worker_queue (ws[w := x] ! w') = Some r')"
    if "r' < length os" for r'
    using that assms(1,6) by (cases "r' = r") (auto simp: processing_ok_def)
  then show ?thesis
    by (simp add: processing_ok_def)
qed

lemma workers_ok_receive:
  assumes "workers_ok qs os ws" and "exclusive ws" and "w < length ws" and "worker_queue (ws ! w) = Some r"
    and "worker_queue x = Some r" and "\<forall>item. worker_item x = Some item \<longrightarrow> item_key item = partitionKey q"
    and "x \<noteq> Selected r" and "partitionKey q = partitionKey (os ! r)" and "r < length os"
  shows "workers_ok qs (os[r := q]) (ws[w := x])"
  unfolding workers_ok_def
proof (intro allI impI)
  fix w' r'
  assume w': "w' < length (ws[w := x])" "worker_queue (ws[w := x] ! w') = Some r'"
  show "r' < length (os[r := q]) \<and> (partitionKey (os[r := q] ! r'), r') \<in> set qs \<and>
    (\<forall>item. worker_item (ws[w := x] ! w') = Some item \<longrightarrow> item_key item = partitionKey (os[r := q] ! r')) \<and>
    (ws[w := x] ! w' = Selected r' \<longrightarrow> ch (os[r := q] ! r') \<noteq> [])"
  proof (cases "w' = w")
    case True
    then show ?thesis
      using w' assms workers_ok_D [OF assms(1,3,4)] by auto
  next
    case False
    then have "r' \<noteq> r"
      using w' assms(2-4) by (auto simp: exclusive_def)
    then show ?thesis
      using False w' workers_ok_D [OF assms(1), of w' r'] by simp
  qed
qed

lemma worker_exit_inv:
  assumes "kq_inv kq" and "w < length (workers kq)" and "worker_exit w kq = Some kq'"
  shows "kq_inv kq'"
  using assms slots_ok_workers [of "globalSem kq" "objects kq" "calls kq" "workers kq" w Exited]
  by (auto simp: worker_exit_def kq_inv_def same_queue_ok split: if_splits intro!: workers_ok_update)

lemma processor_returns_inv:
  assumes "kq_inv kq" and "w < length (workers kq)" and "processor_returns w kq = Some kq'"
  shows "kq_inv kq'"
proof -
  from assms(3) obtain item r where w: "workers kq ! w = Processing item r"
    by (auto simp: processor_returns_def split: worker.splits)
  then show ?thesis
    using assms slots_ok_workers [of "globalSem kq" "objects kq" "calls kq" "workers kq" w "Finishing item r"]
      workers_ok_D [of "queues kq" "objects kq" "workers kq" w r]
    by (auto simp: processor_returns_def kq_inv_def same_queue_ok intro!: workers_ok_update)
qed

lemma release_worker_slot_inv:
  assumes "kq_inv kq" and "w < length (workers kq)" and "release_worker_slot w kq = Some kq'"
  shows "kq_inv kq'"
  using assms slots_ok_workers [of "globalSem kq" "objects kq" "calls kq" "workers kq" w Looping]
  by (auto simp: release_worker_slot_def kq_inv_def same_queue_ok split: if_splits intro!: workers_ok_update)

lemma nextEvent_select_inv:
  assumes "kq_inv kq" and "w < length (workers kq)" and "nextEvent_select w key kq = Some kq'"
  shows "kq_inv kq'"
proof -
  from assms(3) obtain r where w: "workers kq ! w = Looping" and "map_of (queues kq) key = Some r"
    and q: "\<not> processing (objects kq ! r)" "ch (objects kq ! r) \<noteq> []"
    and kq': "kq' = (with_object r (\<lambda>q. q\<lparr>processing := True\<rparr>) kq)\<lparr>workers := (workers kq)[w := Selected r]\<rparr>"
    by (auto simp: nextEvent_select_def split: if_splits option.splits)
  then have r: "r < length (objects kq)" "(partitionKey (objects kq ! r), r) \<in> set (queues kq)"
    using assms(1) by (auto simp: kq_inv_def map_ok_map_of dest: map_ok_D)
  let ?q = "(objects kq ! r)\<lparr>processing := True\<rparr>" and ?ws = "(workers kq)[w := Selected r]"
  have free: "worker_queue (workers kq ! w') \<noteq> Some r" if "w' < length (workers kq)" for w'
    using that assms(1) q(1) r(1) by (auto simp: kq_inv_def processing_ok_def)
  then have "exclusive ?ws"
    using assms(1,2) by (auto simp: kq_inv_def exclusive_def nth_list_update)
  moreover have "processing_ok ((objects kq)[r := ?q]) ?ws"
    using assms(1,2) w by (intro processing_ok_take) (simp_all add: kq_inv_def)
  moreover have "slots_ok (globalSem kq) ((objects kq)[r := ?q]) (calls kq) ?ws"
    using assms(1,2) w r slots_ok_workers [OF slots_ok_object, of "globalSem kq" "objects kq" "calls kq" "workers kq" r w ?q "Selected r"]
    by (simp add: kq_inv_def)
  moreover have "workers_ok (queues kq) ((objects kq)[r := ?q]) ?ws"
    using assms(1,2) w r q by (auto simp: kq_inv_def intro!: workers_ok_update workers_ok_object)
  ultimately show ?thesis
    using assms(1,2) kq' r
    by (auto simp: kq_inv_def with_object_def intro!: map_ok_object unmapped_empty_object channels_ok_same
        calls_ok_object submitters_ok_object fifo_ok_object)
qed

lemma nextEvent_receive_inv:
  assumes "kq_inv kq" and "w < length (workers kq)" and "nextEvent_receive w kq = Some kq'"
  shows "kq_inv kq'"
proof -
  from assms(3) obtain r item items where w: "workers kq ! w = Selected r"
    and items: "ch (objects kq ! r) = item # items"
    and kq': "kq' = (with_object r (\<lambda>q. q\<lparr>ch := items\<rparr>) kq)
      \<lparr>workers := (workers kq)[w := Processing item r], taken := taken kq @ [item]\<rparr>"
    by (auto simp: nextEvent_receive_def split: worker.splits list.splits)
  have r: "r < length (objects kq)" "(partitionKey (objects kq ! r), r) \<in> set (queues kq)"
    using assms(1,2) w workers_ok_D [of "queues kq" "objects kq" "workers kq" w r] by (auto simp: kq_inv_def)
  then have key: "item_key item = partitionKey (objects kq ! r)"
    using assms(1) items by (auto simp: kq_inv_def channels_ok_def)
  let ?q = "(objects kq ! r)\<lparr>ch := items\<rparr>" and ?ws = "(workers kq)[w := Processing item r]"
  have "processing_ok ((objects kq)[r := ?q]) ?ws" "exclusive ?ws"
    using assms(1,2) w by (auto simp: kq_inv_def same_queue_ok intro!: processing_ok_object)
  moreover have "slots_ok (globalSem kq) ((objects kq)[r := ?q]) (calls kq) ?ws"
    using assms(1,2) w r items slots_ok_workers [OF slots_ok_object, of "globalSem kq" "objects kq" "calls kq" "workers kq" r w ?q "Processing item r"]
    by (simp add: kq_inv_def)
  moreover have "channels_ok ((objects kq)[r := ?q]) (maxPerKey kq)"
    using assms(1) r items by (auto simp: kq_inv_def channels_ok_def nth_list_update)
  moreover have "workers_ok (queues kq) ((objects kq)[r := ?q]) ?ws"
    using assms(1,2) w r key by (intro workers_ok_receive) (simp_all add: kq_inv_def)
  ultimately show ?thesis
    using assms(1,2) kq' r key items fifo_ok_receive [of "queues kq" "objects kq" "sent kq" "taken kq" r item items]
    by (auto simp: kq_inv_def with_object_def intro!: map_ok_object unmapped_empty_object
        calls_ok_object submitters_ok_object)
qed

lemma finish_processing_inv:
  assumes "kq_inv kq" and "w < length (workers kq)" and "finish_processing w kq = Some kq'"
  shows "kq_inv kq'"
proof -
  from assms(3) obtain item r where w: "workers kq ! w = Finishing item r"
    and kq': "kq' = (finishEvent (item_key item) kq)\<lparr>workers := (workers kq)[w := Releasing]\<rparr>"
    by (auto simp: finish_processing_def split: worker.splits)
  have r: "r < length (objects kq)" "(item_key item, r) \<in> set (queues kq)" "partitionKey (objects kq ! r) = item_key item"
    using assms(1,2) w workers_ok_D [of "queues kq" "objects kq" "workers kq" w r] by (auto simp: kq_inv_def)
  then have lookup: "map_of (queues kq) (item_key item) = Some r"
    using assms(1) map_ok_map_of [of "queues kq" "objects kq" "item_key item" r] by (auto simp: kq_inv_def)
  let ?q = "(objects kq ! r)\<lparr>processing := False\<rparr>" and ?ws = "(workers kq)[w := Releasing]"
  let ?kq1 = "kq\<lparr>objects := (objects kq)[r := ?q], workers := ?ws\<rparr>"
  have inv1: "kq_inv ?kq1"
  proof -
    have "processing_ok ((objects kq)[r := ?q]) ?ws"
      using assms(1,2) w by (intro processing_ok_leave) (simp_all add: kq_inv_def)
    moreover have "exclusive ?ws"
      using assms(1,2) by (auto simp: kq_inv_def exclusive_def nth_list_update)
    moreover have "slots_ok (globalSem kq) ((objects kq)[r := ?q]) (calls kq) ?ws"
      using assms(1,2) w r slots_ok_workers [OF slots_ok_object, of "globalSem kq" "objects kq" "calls kq" "workers kq" r w ?q Releasing]
      by (simp add: kq_inv_def)
    moreover have "workers_ok (queues kq) ((objects kq)[r := ?q]) ?ws"
      using assms(1,2) by (auto simp: kq_inv_def intro!: workers_ok_update workers_ok_object)
    ultimately show ?thesis
      using assms(1,2) r
      by (auto simp: kq_inv_def intro!: map_ok_object unmapped_empty_object channels_ok_same
          calls_ok_object submitters_ok_object fifo_ok_object)
  qed
  have "kq' = ?kq1 \<or> kq' = delete_queue (item_key item) ?kq1 \<and> submitters ?q = 0 \<and> ch ?q = []"
    using kq' lookup r by (auto simp: finishEvent_def with_object_def delete_queue_def Let_def)
  then show ?thesis
    using delete_queue_inv [OF inv1, of "item_key item" r] inv1 lookup r by auto
qed

lemma exec_worker_inv:
  assumes "kq_inv kq" and "w < length (workers kq)" and "exec_worker w c kq = Some kq'"
  shows "kq_inv kq'"
  using assms
  by (cases c) (auto intro: worker_exit_inv nextEvent_select_inv nextEvent_receive_inv processor_returns_inv
      finish_processing_inv release_worker_slot_inv)

interpretation key_queue: safe_machine kq_initial kq_step kq_inv
proof
  fix kq l kq'
  assume "kq_inv kq" and "kq_step kq l kq'"
  then show "kq_inv kq'"
    by (cases l) (auto simp: kq_step_def split: if_splits intro: exec_env_inv exec_call_inv exec_worker_inv)
qed (rule kq_inv_initial)


section \<open>Properties\<close>

abbreviation kq_reachable :: "KeyQueue \<Rightarrow> bool" where
  "kq_reachable \<equiv> reachable kq_initial kq_step"

lemma exec_all_reachable: "exec_all ls (NewKeyQueue g k w t) = Some kq \<Longrightarrow> kq_reachable kq"
  using reachable_run [OF reach_initial, of kq_initial "NewKeyQueue g k w t" kq_step ls kq]
  by (auto simp: exec_all_run kq_initial_def)

text \<open>Two events of the keys \<^verbatim>\<open>a\<close> and \<^verbatim>\<open>b\<close> are submitted and each is taken by a worker.\<close>

definition sample_item :: "string \<Rightarrow> QueueItem" where
  "sample_item key = \<lparr>qiEvent = Some \<lparr>evID = ''e'', evType = ''t'', evTenantID = ''x'', evPartitionKey = key,
     evWorkflowID = [], evOccurredAt = 1, evData = [], evHeaders = []\<rparr>,
     qiDelivery = 0, qiFencingToken = 1, qiShard = 0, qiWorkerID = ''w''\<rparr>"

definition submit_labels :: "nat \<Rightarrow> string \<Rightarrow> label list" where
  "submit_labels i key = [Env (DoSubmit True (sample_item key)), Call i (Acquire Proceed), Call i Register,
     Call i (Enqueue Proceed), Call i Finish]"

definition sample_run :: "label list" where
  "sample_run = [Env DoStart] @ submit_labels 0 ''a'' @ submit_labels 1 ''b'' @
     [Work 0 (Select ''a''), Work 0 Receive, Work 1 (Select ''b''), Work 1 Receive]"

lemmas kq_exec_defs = NewKeyQueue_def Start_def Submit_def sample_item_def submit_labels_def queuedItem_of_def
  validateQueueSubmission_def beginSubmission_def acquireGlobalSlot_def registerQueueSubmitter_def
  find_or_create_def with_object_def enqueueItem_def finish_call_def finishSubmit_def return_call_def
  nextEvent_select_def nextEvent_receive_def processor_returns_def finish_processing_def finishEvent_def
  delete_queue_def queueSnapshot_def checkHotKeys_def updateHotKeyState_def Let_def

lemma sample_reachable:
  obtains kq where "kq_reachable kq" and "length (workers kq) = 2"
    and "worker_item (workers kq ! 0) \<noteq> None" and "worker_item (workers kq ! 1) \<noteq> None"
proof -
  have "\<exists>kq. exec_all sample_run (NewKeyQueue 4 2 2 1) = Some kq \<and> length (workers kq) = 2 \<and>
    worker_item (workers kq ! 0) \<noteq> None \<and> worker_item (workers kq ! 1) \<noteq> None"
    by (simp add: sample_run_def kq_exec_defs numeral_2_eq_2)
  then show ?thesis using that exec_all_reachable by blast
qed

text \<open>C5. At any time, in every interleaving of submitters and workers, two workers never process
  events of the same partition key.\<close>

theorem keyqueue_mutual_exclusion:
  assumes "kq_reachable kq" and "w < length (workers kq)" and "w' < length (workers kq)" and "w \<noteq> w'"
    and "worker_item (workers kq ! w) = Some item" and "worker_item (workers kq ! w') = Some item'"
  shows "item_key item \<noteq> item_key item'"
proof -
  have inv: "kq_inv kq" using assms(1) by (rule key_queue.inv_reachable)
  obtain r where r: "worker_queue (workers kq ! w) = Some r"
    using assms(5) by (cases "workers kq ! w") auto
  obtain r' where r': "worker_queue (workers kq ! w') = Some r'"
    using assms(6) by (cases "workers kq ! w'") auto
  have "r \<noteq> r'"
    using inv r r' assms(2-4) by (auto simp: kq_inv_def exclusive_def)
  then show ?thesis
    using inv workers_ok_D [OF _ assms(2) r] workers_ok_D [OF _ assms(3) r'] assms(5,6)
      map_ok_map_of [of "queues kq" "objects kq"]
    by (metis kq_inv_def option.inject)
qed

theorem keyqueue_mutual_exclusion_witness:
  "\<exists>kq item item'. kq_reachable kq \<and> worker_item (workers kq ! 0) = Some item \<and>
     worker_item (workers kq ! 1) = Some item' \<and> item_key item \<noteq> item_key item'"
proof -
  obtain kq where "kq_reachable kq" "length (workers kq) = 2"
    "worker_item (workers kq ! 0) \<noteq> None" "worker_item (workers kq ! 1) \<noteq> None"
    by (rule sample_reachable)
  then show ?thesis
    using keyqueue_mutual_exclusion [of kq 0 1] by fastforce
qed

text \<open>C6. The events of a partition key are taken by the workers in the order in which they were
  submitted, and none is lost: what was sent is what was taken followed by what is queued.\<close>

theorem keyqueue_fifo:
  assumes "kq_reachable kq"
  shows "filter (\<lambda>item. item_key item = key) (sent kq) =
    filter (\<lambda>item. item_key item = key) (taken kq) @
    (case map_of (queues kq) key of None \<Rightarrow> [] | Some r \<Rightarrow> ch (objects kq ! r))"
  using key_queue.inv_reachable [OF assms] by (simp add: kq_inv_def fifo_ok_def)

theorem keyqueue_fifo_witness:
  "\<exists>kq. kq_reachable kq \<and> worker_item (workers kq ! 0) \<noteq> None \<and>
    filter (\<lambda>item. item_key item = ''a'') (sent kq) =
    filter (\<lambda>item. item_key item = ''a'') (taken kq) @
    (case map_of (queues kq) ''a'' of None \<Rightarrow> [] | Some r \<Rightarrow> ch (objects kq ! r))"
proof -
  obtain kq where "kq_reachable kq" "worker_item (workers kq ! 0) \<noteq> None"
    by (rule sample_reachable)
  then show ?thesis
    using keyqueue_fifo [of kq "''a''"] by blast
qed

text \<open>C33. The events queued and the events in the hands of workers together never exceed the
  global limit, and no queue exceeds the limit per key.\<close>

theorem keyqueue_bounds:
  assumes "kq_reachable kq"
  shows "(\<Sum>q\<leftarrow>objects kq. int (length (ch q))) +
      int (length (filter (\<lambda>x. worker_item x \<noteq> None) (workers kq))) \<le> maxGlobalInFlight kq \<and>
    QueueDepth key kq \<le> maxPerKey kq"
proof -
  have inv: "kq_inv kq" using assms by (rule key_queue.inv_reachable)
  have "length (filter (\<lambda>x. worker_item x \<noteq> None) ws) \<le> length (filter worker_slot ws)" for ws
  proof (induction ws)
    case (Cons x ws)
    then show ?case by (cases x) auto
  qed simp
  then have "int (length (filter (\<lambda>x. worker_item x \<noteq> None) (workers kq))) \<le> number_of worker_slot (workers kq)"
    by (simp add: number_of_def)
  moreover have "QueueDepth key kq \<le> maxPerKey kq"
  proof (cases "map_of (queues kq) key")
    case None
    then show ?thesis using inv by (simp add: QueueDepth_def kq_inv_def channels_ok_def)
  next
    case (Some r)
    then have "r < length (objects kq)"
      using inv map_ok_D [of "queues kq" "objects kq" key r] by (auto simp: kq_inv_def dest: map_of_SomeD)
    then show ?thesis using inv Some by (simp add: QueueDepth_def kq_inv_def channels_ok_def)
  qed
  moreover have "globalSem kq = (\<Sum>q\<leftarrow>objects kq. int (length (ch q))) + number_of call_slot (calls kq) +
      number_of worker_slot (workers kq)" "globalSem kq \<le> maxGlobalInFlight kq"
    using inv by (simp_all add: kq_inv_def slots_ok_def)
  ultimately show ?thesis
    using number_of_simps(4) [of call_slot "calls kq"] by linarith
qed

theorem keyqueue_bounds_witness:
  "\<exists>kq. kq_reachable kq \<and> worker_item (workers kq ! 0) \<noteq> None \<and>
    (\<Sum>q\<leftarrow>objects kq. int (length (ch q))) +
      int (length (filter (\<lambda>x. worker_item x \<noteq> None) (workers kq))) \<le> maxGlobalInFlight kq \<and>
    QueueDepth ''a'' kq \<le> maxPerKey kq"
proof -
  obtain kq where "kq_reachable kq" "worker_item (workers kq ! 0) \<noteq> None"
    by (rule sample_reachable)
  then show ?thesis
    using keyqueue_bounds [of kq "''a''"] by blast
qed

text \<open>The steps a call of \<^verbatim>\<open>Submit\<close> still has to take.\<close>

primrec call_rank :: "submitter \<Rightarrow> nat" where
  "call_rank (Admitted item) = 5"
| "call_rank (HoldsSlot item) = 4"
| "call_rank (Registered item r) = 3"
| "call_rank (Aborting item r err) = 2"
| "call_rank (Released item r err) = 1"
| "call_rank (Sent item r) = 1"
| "call_rank (Returned res) = 0"

lemma finishSubmit_calls [simp]: "calls (finishSubmit r kq) = calls kq"
  by (simp add: finishSubmit_def with_object_def delete_queue_def Let_def)

lemma slot_taken:
  assumes "kq_inv kq"
  shows "i < length (calls kq) \<Longrightarrow> call_slot (calls kq ! i) \<Longrightarrow> 0 < globalSem kq"
    and "w < length (workers kq) \<Longrightarrow> worker_slot (workers kq ! w) \<Longrightarrow> 0 < globalSem kq"
proof -
  have sem: "globalSem kq = (\<Sum>q\<leftarrow>objects kq. int (length (ch q))) +
      number_of call_slot (calls kq) + number_of worker_slot (workers kq)"
    using assms by (simp add: kq_inv_def slots_ok_def)
  have "0 \<le> (\<Sum>q\<leftarrow>objects kq. int (length (ch q)))"
    by (rule sum_list_nonneg) auto
  then show "i < length (calls kq) \<Longrightarrow> call_slot (calls kq ! i) \<Longrightarrow> 0 < globalSem kq"
    and "w < length (workers kq) \<Longrightarrow> worker_slot (workers kq ! w) \<Longrightarrow> 0 < globalSem kq"
    using sem number_of_pos [of i "calls kq" call_slot] number_of_pos [of w "workers kq" worker_slot]
      number_of_simps(4) [of call_slot "calls kq"] number_of_simps(4) [of worker_slot "workers kq"]
    by linarith+
qed

text \<open>Shutdown does not hang on a submitter: once the queue is stopping, every call of
  \<^verbatim>\<open>Submit\<close> that has not returned can take a step of its own that brings it closer to its return,
  so that \<^verbatim>\<open>Stop\<close> gets past its wait for the submissions.\<close>

lemma keyqueue_submitters_drain:
  assumes "kq_reachable kq" and "stopped kq" and "i < length (calls kq)" and "0 < call_rank (calls kq ! i)"
  shows "\<exists>c kq'. exec (Call i c) kq = Some kq' \<and> stopped kq' \<and> call_rank (calls kq' ! i) < call_rank (calls kq ! i)"
proof -
  have inv: "kq_inv kq" using assms(1) by (rule key_queue.inv_reachable)
  note defs = acquireGlobalSlot_def enqueueItem_def release_slot_def finish_call_def return_call_def
  show ?thesis
  proof (cases "calls kq ! i")
    case (Admitted item)
    then show ?thesis using assms by (intro exI [of _ "Acquire Stopping"]) (simp add: defs)
  next
    case (HoldsSlot item)
    obtain r kq1 where "find_or_create (item_key item) kq = (r, kq1)" by fastforce
    moreover from this have "stopped kq1" using assms(2) by (auto simp: find_or_create_def split: option.splits)
    ultimately show ?thesis
      using assms HoldsSlot by (intro exI [of _ Register]) (simp add: registerQueueSubmitter_def with_object_def)
  next
    case (Registered item r)
    then show ?thesis using assms by (intro exI [of _ "Enqueue Stopping"]) (simp add: defs)
  next
    case (Aborting item r err)
    then show ?thesis
      using assms slot_taken(1) [OF inv, of i] by (intro exI [of _ GiveBack]) (simp add: defs)
  next
    case (Sent item r)
    then show ?thesis
      using assms by (intro exI [of _ Finish]) (simp add: defs finishSubmit_def with_object_def delete_queue_def Let_def)
  next
    case (Released item r err)
    then show ?thesis
      using assms by (intro exI [of _ Finish]) (simp add: defs finishSubmit_def with_object_def delete_queue_def Let_def)
  qed (use assms in simp)
qed

text \<open>A worker never blocks in the middle of an event: after \<^verbatim>\<open>nextEvent\<close> has selected a queue
  its receive finds an item, and a slot is there to be given back.\<close>

lemma keyqueue_workers_never_block:
  assumes "kq_reachable kq" and "w < length (workers kq)" and "workers kq ! w \<noteq> Looping" and "workers kq ! w \<noteq> Exited"
  shows "\<exists>c kq'. exec (Work w c) kq = Some kq'"
proof -
  have inv: "kq_inv kq" using assms(1) by (rule key_queue.inv_reachable)
  show ?thesis
  proof (cases "workers kq ! w")
    case (Selected r)
    then have "ch (objects kq ! r) \<noteq> []"
      using inv assms(2) workers_ok_D [of "queues kq" "objects kq" "workers kq" w r] by (simp add: kq_inv_def)
    then show ?thesis
      using assms(2) Selected by (intro exI [of _ Receive]) (auto simp: nextEvent_receive_def neq_Nil_conv)
  next
    case (Processing item r)
    then show ?thesis using assms(2) by (intro exI [of _ ProcessorReturns]) (simp add: processor_returns_def)
  next
    case (Finishing item r)
    then show ?thesis using assms(2) by (intro exI [of _ FinishProcessing]) (simp add: finish_processing_def)
  next
    case Releasing
    then show ?thesis
      using assms(2) slot_taken(2) [OF inv, of w] by (intro exI [of _ ReleaseSlot]) (simp add: release_worker_slot_def)
  qed (use assms in simp_all)
qed

text \<open>C37. \<^verbatim>\<open>Stats\<close> can panic: a hot key whose queue was drained and deleted is still in the table
  of hot keys until the next check, and \<^verbatim>\<open>Stats\<close> dereferences the queue it no longer has.\<close>

theorem keyqueue_stats_panics: "\<exists>kq. kq_reachable kq \<and> Stats kq = None"
proof -
  let ?ls = "[Env DoStart] @ submit_labels 0 ''a'' @ [Env DoSnapshot, Env (DoCheckHotKeys 5),
    Work 0 (Select ''a''), Work 0 Receive, Work 0 ProcessorReturns, Work 0 FinishProcessing]"
  have "\<exists>kq. exec_all ?ls (NewKeyQueue 4 2 2 1) = Some kq \<and> Stats kq = None"
    by (simp add: kq_exec_defs numeral_2_eq_2 Stats_def hot_key_infos_def)
  then show ?thesis using exec_all_reachable by blast
qed

end
