(* ===== verification/SqlTable.thy ===== *)
theory SqlTable
  imports Prelude
begin

text \<open>
  The statements of SQL that the PostgreSQL adapters (\<^verbatim>\<open>internal/adapters/postgres\<close>) issue, on a
  table represented by the list of its rows.  A statement is executed against the state its
  transaction sees and returns the new rows and the number of affected rows
  (\<^verbatim>\<open>tag.RowsAffected()\<close>).  The interface \<open>primary_key\<close> collects what a primary key gives:
  every statement keeps the key unique, and look-ups behave like look-ups in a finite map.
\<close>

type_synonym 'r table = "'r list"

text \<open>\<^verbatim>\<open>SELECT ... WHERE key = k\<close> scanned by \<^verbatim>\<open>QueryRow\<close>; \<open>None\<close> is \<^verbatim>\<open>pgx.ErrNoRows\<close>.\<close>

definition select_row :: "('r \<Rightarrow> bool) \<Rightarrow> 'r table \<Rightarrow> 'r option" where
  "select_row P t = find P t"

definition select_rows :: "('r \<Rightarrow> bool) \<Rightarrow> 'r table \<Rightarrow> 'r list" where
  "select_rows P t = filter P t"

text \<open>\<^verbatim>\<open>INSERT ... ON CONFLICT (key) DO NOTHING\<close>.\<close>

definition insert_do_nothing :: "('r \<Rightarrow> 'k) \<Rightarrow> 'r \<Rightarrow> 'r table \<Rightarrow> 'r table \<times> nat" where
  "insert_do_nothing key r t = (if key r \<in> key ` set t then (t, 0) else (t @ [r], 1))"

text \<open>\<^verbatim>\<open>UPDATE ... SET f WHERE P\<close>.\<close>

definition update_where :: "('r \<Rightarrow> bool) \<Rightarrow> ('r \<Rightarrow> 'r) \<Rightarrow> 'r table \<Rightarrow> 'r table \<times> nat" where
  "update_where P f t = (map (\<lambda>r. if P r then f r else r) t, length (filter P t))"

text \<open>\<^verbatim>\<open>INSERT ... ON CONFLICT (key) DO UPDATE SET f WHERE P\<close>: the conflicting row, if any, is
  updated when it satisfies the condition, and the excluded row is not inserted.\<close>

definition insert_do_update ::
  "('r \<Rightarrow> 'k) \<Rightarrow> 'r \<Rightarrow> ('r \<Rightarrow> bool) \<Rightarrow> ('r \<Rightarrow> 'r) \<Rightarrow> 'r table \<Rightarrow> 'r table \<times> nat" where
  "insert_do_update key r P f t =
     (if key r \<in> key ` set t then update_where (\<lambda>x. key x = key r \<and> P x) f t else (t @ [r], 1))"

definition delete_where :: "('r \<Rightarrow> bool) \<Rightarrow> 'r table \<Rightarrow> 'r table \<times> nat" where
  "delete_where P t = (filter (\<lambda>r. \<not> P r) t, length (filter P t))"

lemmas sql_defs =
  select_row_def select_rows_def insert_do_nothing_def update_where_def insert_do_update_def
  delete_where_def

lemma set_update_where [simp]:
  "set (fst (update_where P f t)) = f ` {r \<in> set t. P r} \<union> {r \<in> set t. \<not> P r}"
  by (auto simp: update_where_def)

lemma length_update_where [simp]: "length (fst (update_where P f t)) = length t"
  by (simp add: update_where_def)

lemma snd_update_where [simp]: "snd (update_where P f t) = length (filter P t)"
  by (simp add: update_where_def)

lemma set_delete_where [simp]: "set (fst (delete_where P t)) = {r \<in> set t. \<not> P r}"
  by (auto simp: delete_where_def)

lemma update_where_none:
  "(\<And>r. r \<in> set t \<Longrightarrow> \<not> P r) \<Longrightarrow> update_where P f t = (t, 0)"
  by (auto simp: update_where_def map_idI filter_empty_conv)

text \<open>The interface of a table with a primary key.\<close>

locale primary_key =
  fixes key :: "'r \<Rightarrow> 'k"
begin

abbreviation unique_keys :: "'r table \<Rightarrow> bool" where
  "unique_keys t \<equiv> distinct (map key t)"

lemma unique_insert_do_nothing:
  "unique_keys t \<Longrightarrow> unique_keys (fst (insert_do_nothing key r t))"
  by (auto simp: insert_do_nothing_def)

lemma unique_update_where:
  assumes "\<And>r. r \<in> set t \<Longrightarrow> P r \<Longrightarrow> key (f r) = key r"
  shows "map key (fst (update_where P f t)) = map key t"
  using assms by (simp add: update_where_def)

lemma unique_insert_do_update:
  assumes "unique_keys t" and "\<And>r. key (f r) = key r"
  shows "unique_keys (fst (insert_do_update key r P f t))"
  using assms by (auto simp: insert_do_update_def unique_update_where)

lemma unique_delete_where: "unique_keys t \<Longrightarrow> unique_keys (fst (delete_where P t))"
  by (simp add: delete_where_def distinct_map_filter)

lemma same_row:
  "unique_keys t \<Longrightarrow> r \<in> set t \<Longrightarrow> r' \<in> set t \<Longrightarrow> key r = key r' \<Longrightarrow> r = r'"
  by (meson distinct_map inj_onD)

lemma select_key:
  "unique_keys t \<Longrightarrow> (select_row (\<lambda>r. key r = k) t = Some r) \<longleftrightarrow> (r \<in> set t \<and> key r = k)"
  by (metis (mono_tags) find_SomeD find_key_distinct select_row_def)

lemma select_key_None:
  "(select_row (\<lambda>r. key r = k) t = None) \<longleftrightarrow> (k \<notin> key ` set t)"
  by (auto simp: select_row_def find_None_iff)

text \<open>An insert that reports a row makes exactly that row visible; one that does not leaves
  the table as it was, because the key was taken.\<close>

lemma insert_do_nothing_select:
  "unique_keys t \<Longrightarrow> insert_do_nothing key r t = (t', n) \<Longrightarrow>
    (if n = 0 then t' = t \<and> key r \<in> key ` set t
     else select_row (\<lambda>x. key x = key r) t' = Some r \<and> set t' = insert r (set t))"
  by (auto simp: insert_do_nothing_def select_row_def find_append find_None_iff
      split: if_splits option.splits dest!: find_SomeD) (metis image_eqI)

lemma affected_le_1:
  "unique_keys t \<Longrightarrow> (\<And>r. P r \<Longrightarrow> key r = k) \<Longrightarrow> snd (update_where P f t) \<le> 1"
  unfolding snd_update_where by (rule length_filter_le_1)

lemma affected_1_iff:
  assumes "unique_keys t" and "\<And>r. P r \<Longrightarrow> key r = k"
  shows "snd (update_where P f t) = 1 \<longleftrightarrow> (\<exists>r \<in> set t. P r)"
proof -
  have "length (filter P t) \<le> 1" using assms by (rule length_filter_le_1)
  then have "length (filter P t) = 1 \<longleftrightarrow> filter P t \<noteq> []"
    by (cases "filter P t") auto
  then show ?thesis by (auto simp: filter_empty_conv)
qed

end

end
