(* ===== verification/Database.thy ===== *)
theory Database
  imports SqlTable DomainTypes "HOL-Library.Stream"
begin

text \<open>
  The PostgreSQL database behind \<^verbatim>\<open>internal/adapters/postgres\<close>: one row type per table of
  \<^verbatim>\<open>migrations/\<close>, the database as the record of its tables, and the three ways the adapters
  reach it (\<^verbatim>\<open>Querier\<close> of \<^verbatim>\<open>querier.go\<close>: \<^verbatim>\<open>Exec\<close>, \<^verbatim>\<open>QueryRow\<close>, \<^verbatim>\<open>Query\<close>).

  A process does not own the database.  What surrounds it is the stream of the moments at which
  its calls happen: a moment holds the value of \<^verbatim>\<open>NOW()\<close>, what the other processes have done to
  the database since the previous call, how the call itself fares and, when the call begins a
  transaction, how the calls inside it fare.  A call may fail before the
  server executes it, or be executed and then lose its reply, so that the caller sees an error
  although the change is there.  Theorems quantify over this stream.  Inside a transaction the
  others do nothing and \<^verbatim>\<open>NOW()\<close> is constant: transactions are modelled as serialisable.

  A column of type JSONB keeps the text it was given, a timestamp its nanoseconds, and an integer
  column its integer.
\<close>

section \<open>Tables\<close>

text \<open>A nullable column is an option; where the adapters always write a value, it is the
  value.\<close>

record inbox_row =
  ixTenantID :: string
  ixEventID :: string
  ixStatus :: InboxStatus
  ixExecutionID :: "string option"
  ixFirstSeenAt :: time
  ixCommittedAt :: "time option"
  ixPartitionKey :: "string option"
  ixRuleSet :: "string option"
  ixPayload :: "string option"
  ixBatchID :: "string option"

text \<open>An outbox row is the effect the adapters read back (whose own claim fields are then zero)
  and the claim columns.\<close>

record outbox_row =
  owEffect :: OutboxEffect
  owClaimedBy :: "string option"
  owClaimedAt :: "time option"
  owClaimExpiresAt :: "time option"

text \<open>A scheduled event row: \<^verbatim>\<open>last_error\<close> is null until a retry or a failure writes it.\<close>

record scheduled_row =
  srEvent :: ScheduledEvent
  srLastError :: "string option"
  srClaimant :: "string option"
  srClaimedAt :: "time option"
  srClaimExpiresAt :: "time option"

record revision_row =
  rrTenantScope :: string
  rrRuleID :: string
  rrRevision :: int
  rrSource :: string
  rrCompiled :: string
  rrContentHash :: string
  rrCompilerVersion :: string
  rrMatchMode :: MatchMode
  rrCreatedAt :: time

record quarantine_row =
  qrEntry :: QuarantineEntry
  qrUpdatedAt :: time

record service_row =
  svTenantID :: string
  svServiceID :: string
  svName :: string
  svEndpointURL :: string
  svActive :: bool
  svCreatedAt :: time
  svUpdatedAt :: time

record subscription_row =
  suTenantID :: string
  suServiceID :: string
  suDomainID :: string

record database =
  dbLeases :: "ShardLease table"
  dbInbox :: "inbox_row table"
  dbExecutions :: "Execution table"
  dbOutbox :: "outbox_row table"
  dbRevisions :: "revision_row table"
  dbActivations :: "RuleActivation table"
  dbScheduled :: "scheduled_row table"
  dbWorkflows :: "WorkflowInstance table"
  dbDefinitions :: "WorkflowDefinition table"
  dbBatchRuns :: "BatchRun table"
  dbQuarantine :: "quarantine_row table"
  dbDomains :: "TenantDomain table"
  dbServices :: "service_row table"
  dbSubscriptions :: "subscription_row table"

definition empty_database :: database where
  "empty_database =
     \<lparr>dbLeases = [], dbInbox = [], dbExecutions = [], dbOutbox = [], dbRevisions = [], dbActivations = [],
      dbScheduled = [], dbWorkflows = [], dbDefinitions = [], dbBatchRuns = [], dbQuarantine = [],
      dbDomains = [], dbServices = [], dbSubscriptions = []\<rparr>"

section \<open>Calls\<close>

text \<open>How a call fares: it succeeds, fails before execution, or is executed and its reply
  breaks off after a number of rows.\<close>

datatype fault = NoFault | NotExecuted gerr | ReplyLost nat gerr

record 'db moment =
  moNow :: time
  moOthers :: "'db \<Rightarrow> 'db"
  moFault :: fault
  moInner :: "fault stream"

record 'db world =
  woDb :: 'db
  woFuture :: "'db moment stream"

datatype 'a outcome = Failed gerr | Answer 'a "(nat \<times> gerr) option"

text \<open>One statement.  It may violate a constraint, which leaves the database unchanged.\<close>

definition db_call :: "(time \<Rightarrow> 'db \<Rightarrow> ('db \<times> 'a) result) \<Rightarrow> 'db world \<Rightarrow> 'a outcome \<times> 'db world" where
  "db_call f w =
     (let m = shd (woFuture w); db = moOthers m (woDb w);
          world = (\<lambda>db. w\<lparr>woDb := db, woFuture := stl (woFuture w)\<rparr>)
      in case moFault m of
           NotExecuted e \<Rightarrow> (Failed e, world db)
         | NoFault \<Rightarrow>
             (case f (moNow m) db of
                Inl e \<Rightarrow> (Failed e, world db)
              | Inr (db', a) \<Rightarrow> (Answer a None, world db'))
         | ReplyLost k e \<Rightarrow>
             (case f (moNow m) db of
                Inl e \<Rightarrow> (Failed e, world db)
              | Inr (db', a) \<Rightarrow> (Answer a (Some (k, e)), world db')))"

definition Exec :: "(time \<Rightarrow> 'db \<Rightarrow> ('db \<times> 'a) result) \<Rightarrow> 'db world \<Rightarrow> 'a result \<times> 'db world" where
  "Exec f w =
     (case db_call f w of
        (Failed e, w') \<Rightarrow> (Inl e, w')
      | (Answer a None, w') \<Rightarrow> (Inr a, w')
      | (Answer a (Some (k, e)), w') \<Rightarrow> (Inl e, w'))"

text \<open>\<^verbatim>\<open>QueryRow(...).Scan(...)\<close>: no row is the error \<^verbatim>\<open>pgx.ErrNoRows\<close>.\<close>

definition QueryRow :: "(time \<Rightarrow> 'db \<Rightarrow> ('db \<times> 'a option) result) \<Rightarrow> 'db world \<Rightarrow> 'a result \<times> 'db world" where
  "QueryRow f w =
     (case Exec f w of
        (Inl e, w') \<Rightarrow> (Inl e, w')
      | (Inr None, w') \<Rightarrow> (Inl (Sentinel PgxErrNoRows), w')
      | (Inr (Some a), w') \<Rightarrow> (Inr a, w'))"

text \<open>\<^verbatim>\<open>Query\<close>: its error, or the rows that arrive and the error \<^verbatim>\<open>rows.Err()\<close> reports after
  them.\<close>

definition Query ::
  "(time \<Rightarrow> 'db \<Rightarrow> ('db \<times> 'a list) result) \<Rightarrow> 'db world \<Rightarrow> ('a list \<times> gerr option) result \<times> 'db world" where
  "Query f w =
     (case db_call f w of
        (Failed e, w') \<Rightarrow> (Inl e, w')
      | (Answer rows None, w') \<Rightarrow> (Inr (rows, None), w')
      | (Answer rows (Some (k, e)), w') \<Rightarrow> (Inr (take k rows, Some e), w'))"

text \<open>A transaction (\<^verbatim>\<open>Begin\<close>, a body, \<^verbatim>\<open>Commit\<close> or the deferred \<^verbatim>\<open>Rollback\<close>).  The body sees
  the database at the beginning and ends by keeping or discarding its changes; a commit may fail
  before or after it took effect.\<close>

datatype 'a verdict = Keep 'a | Discard 'a

datatype 'a transaction_result = BeginFailed gerr | CommitFailed gerr | Finished 'a

definition transaction_world :: "'db moment \<Rightarrow> 'db \<Rightarrow> 'db world" where
  "transaction_world m db =
     \<lparr>woDb = db, woFuture = smap (\<lambda>f. \<lparr>moNow = moNow m, moOthers = id, moFault = f, moInner = moInner m\<rparr>) (moInner m)\<rparr>"

definition transaction :: "('db world \<Rightarrow> 'a verdict \<times> 'db world) \<Rightarrow> 'db world \<Rightarrow> 'a transaction_result \<times> 'db world" where
  "transaction body w =
     (let m = shd (woFuture w); db = moOthers m (woDb w); rest = stl (woFuture w)
      in case moFault m of
           NotExecuted e \<Rightarrow> (BeginFailed e, \<lparr>woDb = db, woFuture = rest\<rparr>)
         | ReplyLost k e \<Rightarrow> (BeginFailed e, \<lparr>woDb = db, woFuture = rest\<rparr>)
         | NoFault \<Rightarrow>
             (case body (transaction_world m db) of
                (Discard a, tw) \<Rightarrow> (Finished a, \<lparr>woDb = db, woFuture = rest\<rparr>)
              | (Keep a, tw) \<Rightarrow>
                  (case moFault (shd rest) of
                     NotExecuted e \<Rightarrow> (CommitFailed e, \<lparr>woDb = db, woFuture = stl rest\<rparr>)
                   | ReplyLost k e \<Rightarrow> (CommitFailed e, \<lparr>woDb = woDb tw, woFuture = stl rest\<rparr>)
                   | NoFault \<Rightarrow> (Finished a, \<lparr>woDb = woDb tw, woFuture = stl rest\<rparr>))))"

text \<open>A \<^verbatim>\<open>SELECT\<close> leaves the database as it is.\<close>

abbreviation reading :: "(time \<Rightarrow> 'db \<Rightarrow> 'a) \<Rightarrow> time \<Rightarrow> 'db \<Rightarrow> ('db \<times> 'a) result" where
  "reading f \<equiv> \<lambda>now db. Inr (db, f now db)"

text \<open>\<^verbatim>\<open>d.Milliseconds()\<close> truncates towards zero; \<^verbatim>\<open>n * INTERVAL '1 millisecond'\<close>.\<close>

definition Milliseconds :: "duration \<Rightarrow> int" where
  [go_simps]: "Milliseconds d = (if d < 0 then - (- d div millisecond) else d div millisecond)"

abbreviation interval_ms :: "int \<Rightarrow> duration" where
  "interval_ms n \<equiv> n * millisecond"

text \<open>The driver refuses to scan a null into a \<^verbatim>\<open>string\<close>.\<close>

definition scan_string :: "string option \<Rightarrow> string result" where
  "scan_string v =
     (case v of None \<Rightarrow> Inl (ErrorString ''cannot scan NULL into *string'') | Some s \<Rightarrow> Inr s)"

text \<open>The rows of a result in the order of a key, cut to a page.\<close>

definition order_limit :: "('r \<Rightarrow> 'k::linorder) \<Rightarrow> int \<Rightarrow> 'r list \<Rightarrow> 'r list" where
  "order_limit key n rows = take (nat n) (sort_key key rows)"

section \<open>Interference\<close>

text \<open>Rely and guarantee.  A preorder on databases describes what a process may count on between
  its calls.  If the others respect it, then so does the process together with the others, provided
  each of its own statements does.\<close>

definition rely :: "('db \<Rightarrow> 'db \<Rightarrow> bool) \<Rightarrow> 'db world \<Rightarrow> bool" where
  "rely R w = (\<forall>m \<in> sset (woFuture w). \<forall>db. R db (moOthers m db))"

definition within :: "('db \<Rightarrow> 'db \<Rightarrow> bool) \<Rightarrow> 'db world \<Rightarrow> 'db world \<Rightarrow> bool" where
  "within R w w' = (rely R w \<longrightarrow> R (woDb w) (woDb w') \<and> rely R w')"

definition guarantees :: "('db \<Rightarrow> 'db \<Rightarrow> bool) \<Rightarrow> (time \<Rightarrow> 'db \<Rightarrow> ('db \<times> 'a) result) \<Rightarrow> bool" where
  "guarantees R f = (\<forall>now db db' a. f now db = Inr (db', a) \<longrightarrow> R db db')"

locale interference =
  fixes R :: "'db \<Rightarrow> 'db \<Rightarrow> bool"
  assumes R_refl: "R db db"
    and R_trans: "R db db' \<Longrightarrow> R db' db'' \<Longrightarrow> R db db''"
begin

lemma within_refl: "within R w w"
  by (simp add: within_def R_refl)

lemma within_trans: "within R w w' \<Longrightarrow> within R w' w'' \<Longrightarrow> within R w w''"
  by (auto simp: within_def intro: R_trans)

lemma fold_within: "(\<And>c w. within R w (f c w)) \<Longrightarrow> within R w (fold f cs w)"
proof (induction cs arbitrary: w)
  case (Cons c cs)
  then show ?case
    using within_trans [of w "f c w"] by simp
qed (simp add: within_refl)

lemma guarantees_reading: "guarantees R (reading f)"
  by (simp add: guarantees_def R_refl)

lemma rely_next:
  "rely R w \<Longrightarrow> rely R (w\<lparr>woDb := db, woFuture := stl (woFuture w)\<rparr>)"
  by (simp add: rely_def) (metis stl_sset)

lemma rely_others: "rely R w \<Longrightarrow> R (woDb w) (moOthers (shd (woFuture w)) (woDb w))"
  by (simp add: rely_def shd_sset)

lemma rely_statement:
  "guarantees R f \<Longrightarrow> rely R w \<Longrightarrow> f now (moOthers (shd (woFuture w)) (woDb w)) = Inr (db', a) \<Longrightarrow> R (woDb w) db'"
  unfolding guarantees_def by (blast intro: R_trans [OF rely_others])

lemma db_call_within: "guarantees R f \<Longrightarrow> within R w (snd (db_call f w))"
  unfolding within_def db_call_def Let_def
  by (auto split: fault.splits sum.splits prod.splits intro: rely_next rely_others rely_statement)

lemma Exec_within: "guarantees R f \<Longrightarrow> within R w (snd (Exec f w))"
  using db_call_within [of f w] by (auto simp: Exec_def split: prod.splits outcome.splits option.splits)

lemma QueryRow_within: "guarantees R f \<Longrightarrow> within R w (snd (QueryRow f w))"
  using Exec_within [of f w] by (auto simp: QueryRow_def split: prod.splits sum.splits option.splits)

lemma Query_within: "guarantees R f \<Longrightarrow> within R w (snd (Query f w))"
  using db_call_within [of f w] by (auto simp: Query_def split: prod.splits outcome.splits option.splits)

text \<open>The same for a call whose result is at hand.\<close>

lemma withinI:
  "Exec f w = (r, w') \<Longrightarrow> guarantees R f \<Longrightarrow> within R w w'"
  "QueryRow g w = (r1, w') \<Longrightarrow> guarantees R g \<Longrightarrow> within R w w'"
  "Query h w = (r2, w') \<Longrightarrow> guarantees R h \<Longrightarrow> within R w w'"
  using Exec_within [of f w] QueryRow_within [of g w] Query_within [of h w] by simp_all

lemma withinI_reading:
  "QueryRow (reading f) w = (r1, w') \<Longrightarrow> within R w w'"
  "Query (reading g) w = (r2, w') \<Longrightarrow> within R w w'"
  by (erule withinI, rule guarantees_reading)+

end

text \<open>What a successful call saw: the database after the others, at the moment of the call.\<close>

abbreviation now_db :: "'db world \<Rightarrow> 'db" where
  "now_db w \<equiv> moOthers (shd (woFuture w)) (woDb w)"

lemma Exec_Inr:
  "Exec f w = (Inr a, w') \<Longrightarrow>
    \<exists>db'. f (moNow (shd (woFuture w))) (now_db w) = Inr (db', a) \<and>
      w' = w\<lparr>woDb := db', woFuture := stl (woFuture w)\<rparr>"
  by (auto simp: Exec_def db_call_def Let_def split: fault.splits sum.splits prod.splits outcome.splits option.splits)

lemma QueryRow_Inr:
  "QueryRow f w = (Inr a, w') \<Longrightarrow>
    \<exists>db'. f (moNow (shd (woFuture w))) (now_db w) = Inr (db', Some a) \<and>
      w' = w\<lparr>woDb := db', woFuture := stl (woFuture w)\<rparr>"
  by (auto simp: QueryRow_def split: prod.splits sum.splits option.splits dest!: Exec_Inr)

lemma Query_Inr:
  "Query f w = (Inr (rows, None), w') \<Longrightarrow>
    \<exists>db'. f (moNow (shd (woFuture w))) (now_db w) = Inr (db', rows) \<and>
      w' = w\<lparr>woDb := db', woFuture := stl (woFuture w)\<rparr>"
  by (auto simp: Query_def db_call_def Let_def split: fault.splits sum.splits prod.splits outcome.splits option.splits)

section \<open>A calm world\<close>

text \<open>No faults and no others, at one instant: the setting of liveness properties and of
  examples.\<close>

definition calm :: "time \<Rightarrow> 'db \<Rightarrow> 'db world" where
  "calm now db = \<lparr>woDb = db, woFuture = sconst \<lparr>moNow = now, moOthers = id, moFault = NoFault,
      moInner = sconst NoFault\<rparr>\<rparr>"

lemma Exec_calm:
  "Exec f (calm now db) =
     (case f now db of Inl e \<Rightarrow> (Inl e, calm now db) | Inr (db', a) \<Rightarrow> (Inr a, calm now db'))"
  by (simp add: Exec_def db_call_def calm_def Let_def split: sum.splits prod.splits)

lemma QueryRow_calm:
  "QueryRow f (calm now db) =
     (case f now db of Inl e \<Rightarrow> (Inl e, calm now db)
      | Inr (db', None) \<Rightarrow> (Inl (Sentinel PgxErrNoRows), calm now db')
      | Inr (db', Some a) \<Rightarrow> (Inr a, calm now db'))"
  by (simp add: QueryRow_def Exec_calm split: sum.splits prod.splits option.splits)

lemma Query_calm:
  "Query f (calm now db) =
     (case f now db of Inl e \<Rightarrow> (Inl e, calm now db) | Inr (db', rows) \<Rightarrow> (Inr (rows, None), calm now db'))"
  by (simp add: Query_def db_call_def calm_def Let_def split: sum.splits prod.splits)

lemma smap_sconst: "smap f (sconst x) = sconst (f x)"
  by coinduction auto

lemma transaction_world_calm:
  "transaction_world \<lparr>moNow = now, moOthers = id, moFault = NoFault, moInner = sconst NoFault\<rparr> db = calm now db"
  by (simp add: transaction_world_def calm_def smap_sconst)

lemma transaction_calm:
  "transaction body (calm now db) =
     (case body (calm now db) of
        (Discard a, tw) \<Rightarrow> (Finished a, calm now db)
      | (Keep a, tw) \<Rightarrow> (Finished a, calm now (woDb tw)))"
  unfolding transaction_def Let_def
  by (simp add: calm_def transaction_world_calm [unfolded calm_def] split: prod.splits verdict.splits)

lemmas calm_simps = Exec_calm QueryRow_calm Query_calm

lemma woDb_calm [simp]: "woDb (calm now db) = db"
  by (simp add: calm_def)

lemma rely_calm: "(\<And>db. R db db) \<Longrightarrow> rely R (calm now db)"
  by (simp add: rely_def calm_def)

end
