(* ===== verification/ShardLeases.thy ===== *)
theory ShardLeases
  imports Database
begin

text \<open>
  \<^verbatim>\<open>internal/adapters/postgres/shard.go\<close>: the leases of the virtual shards.  A lease row is never
  deleted; it changes owner only when it has expired, and then its fencing token grows.  The
  component shows that every call keeps the order \<open>lease_order\<close>, whatever the other workers do
  within it and whatever calls fail, and concludes that a worker that has lost its lease is never
  accepted again (\<open>lease_fencing\<close>).
\<close>

section \<open>The repository\<close>

definition on_leases ::
  "(time \<Rightarrow> ShardLease table \<Rightarrow> ShardLease table \<times> 'a) \<Rightarrow> time \<Rightarrow> database \<Rightarrow> (database \<times> 'a) result" where
  "on_leases f now db = (let (t, a) = f now (dbLeases db) in Inr (db\<lparr>dbLeases := t\<rparr>, a))"

definition GetOwner :: "u32 \<Rightarrow> database world \<Rightarrow> ShardLease option result \<times> database world" where
  "GetOwner shard w =
     (case QueryRow (reading (\<lambda>now db. select_row (\<lambda>r. slVirtualShard r = shard) (dbLeases db))) w of
        (Inl err, w') \<Rightarrow> (Inl (wrap ''get owner'' err), w')
      | (Inr lease, w') \<Rightarrow> (Inr (Some lease), w'))"

text \<open>The \<^verbatim>\<open>SET\<close> clause of the upsert: an expired lease changes hands.\<close>

definition takeover :: "string \<Rightarrow> time \<Rightarrow> time \<Rightarrow> ShardLease \<Rightarrow> ShardLease" where
  "takeover owner expiry now r =
     r\<lparr>slOwner := if slExpiresAt r < now then owner else slOwner r,
       slFencingToken := if slExpiresAt r < now then slFencingToken r + 1 else slFencingToken r,
       slExpiresAt := if slExpiresAt r < now then expiry else slExpiresAt r\<rparr>"

definition acquire_statement :: "u32 \<Rightarrow> string \<Rightarrow> int \<Rightarrow> time \<Rightarrow> ShardLease table \<Rightarrow> ShardLease table \<times> nat" where
  "acquire_statement shard owner ms now =
     insert_do_update slVirtualShard
       \<lparr>slVirtualShard = shard, slOwner = owner, slFencingToken = 1, slExpiresAt = now + interval_ms ms,
        slRoutingEpoch = 0\<rparr>
       (\<lambda>r. True) (takeover owner (now + interval_ms ms) now)"

definition Acquire ::
  "u32 \<Rightarrow> string \<Rightarrow> duration \<Rightarrow> database world \<Rightarrow> ShardLease option result \<times> database world" where
  "Acquire shard owner ttl w =
     (case Exec (on_leases (acquire_statement shard owner (Milliseconds ttl))) w of
        (Inl err, w') \<Rightarrow> (Inl (wrap ''acquire lease'' err), w')
      | (Inr n, w') \<Rightarrow> GetOwner shard w')"

definition Renew ::
  "u32 \<Rightarrow> string \<Rightarrow> int \<Rightarrow> duration \<Rightarrow> database world \<Rightarrow> ShardLease option result \<times> database world" where
  "Renew shard owner fencingToken ttl w =
     (case Exec (on_leases (\<lambda>now. update_where
             (\<lambda>r. slVirtualShard r = shard \<and> slOwner r = owner \<and> slFencingToken r = fencingToken \<and> now < slExpiresAt r)
             (\<lambda>r. r\<lparr>slExpiresAt := now + interval_ms (Milliseconds ttl)\<rparr>))) w of
        (Inl err, w') \<Rightarrow> (Inl (wrap ''renew lease'' err), w')
      | (Inr n, w') \<Rightarrow>
          if n = 0 then (Inl (Sentinel ErrLeaseExpired), w') else GetOwner shard w')"

text \<open>The requested leases are the entries of a map from shards to tokens; the result maps the
  shards of the returned rows to them.\<close>

definition renew_owned_statement ::
  "string \<Rightarrow> (u32 \<times> int) list \<Rightarrow> int \<Rightarrow> time \<Rightarrow> ShardLease table \<Rightarrow> ShardLease table \<times> ShardLease list" where
  "renew_owned_statement owner leases ms now t =
     (let P = (\<lambda>r. (slVirtualShard r, slFencingToken r) \<in> set leases \<and> slOwner r = owner \<and> now < slExpiresAt r);
          f = (\<lambda>r. r\<lparr>slExpiresAt := now + interval_ms ms\<rparr>)
      in (fst (update_where P f t), map f (filter P t)))"

definition RenewOwned ::
  "string \<Rightarrow> (u32 \<times> int) list \<Rightarrow> duration \<Rightarrow> database world \<Rightarrow> (u32 \<times> ShardLease) list result \<times> database world" where
  "RenewOwned owner leases ttl w =
     (if leases = [] then (Inr [], w)
      else case Query (on_leases (renew_owned_statement owner leases (Milliseconds ttl))) w of
             (Inl err, w') \<Rightarrow> (Inl (wrap ''renew owned leases'' err), w')
           | (Inr (rows, Some err), w') \<Rightarrow> (Inl (wrap ''iterate renewed leases'' err), w')
           | (Inr (rows, None), w') \<Rightarrow> (Inr (map (\<lambda>lease. (slVirtualShard lease, lease)) rows), w'))"

definition Release :: "u32 \<Rightarrow> string \<Rightarrow> database world \<Rightarrow> unit result \<times> database world" where
  "Release shard owner w =
     (case Exec (on_leases (\<lambda>now. update_where (\<lambda>r. slVirtualShard r = shard \<and> slOwner r = owner)
             (\<lambda>r. r\<lparr>slExpiresAt := now - interval_ms 1\<rparr>))) w of
        (Inl err, w') \<Rightarrow> (Inl (wrap ''release lease'' err), w')
      | (Inr n, w') \<Rightarrow> (Inr (), w'))"

definition ValidateFencingToken :: "u32 \<Rightarrow> string \<Rightarrow> int \<Rightarrow> database world \<Rightarrow> unit result \<times> database world" where
  "ValidateFencingToken shard owner fencingToken w =
     (case QueryRow (reading (\<lambda>now db. map_option slFencingToken
             (select_row (\<lambda>r. slVirtualShard r = shard \<and> slOwner r = owner \<and> now < slExpiresAt r) (dbLeases db)))) w of
        (Inl err, w') \<Rightarrow> (Inl (wrap ''validate fencing token'' err), w')
      | (Inr currentToken, w') \<Rightarrow>
          if currentToken \<noteq> fencingToken then (Inl (Sentinel ErrFencingTokenMismatch), w') else (Inr (), w'))"

definition AssertHeld :: "u32 \<Rightarrow> string \<Rightarrow> int \<Rightarrow> database world \<Rightarrow> unit result \<times> database world" where
  "AssertHeld shard owner fencingToken w =
     (case QueryRow (reading (\<lambda>now db. map_option (\<lambda>r. (slFencingToken r, now < slExpiresAt r))
             (select_row (\<lambda>r. slVirtualShard r = shard \<and> slOwner r = owner) (dbLeases db)))) w of
        (Inl err, w') \<Rightarrow> (Inl (wrap ''assert held'' err), w')
      | (Inr (currentToken, active), w') \<Rightarrow>
          if fencingToken \<le> 0 then (Inl (Sentinel ErrFencingTokenMismatch), w')
          else if \<not> active then (Inl (Sentinel ErrLeaseExpired), w')
          else if currentToken \<noteq> fencingToken then (Inl (Sentinel ErrFencingTokenMismatch), w')
          else (Inr (), w'))"

definition ListOwned :: "string \<Rightarrow> database world \<Rightarrow> ShardLease list result \<times> database world" where
  "ListOwned owner w =
     (case Query (reading (\<lambda>now db. select_rows (\<lambda>r. slOwner r = owner \<and> now < slExpiresAt r) (dbLeases db))) w of
        (Inl err, w') \<Rightarrow> (Inl (wrap ''list owned leases'' err), w')
      | (Inr (rows, Some err), w') \<Rightarrow> (Inl (wrap ''iterate owned leases'' err), w')
      | (Inr (rows, None), w') \<Rightarrow> (Inr rows, w'))"

text \<open>The calls of all workers, to speak of any sequence of them.\<close>

datatype lease_call =
    CallAcquire u32 string duration
  | CallRenew u32 string int duration
  | CallRenewOwned string "(u32 \<times> int) list" duration
  | CallRelease u32 string
  | CallGetOwner u32
  | CallAssertHeld u32 string int
  | CallValidate u32 string int
  | CallListOwned string

primrec perform :: "lease_call \<Rightarrow> database world \<Rightarrow> database world" where
  "perform (CallAcquire shard owner ttl) w = snd (Acquire shard owner ttl w)"
| "perform (CallRenew shard owner token ttl) w = snd (Renew shard owner token ttl w)"
| "perform (CallRenewOwned owner leases ttl) w = snd (RenewOwned owner leases ttl w)"
| "perform (CallRelease shard owner) w = snd (Release shard owner w)"
| "perform (CallGetOwner shard) w = snd (GetOwner shard w)"
| "perform (CallAssertHeld shard owner token) w = snd (AssertHeld shard owner token w)"
| "perform (CallValidate shard owner token) w = snd (ValidateFencingToken shard owner token w)"
| "perform (CallListOwned owner) w = snd (ListOwned owner w)"

section \<open>The order of lease tables\<close>

text \<open>Well-formed: one row per shard, positive tokens.  In the order, every row lives on, and its
  token grows unless it keeps its owner.\<close>

definition lease_ok :: "ShardLease table \<Rightarrow> bool" where
  "lease_ok t = (distinct (map slVirtualShard t) \<and> (\<forall>r \<in> set t. 0 < slFencingToken r))"

definition lease_step :: "ShardLease \<Rightarrow> ShardLease \<Rightarrow> bool" where
  "lease_step r r' =
     (slVirtualShard r' = slVirtualShard r \<and>
      (slFencingToken r < slFencingToken r' \<or> slFencingToken r' = slFencingToken r \<and> slOwner r' = slOwner r))"

definition lease_le :: "ShardLease table \<Rightarrow> ShardLease table \<Rightarrow> bool" where
  "lease_le t t' = (\<forall>r \<in> set t. \<exists>r' \<in> set t'. lease_step r r')"

definition lease_order :: "database \<Rightarrow> database \<Rightarrow> bool" where
  "lease_order db db' =
     (lease_ok (dbLeases db) \<longrightarrow> lease_ok (dbLeases db') \<and> lease_le (dbLeases db) (dbLeases db'))"

interpretation lease_key: primary_key slVirtualShard .

lemma lease_step_refl [simp]: "lease_step r r"
  by (simp add: lease_step_def)

lemma lease_step_trans: "lease_step r r' \<Longrightarrow> lease_step r' r'' \<Longrightarrow> lease_step r r''"
  by (auto simp: lease_step_def)

lemma lease_le_subset: "set t \<subseteq> set t' \<Longrightarrow> lease_le t t'"
  unfolding lease_le_def using lease_step_refl by blast

interpretation leases: interference lease_order
proof
  show "lease_order db db" for db
    by (simp add: lease_order_def lease_le_subset)
  show "lease_order db db''" if "lease_order db db'" "lease_order db' db''" for db db' db''
    using that unfolding lease_order_def lease_le_def by (meson lease_step_trans)
qed

text \<open>The two kinds of change: an update of rows within the step, and a first row.\<close>

lemma lease_update:
  assumes "lease_ok t" and "\<And>r. P r \<Longrightarrow> lease_step r (f r)"
  shows "lease_ok (fst (update_where P f t)) \<and> lease_le t (fst (update_where P f t))"
proof
  have "map slVirtualShard (fst (update_where P f t)) = map slVirtualShard t"
    by (rule lease_key.unique_update_where) (simp add: assms(2) lease_step_def [symmetric] | use assms(2) lease_step_def in blast)+
  moreover have "0 < slFencingToken (f r)" if "r \<in> set t" "P r" for r
    using assms(1) assms(2) [OF that(2)] that(1) by (fastforce simp: lease_ok_def lease_step_def)
  ultimately show "lease_ok (fst (update_where P f t))"
    using assms(1) by (auto simp: lease_ok_def)
  show "lease_le t (fst (update_where P f t))"
    unfolding lease_le_def
  proof
    fix r assume "r \<in> set t"
    then show "\<exists>r' \<in> set (fst (update_where P f t)). lease_step r r'"
      using assms(2) [of r] by (intro bexI [of _ "if P r then f r else r"]) auto
  qed
qed

lemma lease_insert:
  assumes "lease_ok t" and "slVirtualShard r \<notin> slVirtualShard ` set t" and "0 < slFencingToken r"
  shows "lease_ok (t @ [r]) \<and> lease_le t (t @ [r])"
  using assms by (auto simp: lease_ok_def intro!: lease_le_subset)

lemma on_leases_guarantees:
  assumes "\<And>now t. lease_ok t \<Longrightarrow> lease_ok (fst (f now t)) \<and> lease_le t (fst (f now t))"
  shows "guarantees lease_order (on_leases f)"
  unfolding guarantees_def lease_order_def on_leases_def
proof (intro allI impI)
  fix now db db' a
  assume "(let (t, a) = f now (dbLeases db) in Inr (db\<lparr>dbLeases := t\<rparr>, a)) = (Inr (db', a) :: (database \<times> 'a) result)"
    and ok: "lease_ok (dbLeases db)"
  then have "dbLeases db' = fst (f now (dbLeases db))"
    by (auto split: prod.splits)
  then show "lease_ok (dbLeases db') \<and> lease_le (dbLeases db) (dbLeases db')"
    using assms [OF ok] by simp
qed

lemma acquire_statement_ok:
  "lease_ok t \<Longrightarrow> lease_ok (fst (acquire_statement shard owner ms now t)) \<and> lease_le t (fst (acquire_statement shard owner ms now t))"
  unfolding acquire_statement_def insert_do_update_def
  by (cases "shard \<in> slVirtualShard ` set t") (simp_all add: lease_update lease_insert lease_step_def takeover_def)

lemma renew_owned_statement_ok:
  "lease_ok t \<Longrightarrow> lease_ok (fst (renew_owned_statement owner ls ms now t)) \<and> lease_le t (fst (renew_owned_statement owner ls ms now t))"
  unfolding renew_owned_statement_def Let_def fst_conv by (rule lease_update) (simp_all add: lease_step_def)

lemma update_leases_guarantees:
  "(\<And>now r. P now r \<Longrightarrow> lease_step r (f now r)) \<Longrightarrow> guarantees lease_order (on_leases (\<lambda>now. update_where (P now) (f now)))"
  by (rule on_leases_guarantees) (rule lease_update)

lemma GetOwner_within: "within lease_order w (snd (GetOwner shard w))"
  by (auto simp: GetOwner_def split: prod.splits sum.splits intro: leases.withinI_reading)

lemma Acquire_within: "within lease_order w (snd (Acquire shard owner ttl w))"
  by (auto simp: Acquire_def split: prod.splits sum.splits
      intro: leases.within_trans [OF _ GetOwner_within] leases.withinI(1) [OF _ on_leases_guarantees [OF acquire_statement_ok]])

lemma Renew_within: "within lease_order w (snd (Renew shard owner token ttl w))"
proof -
  let ?P = "\<lambda>now r. slVirtualShard r = shard \<and> slOwner r = owner \<and> slFencingToken r = token \<and> now < slExpiresAt r"
  let ?f = "\<lambda>now r. r\<lparr>slExpiresAt := now + interval_ms (Milliseconds ttl)\<rparr>"
  have "within lease_order w (snd (Exec (on_leases (\<lambda>now. update_where (?P now) (?f now))) w))"
    by (rule leases.Exec_within, rule update_leases_guarantees) (simp add: lease_step_def)
  then show ?thesis
    by (auto simp: Renew_def split: prod.splits sum.splits intro: leases.within_trans [OF _ GetOwner_within])
qed

lemma RenewOwned_within: "within lease_order w (snd (RenewOwned owner ls ttl w))"
  by (auto simp: RenewOwned_def leases.within_refl split: prod.splits sum.splits option.splits
      intro: leases.withinI(3) [OF _ on_leases_guarantees [OF renew_owned_statement_ok]])

lemma Release_within: "within lease_order w (snd (Release shard owner w))"
proof -
  let ?P = "\<lambda>now r. slVirtualShard r = shard \<and> slOwner r = owner"
  let ?f = "\<lambda>now r. r\<lparr>slExpiresAt := now - interval_ms 1\<rparr>"
  have "within lease_order w (snd (Exec (on_leases (\<lambda>now. update_where (?P now) (?f now))) w))"
    by (rule leases.Exec_within, rule update_leases_guarantees) (simp add: lease_step_def)
  then show ?thesis
    by (auto simp: Release_def split: prod.splits sum.splits)
qed

lemma AssertHeld_within: "within lease_order w (snd (AssertHeld shard owner token w))"
  by (auto simp: AssertHeld_def split: prod.splits sum.splits intro: leases.withinI_reading)

lemma ValidateFencingToken_within: "within lease_order w (snd (ValidateFencingToken shard owner token w))"
  by (auto simp: ValidateFencingToken_def split: prod.splits sum.splits intro: leases.withinI_reading)

lemma ListOwned_within: "within lease_order w (snd (ListOwned owner w))"
  by (auto simp: ListOwned_def split: prod.splits sum.splits option.splits intro: leases.withinI_reading)

lemmas lease_within = Acquire_within Renew_within RenewOwned_within Release_within GetOwner_within
  AssertHeld_within ValidateFencingToken_within ListOwned_within

lemma perform_within: "within lease_order w (perform c w)"
  by (cases c) (simp_all add: lease_within)

lemma performs_within: "within lease_order w (fold perform calls w)"
  by (rule leases.fold_within) (rule perform_within)

text \<open>A lease that is asserted is the row of its shard.\<close>

lemma AssertHeld_Inr:
  assumes "AssertHeld shard owner token w = (Inr (), w')"
  shows "\<exists>r \<in> set (dbLeases (woDb w')). slVirtualShard r = shard \<and> slOwner r = owner \<and> slFencingToken r = token \<and>
    0 < token \<and> moNow (shd (woFuture w)) < slExpiresAt r"
  using assms
  by (auto simp: AssertHeld_def select_row_def split: prod.splits sum.splits if_splits
      dest!: QueryRow_Inr find_SomeD)

text \<open>C3. Fencing.  Once a worker has been accepted with a token, and any sequence of calls of any
  workers has followed, amid failing calls and other traffic on the leases, whoever is accepted for
  the shard has a token at least as large, and another worker a larger one.  With the roles
  exchanged: after another worker was accepted, the first one never is again.\<close>

theorem lease_fencing:
  assumes "lease_ok (dbLeases (woDb w))" and "rely lease_order w"
    and "AssertHeld shard a token w = (Inr (), w1)"
    and "fold perform calls w1 = w2"
    and "AssertHeld shard b token' w2 = (Inr (), w3)"
  shows "token \<le> token' \<and> (a \<noteq> b \<longrightarrow> token < token')"
proof -
  have w1: "lease_order (woDb w) (woDb w1) \<and> rely lease_order w1"
    using AssertHeld_within [of w shard a token] assms(2,3) by (simp add: within_def)
  have w3: "lease_order (woDb w1) (woDb w3)"
    using leases.within_trans [OF performs_within [of w1 calls] AssertHeld_within [of _ shard b token']] assms(4,5) w1
    by (simp add: within_def)
  obtain r where r: "r \<in> set (dbLeases (woDb w1))" "slVirtualShard r = shard" "slOwner r = a" "slFencingToken r = token"
    using AssertHeld_Inr [OF assms(3)] by blast
  obtain r' where r': "r' \<in> set (dbLeases (woDb w3))" "slVirtualShard r' = shard" "slOwner r' = b" "slFencingToken r' = token'"
    using AssertHeld_Inr [OF assms(5)] by blast
  have ok: "lease_ok (dbLeases (woDb w1))" "lease_ok (dbLeases (woDb w3))" "lease_le (dbLeases (woDb w1)) (dbLeases (woDb w3))"
    using w1 w3 assms(1) by (auto simp: lease_order_def)
  then obtain r'' where r'': "r'' \<in> set (dbLeases (woDb w3))" "lease_step r r''"
    using r(1) by (auto simp: lease_le_def)
  then have "r'' = r'"
    using lease_key.same_row ok(2) r' r by (auto simp: lease_ok_def lease_step_def)
  then show ?thesis
    using r r' r'' by (auto simp: lease_step_def)
qed

text \<open>A shard whose lease expires at 10 and is taken over at 20.\<close>

definition takeover_world :: "database world" where
  "takeover_world =
     (let at = (\<lambda>now. \<lparr>moNow = now, moOthers = id, moFault = NoFault, moInner = sconst NoFault\<rparr>) in
      \<lparr>woDb = empty_database\<lparr>dbLeases := [\<lparr>slVirtualShard = 0, slOwner = ''a'', slFencingToken = 1, slExpiresAt = 10,
          slRoutingEpoch = 0\<rparr>]\<rparr>,
       woFuture = at 5 ## sconst (at 20)\<rparr>)"

theorem lease_fencing_witness:
  "\<exists>w1 w2 w3. AssertHeld 0 ''a'' 1 takeover_world = (Inr (), w1) \<and>
     fold perform [CallAcquire 0 ''b'' second] w1 = w2 \<and> AssertHeld 0 ''b'' 2 w2 = (Inr (), w3) \<and> (1::int) < 2"
proof -
  have ok: "lease_ok (dbLeases (woDb takeover_world))" "rely lease_order takeover_world"
    by (simp_all add: takeover_world_def lease_ok_def rely_def leases.R_refl)
  obtain w1 where w1: "AssertHeld 0 ''a'' 1 takeover_world = (Inr (), w1)"
    "w1 = \<lparr>woDb = woDb takeover_world, woFuture = sconst \<lparr>moNow = 20, moOthers = id, moFault = NoFault, moInner = sconst NoFault\<rparr>\<rparr>"
    by (simp add: takeover_world_def AssertHeld_def QueryRow_def Exec_def db_call_def select_row_def)
  obtain w3 where "AssertHeld 0 ''b'' 2 (fold perform [CallAcquire 0 ''b'' second] w1) = (Inr (), w3)"
    by (simp add: w1(2) takeover_world_def empty_database_def AssertHeld_def Acquire_def GetOwner_def QueryRow_def Exec_def
        db_call_def sql_defs on_leases_def acquire_statement_def takeover_def go_simps)
  then show ?thesis
    using lease_fencing [OF ok w1(1) refl] w1(1) by force
qed

end
