(* ===== verification/LeaseManager.thy ===== *)
theory LeaseManager
  imports ShardLeases "HOL-Library.AList"
begin

text \<open>
  \<^verbatim>\<open>internal/runtime/shard/lease.go\<close>: the lease manager of a worker.  It keeps a snapshot of the
  leases it believes to hold, renews them at every tick, drops those it lost, and reconciles their
  number with its share of the shards.  The repository is an argument, as the interface
  \<^verbatim>\<open>ports.ShardLeaseRepository\<close> is in the source; \<open>pg_lease_repository\<close> is the one of
  \<open>ShardLeases\<close>.

  Only the goroutine of the renewal loop changes the snapshot once it runs (\<^verbatim>\<open>Stop\<close> waits for it),
  so the operations are sequential and the mutex only orders readers.  A Go map is the list of its
  entries, and iteration follows the list; nothing depends on its order.
\<close>

section \<open>The manager\<close>

text \<open>\<^verbatim>\<open>lrRenewOwned\<close> is the optional batch interface \<^verbatim>\<open>batchLeaseRenewer\<close>.\<close>

record 'w ShardLeaseRepository =
  lrAcquire :: "u32 \<Rightarrow> string \<Rightarrow> duration \<Rightarrow> 'w \<Rightarrow> ShardLease option result \<times> 'w"
  lrRenew :: "u32 \<Rightarrow> string \<Rightarrow> int \<Rightarrow> duration \<Rightarrow> 'w \<Rightarrow> ShardLease option result \<times> 'w"
  lrRelease :: "u32 \<Rightarrow> string \<Rightarrow> 'w \<Rightarrow> unit result \<times> 'w"
  lrRenewOwned :: "(string \<Rightarrow> (u32 \<times> int) list \<Rightarrow> duration \<Rightarrow> 'w \<Rightarrow> (u32 \<times> ShardLease) list result \<times> 'w) option"

record LeaseManager =
  lmOwner :: string
  lmNumShards :: u32
  lmReplicaCount :: u32
  lmTtl :: duration
  lmRenewInterval :: duration
  lmOwnedShards :: "(u32 \<times> ShardLease) list"
  lmStarted :: bool
  lmStopped :: bool
  lmLoopRunning :: bool

definition NewLeaseManagerWithReplicaCountAndRenewInterval ::
  "string \<Rightarrow> u32 \<Rightarrow> u32 \<Rightarrow> duration \<Rightarrow> duration \<Rightarrow> LeaseManager" where
  "NewLeaseManagerWithReplicaCountAndRenewInterval owner numShards replicaCount ttl renewInterval =
     (let numShards = (if numShards = 0 then 4096 else numShards);
          replicaCount = (if replicaCount = 0 then 3 else replicaCount);
          ttl = (if ttl \<le> 0 then 30 * second else ttl);
          renewInterval = (if renewInterval \<le> 0 then ttl div 3 else renewInterval);
          renewInterval = (if renewInterval \<le> 0 then ttl else renewInterval)
      in \<lparr>lmOwner = owner, lmNumShards = numShards, lmReplicaCount = replicaCount, lmTtl = ttl,
          lmRenewInterval = renewInterval, lmOwnedShards = [], lmStarted = False, lmStopped = False,
          lmLoopRunning = False\<rparr>)"

definition NewLeaseManagerWithRenewInterval :: "string \<Rightarrow> u32 \<Rightarrow> duration \<Rightarrow> duration \<Rightarrow> LeaseManager" where
  "NewLeaseManagerWithRenewInterval owner numShards ttl renewInterval =
     NewLeaseManagerWithReplicaCountAndRenewInterval owner numShards 3 ttl renewInterval"

definition NewLeaseManager :: "string \<Rightarrow> u32 \<Rightarrow> duration \<Rightarrow> LeaseManager" where
  "NewLeaseManager owner numShards ttl = NewLeaseManagerWithRenewInterval owner numShards ttl 0"

definition targetOwnedShards :: "LeaseManager \<Rightarrow> u32" where
  "targetOwnedShards m =
     (let target = lmNumShards m div lmReplicaCount m;
          target = (if lmNumShards m mod lmReplicaCount m \<noteq> 0 then target + 1 else target)
      in if target = 0 then 1 else target)"

definition acquireShard ::
  "'w ShardLeaseRepository \<Rightarrow> u32 \<Rightarrow> LeaseManager \<Rightarrow> 'w \<Rightarrow> unit result \<times> LeaseManager \<times> 'w" where
  "acquireShard repo shard m w =
     (case lrAcquire repo shard (lmOwner m) (lmTtl m) w of
        (Inl err, w') \<Rightarrow> (Inl err, m, w')
      | (Inr None, w') \<Rightarrow> (Inl (ErrorString ''acquire shard: repository returned a nil lease''), m, w')
      | (Inr (Some lease), w') \<Rightarrow>
          if slOwner lease \<noteq> lmOwner m then (Inl (Sentinel ErrLeaseOwnedByOther), m, w')
          else (Inr (), m\<lparr>lmOwnedShards := AList.update shard lease (lmOwnedShards m)\<rparr>, w'))"

text \<open>The loop of \<^verbatim>\<open>Start\<close>; \<open>ctxErr\<close> is \<^verbatim>\<open>ctx.Err()\<close> when it is asked.\<close>

fun acquireInitial ::
  "'w ShardLeaseRepository \<Rightarrow> ('w \<Rightarrow> gerr option) \<Rightarrow> u32 list \<Rightarrow> LeaseManager \<Rightarrow> 'w \<Rightarrow> unit result \<times> LeaseManager \<times> 'w" where
  "acquireInitial repo ctxErr [] m w = (Inr (), m\<lparr>lmLoopRunning := True\<rparr>, w)"
| "acquireInitial repo ctxErr (shardID # shards) m w =
     (case acquireShard repo shardID m w of
        (Inr _, m', w') \<Rightarrow> acquireInitial repo ctxErr shards m' w'
      | (Inl err, m', w') \<Rightarrow>
          (case ctxErr w' of
             Some e \<Rightarrow>
               (Inl (Errorf [(''acquire initial shard '' @ nat_dec (unat shardID) @ '': '', e)] []), m'\<lparr>lmStarted := False\<rparr>, w')
           | None \<Rightarrow> acquireInitial repo ctxErr shards m' w'))"

text \<open>The shards of that loop, and \<^verbatim>\<open>Start\<close>; the context is absent when it is nil.\<close>

definition initialShards :: "LeaseManager \<Rightarrow> u32 list" where
  "initialShards m =
     (let start = (if lmOwner m \<noteq> [] then ShardHash (lmOwner m) mod lmNumShards m else 0)
      in map (\<lambda>i. (start + word_of_nat i) mod lmNumShards m) [0..<unat (targetOwnedShards m)])"

definition Start ::
  "'w ShardLeaseRepository \<Rightarrow> ('w \<Rightarrow> gerr option) option \<Rightarrow> LeaseManager \<Rightarrow> 'w \<Rightarrow> unit result \<times> LeaseManager \<times> 'w" where
  "Start repo ctx m w =
     (case ctx of
        None \<Rightarrow> (Inl (ErrorString ''start lease manager: context is nil''), m, w)
      | Some ctxErr \<Rightarrow>
          if lmStopped m then (Inl (ErrorString ''start lease manager: manager is stopped''), m, w)
          else if lmStarted m then (Inr (), m, w)
          else acquireInitial repo ctxErr (initialShards m) (m\<lparr>lmStarted := True\<rparr>) w)"

primrec releaseAll ::
  "'w ShardLeaseRepository \<Rightarrow> string \<Rightarrow> u32 list \<Rightarrow> gerr option \<Rightarrow> 'w \<Rightarrow> gerr option \<times> 'w" where
  "releaseAll repo owner [] firstErr w = (firstErr, w)"
| "releaseAll repo owner (shardID # shards) firstErr w =
     (case lrRelease repo shardID owner w of
        (Inl err, w') \<Rightarrow> releaseAll repo owner shards (if firstErr = None then Some err else firstErr) w'
      | (Inr _, w') \<Rightarrow> releaseAll repo owner shards firstErr w')"

definition Stop :: "'w ShardLeaseRepository \<Rightarrow> LeaseManager \<Rightarrow> 'w \<Rightarrow> gerr option \<times> LeaseManager \<times> 'w" where
  "Stop repo m w =
     (let (firstErr, w') = releaseAll repo (lmOwner m) (map fst (lmOwnedShards m)) None w
      in (firstErr, m\<lparr>lmStopped := True, lmLoopRunning := False, lmOwnedShards := []\<rparr>, w'))"

definition ownedLeaseTokens :: "LeaseManager \<Rightarrow> (u32 \<times> int) list" where
  "ownedLeaseTokens m = map (\<lambda>(shardID, lease). (shardID, slFencingToken lease)) (lmOwnedShards m)"

definition applyRenewal :: "(u32 \<times> ShardLease) list \<Rightarrow> u32 \<times> int \<Rightarrow> LeaseManager \<Rightarrow> LeaseManager" where
  "applyRenewal renewed expected m =
     (case map_of (lmOwnedShards m) (fst expected) of
        None \<Rightarrow> m
      | Some current \<Rightarrow>
          if slFencingToken current \<noteq> snd expected then m
          else case map_of renewed (fst expected) of
                 None \<Rightarrow> m\<lparr>lmOwnedShards := AList.delete (fst expected) (lmOwnedShards m)\<rparr>
               | Some lease \<Rightarrow> m\<lparr>lmOwnedShards := AList.update (fst expected) lease (lmOwnedShards m)\<rparr>)"

definition applyBatchRenewals :: "(u32 \<times> int) list \<Rightarrow> (u32 \<times> ShardLease) list \<Rightarrow> LeaseManager \<Rightarrow> LeaseManager" where
  "applyBatchRenewals expectedLeases renewed m = fold (applyRenewal renewed) expectedLeases m"

text \<open>The flag of the result says whether the renewal took place.\<close>

definition renewOwnedBatch ::
  "(string \<Rightarrow> (u32 \<times> int) list \<Rightarrow> duration \<Rightarrow> 'w \<Rightarrow> (u32 \<times> ShardLease) list result \<times> 'w) \<Rightarrow> (u32 \<times> int) list \<Rightarrow>
   LeaseManager \<Rightarrow> 'w \<Rightarrow> bool \<times> LeaseManager \<times> 'w" where
  "renewOwnedBatch renewOwned leases m w =
     (case renewOwned (lmOwner m) leases (lmTtl m) w of
        (Inl err, w') \<Rightarrow> (False, m, w')
      | (Inr renewed, w') \<Rightarrow> (True, applyBatchRenewals leases renewed m, w'))"

definition handleIndividualRenewalError :: "u32 \<Rightarrow> gerr \<Rightarrow> LeaseManager \<Rightarrow> LeaseManager" where
  "handleIndividualRenewalError shardID err m =
     (if errors_Is err ErrLeaseExpired \<or> errors_Is err ErrFencingTokenMismatch \<or> errors_Is err ErrLeaseOwnedByOther
      then m\<lparr>lmOwnedShards := AList.delete shardID (lmOwnedShards m)\<rparr> else m)"

fun renewOwnedIndividually ::
  "'w ShardLeaseRepository \<Rightarrow> (u32 \<times> int) list \<Rightarrow> LeaseManager \<Rightarrow> 'w \<Rightarrow> LeaseManager \<times> 'w" where
  "renewOwnedIndividually repo [] m w = (m, w)"
| "renewOwnedIndividually repo ((shardID, fencingToken) # leases) m w =
     (case lrRenew repo shardID (lmOwner m) fencingToken (lmTtl m) w of
        (Inl err, w') \<Rightarrow> renewOwnedIndividually repo leases (handleIndividualRenewalError shardID err m) w'
      | (Inr None, w') \<Rightarrow> renewOwnedIndividually repo leases m w'
      | (Inr (Some lease), w') \<Rightarrow>
          renewOwnedIndividually repo leases (m\<lparr>lmOwnedShards := AList.update shardID lease (lmOwnedShards m)\<rparr>) w')"

text \<open>The two loops of \<^verbatim>\<open>rebalanceIfNeeded\<close>.\<close>

fun releaseExcess ::
  "'w ShardLeaseRepository \<Rightarrow> int \<Rightarrow> u32 list \<Rightarrow> LeaseManager \<Rightarrow> 'w \<Rightarrow> LeaseManager \<times> 'w" where
  "releaseExcess repo excess [] m w = (m, w)"
| "releaseExcess repo excess (shardID # owned) m w =
     (if excess = 0 then (m, w)
      else case lrRelease repo shardID (lmOwner m) w of
             (Inl err, w') \<Rightarrow> releaseExcess repo excess owned m w'
           | (Inr _, w') \<Rightarrow>
               if map_of (lmOwnedShards m) shardID \<noteq> None
               then releaseExcess repo (excess - 1) owned
                      (m\<lparr>lmOwnedShards := AList.delete shardID (lmOwnedShards m)\<rparr>) w'
               else releaseExcess repo excess owned m w')"

fun acquireNeeded ::
  "'w ShardLeaseRepository \<Rightarrow> int \<Rightarrow> u32 list \<Rightarrow> LeaseManager \<Rightarrow> 'w \<Rightarrow> LeaseManager \<times> 'w" where
  "acquireNeeded repo needed [] m w = (m, w)"
| "acquireNeeded repo needed (shardID # shards) m w =
     (if needed \<le> 0 then (m, w)
      else if map_of (lmOwnedShards m) shardID \<noteq> None then acquireNeeded repo needed shards m w
      else case acquireShard repo shardID m w of
             (Inr _, m', w') \<Rightarrow> acquireNeeded repo (needed - 1) shards m' w'
           | (Inl err, m', w') \<Rightarrow> acquireNeeded repo needed shards m' w')"

definition all_shards :: "LeaseManager \<Rightarrow> u32 list" where
  "all_shards m = map word_of_nat [0..<unat (lmNumShards m)]"

definition rebalanceIfNeeded :: "'w ShardLeaseRepository \<Rightarrow> LeaseManager \<Rightarrow> 'w \<Rightarrow> LeaseManager \<times> 'w" where
  "rebalanceIfNeeded repo m w =
     (let targetOwned = uint (targetOwnedShards m);
          owned = map fst (lmOwnedShards m);
          (m1, w1) = (if targetOwned < int (length owned)
                      then releaseExcess repo (int (length owned) - targetOwned) (rev (sort owned)) m w
                      else (m, w));
          currentOwned = int (length (lmOwnedShards m1))
      in if targetOwned \<le> currentOwned then (m1, w1)
         else acquireNeeded repo (targetOwned - currentOwned) (all_shards m1) m1 w1)"

definition renewOwned :: "'w ShardLeaseRepository \<Rightarrow> LeaseManager \<Rightarrow> 'w \<Rightarrow> LeaseManager \<times> 'w" where
  "renewOwned repo m w =
     (let leases = ownedLeaseTokens m
      in case lrRenewOwned repo of
           Some renewer \<Rightarrow>
             (case renewOwnedBatch renewer leases m w of
                (False, m', w') \<Rightarrow> (m', w')
              | (True, m', w') \<Rightarrow> rebalanceIfNeeded repo m' w')
         | None \<Rightarrow>
             (let (m', w') = renewOwnedIndividually repo leases m w in rebalanceIfNeeded repo m' w'))"

text \<open>The renewal loop against the sequence of what its \<^verbatim>\<open>select\<close> receives.\<close>

datatype renew_signal = CtxDone | StopRenew | TickerC

fun renewLoop :: "'w ShardLeaseRepository \<Rightarrow> renew_signal list \<Rightarrow> LeaseManager \<Rightarrow> 'w \<Rightarrow> LeaseManager \<times> 'w" where
  "renewLoop repo [] m w = (m, w)"
| "renewLoop repo (CtxDone # signals) m w = (m\<lparr>lmLoopRunning := False\<rparr>, w)"
| "renewLoop repo (StopRenew # signals) m w = (m\<lparr>lmLoopRunning := False\<rparr>, w)"
| "renewLoop repo (TickerC # signals) m w =
     (let (m', w') = renewOwned repo m w in renewLoop repo signals m' w')"

definition OwnedShards :: "LeaseManager \<Rightarrow> u32 list" where
  "OwnedShards m = map fst (lmOwnedShards m)"

definition IsOwner :: "LeaseManager \<Rightarrow> u32 \<Rightarrow> bool" where
  "IsOwner m shard = (map_of (lmOwnedShards m) shard \<noteq> None)"

definition GetFencingToken :: "LeaseManager \<Rightarrow> u32 \<Rightarrow> int \<times> bool" where
  "GetFencingToken m shard =
     (case map_of (lmOwnedShards m) shard of None \<Rightarrow> (0, False) | Some lease \<Rightarrow> (slFencingToken lease, True))"

definition VirtualShardForEvent :: "LeaseManager \<Rightarrow> EventEnvelope \<Rightarrow> u32" where
  "VirtualShardForEvent m env = VirtualShard env (lmNumShards m)"

definition pg_lease_repository :: "database world ShardLeaseRepository" where
  "pg_lease_repository =
     \<lparr>lrAcquire = Acquire, lrRenew = Renew, lrRelease = Release, lrRenewOwned = Some RenewOwned\<rparr>"

lemma pg_lease_repository_sel [simp]:
  "lrAcquire pg_lease_repository = Acquire"
  "lrRenew pg_lease_repository = Renew"
  "lrRelease pg_lease_repository = Release"
  "lrRenewOwned pg_lease_repository = Some RenewOwned"
  by (simp_all add: pg_lease_repository_def)

section \<open>What the manager may rely on\<close>

text \<open>The calls of a manager in its life: \<^verbatim>\<open>Start\<close>, a stretch of the renewal loop, \<^verbatim>\<open>Stop\<close>.\<close>

datatype 'w manager_call =
    StartCall "('w \<Rightarrow> gerr option) option"
  | LoopRuns "renew_signal list"
  | StopCall

primrec manage :: "'w ShardLeaseRepository \<Rightarrow> 'w manager_call \<Rightarrow> LeaseManager \<times> 'w \<Rightarrow> LeaseManager \<times> 'w" where
  "manage repo (StartCall ctx) s = snd (Start repo ctx (fst s) (snd s))"
| "manage repo (LoopRuns signals) s = (if lmLoopRunning (fst s) then renewLoop repo signals (fst s) (snd s) else s)"
| "manage repo StopCall s = snd (Stop repo (fst s) (snd s))"

text \<open>A snapshot entry: a lease of this owner for its shard.\<close>

definition entry_ok :: "LeaseManager \<Rightarrow> u32 \<Rightarrow> ShardLease \<Rightarrow> bool" where
  "entry_ok m shard lease =
     (slVirtualShard lease = shard \<and> slOwner lease = lmOwner m \<and> 0 < slFencingToken lease \<and> shard < lmNumShards m)"

text \<open>The part of a manager that no call but \<^verbatim>\<open>Stop\<close> changes.\<close>

definition same_config :: "LeaseManager \<Rightarrow> LeaseManager \<Rightarrow> bool" where
  "same_config m m' =
     (lmOwner m' = lmOwner m \<and> lmNumShards m' = lmNumShards m \<and> lmReplicaCount m' = lmReplicaCount m \<and>
      lmTtl m' = lmTtl m \<and> lmStopped m' = lmStopped m \<and> lmLoopRunning m' = lmLoopRunning m)"

lemma same_config_refl [simp]: "same_config m m"
  by (simp add: same_config_def)

lemma same_config_trans: "same_config m m' \<Longrightarrow> same_config m' m'' \<Longrightarrow> same_config m m''"
  by (simp add: same_config_def)

text \<open>The interface of a lease repository.  \<open>good\<close> is the invariant of its state, and \<open>current\<close>
  says that a lease read from it is not ahead of what it holds: the row of the shard has the
  lease's owner and token, or a larger token.  A batch renewal returns leases of the owner with the
  requested tokens.\<close>

locale lease_repository =
  fixes repo :: "'w ShardLeaseRepository" and good :: "'w \<Rightarrow> bool" and current :: "ShardLease \<Rightarrow> 'w \<Rightarrow> bool"
  assumes acquire_good: "good w \<Longrightarrow> lrAcquire repo shard owner ttl w = (r, w') \<Longrightarrow> good w'"
    and acquire_current: "good w \<Longrightarrow> lrAcquire repo shard owner ttl w = (r, w') \<Longrightarrow> current l w \<Longrightarrow> current l w'"
    and acquire_lease: "good w \<Longrightarrow> lrAcquire repo shard owner ttl w = (Inr (Some lease), w') \<Longrightarrow>
      slVirtualShard lease = shard \<and> 0 < slFencingToken lease \<and> current lease w'"
    and release_good: "good w \<Longrightarrow> lrRelease repo shard owner w = (r1, w') \<Longrightarrow> good w'"
    and release_current: "good w \<Longrightarrow> lrRelease repo shard owner w = (r1, w') \<Longrightarrow> current l w \<Longrightarrow> current l w'"
    and batch: "lrRenewOwned repo \<noteq> None"
    and renew_good: "good w \<Longrightarrow> the (lrRenewOwned repo) owner ls ttl w = (r2, w') \<Longrightarrow> good w'"
    and renew_current: "good w \<Longrightarrow> the (lrRenewOwned repo) owner ls ttl w = (r2, w') \<Longrightarrow> current l w \<Longrightarrow> current l w'"
    and renew_lease: "good w \<Longrightarrow> the (lrRenewOwned repo) owner ls ttl w = (Inr renewed, w') \<Longrightarrow>
      map_of renewed shard = Some lease \<Longrightarrow>
      slVirtualShard lease = shard \<and> slOwner lease = owner \<and> 0 < slFencingToken lease \<and> current lease w'"
begin

definition snapshot_ok :: "LeaseManager \<Rightarrow> 'w \<Rightarrow> bool" where
  "snapshot_ok m w =
     (good w \<and> distinct (map fst (lmOwnedShards m)) \<and> 0 < lmNumShards m \<and>
      (\<forall>shard lease. map_of (lmOwnedShards m) shard = Some lease \<longrightarrow> entry_ok m shard lease \<and> current lease w))"

lemma snapshot_update:
  "snapshot_ok m w \<Longrightarrow> entry_ok m shard lease \<Longrightarrow> current lease w \<Longrightarrow>
    snapshot_ok (m\<lparr>lmOwnedShards := AList.update shard lease (lmOwnedShards m)\<rparr>) w"
  by (auto simp: snapshot_ok_def distinct_update update_conv' entry_ok_def)

lemma snapshot_delete:
  "snapshot_ok m w \<Longrightarrow> snapshot_ok (m\<lparr>lmOwnedShards := AList.delete shard (lmOwnedShards m)\<rparr>) w"
  by (auto simp: snapshot_ok_def distinct_delete delete_conv' entry_ok_def split: if_splits)

lemma snapshot_world:
  "snapshot_ok m w \<Longrightarrow> good w' \<Longrightarrow> (\<And>l. current l w \<Longrightarrow> current l w') \<Longrightarrow> snapshot_ok m w'"
  by (auto simp: snapshot_ok_def)

lemma snapshot_acquire:
  "snapshot_ok m w \<Longrightarrow> lrAcquire repo shard owner ttl w = (r, w') \<Longrightarrow> snapshot_ok m w'"
  by (meson snapshot_ok_def snapshot_world acquire_good acquire_current)

lemma snapshot_release:
  "snapshot_ok m w \<Longrightarrow> lrRelease repo shard owner w = (r, w') \<Longrightarrow> snapshot_ok m w'"
  by (meson snapshot_ok_def snapshot_world release_good release_current)

lemma acquireShard_ok:
  assumes "snapshot_ok m w" and "shard < lmNumShards m" and "acquireShard repo shard m w = (r, m', w')"
  shows "snapshot_ok m' w' \<and> same_config m m'"
proof -
  obtain q where q: "lrAcquire repo shard (lmOwner m) (lmTtl m) w = (q, w')"
    using assms(3) by (auto simp: acquireShard_def split: prod.splits sum.splits option.splits if_splits)
  have ok: "snapshot_ok m w'"
    using snapshot_acquire [OF assms(1) q] .
  have "entry_ok m shard lease \<and> current lease w'" if "q = Inr (Some lease)" "slOwner lease = lmOwner m" for lease
    using acquire_lease q that assms(1,2) by (auto simp: entry_ok_def snapshot_ok_def)
  then show ?thesis
    using assms(3) q ok snapshot_update [OF ok, of shard]
    by (auto simp: acquireShard_def same_config_def split: sum.splits option.splits if_splits)
qed

lemma acquireInitial_ok:
  assumes "snapshot_ok m w" and "\<And>s. s \<in> set shards \<Longrightarrow> s < lmNumShards m"
    and "acquireInitial repo ctxErr shards m w = (r, m', w')"
  shows "snapshot_ok m' w' \<and> lmOwner m' = lmOwner m \<and> lmNumShards m' = lmNumShards m \<and> lmStopped m' = lmStopped m"
  using assms
proof (induction shards arbitrary: m w)
  case Nil
  then show ?case by (auto simp: snapshot_ok_def entry_ok_def)
next
  case (Cons shard shards)
  obtain q m1 w1 where q: "acquireShard repo shard m w = (q, m1, w1)"
    using prod_cases3 by blast
  have ok: "snapshot_ok m1 w1" "same_config m m1"
    using acquireShard_ok [OF Cons.prems(1) _ q] Cons.prems(2) by auto
  have stop: "snapshot_ok (m1\<lparr>lmStarted := False\<rparr>) w1"
    using ok(1) by (auto simp: snapshot_ok_def entry_ok_def)
  show ?case
    using Cons.prems Cons.IH [of m1 w1] q ok stop
    by (auto simp: same_config_def split: sum.splits option.splits)
qed

lemma Start_ok:
  assumes "snapshot_ok m w" and "Start repo ctx m w = (r, m', w')"
  shows "snapshot_ok m' w' \<and> lmOwner m' = lmOwner m \<and> lmNumShards m' = lmNumShards m \<and> lmStopped m' = lmStopped m"
proof (cases "ctx = None \<or> lmStopped m \<or> lmStarted m")
  case True
  then show ?thesis
    using assms by (auto simp: Start_def split: option.splits if_splits)
next
  case False
  let ?m = "m\<lparr>lmStarted := True\<rparr>"
  obtain ctxErr where init: "acquireInitial repo ctxErr (initialShards m) ?m w = (r, m', w')"
    using False assms(2) by (auto simp: Start_def)
  have shards: "s < lmNumShards ?m" if "s \<in> set (initialShards m)" for s
    using that assms(1) by (auto simp: initialShards_def Let_def snapshot_ok_def word_mod_less_divisor)
  have "snapshot_ok ?m w"
    using assms(1) by (auto simp: snapshot_ok_def entry_ok_def)
  then show ?thesis
    using acquireInitial_ok [OF _ shards init] by simp
qed

lemma applyRenewal_ok:
  assumes "snapshot_ok m w"
    and "\<And>shard lease. map_of renewed shard = Some lease \<Longrightarrow>
      slVirtualShard lease = shard \<and> slOwner lease = lmOwner m \<and> 0 < slFencingToken lease \<and> current lease w"
  shows "snapshot_ok (applyRenewal renewed x m) w \<and> same_config m (applyRenewal renewed x m)"
proof -
  have "entry_ok m (fst x) lease" if "map_of (lmOwnedShards m) (fst x) = Some c" "map_of renewed (fst x) = Some lease" for c lease
    using assms(1) assms(2) [OF that(2)] that(1) by (auto simp: snapshot_ok_def entry_ok_def)
  then show ?thesis
    using assms by (auto simp: applyRenewal_def same_config_def snapshot_delete snapshot_update split: option.splits)
qed

lemma applyBatchRenewals_ok:
  assumes "snapshot_ok m w"
    and "\<And>shard lease. map_of renewed shard = Some lease \<Longrightarrow>
      slVirtualShard lease = shard \<and> slOwner lease = lmOwner m \<and> 0 < slFencingToken lease \<and> current lease w"
  shows "snapshot_ok (applyBatchRenewals expected renewed m) w \<and> same_config m (applyBatchRenewals expected renewed m)"
  using assms
proof (induction expected arbitrary: m)
  case Nil
  then show ?case by (simp add: applyBatchRenewals_def)
next
  case (Cons x expected)
  note ok = applyRenewal_ok [where x = x, OF Cons.prems]
  then have owner: "lmOwner (applyRenewal renewed x m) = lmOwner m"
    by (simp add: same_config_def)
  show ?case
    using Cons.IH [of "applyRenewal renewed x m", unfolded owner, OF conjunct1 [OF ok] Cons.prems(2)]
      same_config_trans [OF conjunct2 [OF ok]] by (simp add: applyBatchRenewals_def)
qed

lemma releaseExcess_ok:
  "snapshot_ok m w \<Longrightarrow> releaseExcess repo excess owned m w = (m', w') \<Longrightarrow> snapshot_ok m' w' \<and> same_config m m'"
proof (induction owned arbitrary: excess m w)
  case Nil
  then show ?case by simp
next
  case (Cons shard owned)
  obtain q w1 where q: "lrRelease repo shard (lmOwner m) w = (q, w1)"
    by fastforce
  let ?m = "m\<lparr>lmOwnedShards := AList.delete shard (lmOwnedShards m)\<rparr>"
  have ok: "snapshot_ok m w1" "snapshot_ok ?m w1" and same: "same_config m ?m"
    using snapshot_release [OF Cons.prems(1) q] by (simp_all add: snapshot_delete same_config_def)
  show ?case
    using Cons.prems q Cons.IH [OF ok(1)] Cons.IH [OF ok(2)] same_config_trans [OF same]
    by (simp split: if_splits sum.splits)
qed

lemma acquireNeeded_ok:
  "snapshot_ok m w \<Longrightarrow> (\<And>s. s \<in> set shards \<Longrightarrow> s < lmNumShards m) \<Longrightarrow>
    acquireNeeded repo needed shards m w = (m', w') \<Longrightarrow> snapshot_ok m' w' \<and> same_config m m'"
proof (induction shards arbitrary: needed m w)
  case Nil
  then show ?case by simp
next
  case (Cons shard shards)
  obtain q m1 w1 where q: "acquireShard repo shard m w = (q, m1, w1)"
    using prod_cases3 by blast
  have ok: "snapshot_ok m1 w1" "same_config m m1"
    using acquireShard_ok [OF Cons.prems(1) _ q] Cons.prems(2) by auto
  have less: "s < lmNumShards m1" if "s \<in> set shards" for s
    using ok(2) Cons.prems(2) that by (simp add: same_config_def)
  show ?case
    using Cons.prems q Cons.IH [OF ok(1) less] Cons.IH [OF Cons.prems(1)] same_config_trans [OF ok(2)]
    by (simp split: if_splits sum.splits)
qed

lemma all_shards_less: "s \<in> set (all_shards m) \<Longrightarrow> s < lmNumShards m"
  by (auto simp: all_shards_def word_less_nat_alt unat_of_nat take_bit_nat_eq_self_iff intro: le_less_trans [OF take_bit_nat_less_eq_self])

lemma rebalanceIfNeeded_ok:
  assumes "snapshot_ok m w" and "rebalanceIfNeeded repo m w = (m', w')"
  shows "snapshot_ok m' w' \<and> same_config m m'"
proof -
  obtain m1 w1 where m1: "(if uint (targetOwnedShards m) < int (length (map fst (lmOwnedShards m)))
      then releaseExcess repo (int (length (map fst (lmOwnedShards m))) - uint (targetOwnedShards m)) (rev (sort (map fst (lmOwnedShards m)))) m w
      else (m, w)) = (m1, w1)"
    by fastforce
  have ok: "snapshot_ok m1 w1 \<and> same_config m m1"
    using m1 releaseExcess_ok [OF assms(1)] assms(1) by (simp split: if_splits)
  show ?thesis
    using assms(2) ok acquireNeeded_ok [OF conjunct1 [OF ok] all_shards_less] same_config_trans
    unfolding rebalanceIfNeeded_def Let_def m1 by (auto split: if_splits)
qed

lemma renewOwned_ok:
  assumes "snapshot_ok m w" and "renewOwned repo m w = (m', w')"
  shows "snapshot_ok m' w' \<and> same_config m m'"
proof -
  obtain renewer where renewer: "lrRenewOwned repo = Some renewer"
    using batch by blast
  obtain q w1 where q: "renewer (lmOwner m) (ownedLeaseTokens m) (lmTtl m) w = (q, w1)"
    by fastforce
  have good: "good w"
    using assms(1) by (simp add: snapshot_ok_def)
  have ok: "snapshot_ok m w1"
    using snapshot_world [OF assms(1) renew_good [OF good] renew_current [OF good]] renewer q by simp
  have "snapshot_ok (applyBatchRenewals e renewed m) w1 \<and> same_config m (applyBatchRenewals e renewed m)" if "q = Inr renewed" for renewed e
    using applyBatchRenewals_ok [OF ok, of renewed] renew_lease [OF good] renewer q that by simp
  then show ?thesis
    using assms(2) ok q renewer rebalanceIfNeeded_ok same_config_trans
    by (fastforce simp: renewOwned_def renewOwnedBatch_def Let_def split: sum.splits)
qed

lemma renewLoop_ok:
  "snapshot_ok m w \<Longrightarrow> renewLoop repo signals m w = (m', w') \<Longrightarrow>
    snapshot_ok m' w' \<and> lmOwner m' = lmOwner m \<and> lmNumShards m' = lmNumShards m \<and> lmStopped m' = lmStopped m"
proof (induction signals arbitrary: m w)
  case Nil
  then show ?case by simp
next
  case (Cons signal signals)
  show ?case
  proof (cases signal)
    case TickerC
    obtain m1 w1 where m1: "renewOwned repo m w = (m1, w1)"
      by fastforce
    show ?thesis
      using Cons.prems TickerC m1 renewOwned_ok [OF Cons.prems(1) m1] Cons.IH [of m1 w1] by (simp add: same_config_def)
  qed (use Cons.prems in \<open>auto simp: snapshot_ok_def entry_ok_def\<close>)
qed

lemma releaseAll_ok:
  "snapshot_ok m w \<Longrightarrow> releaseAll repo owner shards firstErr w = (e, w') \<Longrightarrow> snapshot_ok m w'"
  by (induction shards arbitrary: firstErr w) (auto split: prod.splits sum.splits dest: snapshot_release)

lemma Stop_ok:
  "snapshot_ok m w \<Longrightarrow> Stop repo m w = (e, m', w') \<Longrightarrow> snapshot_ok m' w' \<and> lmOwner m' = lmOwner m \<and> lmNumShards m' = lmNumShards m"
  using releaseAll_ok [of m w "lmOwner m" "map fst (lmOwnedShards m)" None]
  by (cases "releaseAll repo (lmOwner m) (map fst (lmOwnedShards m)) None w") (auto simp: Stop_def snapshot_ok_def)

lemma manage_ok:
  assumes "snapshot_ok (fst s) (snd s)"
  shows "snapshot_ok (fst (manage repo c s)) (snd (manage repo c s)) \<and>
    lmOwner (fst (manage repo c s)) = lmOwner (fst s) \<and> lmNumShards (fst (manage repo c s)) = lmNumShards (fst s)"
proof (cases c)
  case (StartCall ctx)
  then show ?thesis
    using Start_ok [OF assms, of ctx] by (cases "Start repo ctx (fst s) (snd s)") simp
next
  case (LoopRuns signals)
  then show ?thesis
    using renewLoop_ok [OF assms, of signals] assms by (cases "renewLoop repo signals (fst s) (snd s)") simp
next
  case StopCall
  then show ?thesis
    using Stop_ok [OF assms] by (cases "Stop repo (fst s) (snd s)") simp
qed

lemma manage_all_ok:
  "snapshot_ok (fst s) (snd s) \<Longrightarrow> snapshot_ok (fst (fold (manage repo) calls s)) (snd (fold (manage repo) calls s)) \<and>
    lmOwner (fst (fold (manage repo) calls s)) = lmOwner (fst s) \<and> lmNumShards (fst (fold (manage repo) calls s)) = lmNumShards (fst s)"
proof (induction calls arbitrary: s)
  case Nil
  then show ?case by simp
next
  case (Cons c calls)
  show ?case
    using Cons.IH [of "manage repo c s"] manage_ok [OF Cons.prems, of c] by simp
qed

end

section \<open>The manager on PostgreSQL\<close>

definition leases_good :: "database world \<Rightarrow> bool" where
  "leases_good w = (lease_ok (dbLeases (woDb w)) \<and> rely lease_order w)"

definition lease_current :: "ShardLease \<Rightarrow> database world \<Rightarrow> bool" where
  "lease_current l w = (\<exists>r \<in> set (dbLeases (woDb w)). lease_step l r)"

lemma within_good: "within lease_order w w' \<Longrightarrow> leases_good w \<Longrightarrow> leases_good w'"
  by (auto simp: within_def leases_good_def lease_order_def)

lemma within_current: "within lease_order w w' \<Longrightarrow> leases_good w \<Longrightarrow> lease_current l w \<Longrightarrow> lease_current l w'"
  unfolding within_def leases_good_def lease_order_def lease_current_def lease_le_def
  by (meson lease_step_trans)

lemma GetOwner_Inr:
  assumes "GetOwner shard w = (Inr (Some lease), w')" and "leases_good w"
  shows "slVirtualShard lease = shard \<and> 0 < slFencingToken lease \<and> lease_current lease w'"
proof -
  have "leases_good w'"
    using within_good [OF GetOwner_within assms(2)] assms(1) by (metis snd_conv)
  moreover have "lease \<in> set (dbLeases (woDb w')) \<and> slVirtualShard lease = shard"
    using assms(1) by (auto simp: GetOwner_def select_row_def split: prod.splits sum.splits dest!: QueryRow_Inr find_SomeD)
  ultimately show ?thesis
    by (auto simp: leases_good_def lease_ok_def lease_current_def intro: bexI [of _ lease])
qed

lemma Acquire_Inr:
  assumes "Acquire shard owner ttl w = (Inr (Some lease), w')" and "leases_good w"
  shows "slVirtualShard lease = shard \<and> 0 < slFencingToken lease \<and> lease_current lease w'"
proof -
  obtain n w1 where w1: "Exec (on_leases (acquire_statement shard owner (Milliseconds ttl))) w = (Inr n, w1)"
    "GetOwner shard w1 = (Inr (Some lease), w')"
    using assms(1) by (auto simp: Acquire_def split: prod.splits sum.splits)
  have "leases_good w1"
    using within_good [OF leases.withinI(1) [OF w1(1) on_leases_guarantees [OF acquire_statement_ok]] assms(2)] .
  then show ?thesis
    using GetOwner_Inr [OF w1(2)] by blast
qed

lemma RenewOwned_Inr:
  assumes "RenewOwned owner ls ttl w = (Inr renewed, w')" and "leases_good w" and "map_of renewed shard = Some lease"
  shows "slVirtualShard lease = shard \<and> slOwner lease = owner \<and> 0 < slFencingToken lease \<and> lease_current lease w'"
proof -
  let ?m = "shd (woFuture w)"
  have good: "leases_good w'"
    using within_good [OF RenewOwned_within assms(2)] assms(1) by (metis snd_conv)
  have "ls \<noteq> []"
    using assms(1,3) by (auto simp: RenewOwned_def)
  then obtain db' rows where rows: "on_leases (renew_owned_statement owner ls (Milliseconds ttl)) (moNow ?m) (now_db w) = Inr (db', rows)"
    "woDb w' = db'" "renewed = map (\<lambda>l. (slVirtualShard l, l)) rows"
    using assms(1) by (auto simp: RenewOwned_def split: prod.splits sum.splits option.splits dest!: Query_Inr)
  have "lease \<in> set rows" "slVirtualShard lease = shard"
    using assms(3) rows(3) by (auto dest!: map_of_SomeD)
  moreover have "slOwner lease = owner \<and> lease \<in> set (dbLeases db')" if "lease \<in> set rows"
    using that rows(1) by (auto simp: on_leases_def renew_owned_statement_def Let_def image_iff)
  ultimately show ?thesis
    using good rows(2) by (auto simp: leases_good_def lease_ok_def lease_current_def intro: bexI [of _ lease])
qed

interpretation pg_leases: lease_repository pg_lease_repository leases_good lease_current
proof
  fix w w' :: "database world" and shard :: u32 and owner ttl ls r r1 r2 l lease renewed
  show "leases_good w \<Longrightarrow> lrAcquire pg_lease_repository shard owner ttl w = (r, w') \<Longrightarrow> leases_good w'"
    using within_good [OF Acquire_within] by (metis pg_lease_repository_sel(1) snd_conv)
  show "leases_good w \<Longrightarrow> lrAcquire pg_lease_repository shard owner ttl w = (r, w') \<Longrightarrow> lease_current l w \<Longrightarrow> lease_current l w'"
    using within_current [OF Acquire_within] by (metis pg_lease_repository_sel(1) snd_conv)
  show "leases_good w \<Longrightarrow> lrAcquire pg_lease_repository shard owner ttl w = (Inr (Some lease), w') \<Longrightarrow>
      slVirtualShard lease = shard \<and> 0 < slFencingToken lease \<and> lease_current lease w'"
    using Acquire_Inr by simp
  show "leases_good w \<Longrightarrow> lrRelease pg_lease_repository shard owner w = (r1, w') \<Longrightarrow> leases_good w'"
    using within_good [OF Release_within] by (metis pg_lease_repository_sel(3) snd_conv)
  show "leases_good w \<Longrightarrow> lrRelease pg_lease_repository shard owner w = (r1, w') \<Longrightarrow> lease_current l w \<Longrightarrow> lease_current l w'"
    using within_current [OF Release_within] by (metis pg_lease_repository_sel(3) snd_conv)
  show "lrRenewOwned pg_lease_repository \<noteq> None"
    by simp
  show "leases_good w \<Longrightarrow> the (lrRenewOwned pg_lease_repository) owner ls ttl w = (r2, w') \<Longrightarrow> leases_good w'"
    using within_good [OF RenewOwned_within] by (metis pg_lease_repository_sel(4) option.sel snd_conv)
  show "leases_good w \<Longrightarrow> the (lrRenewOwned pg_lease_repository) owner ls ttl w = (r2, w') \<Longrightarrow> lease_current l w \<Longrightarrow> lease_current l w'"
    using within_current [OF RenewOwned_within] by (metis pg_lease_repository_sel(4) option.sel snd_conv)
  show "leases_good w \<Longrightarrow> the (lrRenewOwned pg_lease_repository) owner ls ttl w = (Inr renewed, w') \<Longrightarrow>
      map_of renewed shard = Some lease \<Longrightarrow>
      slVirtualShard lease = shard \<and> slOwner lease = owner \<and> 0 < slFencingToken lease \<and> lease_current lease w'"
    using RenewOwned_Inr by simp
qed

section \<open>Properties\<close>

text \<open>C21. Whatever a lease manager goes through (starting, renewals, losses, rebalancing, stopping,
  failing calls, the traffic of other workers), a fencing token it hands out is positive, belongs to
  one of its shards, and is the token of the lease it holds in the database, unless the database has
  moved on to a larger one: it is never a token of another worker.\<close>

theorem lease_manager_tokens:
  assumes "lease_ok (dbLeases (woDb w))" and "rely lease_order w"
    and "0 < numShards"
    and "(m, w') = fold (manage pg_lease_repository) calls
           (NewLeaseManagerWithReplicaCountAndRenewInterval owner numShards replicaCount ttl renewInterval, w)"
    and "GetFencingToken m shard = (token, True)"
  shows "0 < token \<and> shard < numShards \<and>
    (\<exists>r \<in> set (dbLeases (woDb w')). slVirtualShard r = shard \<and>
       (token < slFencingToken r \<or> token = slFencingToken r \<and> slOwner r = owner))"
proof -
  let ?m = "NewLeaseManagerWithReplicaCountAndRenewInterval owner numShards replicaCount ttl renewInterval"
  have new: "lmOwner ?m = owner \<and> lmNumShards ?m = numShards"
    using assms(3) by (auto simp: NewLeaseManagerWithReplicaCountAndRenewInterval_def Let_def)
  have "pg_leases.snapshot_ok ?m w"
    using assms(1-3) new
    by (simp add: pg_leases.snapshot_ok_def leases_good_def NewLeaseManagerWithReplicaCountAndRenewInterval_def Let_def)
  then have "pg_leases.snapshot_ok m w' \<and> lmOwner m = owner \<and> lmNumShards m = numShards"
    using pg_leases.manage_all_ok [of "(?m, w)" calls] assms(4) [symmetric] new by simp
  then show ?thesis
    using assms(5)
    by (fastforce simp: GetFencingToken_def pg_leases.snapshot_ok_def entry_ok_def lease_current_def lease_step_def
        split: option.splits)
qed

theorem lease_manager_tokens_witness:
  "\<exists>m w'. fold (manage pg_lease_repository) [StartCall (Some (\<lambda>_. None))]
       (NewLeaseManagerWithReplicaCountAndRenewInterval [] 2 2 second 0, calm 1 empty_database) = (m, w') \<and>
     GetFencingToken m 0 = (1, True) \<and> (0::int) < 1"
proof -
  let ?m = "NewLeaseManagerWithReplicaCountAndRenewInterval [] 2 2 second 0"
  have ok: "lease_ok (dbLeases (woDb (calm 1 empty_database)))" "rely lease_order (calm 1 empty_database)"
    by (simp_all add: empty_database_def lease_ok_def rely_calm leases.R_refl)
  have new: "?m = \<lparr>lmOwner = [], lmNumShards = 2, lmReplicaCount = 2, lmTtl = 1000000000, lmRenewInterval = 333333333,
      lmOwnedShards = [], lmStarted = False, lmStopped = False, lmLoopRunning = False\<rparr>"
    by (simp add: NewLeaseManagerWithReplicaCountAndRenewInterval_def second_def)
  obtain m w' where m: "(m, w') = fold (manage pg_lease_repository) [StartCall (Some (\<lambda>_. None))] (?m, calm 1 empty_database)"
    "GetFencingToken m 0 = (1, True)"
    by (simp add: new Start_def initialShards_def targetOwnedShards_def
        acquireShard_def Acquire_def GetOwner_def calm_simps on_leases_def acquire_statement_def sql_defs
        empty_database_def GetFencingToken_def)
  then show ?thesis
    using lease_manager_tokens [OF ok _ m] by (intro exI [of _ m] exI [of _ w']) simp
qed

lemma targetOwnedShards_unat:
  assumes "0 < lmNumShards m" and "0 < lmReplicaCount m"
  shows "unat (targetOwnedShards m) =
    (let n = unat (lmNumShards m); r = unat (lmReplicaCount m) in if n mod r \<noteq> 0 then n div r + 1 else n div r)"
proof -
  define n r where "n = unat (lmNumShards m)" and "r = unat (lmReplicaCount m)"
  have pos: "0 < n" "0 < r"
    using assms by (auto simp: n_def r_def unat_gt_0 word_less_nat_alt)
  have less: "n < 2 ^ 32"
    using unsigned_less [of "lmNumShards m", where ?'a = nat] by (simp add: n_def)
  have step: "unat (lmNumShards m div lmReplicaCount m + 1) = n div r + 1" if "n mod r \<noteq> 0"
  proof -
    have "2 \<le> r"
      using that pos by (cases "r = 1") auto
    then have "n div r \<le> n div 2"
      by (intro div_le_mono2) auto
    then have "n div r + 1 < 2 ^ 32"
      using less by simp
    then show ?thesis
      by (simp add: n_def r_def unat_word_ariths unat_div_distrib)
  qed
  have divmod: "unat (lmNumShards m div lmReplicaCount m) = n div r" "lmNumShards m mod lmReplicaCount m = 0 \<longleftrightarrow> n mod r = 0"
    by (simp_all add: n_def r_def unat_div_distrib unat_mod_distrib flip: unat_eq_zero)
  have target: "unat (targetOwnedShards m) = (if n mod r \<noteq> 0 then n div r + 1 else n div r)"
  proof (cases "n mod r = 0")
    case True
    then have "n div r \<noteq> 0"
      using pos by (auto simp: div_eq_0_iff)
    then have "lmNumShards m div lmReplicaCount m \<noteq> 0"
      using divmod(1) by (metis unat_0)
    then show ?thesis
      using True divmod by (simp add: targetOwnedShards_def Let_def)
  next
    case False
    have "lmNumShards m div lmReplicaCount m + 1 \<noteq> 0"
      using step [OF False] by (metis Suc_eq_plus1 nat.distinct(1) unat_0)
    then show ?thesis
      using False step [OF False] divmod by (simp add: targetOwnedShards_def Let_def)
  qed
  then show ?thesis
    by (simp add: n_def r_def Let_def)
qed

text \<open>The shares of the configured replicas cover all shards, and one shard less per replica
  would not.\<close>

lemma targetOwnedShards_covers:
  assumes "0 < lmNumShards m" and "0 < lmReplicaCount m"
  shows "unat (lmNumShards m) \<le> unat (lmReplicaCount m) * unat (targetOwnedShards m) \<and>
    unat (lmReplicaCount m) * (unat (targetOwnedShards m) - 1) < unat (lmNumShards m)"
proof -
  define n r where "n = unat (lmNumShards m)" and "r = unat (lmReplicaCount m)"
  have pos: "0 < n" "0 < r"
    using assms by (auto simp: n_def r_def unat_gt_0 word_less_nat_alt)
  note target = targetOwnedShards_unat [OF assms, folded n_def r_def, unfolded Let_def]
  obtain q k where qk: "n div r = q" "n mod r = k" "n = r * q + k" "k < r"
    using pos by (metis mod_less_divisor mult_div_mod_eq)
  have "r * (q - 1) < r * q + k" if "0 < r * q + k"
    using that pos(2) by (cases q) simp_all
  then show ?thesis
    using qk pos(1) unfolding n_def [symmetric] r_def [symmetric] target by (cases "k = 0") simp_all
qed

lemma stopped_manage:
  "lmStopped (fst s) \<Longrightarrow> lmOwnedShards (fst s) = [] \<Longrightarrow> \<not> lmLoopRunning (fst s) \<Longrightarrow>
    lmStopped (fst (manage repo c s)) \<and> lmOwnedShards (fst (manage repo c s)) = [] \<and> \<not> lmLoopRunning (fst (manage repo c s))"
  by (cases c) (auto simp: Start_def Stop_def split: option.splits prod.splits)

lemma stopped_manage_all:
  "lmStopped (fst s) \<Longrightarrow> lmOwnedShards (fst s) = [] \<Longrightarrow> \<not> lmLoopRunning (fst s) \<Longrightarrow>
    lmStopped (fst (fold (manage repo) calls s)) \<and> lmOwnedShards (fst (fold (manage repo) calls s)) = []"
proof (induction calls arbitrary: s)
  case (Cons c calls)
  then show ?case
    using stopped_manage [of s repo c] by simp
qed simp

text \<open>Stopping is final: whatever is called afterwards, with any repository, the manager owns no
  shard and refuses to start.\<close>

lemma Stop_is_final:
  "OwnedShards (fst (fold (manage repo) calls (snd (Stop repo m w)))) = [] \<and>
   (\<exists>e. fst (Start repo ctx (fst (fold (manage repo) calls (snd (Stop repo m w)))) w') = Inl e)"
proof -
  have "lmStopped (fst (fold (manage repo) calls (snd (Stop repo m w)))) \<and> lmOwnedShards (fst (fold (manage repo) calls (snd (Stop repo m w)))) = []"
    by (rule stopped_manage_all) (simp_all add: Stop_def split: prod.splits)
  then show ?thesis
    by (auto simp: OwnedShards_def Start_def split: option.splits)
qed

end
