(* ===== verification/LeaseRenewal.thy ===== *)
theory LeaseRenewal
  imports LeaseManager
begin

text \<open>
  The renewal and the reconciliation of \<^verbatim>\<open>internal/runtime/shard/lease.go\<close> when nothing interferes:
  the batch renewal agrees with renewing one by one, and a reconciliation reaches the worker's share
  of the shards.
\<close>

section \<open>Batch renewal\<close>


text \<open>A batch renewal against the renewals one by one.  The rows a request matches, and what
  becomes of them:\<close>

definition renewable :: "string \<Rightarrow> (u32 \<times> int) list \<Rightarrow> time \<Rightarrow> ShardLease \<Rightarrow> bool" where
  "renewable owner ls now r = ((slVirtualShard r, slFencingToken r) \<in> set ls \<and> slOwner r = owner \<and> now < slExpiresAt r)"

definition extended :: "time \<Rightarrow> ShardLease \<Rightarrow> ShardLease" where
  "extended expiry r = r\<lparr>slExpiresAt := expiry\<rparr>"

definition renew_rows :: "string \<Rightarrow> (u32 \<times> int) list \<Rightarrow> time \<Rightarrow> time \<Rightarrow> ShardLease table \<Rightarrow> ShardLease table" where
  "renew_rows owner ls now expiry t = map (\<lambda>r. if renewable owner ls now r then extended expiry r else r) t"

definition row_of :: "u32 \<Rightarrow> ShardLease table \<Rightarrow> ShardLease option" where
  "row_of shard t = find (\<lambda>r. slVirtualShard r = shard) t"

lemma extended_sel [simp]:
  "slVirtualShard (extended x r) = slVirtualShard r" "slOwner (extended x r) = slOwner r"
  "slFencingToken (extended x r) = slFencingToken r" "slExpiresAt (extended x r) = x"
  by (simp_all add: extended_def)

lemma renew_rows_Nil [simp]: "renew_rows owner [] now expiry t = t"
  by (simp add: renew_rows_def renewable_def)

lemma renew_rows_Cons:
  "s \<notin> fst ` set ls \<Longrightarrow> renew_rows owner ((s, tok) # ls) now expiry t = renew_rows owner ls now expiry (renew_rows owner [(s, tok)] now expiry t)"
  by (force simp: renew_rows_def renewable_def)

lemma row_of_renew_rows:
  "row_of shard (renew_rows owner ls now expiry t) =
     map_option (\<lambda>r. if renewable owner ls now r then extended expiry r else r) (row_of shard t)"
  by (induction t) (simp_all add: renew_rows_def row_of_def)

lemma lease_ok_renew_rows: "lease_ok t \<Longrightarrow> lease_ok (renew_rows owner ls now expiry t)"
proof -
  have "map slVirtualShard (renew_rows owner ls now expiry t) = map slVirtualShard t"
    by (simp add: renew_rows_def)
  moreover have "\<forall>r \<in> set t. 0 < slFencingToken r \<Longrightarrow> \<forall>r \<in> set (renew_rows owner ls now expiry t). 0 < slFencingToken r"
    by (auto simp: renew_rows_def)
  ultimately show "lease_ok t \<Longrightarrow> lease_ok (renew_rows owner ls now expiry t)"
    by (simp add: lease_ok_def)
qed

lemma row_of_Some: "lease_ok t \<Longrightarrow> row_of s t = Some r \<longleftrightarrow> r \<in> set t \<and> slVirtualShard r = s"
  using lease_key.select_key [of t s r] by (simp add: row_of_def select_row_def lease_ok_def)

lemma row_of_None: "row_of s t = None \<longleftrightarrow> s \<notin> slVirtualShard ` set t"
  by (auto simp: row_of_def find_None_iff)

lemma row_of_shard: "row_of s t = Some r \<Longrightarrow> slVirtualShard r = s"
  by (auto simp: row_of_def dest: find_SomeD)

lemma Renew_calm:
  assumes "lease_ok (dbLeases db)"
  shows "Renew s owner tok ttl (calm now db) =
    (let expiry = now + interval_ms (Milliseconds ttl);
         w' = calm now (db\<lparr>dbLeases := renew_rows owner [(s, tok)] now expiry (dbLeases db)\<rparr>)
     in case row_of s (dbLeases db) of
          None \<Rightarrow> (Inl (Sentinel ErrLeaseExpired), w')
        | Some r \<Rightarrow> if renewable owner [(s, tok)] now r then (Inr (Some (extended expiry r)), w')
                    else (Inl (Sentinel ErrLeaseExpired), w'))"
proof -
  define P where "P = (\<lambda>r :: ShardLease. slVirtualShard r = s \<and> slOwner r = owner \<and> slFencingToken r = tok \<and> now < slExpiresAt r)"
  define t where "t = dbLeases db"
  let ?e = "now + interval_ms (Milliseconds ttl)"
  have P: "P = renewable owner [(s, tok)] now"
    by (auto simp: P_def renewable_def)
  have rows: "map (\<lambda>r. if P r then r\<lparr>slExpiresAt := ?e\<rparr> else r) t = renew_rows owner [(s, tok)] now ?e t"
    by (simp add: renew_rows_def P extended_def)
  have get: "find (\<lambda>r. slVirtualShard r = s) (renew_rows owner [(s, tok)] now ?e t) =
      map_option (\<lambda>r. if P r then extended ?e r else r) (row_of s t)"
    using row_of_renew_rows [of s owner "[(s, tok)]" now ?e t] by (simp add: row_of_def P)
  have empty: "filter P t = [] \<longleftrightarrow> (case row_of s t of None \<Rightarrow> True | Some r \<Rightarrow> \<not> P r)"
  proof -
    have some: "row_of s t = Some x" if "x \<in> set t" "P x" for x
      using that row_of_Some [of t s x] assms by (simp add: t_def P_def)
    show ?thesis
    proof (cases "row_of s t")
      case None
      then show ?thesis
        using some by (auto simp: filter_empty_conv)
    next
      case (Some r)
      then have "r \<in> set t"
        using row_of_Some [of t s r] assms by (simp add: t_def)
      then show ?thesis
        using some Some by (auto simp: filter_empty_conv)
    qed
  qed
  show ?thesis
    unfolding Renew_def calm_simps on_leases_def update_where_def GetOwner_def select_row_def P_def [symmetric] t_def [symmetric]
    using empty by (auto simp: Let_def rows get P [symmetric] QueryRow_calm split: option.splits)
qed

lemma RenewOwned_calm:
  "RenewOwned owner ls ttl (calm now db) =
    (let expiry = now + interval_ms (Milliseconds ttl)
     in (Inr (map (\<lambda>r. (slVirtualShard r, extended expiry r)) (filter (renewable owner ls now) (dbLeases db))),
         calm now (db\<lparr>dbLeases := renew_rows owner ls now expiry (dbLeases db)\<rparr>)))"
proof (cases "ls = []")
  case True
  then show ?thesis
    by (simp add: RenewOwned_def renewable_def Let_def)
next
  case False
  then show ?thesis
    by (simp add: RenewOwned_def Query_calm on_leases_def renew_owned_statement_def update_where_def Let_def
        renewable_def [abs_def] renew_rows_def comp_def flip: extended_def)
qed

lemma map_of_renewed:
  assumes "lease_ok t"
  shows "map_of (map (\<lambda>r. (slVirtualShard r, extended expiry r)) (filter (renewable owner ls now) t)) s =
    (case row_of s t of None \<Rightarrow> None | Some r \<Rightarrow> if renewable owner ls now r then Some (extended expiry r) else None)"
  using assms
proof (induction t)
  case (Cons r t)
  have "lease_ok t" "s = slVirtualShard r \<Longrightarrow> row_of s t = None"
    using Cons.prems by (auto simp: lease_ok_def row_of_None)
  then show ?case
    using Cons.IH by (auto simp: row_of_def)
qed (simp add: row_of_def)

lemma renewable_other: "slVirtualShard r \<noteq> s \<Longrightarrow> renewable owner ((s, tok) # ls) now r = renewable owner ls now r"
  by (auto simp: renewable_def)

lemma renewable_own: "s \<notin> fst ` set ls \<Longrightarrow> slVirtualShard r = s \<Longrightarrow> renewable owner ((s, tok) # ls) now r = renewable owner [(s, tok)] now r"
  by (force simp: renewable_def)

text \<open>Renewing one by one, for a map of renewed leases that agrees with the batch.\<close>

lemma renewOwnedIndividually_calm:
  assumes "lease_ok (dbLeases db)" and "distinct (map fst ls)"
    and "\<And>s tok. (s, tok) \<in> set ls \<Longrightarrow> \<exists>l. map_of (lmOwnedShards m) s = Some l \<and> slFencingToken l = tok"
    and "\<And>s. s \<in> fst ` set ls \<Longrightarrow> map_of renewed s = (case row_of s (dbLeases db) of None \<Rightarrow> None
           | Some r \<Rightarrow> if renewable (lmOwner m) ls now r then Some (extended (now + interval_ms (Milliseconds (lmTtl m))) r) else None)"
  shows "renewOwnedIndividually pg_lease_repository ls m (calm now db) =
    (applyBatchRenewals ls renewed m,
     calm now (db\<lparr>dbLeases := renew_rows (lmOwner m) ls now (now + interval_ms (Milliseconds (lmTtl m))) (dbLeases db)\<rparr>))"
  using assms
proof (induction ls arbitrary: m db)
  case Nil
  then show ?case by (simp add: applyBatchRenewals_def)
next
  case (Cons x ls)
  obtain s tok where x: "x = (s, tok)"
    by fastforce
  let ?e = "now + interval_ms (Milliseconds (lmTtl m))"
  define m1 where "m1 = applyRenewal renewed x m"
  define db1 where "db1 = db\<lparr>dbLeases := renew_rows (lmOwner m) [(s, tok)] now ?e (dbLeases db)\<rparr>"
  have s: "s \<notin> fst ` set ls"
    using Cons.prems(2) x by simp
  obtain l where l: "map_of (lmOwnedShards m) s = Some l" "slFencingToken l = tok"
    using Cons.prems(3) [of s tok] x by auto
  have row: "map_of renewed s = (case row_of s (dbLeases db) of None \<Rightarrow> None
      | Some r \<Rightarrow> if renewable (lmOwner m) [(s, tok)] now r then Some (extended ?e r) else None)"
    using Cons.prems(4) [of s] x row_of_shard [of s "dbLeases db"]
    by (cases "row_of s (dbLeases db)") (simp_all add: renewable_own [OF s])
  have one: "renewOwnedIndividually pg_lease_repository (x # ls) m (calm now db) = renewOwnedIndividually pg_lease_repository ls m1 (calm now db1)"
    using l row
    by (auto simp: x m1_def db1_def Renew_calm [OF Cons.prems(1)] Let_def applyRenewal_def handleIndividualRenewalError_def
        split: option.splits if_splits)
  have m1: "lmOwner m1 = lmOwner m" "lmTtl m1 = lmTtl m" "\<And>s'. s' \<noteq> s \<Longrightarrow> map_of (lmOwnedShards m1) s' = map_of (lmOwnedShards m) s'"
    by (auto simp: m1_def x applyRenewal_def update_conv' delete_conv' split: option.splits)
  have renewed: "map_of renewed s' = (case row_of s' (dbLeases db1) of None \<Rightarrow> None
      | Some r \<Rightarrow> if renewable (lmOwner m1) ls now r then Some (extended (now + interval_ms (Milliseconds (lmTtl m1))) r) else None)"
    if "s' \<in> fst ` set ls" for s'
  proof -
    have "s' \<noteq> s"
      using that s by auto
    then have "row_of s' (dbLeases db1) = row_of s' (dbLeases db)"
      using row_of_shard [of s' "dbLeases db"]
      by (cases "row_of s' (dbLeases db)") (auto simp: db1_def row_of_renew_rows renewable_def)
    then show ?thesis
      using Cons.prems(4) [of s'] that \<open>s' \<noteq> s\<close> row_of_shard [of s' "dbLeases db"] m1(1,2)
      by (cases "row_of s' (dbLeases db)") (simp_all add: x renewable_other)
  qed
  have "renewOwnedIndividually pg_lease_repository ls m1 (calm now db1) =
    (applyBatchRenewals ls renewed m1, calm now (db1\<lparr>dbLeases := renew_rows (lmOwner m1) ls now (now + interval_ms (Milliseconds (lmTtl m1))) (dbLeases db1)\<rparr>))"
  proof (rule Cons.IH [OF _ _ _ renewed])
    show "lease_ok (dbLeases db1)"
      using lease_ok_renew_rows [OF Cons.prems(1)] by (simp add: db1_def)
    show "distinct (map fst ls)"
      using Cons.prems(2) by simp
    show "\<exists>l. map_of (lmOwnedShards m1) s' = Some l \<and> slFencingToken l = tok'" if "(s', tok') \<in> set ls" for s' tok'
      using Cons.prems(3) [of s' tok'] m1(3) [of s'] s that by (force simp: x)
  qed
  then show ?case
    using one renew_rows_Cons [OF s] m1 by (simp add: db1_def x m1_def applyBatchRenewals_def)
qed

text \<open>C28. The batch renewal is the renewal of the leases one by one in a single round trip: without
  faults and interference it leaves the same rows in the database and the same snapshot in the
  manager.\<close>

theorem batch_renewal_equivalent:
  assumes "lease_ok (dbLeases db)" and "distinct (map fst (lmOwnedShards m))"
  shows "renewOwnedBatch RenewOwned (ownedLeaseTokens m) m (calm now db) =
    (True, renewOwnedIndividually pg_lease_repository (ownedLeaseTokens m) m (calm now db))"
proof -
  let ?ls = "ownedLeaseTokens m" and ?e = "now + interval_ms (Milliseconds (lmTtl m))"
  let ?renewed = "map (\<lambda>r. (slVirtualShard r, extended ?e r)) (filter (renewable (lmOwner m) ?ls now) (dbLeases db))"
  have keys: "map fst ?ls = map fst (lmOwnedShards m)"
    by (auto simp: ownedLeaseTokens_def)
  have tokens: "\<exists>l. map_of (lmOwnedShards m) s = Some l \<and> slFencingToken l = tok" if "(s, tok) \<in> set ?ls" for s tok
    using that assms(2) by (auto simp: ownedLeaseTokens_def)
  have "renewOwnedIndividually pg_lease_repository ?ls m (calm now db) =
    (applyBatchRenewals ?ls ?renewed m, calm now (db\<lparr>dbLeases := renew_rows (lmOwner m) ?ls now ?e (dbLeases db)\<rparr>))"
    by (rule renewOwnedIndividually_calm [OF assms(1) _ tokens]) (simp_all add: keys assms map_of_renewed)
  then show ?thesis
    by (simp add: renewOwnedBatch_def RenewOwned_calm Let_def)
qed

section \<open>Reconciliation\<close>


text \<open>When every foreign lease has expired, acquiring and releasing always succeed, in a calm
  world, and leave it so.\<close>

definition foreign_expired :: "string \<Rightarrow> time \<Rightarrow> database \<Rightarrow> bool" where
  "foreign_expired owner now db =
     (lease_ok (dbLeases db) \<and> (\<forall>r \<in> set (dbLeases db). slOwner r \<noteq> owner \<longrightarrow> slExpiresAt r < now))"

lemma acquire_statement_calm:
  assumes "foreign_expired owner now db"
    and t_def: "t = fst (acquire_statement s owner ms now (dbLeases db))"
  shows "\<forall>r \<in> set t. slOwner r \<noteq> owner \<longrightarrow> slExpiresAt r < now \<and> slVirtualShard r \<noteq> s" and "s \<in> slVirtualShard ` set t"
proof -
  have old: "slExpiresAt r < now" if "r \<in> set (dbLeases db)" "slOwner r \<noteq> owner" for r
    using assms(1) that by (simp add: foreign_expired_def)
  have one: "slExpiresAt r < now \<and> slVirtualShard r \<noteq> s" if r: "r \<in> set t" "slOwner r \<noteq> owner" for r
  proof (cases "s \<in> slVirtualShard ` set (dbLeases db)")
    case True
    let ?f = "takeover owner (now + interval_ms ms) now"
    have image: "set t = (\<lambda>r. if slVirtualShard r = s then ?f r else r) ` set (dbLeases db)"
      using True by (simp add: t_def acquire_statement_def insert_do_update_def update_where_def)
    obtain r0 where r0: "r0 \<in> set (dbLeases db)" "r = (if slVirtualShard r0 = s then ?f r0 else r0)"
      using r(1) unfolding image by blast
    show ?thesis
      using old [OF r0(1)] r0(2) r(2)
      by (cases "slVirtualShard r0 = s"; cases "slExpiresAt r0 < now") (simp_all add: takeover_def)
  next
    case False
    then have "set t = insert \<lparr>slVirtualShard = s, slOwner = owner, slFencingToken = 1, slExpiresAt = now + interval_ms ms,
        slRoutingEpoch = 0\<rparr> (set (dbLeases db))"
      by (simp add: t_def acquire_statement_def insert_do_update_def)
    then have "r \<in> set (dbLeases db)"
      using that by auto
    then show ?thesis
      using old that(2) False by auto
  qed
  then show "\<forall>r \<in> set t. slOwner r \<noteq> owner \<longrightarrow> slExpiresAt r < now \<and> slVirtualShard r \<noteq> s"
    by blast
  have "map slVirtualShard (fst (update_where P (takeover owner e now) (dbLeases db))) = map slVirtualShard (dbLeases db)" for P e
    by (rule lease_key.unique_update_where) (simp add: takeover_def)
  then have "slVirtualShard ` set (fst (update_where P (takeover owner e now) (dbLeases db))) = slVirtualShard ` set (dbLeases db)" for P e
    by (metis set_map)
  then show "s \<in> slVirtualShard ` set t"
    by (cases "s \<in> slVirtualShard ` set (dbLeases db)")
      (simp_all add: t_def acquire_statement_def insert_do_update_def del: set_update_where)
qed

lemma Acquire_calm:
  assumes "foreign_expired owner now db"
  obtains lease db' where "Acquire s owner ttl (calm now db) = (Inr (Some lease), calm now db')"
    and "slOwner lease = owner" and "foreign_expired owner now db'"
proof -
  define t where "t = fst (acquire_statement s owner (Milliseconds ttl) now (dbLeases db))"
  have ok: "lease_ok t"
    using assms acquire_statement_ok by (simp add: t_def foreign_expired_def)
  note rows = acquire_statement_calm(1) [OF assms t_def] and s = acquire_statement_calm(2) [OF assms t_def]
  obtain lease where lease: "row_of s t = Some lease"
    using s by (cases "row_of s t") (auto simp: row_of_None)
  have "slOwner lease = owner"
    using rows lease row_of_Some [OF ok] by auto
  moreover have "Acquire s owner ttl (calm now db) = (Inr (Some lease), calm now (db\<lparr>dbLeases := t\<rparr>))"
    using lease by (auto simp: Acquire_def GetOwner_def calm_simps on_leases_def select_row_def row_of_def t_def split: prod.splits)
  ultimately show thesis
    using that ok rows by (auto simp: foreign_expired_def)
qed

lemma Release_calm:
  assumes "foreign_expired owner now db"
  obtains db' where "Release s owner (calm now db) = (Inr (), calm now db')" and "foreign_expired owner now db'"
proof -
  let ?P = "\<lambda>r. slVirtualShard r = s \<and> slOwner r = owner" and ?f = "\<lambda>r. r\<lparr>slExpiresAt := now - interval_ms 1\<rparr>"
  define t where "t = fst (update_where ?P ?f (dbLeases db))"
  have "lease_ok t"
    using assms lease_update [of "dbLeases db" ?P ?f] by (simp add: t_def foreign_expired_def lease_step_def)
  moreover have "\<forall>r \<in> set t. slOwner r \<noteq> owner \<longrightarrow> slExpiresAt r < now"
    using assms unfolding t_def set_update_where by (auto simp: foreign_expired_def)
  moreover have "Release s owner (calm now db) = (Inr (), calm now (db\<lparr>dbLeases := t\<rparr>))"
    by (simp add: Release_def Exec_calm on_leases_def update_where_def t_def)
  ultimately show thesis
    using that by (simp add: foreign_expired_def)
qed

lemma acquireShard_calm:
  assumes "foreign_expired (lmOwner m) now db"
  obtains lease db' where "acquireShard pg_lease_repository s m (calm now db) =
      (Inr (), m\<lparr>lmOwnedShards := AList.update s lease (lmOwnedShards m)\<rparr>, calm now db')"
    and "foreign_expired (lmOwner m) now db'"
proof -
  obtain lease db' where "Acquire s (lmOwner m) (lmTtl m) (calm now db) = (Inr (Some lease), calm now db')"
    and "slOwner lease = lmOwner m" and "foreign_expired (lmOwner m) now db'"
    using Acquire_calm [OF assms] .
  then show thesis
    using that [of lease db'] by (simp add: acquireShard_def)
qed

lemma acquireNeeded_calm:
  assumes "foreign_expired (lmOwner m) now db" and "distinct shards"
  shows "length (lmOwnedShards (fst (acquireNeeded pg_lease_repository needed shards m (calm now db)))) =
    length (lmOwnedShards m) + min (nat needed) (length (filter (\<lambda>s. s \<notin> set (map fst (lmOwnedShards m))) shards))"
  using assms
proof (induction shards arbitrary: needed m db)
  case Nil
  then show ?case by simp
next
  case (Cons s shards)
  let ?owned = "\<lambda>m. set (map fst (lmOwnedShards m))"
  show ?case
  proof (cases "needed \<le> 0 \<or> s \<in> ?owned m")
    case True
    then show ?thesis
      using Cons.IH [OF Cons.prems(1), of needed] Cons.prems(2) by (auto simp: map_of_eq_None_iff image_iff)
  next
    case False
    obtain lease db' where acquired: "acquireShard pg_lease_repository s m (calm now db) =
        (Inr (), m\<lparr>lmOwnedShards := AList.update s lease (lmOwnedShards m)\<rparr>, calm now db')"
      and free: "foreign_expired (lmOwner m) now db'"
      using acquireShard_calm [OF Cons.prems(1)] .
    let ?m = "m\<lparr>lmOwnedShards := AList.update s lease (lmOwnedShards m)\<rparr>"
    have keys: "map fst (lmOwnedShards ?m) = map fst (lmOwnedShards m) @ [s]"
      using False by (simp add: update_keys)
    have "filter (\<lambda>x. x \<notin> ?owned ?m) shards = filter (\<lambda>x. x \<notin> ?owned m) shards"
      unfolding keys using Cons.prems(2) by (intro filter_cong) auto
    moreover have "length (lmOwnedShards ?m) = length (lmOwnedShards m) + 1"
      using arg_cong [OF keys, of length] by simp
    ultimately show ?thesis
      using Cons.IH [of ?m db' "needed - 1"] Cons.prems(2) False acquired free by (auto simp: map_of_eq_None_iff)
  qed
qed

lemma releaseExcess_calm:
  assumes "foreign_expired (lmOwner m) now db" and "distinct (map fst (lmOwnedShards m))" and "distinct owned"
    and "set owned \<subseteq> set (map fst (lmOwnedShards m))" and "0 \<le> excess" and "excess \<le> int (length owned)"
  shows "int (length (lmOwnedShards (fst (releaseExcess pg_lease_repository excess owned m (calm now db))))) =
    int (length (lmOwnedShards m)) - excess"
  using assms
proof (induction owned arbitrary: excess m db)
  case Nil
  then show ?case by simp
next
  case (Cons s owned)
  show ?case
  proof (cases "excess = 0")
    case False
    obtain db' where released: "Release s (lmOwner m) (calm now db) = (Inr (), calm now db')" and free: "foreign_expired (lmOwner m) now db'"
      using Release_calm [OF Cons.prems(1)] .
    let ?m = "m\<lparr>lmOwnedShards := AList.delete s (lmOwnedShards m)\<rparr>"
    have owned: "s \<in> set (map fst (lmOwnedShards m))"
      using Cons.prems(4) by simp
    have keys: "map fst (lmOwnedShards ?m) = remove1 s (map fst (lmOwnedShards m))"
      using Cons.prems(2) by (simp add: delete_keys distinct_remove1_removeAll)
    have less: "int (length (lmOwnedShards ?m)) = int (length (lmOwnedShards m)) - 1"
      using arg_cong [OF keys, of length] owned by (simp add: length_remove1 split: if_splits) (metis One_nat_def Suc_pred length_pos_if_in_set length_map of_nat_Suc add_diff_cancel_left' list.set_map)
    have "distinct (map fst (lmOwnedShards ?m))" "set owned \<subseteq> set (map fst (lmOwnedShards ?m))"
      unfolding keys using Cons.prems by auto
    then have "int (length (lmOwnedShards (fst (releaseExcess pg_lease_repository (excess - 1) owned ?m (calm now db'))))) =
        int (length (lmOwnedShards ?m)) - (excess - 1)"
      using Cons.prems(3,5,6) free False by (intro Cons.IH) auto
    then show ?thesis
      using released owned False less by (simp add: map_of_eq_None_iff)
  qed simp
qed

lemma distinct_all_shards: "distinct (all_shards m)"
proof -
  have "inj_on (word_of_nat :: nat \<Rightarrow> u32) {0..<unat (lmNumShards m)}"
  proof (rule inj_onI)
    fix i j assume "i \<in> {0..<unat (lmNumShards m)}" "j \<in> {0..<unat (lmNumShards m)}" "(word_of_nat i :: u32) = word_of_nat j"
    moreover have "unat (lmNumShards m) < 2 ^ 32"
      using unsigned_less [of "lmNumShards m", where ?'a = nat] by simp
    ultimately show "i = j"
      by (simp add: word_of_nat_eq_iff take_bit_nat_eq_self_iff [THEN iffD2])
  qed
  then show ?thesis
    by (simp add: all_shards_def distinct_map)
qed

lemma set_all_shards: "set (all_shards m) = {s. s < lmNumShards m}"
proof -
  have "s \<in> set (all_shards m)" if "s < lmNumShards m" for s
    using that unfolding all_shards_def set_map
    by (intro image_eqI [of _ _ "unat s"]) (simp_all add: word_less_nat_alt)
  then show ?thesis
    using pg_leases.all_shards_less by auto
qed

lemma uint_less_int: "uint (x :: u32) < int n \<longleftrightarrow> unat x < n"
  by (metis of_nat_less_iff uint_nat)

lemma int_eq_uint: "int n = uint (x :: u32) \<longleftrightarrow> n = unat x"
  by (metis of_nat_eq_iff uint_nat)

lemma target_le:
  assumes "0 < lmNumShards m" and "0 < lmReplicaCount m"
  shows "unat (targetOwnedShards m) \<le> unat (lmNumShards m)"
proof -
  have "n div r + 1 \<le> n" if "0 < r" "n mod r \<noteq> 0" for n r :: nat
    using that by (metis Suc_eq_plus1 Suc_leI div_less_dividend gr0I mod_0 mod_by_1 mod_less not_less_iff_gr_or_eq One_nat_def less_one nat_neq_iff)
  moreover have "0 < unat (lmReplicaCount m)"
    using assms(2) by (simp add: word_less_nat_alt)
  ultimately show ?thesis
    by (auto simp: targetOwnedShards_unat [OF assms] Let_def)
qed

text \<open>C29. When the leases of all other workers have expired and nothing interferes, one
  reconciliation brings the worker to exactly its share of the shards, from too many or too few.\<close>

theorem rebalance_reaches_target:
  assumes "lease_ok (dbLeases db)"
    and "\<forall>r \<in> set (dbLeases db). slOwner r \<noteq> lmOwner m \<longrightarrow> slExpiresAt r < now"
    and "distinct (OwnedShards m)" and "\<forall>s \<in> set (OwnedShards m). s < lmNumShards m"
    and "0 < lmNumShards m" and "0 < lmReplicaCount m"
  shows "length (OwnedShards (fst (rebalanceIfNeeded pg_lease_repository m (calm now db)))) = unat (targetOwnedShards m)"
proof -
  let ?keys = "map fst (lmOwnedShards m)" and ?target = "unat (targetOwnedShards m)"
  have free: "foreign_expired (lmOwner m) now db"
    using assms(1,2) by (simp add: foreign_expired_def)
  have keys: "distinct ?keys" "set ?keys \<subseteq> set (all_shards m)"
    using assms(3,4) by (auto simp: OwnedShards_def set_all_shards)
  show ?thesis
  proof (cases "?target < length ?keys")
    case True
    let ?excess = "int (length ?keys) - uint (targetOwnedShards m)"
    have more: "uint (targetOwnedShards m) < int (length ?keys)"
      using True by (simp add: uint_less_int)
    have released: "int (length (lmOwnedShards (fst (releaseExcess pg_lease_repository ?excess (rev (sort ?keys)) m (calm now db))))) = uint (targetOwnedShards m)"
      using releaseExcess_calm [OF free keys(1), of "rev (sort ?keys)" ?excess] keys(1) more by simp
    then show ?thesis
      using more by (auto simp: rebalanceIfNeeded_def Let_def OwnedShards_def int_eq_uint split: prod.splits)
  next
    case False
    have "length (filter (\<lambda>s. s \<notin> set ?keys) (all_shards m)) = unat (lmNumShards m) - length ?keys"
    proof -
      have "length (filter (\<lambda>s. s \<notin> set ?keys) (all_shards m)) = card (set (all_shards m) - set ?keys)"
        using distinct_all_shards [of m] by (simp add: distinct_length_filter Collect_neg_eq Int_commute Diff_eq)
      also have "\<dots> = card (set (all_shards m)) - card (set ?keys)"
        using keys(2) by (intro card_Diff_subset) auto
      finally show ?thesis
        using distinct_card [OF keys(1)] distinct_card [OF distinct_all_shards [of m]] by (simp add: all_shards_def)
    qed
    moreover have "?target \<le> unat (lmNumShards m)"
      using target_le [OF assms(5,6)] .
    moreover have less: "\<not> uint (targetOwnedShards m) < int (length ?keys)"
      using False by (simp add: uint_less_int)
    ultimately show ?thesis
      using False acquireNeeded_calm [OF free distinct_all_shards, of "uint (targetOwnedShards m) - int (length ?keys)" m]
      by (simp add: rebalanceIfNeeded_def Let_def OwnedShards_def uint_nat [symmetric] nat_diff_distrib int_eq_uint [THEN iffD1, OF sym])
  qed
qed

text \<open>A worker with one shard of four, two replicas.\<close>

definition sample_manager :: LeaseManager where
  "sample_manager = \<lparr>lmOwner = ''a'', lmNumShards = 4, lmReplicaCount = 2, lmTtl = second, lmRenewInterval = second,
     lmOwnedShards = [(3, \<lparr>slVirtualShard = 3, slOwner = ''a'', slFencingToken = 2, slExpiresAt = 10, slRoutingEpoch = 0\<rparr>)],
     lmStarted = True, lmStopped = False, lmLoopRunning = True\<rparr>"

definition sample_leases :: database where
  "sample_leases = empty_database\<lparr>dbLeases :=
     [\<lparr>slVirtualShard = 0, slOwner = ''b'', slFencingToken = 7, slExpiresAt = 4, slRoutingEpoch = 0\<rparr>,
      \<lparr>slVirtualShard = 3, slOwner = ''a'', slFencingToken = 2, slExpiresAt = 10, slRoutingEpoch = 0\<rparr>]\<rparr>"

theorem rebalance_reaches_target_witness:
  "length (OwnedShards (fst (rebalanceIfNeeded pg_lease_repository sample_manager (calm 5 sample_leases)))) = 2"
  using rebalance_reaches_target [of sample_leases sample_manager 5]
  by (simp add: sample_leases_def sample_manager_def empty_database_def lease_ok_def OwnedShards_def targetOwnedShards_def)

theorem batch_renewal_equivalent_witness:
  "renewOwnedBatch RenewOwned (ownedLeaseTokens sample_manager) sample_manager (calm 5 sample_leases) =
    (True, renewOwnedIndividually pg_lease_repository (ownedLeaseTokens sample_manager) sample_manager (calm 5 sample_leases))"
  using batch_renewal_equivalent [of sample_leases sample_manager 5]
  by (simp add: sample_leases_def sample_manager_def empty_database_def lease_ok_def)

end
