(* ===== verification/GoStrings.thy ===== *)
theory GoStrings
  imports Prelude
begin

text \<open>
  \<^verbatim>\<open>strings.TrimSpace\<close>: white space is the Unicode property, on UTF-8 text.
\<close>

text \<open>The length of the white-space rune a text begins with.\<close>

definition space_rune :: "string \<Rightarrow> nat option" where
  "space_rune s =
     (if take 1 s \<in> {'' '', [CHR 0x09], [CHR 0x0A], [CHR 0x0B], [CHR 0x0C], [CHR 0x0D]} then Some 1
      else if take 2 s \<in> {[CHR 0xC2, CHR 0x85], [CHR 0xC2, CHR 0xA0]} then Some 2
      else if take 3 s \<in> {[CHR 0xE1, CHR 0x9A, CHR 0x80], [CHR 0xE2, CHR 0x81, CHR 0x9F], [CHR 0xE3, CHR 0x80, CHR 0x80],
          [CHR 0xE2, CHR 0x80, CHR 0xA8], [CHR 0xE2, CHR 0x80, CHR 0xA9], [CHR 0xE2, CHR 0x80, CHR 0xAF],
          [CHR 0xE2, CHR 0x80, CHR 0x80], [CHR 0xE2, CHR 0x80, CHR 0x81], [CHR 0xE2, CHR 0x80, CHR 0x82],
          [CHR 0xE2, CHR 0x80, CHR 0x83], [CHR 0xE2, CHR 0x80, CHR 0x84], [CHR 0xE2, CHR 0x80, CHR 0x85],
          [CHR 0xE2, CHR 0x80, CHR 0x86], [CHR 0xE2, CHR 0x80, CHR 0x87], [CHR 0xE2, CHR 0x80, CHR 0x88],
          [CHR 0xE2, CHR 0x80, CHR 0x89], [CHR 0xE2, CHR 0x80, CHR 0x8A]} then Some 3
      else None)"

lemma space_rune_pos: "space_rune s = Some n \<Longrightarrow> 0 < n \<and> s \<noteq> []"
  by (auto simp: space_rune_def split: if_splits)

function TrimLeft_space :: "string \<Rightarrow> string" where
  "TrimLeft_space s = (case space_rune s of None \<Rightarrow> s | Some n \<Rightarrow> TrimLeft_space (drop n s))"
  by pat_completeness auto
termination
  by (relation "measure length") (auto dest: space_rune_pos)

declare TrimLeft_space.simps [simp del]

text \<open>The longest suffix of white space is what the first suffix that trims to nothing is.\<close>

definition TrimRight_space :: "string \<Rightarrow> string" where
  "TrimRight_space s = take (the (find (\<lambda>n. TrimLeft_space (drop n s) = []) [0..<Suc (length s)])) s"

definition TrimSpace :: "string \<Rightarrow> string" where
  "TrimSpace s = TrimRight_space (TrimLeft_space s)"

lemma TrimLeft_space_Nil [simp]: "TrimLeft_space [] = []"
  by (subst TrimLeft_space.simps) (simp add: space_rune_def)

lemma TrimLeft_space_rune: "space_rune s = None \<Longrightarrow> TrimLeft_space s = s"
  by (subst TrimLeft_space.simps) simp

lemma TrimRight_space_Nil [simp]: "TrimRight_space [] = []"
  by (simp add: TrimRight_space_def)

text \<open>A text is blank if it trims to nothing, and what remains of another does not begin with white
  space.\<close>

lemma TrimLeft_space_stops: "space_rune (TrimLeft_space s) = None"
proof (induction s rule: TrimLeft_space.induct)
  case (1 s)
  show ?case
    using 1 by (subst TrimLeft_space.simps) (auto split: option.splits)
qed

text \<open>A character that is no part of white space survives trimming.\<close>

definition space_bytes :: "char set" where
  "space_bytes = set [CHR '' '', CHR 0x09, CHR 0x0A, CHR 0x0B, CHR 0x0C, CHR 0x0D, CHR 0xC2, CHR 0x85, CHR 0xA0, CHR 0xE1, CHR 0x9A,
     CHR 0x80, CHR 0xE2, CHR 0x81, CHR 0x9F, CHR 0xE3, CHR 0xA8, CHR 0xA9, CHR 0xAF, CHR 0x82, CHR 0x83, CHR 0x84, CHR 0x86, CHR 0x87,
     CHR 0x88, CHR 0x89, CHR 0x8A]"

lemma space_rune_bytes: "space_rune s = Some n \<Longrightarrow> set (take n s) \<subseteq> space_bytes"
  by (auto simp: space_rune_def space_bytes_def split: if_splits)

lemma TrimLeft_space_keeps: "c \<in> set s \<Longrightarrow> c \<notin> space_bytes \<Longrightarrow> c \<in> set (TrimLeft_space s)"
proof (induction s rule: TrimLeft_space.induct)
  case (1 s)
  show ?case
  proof (cases "space_rune s")
    case None
    then show ?thesis
      using "1.prems" by (simp add: TrimLeft_space_rune)
  next
    case (Some n)
    have "c \<in> set (drop n s)"
      using "1.prems" space_rune_bytes [OF Some] by (metis Un_iff append_take_drop_id set_append subsetD)
    then show ?thesis
      using "1.IH" [OF Some] "1.prems"(2) Some by (subst TrimLeft_space.simps) simp
  qed
qed

lemma TrimSpace_keeps:
  assumes "c \<in> set s" and "c \<notin> space_bytes"
  shows "c \<in> set (TrimSpace s)"
proof -
  let ?s = "TrimLeft_space s"
  have "find (\<lambda>n. TrimLeft_space (drop n ?s) = []) [0..<Suc (length ?s)] \<noteq> None"
    unfolding find_None_iff by (auto intro: bexI [of _ "length ?s"])
  then obtain n where n: "find (\<lambda>n. TrimLeft_space (drop n ?s) = []) [0..<Suc (length ?s)] = Some n"
    by blast
  then have "TrimLeft_space (drop n ?s) = []"
    by (auto dest: find_SomeD)
  then have "c \<notin> set (drop n ?s)"
    using TrimLeft_space_keeps [OF _ assms(2), of "drop n ?s"] by auto
  moreover have "c \<in> set ?s"
    using TrimLeft_space_keeps [OF assms] .
  ultimately have "c \<in> set (take n ?s)"
    by (metis Un_iff append_take_drop_id set_append)
  then show ?thesis
    unfolding TrimSpace_def TrimRight_space_def n by simp
qed

end
