(* ===== verification/OutboxRepository.thy ===== *)
theory OutboxRepository
  imports Database GoStrings "HOL-Library.Product_Lexorder"
begin

text \<open>
  \<^verbatim>\<open>internal/adapters/postgres/outbox.go\<close>: the repository of outbox effects.  A claim marks the oldest
  due effects, or those whose claim expired, with a token and an expiry; the three settlements
  (delivered, retry, quarantined) go through only for the holder of an unexpired claim.

  Rows that tie in an \<^verbatim>\<open>ORDER BY\<close> keep the order of the table; \<^verbatim>\<open>RETURNING\<close> lists the updated rows in
  that order.
\<close>

section \<open>The repository\<close>

abbreviation row_id :: "outbox_row \<Rightarrow> string" where
  "row_id r \<equiv> obID (owEffect r)"

abbreviation row_status :: "outbox_row \<Rightarrow> OutboxStatus" where
  "row_status r \<equiv> obStatus (owEffect r)"

definition on_outbox :: "(time \<Rightarrow> outbox_row table \<Rightarrow> outbox_row table \<times> 'a) \<Rightarrow> time \<Rightarrow> database \<Rightarrow> (database \<times> 'a) result" where
  "on_outbox f now db = (let (t, a) = f now (dbOutbox db) in Inr (db\<lparr>dbOutbox := t\<rparr>, a))"

text \<open>The claim columns are not among the inserted ones.\<close>

definition outbox_row_of :: "OutboxEffect \<Rightarrow> outbox_row" where
  "outbox_row_of ef =
     \<lparr>owEffect = ef\<lparr>obClaimedBy := [], obClaimedAt := None, obClaimExpiresAt := None\<rparr>,
      owClaimedBy = None, owClaimedAt = None, owClaimExpiresAt = None\<rparr>"

text \<open>The foreign key to the executions makes the statement fail for an unknown execution.\<close>

definition insert_effect_statement :: "OutboxEffect \<Rightarrow> time \<Rightarrow> database \<Rightarrow> (database \<times> nat) result" where
  "insert_effect_statement ef now db =
     (if obID ef \<notin> row_id ` set (dbOutbox db) \<and> obExecutionID ef \<notin> exID ` set (dbExecutions db)
      then Inl (ErrorString ''foreign key violation: outbox_effects.execution_id'')
      else on_outbox (\<lambda>_. insert_do_nothing row_id (outbox_row_of ef)) now db)"

primrec Outbox_Insert :: "OutboxEffect list \<Rightarrow> database world \<Rightarrow> unit result \<times> database world" where
  "Outbox_Insert [] w = (Inr (), w)"
| "Outbox_Insert (ef # effects) w =
     (if obTenantID ef = [] then (Inl (ErrorString ''insert outbox: tenant_id is required''), w)
      else case Exec (insert_effect_statement ef) w of
             (Inl err, w') \<Rightarrow> (Inl (wrap ''insert outbox'' err), w')
           | (Inr n, w') \<Rightarrow> Outbox_Insert effects w')"

definition validateClaimArguments :: "int \<Rightarrow> string \<Rightarrow> duration \<Rightarrow> unit result" where
  "validateClaimArguments batchSize owner claimTTL =
     (if batchSize \<le> 0 \<or> batchSize > 1000 then Inl (ErrorString ''claim batch size must be between 1 and 1000'')
      else if TrimSpace owner = [] then Inl (ErrorString ''claim owner is required'')
      else if claimTTL \<le> 0 then Inl (ErrorString ''claim TTL must be > 0'')
      else Inr ())"

definition claimable :: "time \<Rightarrow> outbox_row \<Rightarrow> bool" where
  "claimable now r =
     (row_status r = OutboxStatusPending \<and> obAvailableAt (owEffect r) \<le> now \<or>
      row_status r = OutboxStatusClaimed \<and> (case owClaimExpiresAt r of None \<Rightarrow> False | Some e \<Rightarrow> e \<le> now))"

definition candidates :: "int \<Rightarrow> time \<Rightarrow> outbox_row table \<Rightarrow> outbox_row list" where
  "candidates batchSize now t =
     order_limit (\<lambda>r. (obAvailableAt (owEffect r), obCreatedAt (owEffect r))) batchSize (select_rows (claimable now) t)"

definition claimed_row :: "string \<Rightarrow> duration \<Rightarrow> time \<Rightarrow> outbox_row \<Rightarrow> outbox_row" where
  "claimed_row owner claimTTL now r =
     r\<lparr>owEffect := (owEffect r)\<lparr>obStatus := OutboxStatusClaimed, obUpdatedAt := now\<rparr>,
       owClaimedBy := Some owner, owClaimedAt := Some now, owClaimExpiresAt := Some (now + claimTTL)\<rparr>"

definition claimPendingOutboxSQL ::
  "int \<Rightarrow> string \<Rightarrow> duration \<Rightarrow> time \<Rightarrow> outbox_row table \<Rightarrow> outbox_row table \<times> OutboxEffect list" where
  "claimPendingOutboxSQL batchSize owner claimTTL now t =
     (let P = (\<lambda>r. row_id r \<in> row_id ` set (candidates batchSize now t)); f = claimed_row owner claimTTL now
      in (fst (update_where P f t), map (owEffect \<circ> f) (filter P t)))"

definition Outbox_ClaimPending ::
  "int \<Rightarrow> string \<Rightarrow> duration \<Rightarrow> database world \<Rightarrow> OutboxEffect list result \<times> database world" where
  "Outbox_ClaimPending batchSize owner claimTTL w =
     (case validateClaimArguments batchSize owner claimTTL of
        Inl err \<Rightarrow> (Inl err, w)
      | Inr _ \<Rightarrow>
          (case Query (on_outbox (claimPendingOutboxSQL batchSize owner claimTTL)) w of
             (Inl err, w') \<Rightarrow> (Inl (wrap ''claim pending'' err), w')
           | (Inr (rows, Some err), w') \<Rightarrow> (Inl (wrap ''iterate outbox rows'' err), w')
           | (Inr (rows, None), w') \<Rightarrow> (Inr rows, w')))"

text \<open>The condition the three settlements share, and the columns they clear.\<close>

definition held :: "string \<Rightarrow> time \<Rightarrow> outbox_row \<Rightarrow> bool" where
  "held claimant now r =
     (row_status r = OutboxStatusClaimed \<and> owClaimedBy r = Some claimant \<and>
      (case owClaimExpiresAt r of None \<Rightarrow> False | Some e \<Rightarrow> now < e))"

definition settled :: "(OutboxEffect \<Rightarrow> OutboxEffect) \<Rightarrow> time \<Rightarrow> outbox_row \<Rightarrow> outbox_row" where
  "settled f now r =
     r\<lparr>owEffect := (f (owEffect r))\<lparr>obUpdatedAt := now\<rparr>, owClaimedBy := None, owClaimedAt := None, owClaimExpiresAt := None\<rparr>"

definition Outbox_MarkDelivered :: "string list \<Rightarrow> string \<Rightarrow> database world \<Rightarrow> unit result \<times> database world" where
  "Outbox_MarkDelivered effectIDs claimant w =
     (if effectIDs = [] then (Inr (), w)
      else case Exec (on_outbox (\<lambda>now. update_where (\<lambda>r. row_id r \<in> set effectIDs \<and> held claimant now r)
                  (settled (\<lambda>e. e\<lparr>obStatus := OutboxStatusDelivered\<rparr>) now))) w of
             (Inl err, w') \<Rightarrow> (Inl (wrap ''mark delivered'' err), w')
           | (Inr n, w') \<Rightarrow>
               if n \<noteq> length effectIDs then (Inl (Sentinel ErrOutboxClaimLost), w') else (Inr (), w'))"

definition Outbox_ScheduleRetry ::
  "string \<Rightarrow> string \<Rightarrow> duration \<Rightarrow> int \<Rightarrow> string \<Rightarrow> database world \<Rightarrow> unit result \<times> database world" where
  "Outbox_ScheduleRetry effectID claimant delay attempts errMsg w =
     (case Exec (on_outbox (\<lambda>now. update_where (\<lambda>r. row_id r = effectID \<and> held claimant now r)
             (settled (\<lambda>e. e\<lparr>obStatus := OutboxStatusPending, obAttempts := attempts,
                obAvailableAt := now + interval_ms (Milliseconds delay), obLastError := errMsg\<rparr>) now))) w of
        (Inl err, w') \<Rightarrow> (Inl (wrap ''schedule retry'' err), w')
      | (Inr n, w') \<Rightarrow> if n \<noteq> 1 then (Inl (Sentinel ErrOutboxClaimLost), w') else (Inr (), w'))"

definition Outbox_Quarantine :: "string \<Rightarrow> string \<Rightarrow> string \<Rightarrow> database world \<Rightarrow> unit result \<times> database world" where
  "Outbox_Quarantine effectID claimant errMsg w =
     (case Exec (on_outbox (\<lambda>now. update_where (\<lambda>r. row_id r = effectID \<and> held claimant now r)
             (settled (\<lambda>e. e\<lparr>obStatus := OutboxStatusQuarantined, obLastError := errMsg\<rparr>) now))) w of
        (Inl err, w') \<Rightarrow> (Inl (wrap ''quarantine effect'' err), w')
      | (Inr n, w') \<Rightarrow> if n \<noteq> 1 then (Inl (Sentinel ErrOutboxClaimLost), w') else (Inr (), w'))"

definition normalizeOutboxLimit :: "int \<Rightarrow> int" where
  "normalizeOutboxLimit limit = (if limit \<le> 0 then 100 else if limit > 500 then 500 else limit)"

definition Outbox_GetPending :: "int \<Rightarrow> database world \<Rightarrow> OutboxEffect list result \<times> database world" where
  "Outbox_GetPending limit w =
     (case Query (reading (\<lambda>now db. map owEffect
             (order_limit (\<lambda>r. (obAvailableAt (owEffect r), obCreatedAt (owEffect r))) (normalizeOutboxLimit limit)
                (select_rows (\<lambda>r. row_status r = OutboxStatusPending \<and> obAvailableAt (owEffect r) \<le> now) (dbOutbox db))))) w of
        (Inl err, w') \<Rightarrow> (Inl (wrap ''get pending'' err), w')
      | (Inr (rows, Some err), w') \<Rightarrow> (Inl (wrap ''iterate outbox rows'' err), w')
      | (Inr (rows, None), w') \<Rightarrow> (Inr rows, w'))"

definition Outbox_GetByExecution :: "string \<Rightarrow> database world \<Rightarrow> OutboxEffect list result \<times> database world" where
  "Outbox_GetByExecution executionID w =
     (case Query (reading (\<lambda>now db. map owEffect (sort_key (\<lambda>r. obCreatedAt (owEffect r))
             (select_rows (\<lambda>r. obExecutionID (owEffect r) = executionID) (dbOutbox db))))) w of
        (Inl err, w') \<Rightarrow> (Inl (wrap ''get by execution'' err), w')
      | (Inr (rows, Some err), w') \<Rightarrow> (Inl (wrap ''iterate outbox rows'' err), w')
      | (Inr (rows, None), w') \<Rightarrow> (Inr rows, w'))"

interpretation outbox_pk: primary_key row_id .

end
