(* ===== verification/QuarantineRepository.thy ===== *)
theory QuarantineRepository
  imports Database
begin

text \<open>
  \<^verbatim>\<open>internal/adapters/postgres/quarantine.go\<close>: the repository of quarantined failures.  Every operation
  but \<^verbatim>\<open>Save\<close> is scoped to a tenant.
\<close>

section \<open>The repository\<close>

definition on_quarantine ::
  "(time \<Rightarrow> quarantine_row table \<Rightarrow> quarantine_row table \<times> 'a) \<Rightarrow> time \<Rightarrow> database \<Rightarrow> (database \<times> 'a) result" where
  "on_quarantine f now db = (let (t, a) = f now (dbQuarantine db) in Inr (db\<lparr>dbQuarantine := t\<rparr>, a))"

abbreviation quarantine_id :: "quarantine_row \<Rightarrow> string" where
  "quarantine_id r \<equiv> qeID (qrEntry r)"

definition of_tenant :: "string \<Rightarrow> string \<Rightarrow> quarantine_row \<Rightarrow> bool" where
  [table_simps]: "of_tenant tenantID qid r = (qeTenantID (qrEntry r) = tenantID \<and> quarantine_id r = qid)"

definition Quarantine_Save :: "QuarantineEntry \<Rightarrow> database world \<Rightarrow> unit result \<times> database world" where
  "Quarantine_Save entry w =
     (case Exec (on_quarantine (\<lambda>now. insert_do_nothing quarantine_id \<lparr>qrEntry = entry, qrUpdatedAt = qeCreatedAt entry\<rparr>)) w of
        (Inl err, w') \<Rightarrow> (Inl (wrap ''save quarantine entry'' err), w')
      | (Inr n, w') \<Rightarrow> (Inr (), w'))"

definition Quarantine_Get :: "string \<Rightarrow> string \<Rightarrow> database world \<Rightarrow> QuarantineEntry option result \<times> database world" where
  "Quarantine_Get tenantID qid w =
     (if tenantID = [] then (Inr None, w)
      else case QueryRow (reading (\<lambda>now db. map_option qrEntry (select_row (of_tenant tenantID qid) (dbQuarantine db)))) w of
             (Inl err, w') \<Rightarrow>
               if errors_Is err PgxErrNoRows then (Inr None, w') else (Inl (wrap ''get quarantine entry'' err), w')
           | (Inr entry, w') \<Rightarrow> (Inr (Some entry), w'))"

definition Quarantine_Replay :: "string \<Rightarrow> string \<Rightarrow> database world \<Rightarrow> unit result \<times> database world" where
  "Quarantine_Replay tenantID qid w =
     (if tenantID = [] then (Inl (Sentinel ErrQuarantineNotFound), w)
      else case Exec (on_quarantine (\<lambda>now. update_where (of_tenant tenantID qid) (\<lambda>r. r\<lparr>qrUpdatedAt := now\<rparr>))) w of
             (Inl err, w') \<Rightarrow> (Inl (wrap ''record quarantine replay'' err), w')
           | (Inr n, w') \<Rightarrow> if n = 0 then (Inl (Sentinel ErrQuarantineNotFound), w') else (Inr (), w'))"

definition Quarantine_Delete :: "string \<Rightarrow> string \<Rightarrow> database world \<Rightarrow> unit result \<times> database world" where
  "Quarantine_Delete tenantID qid w =
     (if tenantID = [] then (Inl (Sentinel ErrQuarantineNotFound), w)
      else case Exec (on_quarantine (\<lambda>now. delete_where (of_tenant tenantID qid))) w of
             (Inl err, w') \<Rightarrow> (Inl (wrap ''delete quarantine entry'' err), w')
           | (Inr n, w') \<Rightarrow> if n = 0 then (Inl (Sentinel ErrQuarantineNotFound), w') else (Inr (), w'))"

record QuarantineFilter =
  qfTenantID :: string
  qfSourceType :: string
  qfErrorClass :: string
  qfFrom :: time
  qfTo :: time
  qfLimit :: int
  qfOffset :: int

definition normalizeQuarantinePagination :: "int \<Rightarrow> int \<Rightarrow> int \<times> int" where
  "normalizeQuarantinePagination limit offset =
     ((if limit \<le> 0 then 100 else if limit > 500 then 500 else limit), (if offset < 0 then 0 else offset))"

text \<open>The conditions of the query, each present only when its filter is set.\<close>

definition matches_filter :: "QuarantineFilter \<Rightarrow> QuarantineEntry \<Rightarrow> bool" where
  "matches_filter f e =
     (qeTenantID e = qfTenantID f \<and>
      (qfSourceType f = [] \<or> qeSourceType e = qfSourceType f) \<and>
      (qfErrorClass f = [] \<or> qeErrorClass e = qfErrorClass f) \<and>
      (IsZero (qfFrom f) \<or> qfFrom f \<le> qeCreatedAt e) \<and>
      (IsZero (qfTo f) \<or> qeCreatedAt e \<le> qfTo f))"

definition Quarantine_List :: "QuarantineFilter \<Rightarrow> database world \<Rightarrow> QuarantineEntry list result \<times> database world" where
  "Quarantine_List f w =
     (if qfTenantID f = [] then (Inl (ErrorString ''tenant_id is required''), w)
      else let (limit, offset) = normalizeQuarantinePagination (qfLimit f) (qfOffset f)
           in case Query (reading (\<lambda>now db. take (nat limit) (drop (nat offset)
                    (sort_key (\<lambda>e. - qeCreatedAt e)
                       (select_rows (matches_filter f) (map qrEntry (dbQuarantine db))))))) w of
                (Inl err, w') \<Rightarrow> (Inl (wrap ''list quarantine entries'' err), w')
              | (Inr (rows, Some err), w') \<Rightarrow> (Inl (wrap ''iterate quarantine entries'' err), w')
              | (Inr (rows, None), w') \<Rightarrow> (Inr rows, w'))"

interpretation quarantine_pk: primary_key quarantine_id .

end
