(* ===== verification/EffectPublisher.thy ===== *)
theory EffectPublisher
  imports OutboxRepository QuarantineRepository
begin

text \<open>
  \<^verbatim>\<open>internal/services/effects/service.go\<close>: the publisher of outbox effects.  It claims a batch under a
  fresh token, sends each effect, and settles it as delivered, to be retried after a growing delay,
  or quarantined once its attempts are used up.

  The sender is a function from the effect and its idempotency key to an error; the identifiers of
  \<^verbatim>\<open>domain.NewID()\<close> and the readings of the clock are arguments.  Beside its error a batch returns
  the effects it sent with their keys, in order.
\<close>

section \<open>The service\<close>

type_synonym effect_sender = "Effect \<Rightarrow> string \<Rightarrow> gerr option"

record EffectsService =
  esHasOutbox :: bool
  esSender :: "effect_sender option"
  esHasQuarantine :: bool
  esClaimant :: string

definition NewService :: "bool \<Rightarrow> effect_sender option \<Rightarrow> bool \<Rightarrow> string \<Rightarrow> EffectsService" where
  "NewService outbox sender quarantine claimant =
     \<lparr>esHasOutbox = outbox, esSender = sender, esHasQuarantine = quarantine,
      esClaimant = (if claimant = [] then ''publisher'' else claimant)\<rparr>"

text \<open>The \<^verbatim>\<open>time.Duration\<close> arithmetic stays far from overflow: at most \<open>2\<^sup>2\<^sup>9\<close> seconds before the cap.\<close>

definition backoffDuration :: "int \<Rightarrow> duration" where
  "backoffDuration attempts =
     (let attempts = (if attempts < 1 then 1 else attempts);
          attempts = (if attempts > 30 then 30 else attempts);
          delay = 2 ^ nat (attempts - 1) * second
      in if delay > 60 * second then 60 * second else delay)"

definition effect_of :: "OutboxEffect \<Rightarrow> Effect" where
  "effect_of ef =
     \<lparr>efID = obID ef, efExecutionID = obExecutionID ef, efTenantID = obTenantID ef, efDestination = obDestination ef,
      efName = obName ef, efPayload = obPayload ef, efEffectType = obEffectType ef, efCreatedAt = obCreatedAt ef\<rparr>"

definition idempotency_key :: "string \<Rightarrow> string" where
  "idempotency_key effectID = ''effect-'' @ effectID"

definition about_effect :: "string \<Rightarrow> string \<Rightarrow> string \<Rightarrow> gerr \<Rightarrow> gerr" where
  "about_effect before effectID after err = Errorf [(before @ effectID @ after, err)] []"

text \<open>The branch of an effect whose attempts are used up.\<close>

definition quarantineEffect ::
  "EffectsService \<Rightarrow> string \<Rightarrow> string \<Rightarrow> time \<Rightarrow> OutboxEffect \<Rightarrow> gerr \<Rightarrow> database world \<Rightarrow> gerr list \<times> database world" where
  "quarantineEffect s claimToken newID now ef sendErr w =
     (if \<not> esHasQuarantine s
      then ([Errorf [(''quarantine effect '' @ obID ef @ '': quarantine repository is not configured (send error: '', sendErr)] '')''], w)
      else
        let quarantineID = ''effect-'' @ obID ef @ ''-'' @ newID;
            qEntry = \<lparr>qeID = quarantineID, qeSourceType = ''effect'', qeSourceID = obID ef,
              qeErrorClass = error_class_string (ClassifyError (Some sendErr)), qePayloadRef = [], qeEventID = [],
              qeTenantID = obTenantID ef, qeError = error_text sendErr, qeCreatedAt = now\<rparr>
        in case Quarantine_Save qEntry w of
             (Inl qErr, w1) \<Rightarrow> ([about_effect ''persist quarantine for effect '' (obID ef) '': '' qErr], w1)
           | (Inr _, w1) \<Rightarrow>
               (case Outbox_Quarantine (obID ef) claimToken (error_text sendErr) w1 of
                  (Inr _, w2) \<Rightarrow> ([], w2)
                | (Inl qErr, w2) \<Rightarrow>
                    (case Quarantine_Delete (obTenantID ef) quarantineID w2 of
                       (Inr _, w3) \<Rightarrow> ([about_effect ''mark effect '' (obID ef) '' quarantined: '' qErr], w3)
                     | (Inl deleteErr, w3) \<Rightarrow>
                         ([about_effect ''mark effect '' (obID ef) '' quarantined: '' qErr,
                           about_effect ''remove orphan quarantine for effect '' (obID ef) '': '' deleteErr], w3))))"

text \<open>The body of the loop: the failures it adds.\<close>

definition publishEffect ::
  "EffectsService \<Rightarrow> effect_sender \<Rightarrow> string \<Rightarrow> string \<Rightarrow> time \<Rightarrow> OutboxEffect \<Rightarrow> database world \<Rightarrow> gerr list \<times> database world" where
  "publishEffect s send claimToken newID now ef w =
     (case send (effect_of ef) (idempotency_key (obID ef)) of
        Some sendErr \<Rightarrow>
          (let attempts = obAttempts ef + 1
           in if attempts \<ge> obMaxAttempts ef then quarantineEffect s claimToken newID now ef sendErr w
              else case Outbox_ScheduleRetry (obID ef) claimToken (backoffDuration attempts) attempts (error_text sendErr) w of
                     (Inr _, w') \<Rightarrow> ([], w')
                   | (Inl retryErr, w') \<Rightarrow> ([about_effect ''schedule retry for effect '' (obID ef) '': '' retryErr], w'))
      | None \<Rightarrow>
          (case Outbox_MarkDelivered [obID ef] claimToken w of
             (Inr _, w') \<Rightarrow> ([], w')
           | (Inl settleErr, w') \<Rightarrow> ([about_effect ''mark effect '' (obID ef) '' delivered: '' settleErr], w')))"

primrec publishEffects ::
  "EffectsService \<Rightarrow> effect_sender \<Rightarrow> string \<Rightarrow> (string \<Rightarrow> string) \<Rightarrow> (string \<Rightarrow> time) \<Rightarrow> OutboxEffect list \<Rightarrow> database world \<Rightarrow>
   gerr list \<times> database world" where
  "publishEffects s send claimToken newID clk [] w = ([], w)"
| "publishEffects s send claimToken newID clk (ef # effects) w =
     (let (failures, w1) = publishEffect s send claimToken (newID (obID ef)) (clk (obID ef)) ef w;
          (failures', w2) = publishEffects s send claimToken newID clk effects w1
      in (failures @ failures', w2))"

definition claim_token :: "EffectsService \<Rightarrow> string \<Rightarrow> string" where
  "claim_token s uuid = esClaimant s @ ''-'' @ uuid"

definition PublishBatch ::
  "EffectsService \<Rightarrow> string \<Rightarrow> (string \<Rightarrow> string) \<Rightarrow> (string \<Rightarrow> time) \<Rightarrow> int \<Rightarrow> database world \<Rightarrow>
   gerr option \<times> (Effect \<times> string) list \<times> database world" where
  "PublishBatch s uuid newID clk batchSize w =
     (if \<not> esHasOutbox s then (Some (ErrorString ''publish effects: outbox repository is not configured''), [], w)
      else case esSender s of
             None \<Rightarrow> (Some (ErrorString ''publish effects: effect sender is not configured''), [], w)
           | Some send \<Rightarrow>
               if batchSize \<le> 0 then (None, [], w)
               else
                 let claimToken = claim_token s uuid
                 in case Outbox_ClaimPending batchSize claimToken (2 * minute) w of
                      (Inl err, w') \<Rightarrow> (Some (wrap ''claim pending'' err), [], w')
                    | (Inr effects, w') \<Rightarrow>
                        (let (failures, w2) = publishEffects s send claimToken newID clk effects w'
                         in (errors_Join failures, map (\<lambda>ef. (effect_of ef, idempotency_key (obID ef))) effects, w2)))"

definition Dispatch :: "EffectsService \<Rightarrow> Effect option \<Rightarrow> gerr option" where
  "Dispatch s effect =
     (case effect of
        None \<Rightarrow> Some (ErrorString ''dispatch effect: effect is nil'')
      | Some e \<Rightarrow>
          (case esSender s of
             None \<Rightarrow> Some (ErrorString ''dispatch effect: effect sender is not configured'')
           | Some send \<Rightarrow> send e (idempotency_key (efID e))))"

definition GetPending :: "int \<Rightarrow> database world \<Rightarrow> OutboxEffect list result \<times> database world" where
  "GetPending limit w = Outbox_GetPending limit w"

definition GetByExecution :: "string \<Rightarrow> database world \<Rightarrow> OutboxEffect list result \<times> database world" where
  "GetByExecution executionID w = Outbox_GetByExecution executionID w"

section \<open>Relations between outbox tables\<close>

definition lift_outbox :: "(outbox_row table \<Rightarrow> outbox_row table \<Rightarrow> bool) \<Rightarrow> database \<Rightarrow> database \<Rightarrow> bool" where
  "lift_outbox Rt db db' = Rt (dbOutbox db) (dbOutbox db')"

text \<open>The interface of a preorder of outbox tables: calls on other tables respect it, and a call on
  the outbox does if its statement does.\<close>

locale outbox_relation =
  fixes Rt :: "outbox_row table \<Rightarrow> outbox_row table \<Rightarrow> bool"
  assumes Rt_refl: "Rt t t" and Rt_trans: "Rt t t' \<Longrightarrow> Rt t' t'' \<Longrightarrow> Rt t t''"

sublocale outbox_relation \<subseteq> interference "lift_outbox Rt"
  by unfold_locales (auto simp: lift_outbox_def intro: Rt_refl Rt_trans)

context outbox_relation
begin

lemma on_outbox_guarantees: "(\<And>now t. Rt t (fst (f now t))) \<Longrightarrow> guarantees (lift_outbox Rt) (on_outbox f)"
  by (auto simp: guarantees_def lift_outbox_def on_outbox_def Let_def split: prod.splits) (metis fst_conv)

lemma on_quarantine_guarantees: "guarantees (lift_outbox Rt) (on_quarantine f)"
  by (auto simp: guarantees_def lift_outbox_def on_quarantine_def Let_def Rt_refl split: prod.splits)

lemma quarantine_calls_within:
  "within (lift_outbox Rt) w (snd (Quarantine_Save e w))"
  "within (lift_outbox Rt) w (snd (Quarantine_Delete tenant qid w))"
  by (auto simp: Quarantine_Save_def Quarantine_Delete_def within_refl split: prod.splits sum.splits
      intro: withinI(1) [OF _ on_quarantine_guarantees])

lemma claim_within:
  "(\<And>now t. Rt t (fst (claimPendingOutboxSQL n owner ttl now t))) \<Longrightarrow> within (lift_outbox Rt) w (snd (Outbox_ClaimPending n owner ttl w))"
  by (auto simp: Outbox_ClaimPending_def within_refl split: prod.splits sum.splits option.splits
      intro: withinI(3) [OF _ on_outbox_guarantees])

lemma deliver_within:
  "(\<And>now t. Rt t (fst (update_where (\<lambda>r. row_id r \<in> set ids \<and> held token now r)
      (settled (\<lambda>e. e\<lparr>obStatus := OutboxStatusDelivered\<rparr>) now) t))) \<Longrightarrow>
    within (lift_outbox Rt) w (snd (Outbox_MarkDelivered ids token w))"
  by (auto simp: Outbox_MarkDelivered_def within_refl split: prod.splits sum.splits intro: withinI(1) [OF _ on_outbox_guarantees])

lemma retry_within:
  "(\<And>now t. Rt t (fst (update_where (\<lambda>r. row_id r = i \<and> held token now r)
      (settled (\<lambda>e. e\<lparr>obStatus := OutboxStatusPending, obAttempts := attempts,
         obAvailableAt := now + interval_ms (Milliseconds delay), obLastError := msg\<rparr>) now) t))) \<Longrightarrow>
    within (lift_outbox Rt) w (snd (Outbox_ScheduleRetry i token delay attempts msg w))"
  by (auto simp: Outbox_ScheduleRetry_def within_refl split: prod.splits sum.splits intro: withinI(1) [OF _ on_outbox_guarantees])

lemma quarantine_within:
  "(\<And>now t. Rt t (fst (update_where (\<lambda>r. row_id r = i \<and> held token now r)
      (settled (\<lambda>e. e\<lparr>obStatus := OutboxStatusQuarantined, obLastError := msg\<rparr>) now) t))) \<Longrightarrow>
    within (lift_outbox Rt) w (snd (Outbox_Quarantine i token msg w))"
  by (auto simp: Outbox_Quarantine_def within_refl split: prod.splits sum.splits intro: withinI(1) [OF _ on_outbox_guarantees])

lemma quarantineEffect_within:
  assumes "\<And>now t. Rt t (fst (update_where (\<lambda>r. row_id r = obID ef \<and> held token now r)
      (settled (\<lambda>e. e\<lparr>obStatus := OutboxStatusQuarantined, obLastError := error_text sendErr\<rparr>) now) t))"
  shows "within (lift_outbox Rt) w (snd (quarantineEffect s token newID time ef sendErr w))"
proof -
  let ?entry = "\<lparr>qeID = ''effect-'' @ obID ef @ ''-'' @ newID, qeSourceType = ''effect'', qeSourceID = obID ef,
      qeErrorClass = error_class_string (ClassifyError (Some sendErr)), qePayloadRef = [], qeEventID = [],
      qeTenantID = obTenantID ef, qeError = error_text sendErr, qeCreatedAt = time\<rparr>"
  obtain r1 w1 where r1: "Quarantine_Save ?entry w = (r1, w1)"
    by fastforce
  obtain r2 w2 where r2: "Outbox_Quarantine (obID ef) token (error_text sendErr) w1 = (r2, w2)"
    by fastforce
  obtain r3 w3 where r3: "Quarantine_Delete (obTenantID ef) (''effect-'' @ obID ef @ ''-'' @ newID) w2 = (r3, w3)"
    by fastforce
  have w1: "within (lift_outbox Rt) w w1" and w2: "within (lift_outbox Rt) w1 w2" and w3: "within (lift_outbox Rt) w2 w3"
    using quarantine_calls_within(1) [of w ?entry] quarantine_within [OF assms, of w1]
      quarantine_calls_within(2) [of w2 "obTenantID ef" "''effect-'' @ obID ef @ ''-'' @ newID"] r1 r2 r3 by simp_all
  then have "within (lift_outbox Rt) w w2" "within (lift_outbox Rt) w w3"
    by (blast intro: within_trans)+
  then show ?thesis
    using w1 r1 r2 r3 by (auto simp: quarantineEffect_def Let_def within_refl split: sum.splits)
qed

text \<open>The three settlements of an effect, as far as the relation must allow them.\<close>

definition settles :: "effect_sender \<Rightarrow> string \<Rightarrow> OutboxEffect \<Rightarrow> bool" where
  "settles send token ef =
     (\<forall>now t. (send (effect_of ef) (idempotency_key (obID ef)) = None \<longrightarrow>
        Rt t (fst (update_where (\<lambda>r. row_id r \<in> set [obID ef] \<and> held token now r)
          (settled (\<lambda>e. e\<lparr>obStatus := OutboxStatusDelivered\<rparr>) now) t))) \<and>
      (\<forall>msg. Rt t (fst (update_where (\<lambda>r. row_id r = obID ef \<and> held token now r)
          (settled (\<lambda>e. e\<lparr>obStatus := OutboxStatusQuarantined, obLastError := msg\<rparr>) now) t))) \<and>
      (\<forall>at msg. obAttempts ef + 1 < obMaxAttempts ef \<longrightarrow>
        Rt t (fst (update_where (\<lambda>r. row_id r = obID ef \<and> held token now r)
          (settled (\<lambda>e. e\<lparr>obStatus := OutboxStatusPending, obAttempts := obAttempts ef + 1,
             obAvailableAt := at, obLastError := msg\<rparr>) now) t))))"

lemma publishEffect_within:
  assumes "settles send token ef"
  shows "within (lift_outbox Rt) w (snd (publishEffect s send token newID time ef w))"
proof (cases "send (effect_of ef) (idempotency_key (obID ef))")
  case None
  then show ?thesis
    using deliver_within [of "[obID ef]" token w] assms
    by (auto simp: publishEffect_def settles_def split: prod.splits sum.splits)
next
  case (Some sendErr)
  show ?thesis
  proof (cases "obMaxAttempts ef \<le> obAttempts ef + 1")
    case True
    then show ?thesis
      using quarantineEffect_within [of ef token sendErr w] assms Some by (simp add: publishEffect_def settles_def Let_def)
  next
    case False
    then show ?thesis
      using retry_within [where i = "obID ef" and token = token and attempts = "obAttempts ef + 1" and delay = "backoffDuration (obAttempts ef + 1)" and msg = "error_text sendErr" and w = w] assms Some
      by (auto simp: publishEffect_def settles_def Let_def split: prod.splits sum.splits)
  qed
qed

lemma publishEffects_within:
  "(\<And>ef. ef \<in> set effects \<Longrightarrow> settles send token ef) \<Longrightarrow>
    within (lift_outbox Rt) w (snd (publishEffects s send token newID clk effects w))"
proof (induction effects arbitrary: w)
  case Nil
  show ?case by (simp add: within_refl)
next
  case (Cons ef effects)
  obtain fs w1 where w1: "publishEffect s send token (newID (obID ef)) (clk (obID ef)) ef w = (fs, w1)"
    by fastforce
  have "within (lift_outbox Rt) w w1"
    using publishEffect_within [of send token ef w s "newID (obID ef)" "clk (obID ef)"] Cons.prems w1 by simp
  then show ?case
    using within_trans Cons.IH [of w1] Cons.prems w1 by (auto split: prod.splits)
qed

end

section \<open>Durability\<close>

text \<open>What an effect is never changes; an effect that is delivered or quarantined stays as it is.\<close>

definition same_content :: "OutboxEffect \<Rightarrow> OutboxEffect \<Rightarrow> bool" where
  "same_content e e' =
     (obID e' = obID e \<and> obExecutionID e' = obExecutionID e \<and> obTenantID e' = obTenantID e \<and>
      obDestination e' = obDestination e \<and> obName e' = obName e \<and> obPayload e' = obPayload e \<and>
      obEffectType e' = obEffectType e \<and> obMaxAttempts e' = obMaxAttempts e \<and> obCreatedAt e' = obCreatedAt e)"

definition is_open :: "outbox_row \<Rightarrow> bool" where
  "is_open r = (row_status r = OutboxStatusPending \<or> row_status r = OutboxStatusClaimed)"

definition outbox_step :: "outbox_row \<Rightarrow> outbox_row \<Rightarrow> bool" where
  "outbox_step r r' = (same_content (owEffect r) (owEffect r') \<and> (is_open r \<or> r' = r))"

definition durable :: "outbox_row table \<Rightarrow> outbox_row table \<Rightarrow> bool" where
  "durable t t' = (distinct (map row_id t) \<longrightarrow> distinct (map row_id t') \<and> (\<forall>r \<in> set t. \<exists>r' \<in> set t'. outbox_step r r'))"

lemma outbox_step_refl: "outbox_step r r"
  by (simp add: outbox_step_def same_content_def)

lemma outbox_step_trans: "outbox_step r r' \<Longrightarrow> outbox_step r' r'' \<Longrightarrow> outbox_step r r''"
  by (auto simp: outbox_step_def same_content_def)

lemma durable_subset: "distinct (map row_id t') \<or> t' = t \<Longrightarrow> set t \<subseteq> set t' \<Longrightarrow> durable t t'"
  unfolding durable_def using outbox_step_refl by blast

interpretation outbox_durable: outbox_relation durable
proof
  show "durable t t" for t
    by (simp add: durable_subset)
  show "durable t t''" if "durable t t'" "durable t' t''" for t t' t''
    using that unfolding durable_def by (meson outbox_step_trans)
qed

lemma durable_update:
  assumes "\<And>r. distinct (map row_id t) \<Longrightarrow> r \<in> set t \<Longrightarrow> P r \<Longrightarrow> outbox_step r (f r)"
  shows "durable t (fst (update_where P f t))"
  unfolding durable_def
proof (intro impI conjI ballI)
  assume d: "distinct (map row_id t)"
  have "map row_id (fst (update_where P f t)) = map row_id t"
    by (rule outbox_pk.unique_update_where) (use assms [OF d] in \<open>simp add: outbox_step_def same_content_def\<close>)
  then show "distinct (map row_id (fst (update_where P f t)))"
    using d by simp
  show "\<exists>r' \<in> set (fst (update_where P f t)). outbox_step r r'" if "r \<in> set t" for r
    using assms [OF d that] outbox_step_refl that by (intro bexI [of _ "if P r then f r else r"]) auto
qed

lemma held_open: "held token now r \<Longrightarrow> is_open r"
  by (simp add: held_def is_open_def)

lemma candidate_claimable:
  assumes "distinct (map row_id t)" and "r \<in> set t" and "row_id r \<in> row_id ` set (candidates n now t)"
  shows "claimable now r"
proof -
  obtain c where c: "c \<in> set t" "claimable now c" "row_id c = row_id r"
    using assms(3) by (auto simp: candidates_def order_limit_def select_rows_def dest!: in_set_takeD)
  then have "c = r"
    using outbox_pk.same_row assms(1,2) by blast
  then show ?thesis
    using c(2) by simp
qed

lemma claimable_open: "claimable now r \<Longrightarrow> is_open r"
  by (auto simp: claimable_def is_open_def)

lemma claim_durable: "durable t (fst (claimPendingOutboxSQL n owner ttl now t))"
  unfolding claimPendingOutboxSQL_def Let_def fst_conv
  by (rule durable_update) (auto simp: outbox_step_def same_content_def claimed_row_def dest: candidate_claimable claimable_open)

lemma settle_durable:
  "(\<And>r. P r \<Longrightarrow> held token now r) \<Longrightarrow> (\<And>e. same_content e (f e)) \<Longrightarrow> durable t (fst (update_where P (settled f now) t))"
  by (rule durable_update) (auto simp: outbox_step_def same_content_def settled_def dest: held_open)

text \<open>The calls of event processors and publishers, to speak of any sequence of them.\<close>

datatype outbox_call =
    InsertEffects "OutboxEffect list"
  | ClaimPending int string duration
  | MarkDelivered "string list" string
  | ScheduleRetry string string duration int string
  | QuarantineOne string string string
  | Publish EffectsService string "string \<Rightarrow> string" "string \<Rightarrow> time" int
  | ReadPending int
  | ReadByExecution string

primrec perform_outbox :: "outbox_call \<Rightarrow> database world \<Rightarrow> database world" where
  "perform_outbox (InsertEffects effects) w = snd (Outbox_Insert effects w)"
| "perform_outbox (ClaimPending n owner ttl) w = snd (Outbox_ClaimPending n owner ttl w)"
| "perform_outbox (MarkDelivered ids token) w = snd (Outbox_MarkDelivered ids token w)"
| "perform_outbox (ScheduleRetry i token delay attempts msg) w = snd (Outbox_ScheduleRetry i token delay attempts msg w)"
| "perform_outbox (QuarantineOne i token msg) w = snd (Outbox_Quarantine i token msg w)"
| "perform_outbox (Publish s uuid newID clk n) w = snd (snd (PublishBatch s uuid newID clk n w))"
| "perform_outbox (ReadPending n) w = snd (Outbox_GetPending n w)"
| "perform_outbox (ReadByExecution i) w = snd (Outbox_GetByExecution i w)"

lemma settles_durable: "outbox_durable.settles send token ef"
  unfolding outbox_durable.settles_def by (auto intro!: settle_durable simp: same_content_def)

lemma insert_effect_guarantees: "guarantees (lift_outbox durable) (insert_effect_statement ef)"
proof -
  have "durable t (fst (insert_do_nothing row_id r t))" for r t
  proof (cases "distinct (map row_id t)")
    case True
    then show ?thesis
      using outbox_pk.unique_insert_do_nothing [of t r] by (intro durable_subset) (auto simp: insert_do_nothing_def)
  qed (simp add: durable_def)
  then have "guarantees (lift_outbox durable) (on_outbox (\<lambda>_. insert_do_nothing row_id (outbox_row_of ef)))"
    by (rule outbox_durable.on_outbox_guarantees)
  then show ?thesis
    by (auto simp: guarantees_def insert_effect_statement_def split: if_splits)
qed

lemma Outbox_Insert_durable: "within (lift_outbox durable) w (snd (Outbox_Insert effects w))"
proof (induction effects arbitrary: w)
  case Nil
  show ?case by (simp add: outbox_durable.within_refl)
next
  case (Cons ef effects)
  have "within (lift_outbox durable) w (snd (Exec (insert_effect_statement ef) w))"
    by (rule outbox_durable.Exec_within) (rule insert_effect_guarantees)
  then show ?case
    using outbox_durable.within_trans Cons.IH by (auto simp: outbox_durable.within_refl split: prod.splits sum.splits)
qed

lemma PublishBatch_durable: "within (lift_outbox durable) w (snd (snd (PublishBatch s uuid newID clk n w)))"
proof -
  obtain r w1 where w1: "Outbox_ClaimPending n (claim_token s uuid) (2 * minute) w = (r, w1)"
    by fastforce
  have "within (lift_outbox durable) w w1"
    using outbox_durable.claim_within [where n = n and owner = "claim_token s uuid" and ttl = "2 * minute" and w = w, OF claim_durable] w1 by simp
  moreover have "within (lift_outbox durable) w1 (snd (publishEffects s send (claim_token s uuid) newID clk effects w1))" for send effects
    by (rule outbox_durable.publishEffects_within) (rule settles_durable)
  ultimately show ?thesis
    using w1 outbox_durable.within_trans
    by (auto simp: PublishBatch_def Let_def outbox_durable.within_refl split: option.splits sum.splits prod.splits) (metis snd_conv)
qed

lemma perform_outbox_durable: "within (lift_outbox durable) w (perform_outbox c w)"
proof (cases c)
  case (ReadPending n)
  then show ?thesis
    by (auto simp: Outbox_GetPending_def split: prod.splits sum.splits option.splits intro: outbox_durable.withinI_reading)
next
  case (ReadByExecution i)
  then show ?thesis
    by (auto simp: Outbox_GetByExecution_def split: prod.splits sum.splits option.splits intro: outbox_durable.withinI_reading)
qed (auto simp: Outbox_Insert_durable PublishBatch_durable same_content_def
    intro!: outbox_durable.claim_within claim_durable outbox_durable.deliver_within outbox_durable.retry_within
      outbox_durable.quarantine_within settle_durable)

lemma performs_outbox_durable: "within (lift_outbox durable) w (fold perform_outbox calls w)"
  by (rule outbox_durable.fold_within) (rule perform_outbox_durable)

text \<open>C12. No effect is lost: after any sequence of insertions, claims, settlements and published
  batches by any number of processes, amid failing calls, every effect that was in the outbox is
  there with the same content, and one that was delivered or quarantined is unchanged.\<close>

theorem outbox_effects_durable:
  assumes "distinct (map row_id (dbOutbox (woDb w)))" and "rely (lift_outbox durable) w"
    and "r \<in> set (dbOutbox (woDb w))"
  shows "\<exists>r' \<in> set (dbOutbox (woDb (fold perform_outbox calls w))).
    same_content (owEffect r) (owEffect r') \<and>
    (row_status r = OutboxStatusDelivered \<or> row_status r = OutboxStatusQuarantined \<longrightarrow> r' = r)"
proof -
  have "durable (dbOutbox (woDb w)) (dbOutbox (woDb (fold perform_outbox calls w)))"
    using performs_outbox_durable [of w calls] assms(2) by (simp add: within_def lift_outbox_def)
  then show ?thesis
    using assms(1,3) by (fastforce simp: durable_def outbox_step_def is_open_def)
qed

section \<open>Attempts\<close>

text \<open>An open effect has attempts left.  Others may do what keeps this, and never write a claim with
  the publisher's fresh token.\<close>

definition outbox_ok :: "outbox_row table \<Rightarrow> bool" where
  "outbox_ok t = (distinct (map row_id t) \<and> (\<forall>r \<in> set t. is_open r \<longrightarrow> obAttempts (owEffect r) < obMaxAttempts (owEffect r)))"

definition others_outbox :: "string \<Rightarrow> outbox_row table \<Rightarrow> outbox_row table \<Rightarrow> bool" where
  "others_outbox token t t' =
     ((outbox_ok t \<longrightarrow> outbox_ok t') \<and> (\<forall>r \<in> set t'. owClaimedBy r = Some token \<longrightarrow> r \<in> set t))"

text \<open>While a batch is being settled, what the token has claimed is among the claimed effects.\<close>

definition claims_in :: "string \<Rightarrow> OutboxEffect set \<Rightarrow> outbox_row table \<Rightarrow> outbox_row table \<Rightarrow> bool" where
  "claims_in token E t t' =
     (outbox_ok t \<and> (\<forall>r \<in> set t. owClaimedBy r = Some token \<longrightarrow> owEffect r \<in> E) \<longrightarrow>
      outbox_ok t' \<and> (\<forall>r \<in> set t'. owClaimedBy r = Some token \<longrightarrow> owEffect r \<in> E))"

lemma claims_in_relation: "outbox_relation (claims_in token E)"
  by unfold_locales (auto simp: claims_in_def)

interpretation outbox_claims: outbox_relation "claims_in token E" for token E
  by (rule claims_in_relation)

lemma others_claims: "others_outbox token t t' \<Longrightarrow> claims_in token E t t'"
  by (auto simp: others_outbox_def claims_in_def)

lemma rely_others_claims: "rely (lift_outbox (others_outbox token)) w \<Longrightarrow> rely (lift_outbox (claims_in token E)) w"
  unfolding rely_def lift_outbox_def using others_claims by blast

lemma outbox_ok_update:
  assumes "outbox_ok t" and "\<And>r. r \<in> set t \<Longrightarrow> P r \<Longrightarrow> row_id (f r) = row_id r \<and>
      (is_open (f r) \<longrightarrow> obAttempts (owEffect (f r)) < obMaxAttempts (owEffect (f r)))"
  shows "outbox_ok (fst (update_where P f t))"
proof -
  have "map row_id (fst (update_where P f t)) = map row_id t"
    by (rule outbox_pk.unique_update_where) (use assms(2) in simp)
  then show ?thesis
    using assms unfolding outbox_ok_def by auto
qed

lemma settles_claims:
  assumes "ef \<in> E" and "\<And>e. e \<in> E \<Longrightarrow> obID e = obID ef \<Longrightarrow> obMaxAttempts e = obMaxAttempts ef"
  shows "outbox_claims.settles token E send token ef"
proof -
  have "claims_in token E t (fst (update_where P (settled f now) t))"
    if P: "\<And>r. P r \<Longrightarrow> row_id r = obID ef \<and> held token now r"
      and f: "\<And>e. obID (f e) = obID e \<and> obMaxAttempts (f e) = obMaxAttempts e \<and>
        (obStatus (f e) = OutboxStatusPending \<or> obStatus (f e) = OutboxStatusClaimed \<longrightarrow> obAttempts (f e) < obMaxAttempts ef)" for P f now t
  proof -
    have "outbox_ok (fst (update_where P (settled f now) t))"
      if "outbox_ok t" and claims: "\<forall>r \<in> set t. owClaimedBy r = Some token \<longrightarrow> owEffect r \<in> E"
    proof (rule outbox_ok_update [OF that(1)])
      fix r assume r: "r \<in> set t" "P r"
      have "obMaxAttempts (owEffect r) = obMaxAttempts ef"
        using P [OF r(2)] claims r(1) assms(2) by (auto simp: held_def)
      then show "row_id (settled f now r) = row_id r \<and>
          (is_open (settled f now r) \<longrightarrow> obAttempts (owEffect (settled f now r)) < obMaxAttempts (owEffect (settled f now r)))"
        using f [of "owEffect r"] by (auto simp: settled_def is_open_def)
    qed
    then show ?thesis
      by (auto simp: claims_in_def settled_def)
  qed
  then show ?thesis
    unfolding outbox_claims.settles_def by auto
qed

lemma claim_outbox_ok:
  assumes "outbox_ok t"
  shows "outbox_ok (fst (claimPendingOutboxSQL n owner ttl now t))"
proof -
  have "is_open r" if "r \<in> set t" "row_id r \<in> row_id ` set (candidates n now t)" for r
    using candidate_claimable [OF _ that] claimable_open assms by (auto simp: outbox_ok_def)
  then show ?thesis
    using assms unfolding claimPendingOutboxSQL_def Let_def fst_conv
    by (intro outbox_ok_update) (auto simp: claimed_row_def outbox_ok_def)
qed

text \<open>A successful claim: the effects it returns are what the token holds, once each.\<close>

lemma ClaimPending_Inr:
  assumes "Outbox_ClaimPending n token ttl w = (Inr effects, w1)"
    and "outbox_ok (dbOutbox (now_db w))" and "\<forall>r \<in> set (dbOutbox (now_db w)). owClaimedBy r \<noteq> Some token"
  shows "outbox_ok (dbOutbox (woDb w1))" and "\<forall>r \<in> set (dbOutbox (woDb w1)). owClaimedBy r = Some token \<longrightarrow> owEffect r \<in> set effects"
    and "distinct (map obID effects)" and "woFuture w1 = stl (woFuture w)"
proof -
  let ?t = "dbOutbox (now_db w)" and ?now = "moNow (shd (woFuture w))"
  let ?P = "\<lambda>r. row_id r \<in> row_id ` set (candidates n ?now ?t)" and ?f = "claimed_row token ttl ?now"
  have claim: "dbOutbox (woDb w1) = fst (update_where ?P ?f ?t)" "effects = map (owEffect \<circ> ?f) (filter ?P ?t)"
    "woFuture w1 = stl (woFuture w)"
    using assms(1)
    by (auto simp: Outbox_ClaimPending_def claimPendingOutboxSQL_def on_outbox_def Let_def
        split: prod.splits sum.splits option.splits dest!: Query_Inr)
  then show "woFuture w1 = stl (woFuture w)"
    by simp
  show "outbox_ok (dbOutbox (woDb w1))"
    using claim_outbox_ok [OF assms(2), of n token ttl ?now] claim(1) by (simp add: claimPendingOutboxSQL_def Let_def)
  show "\<forall>r \<in> set (dbOutbox (woDb w1)). owClaimedBy r = Some token \<longrightarrow> owEffect r \<in> set effects"
    using assms(3) unfolding claim by auto
  have "map obID effects = map row_id (filter ?P ?t)"
    by (simp add: claim(2) claimed_row_def)
  then show "distinct (map obID effects)"
    using assms(2) by (simp add: outbox_ok_def distinct_map_filter)
qed

lemma rely_claims_now:
  assumes "rely (lift_outbox (others_outbox token)) w" and "outbox_ok (dbOutbox (woDb w))"
    and "\<forall>r \<in> set (dbOutbox (woDb w)). owClaimedBy r \<noteq> Some token"
  shows "outbox_ok (dbOutbox (now_db w))" and "\<forall>r \<in> set (dbOutbox (now_db w)). owClaimedBy r \<noteq> Some token"
proof -
  have "others_outbox token (dbOutbox (woDb w)) (dbOutbox (now_db w))"
    using assms(1) by (simp add: rely_def lift_outbox_def shd_sset)
  then show "outbox_ok (dbOutbox (now_db w))" and "\<forall>r \<in> set (dbOutbox (now_db w)). owClaimedBy r \<noteq> Some token"
    using assms(2,3) by (auto simp: others_outbox_def)
qed

text \<open>C23. Attempts stay below their maximum: a batch of publishing, whatever calls fail in it and
  whatever other publishers do meanwhile without its token, leaves every effect that is still open
  with an attempt left.\<close>

theorem publish_attempts_bounded:
  assumes "outbox_ok (dbOutbox (woDb w))"
    and "rely (lift_outbox (others_outbox (claim_token s uuid))) w"
    and "\<forall>r \<in> set (dbOutbox (woDb w)). owClaimedBy r \<noteq> Some (claim_token s uuid)"
  shows "outbox_ok (dbOutbox (woDb (snd (snd (PublishBatch s uuid newID clk n w)))))"
proof -
  let ?token = "claim_token s uuid"
  obtain r w1 where w1: "Outbox_ClaimPending n ?token (2 * minute) w = (r, w1)"
    by fastforce
  have "within (lift_outbox (claims_in ?token UNIV)) w w1"
    using outbox_claims.claim_within [where n = n and owner = ?token and ttl = "2 * minute" and w = w and token = ?token and E = UNIV] w1
    by (simp add: claims_in_def claim_outbox_ok)
  then have ok: "outbox_ok (dbOutbox (woDb w1))"
    using assms(1) rely_others_claims [OF assms(2), of UNIV] by (simp add: within_def lift_outbox_def claims_in_def)
  have settled: "outbox_ok (dbOutbox (woDb (snd (publishEffects s send ?token newID clk effects w1))))" if r: "r = Inr effects" for send effects
  proof -
    note claim = ClaimPending_Inr [OF w1 [unfolded r] rely_claims_now [OF assms(2,1,3)]]
    have max: "obMaxAttempts e = obMaxAttempts ef" if "e \<in> set effects" "ef \<in> set effects" "obID e = obID ef" for e ef
      using that claim(3) by (metis distinct_map inj_onD)
    have "within (lift_outbox (claims_in ?token (set effects))) w1 (snd (publishEffects s send ?token newID clk effects w1))"
    proof (rule outbox_claims.publishEffects_within)
      show "outbox_claims.settles ?token (set effects) send ?token ef" if "ef \<in> set effects" for ef
        by (rule settles_claims [OF that max [OF _ that]])
    qed
    moreover have "rely (lift_outbox (others_outbox ?token)) w1"
      using assms(2) claim(4) by (auto simp: rely_def dest: stl_sset)
    ultimately show ?thesis
      using claim(1,2) rely_others_claims [of ?token w1 "set effects"]
      by (auto simp: within_def lift_outbox_def claims_in_def)
  qed
  show ?thesis
    using assms(1) ok settled w1 unfolding PublishBatch_def Let_def
    by (auto split: option.splits sum.splits prod.splits) (metis snd_conv)
qed

section \<open>Deliveries\<close>

definition delivered_in :: "string set \<Rightarrow> outbox_row table \<Rightarrow> outbox_row table \<Rightarrow> bool" where
  "delivered_in S t t' = (\<forall>r \<in> set t'. row_status r = OutboxStatusDelivered \<longrightarrow> r \<in> set t \<or> row_id r \<in> S)"

interpretation outbox_delivered: outbox_relation "delivered_in S" for S
  by unfold_locales (auto simp: delivered_in_def)

lemma delivered_in_update:
  "(\<And>r. P r \<Longrightarrow> row_status (f r) = OutboxStatusDelivered \<Longrightarrow> row_id (f r) \<in> S) \<Longrightarrow> delivered_in S t (fst (update_where P f t))"
  by (auto simp: delivered_in_def)

lemma claim_delivered: "delivered_in S t (fst (claimPendingOutboxSQL n owner ttl now t))"
  unfolding claimPendingOutboxSQL_def Let_def fst_conv by (rule delivered_in_update) (simp add: claimed_row_def)

lemma settles_delivered:
  "(send (effect_of ef) (idempotency_key (obID ef)) = None \<Longrightarrow> obID ef \<in> S) \<Longrightarrow> outbox_delivered.settles S send token ef"
  unfolding outbox_delivered.settles_def by (auto intro!: delivered_in_update simp: settled_def)

definition quiet :: "'db world \<Rightarrow> bool" where
  "quiet w = (\<forall>m \<in> sset (woFuture w). moOthers m = id)"

lemma quiet_rely: "quiet w \<Longrightarrow> (\<And>db. R db db) \<Longrightarrow> rely R w"
  by (simp add: quiet_def rely_def)

text \<open>C9. An effect is marked delivered only after it was sent: if nobody else is at work, every
  effect that a batch turns into a delivered one was handed to the sender with its idempotency key,
  and the sender reported no error.\<close>

theorem delivered_was_sent:
  assumes "quiet w" and "esSender s = Some send"
    and "PublishBatch s uuid newID clk n w = (err, sent, w')"
    and "r \<in> set (dbOutbox (woDb w'))" and "row_status r = OutboxStatusDelivered" and "r \<notin> set (dbOutbox (woDb w))"
  shows "\<exists>e. (e, idempotency_key (row_id r)) \<in> set sent \<and> efID e = row_id r \<and> send e (idempotency_key (row_id r)) = None"
proof -
  let ?token = "claim_token s uuid"
  define S where "S = {i. \<exists>e. (e, idempotency_key i) \<in> set sent \<and> efID e = i \<and> send e (idempotency_key i) = None}"
  obtain q w1 where w1: "Outbox_ClaimPending n ?token (2 * minute) w = (q, w1)"
    by fastforce
  have claim: "within (lift_outbox (delivered_in S)) w w1"
    using outbox_delivered.claim_within [where n = n and owner = ?token and ttl = "2 * minute" and w = w, OF claim_delivered] w1
    by simp
  have "within (lift_outbox (delivered_in S)) w w'"
  proof (cases "esHasOutbox s \<and> 0 < n \<and> (\<exists>effects. q = Inr effects)")
    case False
    then show ?thesis
      using assms(2,3) claim w1
      by (auto simp: PublishBatch_def Let_def outbox_delivered.within_refl split: sum.splits prod.splits if_splits)
  next
    case True
    then obtain effects where q: "q = Inr effects"
      by blast
    obtain fs w2 where w2: "publishEffects s send ?token newID clk effects w1 = (fs, w2)"
      by fastforce
    have sent: "sent = map (\<lambda>ef. (effect_of ef, idempotency_key (obID ef))) effects" "w' = w2"
      using assms(2,3) True w1 w2 q by (auto simp: PublishBatch_def Let_def)
    have ids: "obID ef \<in> S" if "ef \<in> set effects" "send (effect_of ef) (idempotency_key (obID ef)) = None" for ef
      using that by (force simp: S_def sent effect_of_def image_iff)
    have "within (lift_outbox (delivered_in S)) w1 (snd (publishEffects s send ?token newID clk effects w1))"
    proof (rule outbox_delivered.publishEffects_within)
      show "outbox_delivered.settles S send ?token ef" if "ef \<in> set effects" for ef
        by (rule settles_delivered [OF ids [OF that]])
    qed
    then show ?thesis
      using claim outbox_delivered.within_trans w2 sent(2) by auto
  qed
  then have "delivered_in S (dbOutbox (woDb w)) (dbOutbox (woDb w'))"
    using quiet_rely [OF assms(1), of "lift_outbox (delivered_in S)"]
    by (simp add: within_def lift_outbox_def outbox_delivered.Rt_refl)
  then have "row_id r \<in> S"
    using assms(4-6) by (auto simp: delivered_in_def)
  then show ?thesis
    by (auto simp: S_def)
qed

text \<open>The delay before a retry doubles with each attempt, starting at one second and never
  exceeding a minute.\<close>

lemma backoffDuration_bounds:
  "second \<le> backoffDuration n \<and> backoffDuration n \<le> 60 * second \<and> backoffDuration n \<le> backoffDuration (n + 1) \<and>
   (backoffDuration (n + 1) = backoffDuration n \<or> backoffDuration (n + 1) = min (2 * backoffDuration n) (60 * second))"
proof -
  have clip: "backoffDuration m = min (2 ^ nat (min 30 (max 1 m) - 1)) 60 * second" for m
  proof -
    have "(if (if m < 1 then 1 else m) > 30 then 30 else (if m < 1 then 1 else m)) = min 30 (max 1 m)"
      by auto
    then show ?thesis
      unfolding backoffDuration_def Let_def by (simp only:) (simp add: second_def min_def)
  qed
  define k where "k = nat (min 30 (max 1 n) - 1)"
  define k' where "k' = nat (min 30 (max 1 (n + 1)) - 1)"
  have b: "backoffDuration n = min (2 ^ k) 60 * second" and b': "backoffDuration (n + 1) = min (2 ^ k') 60 * second"
    unfolding k_def k'_def by (rule clip)+
  have "k' = k \<or> k' = k + 1"
    by (auto simp: k_def k'_def min_def max_def)
  then show ?thesis
    unfolding b b' by (auto simp: second_def min_def)
qed

section \<open>Progress\<close>

text \<open>Delivering a list of effects, each claimed by the token, in a calm world.\<close>

definition deliver :: "time \<Rightarrow> outbox_row \<Rightarrow> outbox_row" where
  "deliver now = settled (\<lambda>e. e\<lparr>obStatus := OutboxStatusDelivered\<rparr>) now"

definition deliver_all :: "string set \<Rightarrow> string \<Rightarrow> time \<Rightarrow> outbox_row table \<Rightarrow> outbox_row table" where
  "deliver_all ids token now t = map (\<lambda>r. if row_id r \<in> ids \<and> held token now r then deliver now r else r) t"

lemma deliver_sel [simp]: "row_id (deliver now r) = row_id r" "row_status (deliver now r) = OutboxStatusDelivered" "\<not> held token now' (deliver now r)"
  by (simp_all add: deliver_def settled_def held_def)

lemma deliver_all_insert:
  "deliver_all ids token now (deliver_all {i} token now t) = deliver_all (insert i ids) token now t"
  by (auto simp: deliver_all_def)

lemma row_ids_deliver_all [simp]: "map row_id (deliver_all ids token now t) = map row_id t"
  by (simp add: deliver_all_def)

lemma deliver_all_member:
  "r \<in> set t \<Longrightarrow> row_id r \<in> ids \<Longrightarrow> held token now r \<Longrightarrow> deliver now r \<in> set (deliver_all ids token now t)"
  unfolding deliver_all_def set_map by (rule image_eqI [of _ _ r]) simp_all

lemma MarkDelivered_calm:
  assumes "distinct (map row_id (dbOutbox db))" and "\<exists>r \<in> set (dbOutbox db). row_id r = i \<and> held token now r"
  shows "Outbox_MarkDelivered [i] token (calm now db) = (Inr (), calm now (db\<lparr>dbOutbox := deliver_all {i} token now (dbOutbox db)\<rparr>))"
proof -
  let ?P = "\<lambda>r. row_id r \<in> set [i] \<and> held token now r"
  have "snd (update_where ?P (deliver now) (dbOutbox db)) = 1 \<longleftrightarrow> (\<exists>r \<in> set (dbOutbox db). ?P r)"
    by (rule outbox_pk.affected_1_iff [OF assms(1), where k = i]) simp
  then have "length (filter ?P (dbOutbox db)) = 1"
    using assms(2) by auto
  then show ?thesis
    by (simp add: Outbox_MarkDelivered_def Exec_calm on_outbox_def update_where_def deliver_all_def flip: deliver_def)
qed

lemma publishEffects_calm:
  assumes "distinct (map row_id (dbOutbox db))" and "distinct (map obID effects)"
    and "\<And>ef. ef \<in> set effects \<Longrightarrow> \<exists>r \<in> set (dbOutbox db). row_id r = obID ef \<and> held token now r"
  shows "publishEffects s (\<lambda>_ _. None) token newID clk effects (calm now db) =
    ([], calm now (db\<lparr>dbOutbox := deliver_all (obID ` set effects) token now (dbOutbox db)\<rparr>))"
  using assms
proof (induction effects arbitrary: db)
  case Nil
  then show ?case by (simp add: deliver_all_def)
next
  case (Cons ef effects)
  define db1 where "db1 = db\<lparr>dbOutbox := deliver_all {obID ef} token now (dbOutbox db)\<rparr>"
  have one: "publishEffect s (\<lambda>_ _. None) token i time ef (calm now db) = ([], calm now db1)" for i time
    using MarkDelivered_calm [OF Cons.prems(1), of "obID ef" token now] Cons.prems(3) [of ef]
    by (simp add: publishEffect_def db1_def)
  have "\<exists>r \<in> set (dbOutbox db1). row_id r = obID e \<and> held token now r" if e: "e \<in> set effects" for e
  proof -
    obtain r where r: "r \<in> set (dbOutbox db)" "row_id r = obID e" "held token now r"
      using Cons.prems(3) [of e] e by auto
    moreover have "obID e \<noteq> obID ef"
      using Cons.prems(2) e by (auto simp: image_iff)
    ultimately show ?thesis
      by (intro bexI [of _ r]) (auto simp: db1_def deliver_all_def image_iff)
  qed
  then have "publishEffects s (\<lambda>_ _. None) token newID clk effects (calm now db1) =
      ([], calm now (db1\<lparr>dbOutbox := deliver_all (obID ` set effects) token now (dbOutbox db1)\<rparr>))"
    using Cons.prems(1,2) by (intro Cons.IH) (simp_all add: db1_def)
  then show ?case
    using one by (simp add: db1_def deliver_all_insert)
qed

lemma claim_token_not_blank: "TrimSpace (claim_token s uuid) \<noteq> []"
  using TrimSpace_keeps [of "CHR ''-''" "claim_token s uuid"] by (auto simp: claim_token_def space_bytes_def)

lemma publish_calm:
  assumes "distinct (map row_id (dbOutbox db))" and "esHasOutbox s" and "esSender s = Some (\<lambda>_ _. None)"
    and "0 < n" and "n \<le> 1000"
  shows "\<exists>sent db'. PublishBatch s uuid newID clk n (calm now db) = (None, sent, calm now db') \<and>
    set (map (efID \<circ> fst) sent) = row_id ` set (candidates n now (dbOutbox db)) \<and>
    (\<forall>r \<in> set (candidates n now (dbOutbox db)). \<exists>r' \<in> set (dbOutbox db'). row_id r' = row_id r \<and> row_status r' = OutboxStatusDelivered)"
proof -
  let ?t = "dbOutbox db" and ?token = "claim_token s uuid"
  let ?P = "\<lambda>r. row_id r \<in> row_id ` set (candidates n now ?t)" and ?f = "claimed_row ?token (2 * minute) now"
  define db1 where "db1 = db\<lparr>dbOutbox := fst (update_where ?P ?f ?t)\<rparr>"
  define effects where "effects = map (owEffect \<circ> ?f) (filter ?P ?t)"
  have "validateClaimArguments n ?token (2 * minute) = Inr ()"
    using assms(4,5) claim_token_not_blank by (simp add: validateClaimArguments_def minute_def second_def)
  then have claim: "Outbox_ClaimPending n ?token (2 * minute) (calm now db) = (Inr effects, calm now db1)"
    by (simp add: Outbox_ClaimPending_def Query_calm on_outbox_def claimPendingOutboxSQL_def Let_def effects_def db1_def)
  have ids: "map row_id (dbOutbox db1) = map row_id ?t" "map obID effects = map row_id (filter ?P ?t)"
    by (simp_all add: db1_def effects_def update_where_def claimed_row_def)
  have f: "row_id (?f r) = row_id r" "held ?token now (?f r)" for r
    by (simp_all add: claimed_row_def held_def minute_def second_def)
  have held: "\<exists>r \<in> set (dbOutbox db1). row_id r = obID ef \<and> held ?token now r" if ef: "ef \<in> set effects" for ef
  proof -
    obtain r where "r \<in> set ?t" "?P r" "ef = owEffect (?f r)"
      using ef by (auto simp: effects_def)
    then show ?thesis
      using f by (intro bexI [of _ "?f r"]) (auto simp: db1_def)
  qed
  let ?db2 = "db1\<lparr>dbOutbox := deliver_all (obID ` set effects) ?token now (dbOutbox db1)\<rparr>"
  have publish: "publishEffects s (\<lambda>_ _. None) ?token newID clk effects (calm now db1) = ([], calm now ?db2)"
    using assms(1) ids held by (intro publishEffects_calm) (simp_all add: distinct_map_filter)
  have candidates: "row_id ` set (candidates n now ?t) = obID ` set effects"
  proof -
    have "set (candidates n now ?t) \<subseteq> set ?t"
      by (auto simp: candidates_def order_limit_def select_rows_def dest: in_set_takeD)
    then have "row_id ` set (filter ?P ?t) = row_id ` set (candidates n now ?t)"
      by auto
    then show ?thesis
      using ids(2) by (metis set_map)
  qed
  have "\<exists>r' \<in> set (dbOutbox ?db2). row_id r' = row_id r \<and> row_status r' = OutboxStatusDelivered" if r: "r \<in> set (candidates n now ?t)" for r
  proof -
    obtain ef where ef: "ef \<in> set effects" "obID ef = row_id r"
      using r candidates by (metis image_iff)
    then obtain r1 where "r1 \<in> set (dbOutbox db1)" "row_id r1 = row_id r" "held ?token now r1"
      using held [of ef] by auto
    then show ?thesis
      using ef deliver_all_member [of r1 "dbOutbox db1" "obID ` set effects" ?token now]
      by (intro bexI [of _ "deliver now r1"]) (simp_all add: rev_image_eqI)
  qed
  moreover have "PublishBatch s uuid newID clk n (calm now db) =
      (None, map (\<lambda>ef. (effect_of ef, idempotency_key (obID ef))) effects, calm now ?db2)"
    using assms(2-4) claim publish by (simp add: PublishBatch_def Let_def errors_Join_def)
  moreover have "set (map (efID \<circ> fst) (map (\<lambda>ef. (effect_of ef, idempotency_key (obID ef))) effects)) = row_id ` set (candidates n now ?t)"
    using candidates by (simp add: effect_of_def image_image)
  ultimately show ?thesis
    by blast
qed

text \<open>C22. Progress: when nothing fails and nobody interferes, one batch delivers every effect among
  the first that are due (or whose claim lapsed), sends exactly these, and reports no error.\<close>

theorem publish_delivers_due:
  assumes "distinct (map row_id (dbOutbox db))" and "esHasOutbox s" and "esSender s = Some (\<lambda>_ _. None)"
    and "0 < n" and "n \<le> 1000"
  shows "\<exists>sent db'. PublishBatch s uuid newID clk n (calm now db) = (None, sent, calm now db') \<and>
    set (map (efID \<circ> fst) sent) = row_id ` set (candidates n now (dbOutbox db)) \<and>
    (\<forall>r \<in> set (candidates n now (dbOutbox db)). \<exists>r' \<in> set (dbOutbox db'). row_id r' = row_id r \<and> row_status r' = OutboxStatusDelivered)"
  using publish_calm [OF assms] .

section \<open>Examples\<close>

text \<open>An outbox with one effect due, published by a sender that always succeeds.\<close>

definition sample_effect :: OutboxEffect where
  "sample_effect = \<lparr>obID = ''e1'', obExecutionID = ''x'', obTenantID = ''t'', obDestination = ''d'', obName = ''n'', obPayload = ''{}'',
     obEffectType = EffectTypeCommand, obStatus = OutboxStatusPending, obAttempts = 0, obMaxAttempts = 5, obAvailableAt = 1,
     obClaimedBy = [], obClaimedAt = None, obClaimExpiresAt = None, obLastError = [], obCreatedAt = 1, obUpdatedAt = 1\<rparr>"

definition sample_outbox :: database where
  "sample_outbox = empty_database\<lparr>dbOutbox := [outbox_row_of sample_effect]\<rparr>"

definition sample_publisher :: EffectsService where
  "sample_publisher = NewService True (Some (\<lambda>_ _. None)) True []"

lemma sample_outbox_row: "dbOutbox sample_outbox = [outbox_row_of sample_effect]" "candidates 10 5 (dbOutbox sample_outbox) = [outbox_row_of sample_effect]"
  by (simp_all add: sample_outbox_def candidates_def order_limit_def select_rows_def claimable_def outbox_row_of_def sample_effect_def)

lemma sample_publisher_sel: "esHasOutbox sample_publisher" "esSender sample_publisher = Some (\<lambda>_ _. None)"
  and sample_row_sel: "row_id (outbox_row_of sample_effect) = ''e1''" "row_status (outbox_row_of sample_effect) = OutboxStatusPending"
    "owClaimedBy (outbox_row_of sample_effect) = None"
  by (simp_all add: sample_publisher_def NewService_def outbox_row_of_def sample_effect_def)

theorem publish_delivers_due_witness:
  "\<exists>sent db'. PublishBatch sample_publisher ''u'' id (\<lambda>_. 5) 10 (calm 5 sample_outbox) = (None, sent, calm 5 db') \<and>
     set (map (efID \<circ> fst) sent) = {''e1''} \<and>
     (\<exists>r \<in> set (dbOutbox db'). row_id r = ''e1'' \<and> row_status r = OutboxStatusDelivered)"
  using publish_delivers_due [of sample_outbox sample_publisher 10 "''u''" id "\<lambda>_. 5" 5, unfolded sample_outbox_row(2)]
  by (simp add: sample_outbox_row(1) sample_row_sel sample_publisher_sel)

theorem outbox_effects_durable_witness:
  "\<exists>r' \<in> set (dbOutbox (woDb (fold perform_outbox [Publish sample_publisher ''u'' id (\<lambda>_. 5) 10] (calm 5 sample_outbox)))).
    same_content sample_effect (owEffect r')"
proof -
  have "owEffect (outbox_row_of sample_effect) = sample_effect"
    by (simp add: outbox_row_of_def sample_effect_def)
  then show ?thesis
    using outbox_effects_durable [of "calm 5 sample_outbox" "outbox_row_of sample_effect" "[Publish sample_publisher ''u'' id (\<lambda>_. 5) 10]"]
    by (auto simp: sample_outbox_row rely_calm lift_outbox_def outbox_durable.Rt_refl)
qed

theorem publish_attempts_bounded_witness:
  "outbox_ok (dbOutbox (woDb (snd (snd (PublishBatch sample_publisher ''u'' id (\<lambda>_. 5) 10 (calm 5 sample_outbox))))))"
  by (rule publish_attempts_bounded)
    (simp_all add: sample_outbox_row rely_calm lift_outbox_def others_outbox_def outbox_ok_def outbox_row_of_def sample_effect_def)

lemma calm_quiet: "quiet (calm now db)"
  by (simp add: quiet_def calm_def)

theorem delivered_was_sent_witness:
  "\<exists>err sent w'. PublishBatch sample_publisher ''u'' id (\<lambda>_. 5) 10 (calm 5 sample_outbox) = (err, sent, w') \<and>
     (\<exists>e. (e, idempotency_key ''e1'') \<in> set sent \<and> efID e = ''e1'')"
proof -
  obtain sent db' r where p: "PublishBatch sample_publisher ''u'' id (\<lambda>_. 5) 10 (calm 5 sample_outbox) = (None, sent, calm 5 db')"
    and r: "r \<in> set (dbOutbox db')" "row_id r = ''e1''" "row_status r = OutboxStatusDelivered"
    using publish_calm [of sample_outbox sample_publisher 10 "''u''" id "\<lambda>_. 5" 5, unfolded sample_outbox_row(2)]
    by (auto simp: sample_outbox_row(1) sample_row_sel sample_publisher_sel)
  have "r \<notin> set (dbOutbox sample_outbox)"
    using r(3) by (auto simp: sample_outbox_row(1) sample_row_sel)
  then show ?thesis
    using delivered_was_sent [OF calm_quiet sample_publisher_sel(2) p, of r] r p by auto
qed

end
