(* ===== verification/InboxRepository.thy ===== *)
theory InboxRepository
  imports Database
begin

text \<open>
  \<^verbatim>\<open>internal/adapters/postgres/inbox.go\<close>: the repositories of inbox entries and of executions.  The
  time read from the process clock in an operation is its argument \<open>now\<close>.
\<close>

section \<open>Inbox entries\<close>

text \<open>The \<^verbatim>\<open>INSERT\<close> leaves the execution and the commit time null; a nil payload is null, and the
  batch is written as the string it is, even if empty.\<close>

definition inbox_row_of :: "InboxEntry \<Rightarrow> inbox_row" where
  "inbox_row_of entry =
     \<lparr>ixTenantID = inTenantID entry, ixEventID = inEventID entry, ixStatus = inStatus entry, ixExecutionID = None,
      ixFirstSeenAt = inFirstSeenAt entry, ixCommittedAt = None, ixPartitionKey = Some (inPartitionKey entry),
      ixRuleSet = Some (inRuleSet entry),
      ixPayload = (if inPayload entry = [] then None else Some (inPayload entry)),
      ixBatchID = Some (inBatchID entry)\<rparr>"

definition inbox_key :: "inbox_row \<Rightarrow> string \<times> string" where
  [table_simps]: "inbox_key r = (ixTenantID r, ixEventID r)"

definition coalesce :: "string option \<Rightarrow> string" where
  [go_simps]: "coalesce v = (case v of None \<Rightarrow> [] | Some s \<Rightarrow> s)"

text \<open>The scan of a row, shared with the batch repository: a null execution is an error.\<close>

definition scan_inbox :: "inbox_row \<Rightarrow> InboxEntry result" where
  "scan_inbox r =
     (case scan_string (ixExecutionID r) of
        Inl err \<Rightarrow> Inl err
      | Inr executionID \<Rightarrow>
          Inr \<lparr>inTenantID = ixTenantID r, inEventID = ixEventID r, inStatus = ixStatus r, inExecutionID = executionID,
               inPartitionKey = coalesce (ixPartitionKey r), inRuleSet = coalesce (ixRuleSet r),
               inPayload = coalesce (ixPayload r), inBatchID = coalesce (ixBatchID r),
               inFirstSeenAt = ixFirstSeenAt r, inCommittedAt = ixCommittedAt r\<rparr>)"

definition on_inbox :: "(time \<Rightarrow> inbox_row table \<Rightarrow> inbox_row table \<times> 'a) \<Rightarrow> time \<Rightarrow> database \<Rightarrow> (database \<times> 'a) result" where
  "on_inbox f now db = (let (t, a) = f now (dbInbox db) in Inr (db\<lparr>dbInbox := t\<rparr>, a))"

definition Inbox_Insert :: "InboxEntry \<Rightarrow> database world \<Rightarrow> bool result \<times> database world" where
  "Inbox_Insert entry w =
     (case Exec (on_inbox (\<lambda>now. insert_do_nothing inbox_key (inbox_row_of entry))) w of
        (Inl err, w') \<Rightarrow> (Inl (wrap ''insert inbox'' err), w')
      | (Inr n, w') \<Rightarrow> (Inr (n > 0), w'))"

definition Inbox_Get :: "string \<Rightarrow> string \<Rightarrow> database world \<Rightarrow> InboxEntry option result \<times> database world" where
  "Inbox_Get tenantID eventID w =
     (case QueryRow (reading (\<lambda>now db. select_row (\<lambda>r. inbox_key r = (tenantID, eventID)) (dbInbox db))) w of
        (Inl err, w') \<Rightarrow>
          if errors_Is err PgxErrNoRows then (Inr None, w') else (Inl (wrap ''get inbox'' err), w')
      | (Inr r, w') \<Rightarrow>
          (case scan_inbox r of
             Inl err \<Rightarrow> (Inl (wrap ''get inbox'' err), w')
           | Inr entry \<Rightarrow> (Inr (Some entry), w')))"

definition Inbox_MarkCommitted :: "time \<Rightarrow> string \<Rightarrow> string \<Rightarrow> string \<Rightarrow> database world \<Rightarrow> unit result \<times> database world" where
  "Inbox_MarkCommitted now tenantID eventID executionID w =
     (case Exec (on_inbox (\<lambda>_. update_where (\<lambda>r. inbox_key r = (tenantID, eventID))
             (\<lambda>r. r\<lparr>ixStatus := InboxStatusCommitted, ixExecutionID := Some executionID, ixCommittedAt := Some now\<rparr>))) w of
        (Inl err, w') \<Rightarrow> (Inl (wrap ''mark committed'' err), w')
      | (Inr n, w') \<Rightarrow> (Inr (), w'))"

section \<open>Executions\<close>

definition on_executions ::
  "(time \<Rightarrow> Execution table \<Rightarrow> Execution table \<times> 'a) \<Rightarrow> time \<Rightarrow> database \<Rightarrow> (database \<times> 'a) result" where
  "on_executions f now db = (let (t, a) = f now (dbExecutions db) in Inr (db\<lparr>dbExecutions := t\<rparr>, a))"

text \<open>The completion time is not among the inserted columns.\<close>

definition Execution_Save :: "Execution \<Rightarrow> database world \<Rightarrow> unit result \<times> database world" where
  "Execution_Save execution w =
     (case Exec (on_executions (\<lambda>now. insert_do_nothing exID (execution\<lparr>exCompletedAt := None\<rparr>))) w of
        (Inl err, w') \<Rightarrow> (Inl (wrap ''save execution'' err), w')
      | (Inr n, w') \<Rightarrow> (Inr (), w'))"

definition Execution_Get :: "string \<Rightarrow> database world \<Rightarrow> Execution option result \<times> database world" where
  "Execution_Get executionID w =
     (case QueryRow (reading (\<lambda>now db. select_row (\<lambda>r. exID r = executionID) (dbExecutions db))) w of
        (Inl err, w') \<Rightarrow>
          if errors_Is err PgxErrNoRows then (Inr None, w') else (Inl (wrap ''get execution'' err), w')
      | (Inr exec, w') \<Rightarrow> (Inr (Some exec), w'))"

definition Execution_UpdateStatus ::
  "time \<Rightarrow> string \<Rightarrow> ExecutionStatus \<Rightarrow> string \<Rightarrow> database world \<Rightarrow> unit result \<times> database world" where
  "Execution_UpdateStatus now executionID status errMsg w =
     (let completedAt =
            (if status = ExecutionStatusCompleted \<or> status = ExecutionStatusFailed \<or> status = ExecutionStatusQuarantined
             then Some now else None)
      in case Exec (on_executions (\<lambda>_. update_where (\<lambda>r. exID r = executionID)
               (\<lambda>r. r\<lparr>exStatus := status, exError := errMsg, exCompletedAt := completedAt\<rparr>))) w of
           (Inl err, w') \<Rightarrow> (Inl (wrap ''update execution status'' err), w')
         | (Inr n, w') \<Rightarrow> (Inr (), w'))"

definition Execution_GetByEvent :: "string \<Rightarrow> database world \<Rightarrow> Execution option result \<times> database world" where
  "Execution_GetByEvent eventID w =
     (case QueryRow (reading (\<lambda>now db. select_row (\<lambda>r. exEventID r = eventID) (dbExecutions db))) w of
        (Inl err, w') \<Rightarrow>
          if errors_Is err PgxErrNoRows then (Inr None, w') else (Inl (wrap ''get execution by event'' err), w')
      | (Inr exec, w') \<Rightarrow> (Inr (Some exec), w'))"

text \<open>The error of the iteration is not looked at: the rows that arrived are the result.\<close>

definition Execution_GetPending :: "int \<Rightarrow> database world \<Rightarrow> Execution list result \<times> database world" where
  "Execution_GetPending limit w =
     (let limit = (if limit \<le> 0 then 100 else limit)
      in case Query (reading (\<lambda>now db. order_limit exCreatedAt limit
               (select_rows (\<lambda>r. exStatus r = ExecutionStatusPending) (dbExecutions db)))) w of
           (Inl err, w') \<Rightarrow> (Inl (wrap ''get pending executions'' err), w')
         | (Inr (rows, _), w') \<Rightarrow> (Inr rows, w'))"

interpretation inbox_pk: primary_key inbox_key .
interpretation execution_pk: primary_key exID .

end
