(* ===== verification/TableOrder.thy ===== *)
theory TableOrder
  imports Database
begin

text \<open>
  The history of a table with a primary key.  A relation on rows says what may become of a row; in
  the order of databases it gives rise to, keys stay unique and every row lives on within the
  relation.  The statements of the repositories respect it row by row, and so does a transaction
  whose body does.
\<close>

definition rows_live_on :: "('r \<Rightarrow> 'k) \<Rightarrow> ('r \<Rightarrow> 'r \<Rightarrow> bool) \<Rightarrow> 'r table \<Rightarrow> 'r table \<Rightarrow> bool" where
  "rows_live_on key grows t t' =
     (distinct (map key t) \<longrightarrow> distinct (map key t') \<and> (\<forall>r \<in> set t. \<exists>r' \<in> set t'. grows r r'))"

definition table_order :: "('db \<Rightarrow> 'r table) \<Rightarrow> ('r \<Rightarrow> 'k) \<Rightarrow> ('r \<Rightarrow> 'r \<Rightarrow> bool) \<Rightarrow> 'db \<Rightarrow> 'db \<Rightarrow> bool" where
  "table_order tab key grows db db' = rows_live_on key grows (tab db) (tab db')"

locale growing_rows = primary_key key
  for key :: "'r \<Rightarrow> 'k" +
  fixes tab :: "'db \<Rightarrow> 'r table" and grows :: "'r \<Rightarrow> 'r \<Rightarrow> bool"
  assumes grows_refl: "grows r r"
    and grows_trans: "grows r r' \<Longrightarrow> grows r' r'' \<Longrightarrow> grows r r''"
    and grows_key: "grows r r' \<Longrightarrow> key r' = key r"
begin

lemma live_refl: "rows_live_on key grows t t"
  unfolding rows_live_on_def using grows_refl by blast

lemma live_trans: "rows_live_on key grows t t' \<Longrightarrow> rows_live_on key grows t' t'' \<Longrightarrow> rows_live_on key grows t t''"
  unfolding rows_live_on_def by (meson grows_trans)

lemma live_update:
  assumes "\<And>r. r \<in> set t \<Longrightarrow> P r \<Longrightarrow> grows r (f r)"
  shows "rows_live_on key grows t (fst (update_where P f t))"
  unfolding rows_live_on_def
proof (intro impI conjI ballI)
  show "distinct (map key (fst (update_where P f t)))" if "distinct (map key t)"
    using that unique_update_where [of t P f] assms grows_key by force
  show "\<exists>r' \<in> set (fst (update_where P f t)). grows r r'" if "r \<in> set t" for r
    using that assms [of r] grows_refl [of r] by (intro bexI [of _ "if P r then f r else r"]) auto
qed

lemma live_append: "key r \<notin> key ` set t \<Longrightarrow> rows_live_on key grows t (t @ [r])"
  unfolding rows_live_on_def using grows_refl by auto

lemma live_insert_do_nothing: "rows_live_on key grows t (fst (insert_do_nothing key r t))"
  by (simp add: insert_do_nothing_def live_refl live_append)

lemma live_insert_do_update:
  "(\<And>x. x \<in> set t \<Longrightarrow> key x = key r \<Longrightarrow> P x \<Longrightarrow> grows x (f x)) \<Longrightarrow>
    rows_live_on key grows t (fst (insert_do_update key r P f t))"
  by (auto simp: insert_do_update_def intro: live_append live_update)

text \<open>What a row has become.\<close>

lemma lives:
  assumes "table_order tab key grows db db'" "distinct (map key (tab db))"
    and "r \<in> set (tab db)" "r' \<in> set (tab db')" "key r = key r'"
  shows "grows r r'"
proof -
  obtain x where "x \<in> set (tab db')" "grows r x" "distinct (map key (tab db'))"
    using assms(1-3) by (auto simp: table_order_def rows_live_on_def)
  then show ?thesis
    using assms(4,5) same_row [of "tab db'" x r'] grows_key by auto
qed

end

sublocale growing_rows \<subseteq> interference "table_order tab key grows"
  by unfold_locales (auto simp: table_order_def intro: live_refl live_trans)

section \<open>Transactions\<close>

text \<open>Inside a transaction there are no others, so its statements are the only changes.\<close>

lemma rely_transaction_world: "(\<And>db. R db db) \<Longrightarrow> rely R (transaction_world m db)"
  by (auto simp: rely_def transaction_world_def stream.set_map)

context interference
begin

lemma rely_stl: "rely R w \<Longrightarrow> rely R \<lparr>woDb = db, woFuture = stl (woFuture w)\<rparr>"
  unfolding rely_def by (auto dest: stl_sset)

lemma transaction_rely: "rely R w \<Longrightarrow> rely R (snd (transaction body w))"
  using rely_stl [of w] rely_stl [of "\<lparr>woDb = db, woFuture = stl (woFuture w)\<rparr>" for db]
  by (auto simp: transaction_def Let_def split: fault.splits prod.splits verdict.splits)

lemma transaction_within:
  assumes "\<And>tw. within R tw (snd (body tw))"
  shows "within R w (snd (transaction body w))"
  unfolding within_def
proof
  assume r: "rely R w"
  let ?m = "shd (woFuture w)" and ?db = "moOthers (shd (woFuture w)) (woDb w)"
  have db: "R (woDb w) ?db"
    using r by (rule rely_others)
  have "rely R (transaction_world ?m ?db)"
    by (rule rely_transaction_world) (rule R_refl)
  then have body: "R ?db (woDb (snd (body (transaction_world ?m ?db))))"
    using assms [of "transaction_world ?m ?db"] by (simp add: within_def transaction_world_def)
  have "R (woDb w) (woDb (snd (transaction body w)))"
    using db R_trans [OF db body]
    by (auto simp: transaction_def Let_def split: fault.splits prod.splits verdict.splits)
  then show "R (woDb w) (woDb (snd (transaction body w))) \<and> rely R (snd (transaction body w))"
    using transaction_rely [OF r] by blast
qed

end

section \<open>Quiet worlds\<close>

text \<open>A world without others, as it is inside a transaction: the database is what the calls so far
  have left.\<close>

abbreviation quiet :: "'db world \<Rightarrow> bool" where
  "quiet \<equiv> rely (=)"

interpretation still: interference "(=)"
  by unfold_locales auto

lemma quiet_transaction_world: "quiet (transaction_world m db)"
  by (rule rely_transaction_world) (rule refl)

lemma quiet_now: "quiet w \<Longrightarrow> now_db w = woDb w"
  using still.rely_others [of w] by simp

lemma call_future:
  "woFuture (snd (Exec f w)) = stl (woFuture w)"
  "woFuture (snd (QueryRow g w)) = stl (woFuture w)"
  "woFuture (snd (Query h w)) = stl (woFuture w)"
  by (auto simp: Exec_def QueryRow_def Query_def db_call_def Let_def
      split: prod.splits sum.splits option.splits outcome.splits fault.splits)

lemma quiet_future: "quiet w \<Longrightarrow> woFuture w' = stl (woFuture w) \<Longrightarrow> quiet w'"
  unfolding rely_def by (auto dest: stl_sset)

lemma quiet_Exec:
  assumes "Exec f w = (Inr a, w')" "quiet w"
  shows "f (moNow (shd (woFuture w))) (woDb w) = Inr (woDb w', a)" "quiet w'"
  using Exec_Inr [OF assms(1)] quiet_now [OF assms(2)] quiet_future [OF assms(2), of w'] by auto

lemma quiet_QueryRow:
  assumes "QueryRow (reading f) w = (r, w')" "quiet w"
  shows "woDb w' = woDb w" "quiet w'" "r = Inr a \<Longrightarrow> f (moNow (shd (woFuture w))) (woDb w) = Some a"
  using still.withinI_reading(1) [OF assms(1)] assms QueryRow_Inr [of "reading f" w a w'] quiet_now [OF assms(2)]
  by (auto simp: within_def)

lemma quiet_Query:
  assumes "Query (reading f) w = (r, w')" "quiet w"
  shows "woDb w' = woDb w" "quiet w'" "r = Inr (rows, None) \<Longrightarrow> f (moNow (shd (woFuture w))) (woDb w) = rows"
  using still.withinI_reading(2) [OF assms(1)] assms Query_Inr [of "reading f" w rows w'] quiet_now [OF assms(2)]
  by (auto simp: within_def)

text \<open>A transaction whose body keeps nothing but what it should: either nothing changes, or the
  body kept its changes.\<close>

lemma transaction_cases:
  assumes "transaction body w = (r, w')"
  obtains (begin_failed) err where "r = BeginFailed err" "woDb w' = now_db w"
  | (discarded) a tw where "body (transaction_world (shd (woFuture w)) (now_db w)) = (Discard a, tw)"
      "r = Finished a" "woDb w' = now_db w"
  | (not_committed) a tw err where "body (transaction_world (shd (woFuture w)) (now_db w)) = (Keep a, tw)"
      "r = CommitFailed err" "woDb w' = now_db w"
  | (maybe_committed) a tw err where "body (transaction_world (shd (woFuture w)) (now_db w)) = (Keep a, tw)"
      "r = CommitFailed err" "woDb w' = woDb tw"
  | (committed) a tw where "body (transaction_world (shd (woFuture w)) (now_db w)) = (Keep a, tw)"
      "r = Finished a" "woDb w' = woDb tw"
  using assms by (auto simp: transaction_def Let_def split: fault.splits prod.splits verdict.splits)

end
