(* ===== verification/Compiler.thy ===== *)
theory Compiler
  imports DomainTypes
begin

text \<open>
  \<^verbatim>\<open>internal/rules/compiler.go\<close>: a rule set is decoded from JSON, validated against the limits and
  compiled into a revision whose rules are in descending order of priority.

  The properties: what \<open>Compile\<close> accepts is well formed (unique identifiers and priorities, a
  strictly descending order, predicates the evaluator can evaluate, actions of one kind), within
  the limits, and derived from the source rules only by sorting; every other source is rejected.
\<close>

section \<open>Sources\<close>

record Limits =
  MaxRulesPerSet :: int
  MaxPredicates :: int
  MaxNestingDepth :: int
  MaxActionsPerSet :: int
  MaxPayloadBytes :: int
  MaxRuleIDLen :: int

definition DefaultLimits :: Limits where
  "DefaultLimits = \<lparr>MaxRulesPerSet = 100, MaxPredicates = 200, MaxNestingDepth = 10,
     MaxActionsPerSet = 10, MaxPayloadBytes = 256 * 1024, MaxRuleIDLen = 128\<rparr>"

definition CompilerVersion :: string where
  "CompilerVersion = ''1.0.0''"

record rawRuleSet =
  rsRuleSet :: string
  rsRevision :: int
  rsMode :: string
  rsRules :: string
  rsInputContract :: "ContractRef option"

record rawRule =
  rrID :: string
  rrName :: string
  rrDescription :: string
  rrTags :: "string list"
  rrPriority :: int
  rrWhen :: Predicate
  rrThen :: "Action list"
  rrOtherwise :: "Action list"

section \<open>Decoding\<close>

text \<open>The struct decoders \<^verbatim>\<open>encoding/json\<close> derives from the field tags: the names of the fields and
  what each of them updates.\<close>

definition dec_ContractRef :: "ContractRef decoder" where
  "dec_ContractRef = dec_struct [''name'', ''version'', ''schema_hash''] (\<lambda>f x c.
     if f = ''name'' then map_option (\<lambda>s. c\<lparr>crName := s\<rparr>) (dec_string x (crName c))
     else if f = ''version'' then map_option (\<lambda>s. c\<lparr>crVersion := s\<rparr>) (dec_string x (crVersion c))
     else map_option (\<lambda>s. c\<lparr>crSchemaHash := s\<rparr>) (dec_string x (crSchemaHash c)))"

definition zero_ContractRef :: ContractRef where
  "zero_ContractRef = \<lparr>crName = [], crVersion = [], crSchemaHash = []\<rparr>"

definition dec_rawRuleSet :: "rawRuleSet decoder" where
  "dec_rawRuleSet = dec_struct [''rule_set'', ''revision'', ''mode'', ''rules'', ''input_contract''] (\<lambda>f x c.
     if f = ''rule_set'' then map_option (\<lambda>s. c\<lparr>rsRuleSet := s\<rparr>) (dec_string x (rsRuleSet c))
     else if f = ''revision'' then map_option (\<lambda>n. c\<lparr>rsRevision := n\<rparr>) (dec_int x (rsRevision c))
     else if f = ''mode'' then map_option (\<lambda>s. c\<lparr>rsMode := s\<rparr>) (dec_string x (rsMode c))
     else if f = ''rules'' then map_option (\<lambda>s. c\<lparr>rsRules := s\<rparr>) (dec_raw x (rsRules c))
     else map_option (\<lambda>r. c\<lparr>rsInputContract := r\<rparr>)
            (dec_ptr zero_ContractRef dec_ContractRef x (rsInputContract c)))"

definition zero_rawRuleSet :: rawRuleSet where
  "zero_rawRuleSet = \<lparr>rsRuleSet = [], rsRevision = 0, rsMode = [], rsRules = [], rsInputContract = None\<rparr>"

definition zero_Predicate :: Predicate where
  "zero_Predicate = Predicate None None None [] [] INil"

definition predicate_fields :: "string list" where
  "predicate_fields = [''all'', ''any'', ''not'', ''path'', ''op'', ''value'']"

text \<open>What a JSON value decodes to where a \<^verbatim>\<open>Predicate\<close>, a \<^verbatim>\<open>*Predicate\<close> or a \<^verbatim>\<open>[]*Predicate\<close> is
  expected.  A \<^verbatim>\<open>null\<close> leaves a predicate as it is, sets a pointer to nil and gives a nil slice,
  which is not the empty slice of \<^verbatim>\<open>[]\<close>.\<close>

type_synonym predicate_decoders =
  "(Predicate \<Rightarrow> Predicate option) \<times>
   (Predicate option \<Rightarrow> Predicate option option) \<times>
   (Predicate option list option \<Rightarrow> Predicate option list option option)"

definition dec_PredicateField ::
  "string \<Rightarrow> string \<times> jval \<Rightarrow> predicate_decoders \<Rightarrow> Predicate \<Rightarrow> Predicate option" where
  "dec_PredicateField f x ds p = (case p of Predicate al an nt path op val \<Rightarrow>
     (if f = ''all'' then map_option (\<lambda>y. Predicate y an nt path op val) (snd (snd ds) al)
      else if f = ''any'' then map_option (\<lambda>y. Predicate al y nt path op val) (snd (snd ds) an)
      else if f = ''not'' then map_option (\<lambda>y. Predicate al an y path op val) (fst (snd ds) nt)
      else if f = ''path'' then map_option (\<lambda>y. Predicate al an nt y op val) (dec_string x path)
      else if f = ''op'' then map_option (\<lambda>y. Predicate al an nt path y val) (dec_string x op)
      else map_option (\<lambda>y. Predicate al an nt path op y) (dec_iface x val)))"

primrec dec_PredicateMembers ::
  "(string \<times> string \<times> jval \<times> predicate_decoders) list \<Rightarrow> Predicate \<Rightarrow> Predicate option" where
  "dec_PredicateMembers [] p = Some p"
| "dec_PredicateMembers (m # ms) p =
     (case m of (k, raw, v, ds) \<Rightarrow>
      (case match_field predicate_fields k of
         None \<Rightarrow> dec_PredicateMembers ms p
       | Some f \<Rightarrow>
          (case dec_PredicateField f (raw, v) ds p of
             None \<Rightarrow> None
           | Some p' \<Rightarrow> dec_PredicateMembers ms p')))"

primrec dec_PredicateElems ::
  "predicate_decoders list \<Rightarrow> Predicate option list \<Rightarrow> Predicate option list option" where
  "dec_PredicateElems [] cur = Some []"
| "dec_PredicateElems (ds # es) cur =
     (case fst (snd ds) (case cur of [] \<Rightarrow> None | p # _ \<Rightarrow> p) of
        None \<Rightarrow> None
      | Some p \<Rightarrow> map_option ((#) p) (dec_PredicateElems es (tl cur)))"

primrec dec_PredicateNode :: "jval \<Rightarrow> predicate_decoders" where
  "dec_PredicateNode JNull = (Some, \<lambda>_. Some None, \<lambda>_. Some None)"
| "dec_PredicateNode (JBool b) = (\<lambda>_. None, \<lambda>_. None, \<lambda>_. None)"
| "dec_PredicateNode (JNum n) = (\<lambda>_. None, \<lambda>_. None, \<lambda>_. None)"
| "dec_PredicateNode (JStr s) = (\<lambda>_. None, \<lambda>_. None, \<lambda>_. None)"
| "dec_PredicateNode (JArr es) =
     (\<lambda>_. None, \<lambda>_. None,
      \<lambda>cur. map_option Some (dec_PredicateElems (map snd (map (map_prod id dec_PredicateNode) es))
        (case cur of None \<Rightarrow> [] | Some ps \<Rightarrow> ps)))"
| "dec_PredicateNode (JObj ms) =
     (let dec = dec_PredicateMembers (map (map_prod id (map_prod id (\<lambda>v. (v, dec_PredicateNode v)))) ms)
      in (dec, \<lambda>cur. map_option Some (dec (case cur of None \<Rightarrow> zero_Predicate | Some p \<Rightarrow> p)), \<lambda>_. None))"

definition dec_Predicate :: "Predicate decoder" where
  "dec_Predicate = (\<lambda>(raw, v). fst (dec_PredicateNode v))"

definition zero_EmitAction :: EmitAction where
  "zero_EmitAction = \<lparr>emTopic = [], emData = []\<rparr>"

definition dec_EmitAction :: "EmitAction decoder" where
  "dec_EmitAction = dec_struct [''topic'', ''data''] (\<lambda>f x c.
     if f = ''topic'' then map_option (\<lambda>s. c\<lparr>emTopic := s\<rparr>) (dec_string x (emTopic c))
     else map_option (\<lambda>s. c\<lparr>emData := s\<rparr>) (dec_raw x (emData c)))"

definition zero_EmitEventAction :: EmitEventAction where
  "zero_EmitEventAction = \<lparr>eeType = [], eePartitionKey = [], eePartitionKeyPolicy = [],
     eePartitionKeyPath = [], eeData = []\<rparr>"

definition dec_EmitEventAction :: "EmitEventAction decoder" where
  "dec_EmitEventAction = dec_struct
     [''type'', ''partition_key'', ''partition_key_policy'', ''partition_key_path'', ''data''] (\<lambda>f x c.
     if f = ''type'' then map_option (\<lambda>s. c\<lparr>eeType := s\<rparr>) (dec_string x (eeType c))
     else if f = ''partition_key'' then
       map_option (\<lambda>s. c\<lparr>eePartitionKey := s\<rparr>) (dec_string x (eePartitionKey c))
     else if f = ''partition_key_policy'' then
       map_option (\<lambda>s. c\<lparr>eePartitionKeyPolicy := s\<rparr>) (dec_string x (eePartitionKeyPolicy c))
     else if f = ''partition_key_path'' then
       map_option (\<lambda>s. c\<lparr>eePartitionKeyPath := s\<rparr>) (dec_string x (eePartitionKeyPath c))
     else map_option (\<lambda>s. c\<lparr>eeData := s\<rparr>) (dec_raw x (eeData c)))"

definition zero_CommandAction :: CommandAction where
  "zero_CommandAction = \<lparr>cmDestination = [], cmName = [], cmData = []\<rparr>"

definition dec_CommandAction :: "CommandAction decoder" where
  "dec_CommandAction = dec_struct [''destination'', ''name'', ''data''] (\<lambda>f x c.
     if f = ''destination'' then map_option (\<lambda>s. c\<lparr>cmDestination := s\<rparr>) (dec_string x (cmDestination c))
     else if f = ''name'' then map_option (\<lambda>s. c\<lparr>cmName := s\<rparr>) (dec_string x (cmName c))
     else map_option (\<lambda>s. c\<lparr>cmData := s\<rparr>) (dec_raw x (cmData c)))"

definition zero_Action :: Action where
  "zero_Action = \<lparr>acEmit = None, acEmitEvent = None, acCommand = None\<rparr>"

definition dec_Action :: "Action decoder" where
  "dec_Action = dec_struct [''emit'', ''emit_event'', ''command''] (\<lambda>f x c.
     if f = ''emit'' then
       map_option (\<lambda>a. c\<lparr>acEmit := a\<rparr>) (dec_ptr zero_EmitAction dec_EmitAction x (acEmit c))
     else if f = ''emit_event'' then
       map_option (\<lambda>a. c\<lparr>acEmitEvent := a\<rparr>) (dec_ptr zero_EmitEventAction dec_EmitEventAction x (acEmitEvent c))
     else map_option (\<lambda>a. c\<lparr>acCommand := a\<rparr>) (dec_ptr zero_CommandAction dec_CommandAction x (acCommand c)))"

definition zero_rawRule :: rawRule where
  "zero_rawRule = \<lparr>rrID = [], rrName = [], rrDescription = [], rrTags = [], rrPriority = 0,
     rrWhen = zero_Predicate, rrThen = [], rrOtherwise = []\<rparr>"

definition dec_rawRule :: "rawRule decoder" where
  "dec_rawRule = dec_struct
     [''id'', ''name'', ''description'', ''tags'', ''priority'', ''when'', ''then'', ''otherwise''] (\<lambda>f x c.
     if f = ''id'' then map_option (\<lambda>s. c\<lparr>rrID := s\<rparr>) (dec_string x (rrID c))
     else if f = ''name'' then map_option (\<lambda>s. c\<lparr>rrName := s\<rparr>) (dec_string x (rrName c))
     else if f = ''description'' then map_option (\<lambda>s. c\<lparr>rrDescription := s\<rparr>) (dec_string x (rrDescription c))
     else if f = ''tags'' then map_option (\<lambda>s. c\<lparr>rrTags := s\<rparr>) (dec_slice [] dec_string x (rrTags c))
     else if f = ''priority'' then map_option (\<lambda>n. c\<lparr>rrPriority := n\<rparr>) (dec_int x (rrPriority c))
     else if f = ''when'' then map_option (\<lambda>p. c\<lparr>rrWhen := p\<rparr>) (dec_Predicate x (rrWhen c))
     else if f = ''then'' then
       map_option (\<lambda>a. c\<lparr>rrThen := a\<rparr>) (dec_slice zero_Action dec_Action x (rrThen c))
     else map_option (\<lambda>a. c\<lparr>rrOtherwise := a\<rparr>) (dec_slice zero_Action dec_Action x (rrOtherwise c)))"

text \<open>The errors of \<^verbatim>\<open>json.Unmarshal\<close> and \<^verbatim>\<open>json.Marshal\<close>.\<close>

definition json_error :: gerr where
  "json_error = ErrorString ''invalid JSON''"

definition marshal_error :: gerr where
  "marshal_error = ErrorString ''json: error calling MarshalJSON''"

definition parseRuleSet :: "string \<Rightarrow> rawRuleSet result" where
  "parseRuleSet source =
     (if source = [] then Inl (ErrorString ''empty rule source'')
      else (case json_decode dec_rawRuleSet zero_rawRuleSet source of
          None \<Rightarrow> Inl (wrap ''parse rule set'' json_error)
        | Some rs \<Rightarrow> Inr rs))"

definition parseRawRules :: "string \<Rightarrow> rawRule list result" where
  "parseRawRules source =
     (case json_decode (dec_slice zero_rawRule dec_rawRule) [] source of
        None \<Rightarrow> Inl (wrap ''parse rules'' json_error)
      | Some rules \<Rightarrow> Inr rules)"

section \<open>Validation\<close>

definition validateRuleSetMetadata :: "rawRuleSet \<Rightarrow> unit result" where
  "validateRuleSetMetadata rs =
     (if rsRuleSet rs = [] then Inl (Sentinel ErrRuleIDRequired)
      else if rsRevision rs \<le> 0 then Inl (Sentinel ErrRevisionRequired)
      else if rsMode rs \<noteq> ''first_match'' \<and> rsMode rs \<noteq> ''all_matches'' then Inl (Sentinel ErrInvalidMatchMode)
      else Inr ())"

text \<open>The recursive functions on predicates work on the results for the children, which
  \<open>option.map_option\<close> and \<open>map\<close> put in the places of the children.\<close>

definition sum_present :: "int option list option \<Rightarrow> int" where
  "sum_present ns = (case ns of None \<Rightarrow> 0 | Some xs \<Rightarrow> sum_list (map (case_option 0 id) xs))"

primrec countPredicates :: "Predicate \<Rightarrow> int" where
  "countPredicates (Predicate al an nt path op val) =
     sum_present (map_option (map (map_option countPredicates)) al) +
     sum_present (map_option (map (map_option countPredicates)) an) +
     (case map_option countPredicates nt of None \<Rightarrow> 0 | Some n \<Rightarrow> n) +
     (if path \<noteq> [] then 1 else 0)"

definition countRuleSetWork :: "rawRule list \<Rightarrow> int \<times> int" where
  "countRuleSetWork rules = foldl (\<lambda>(predicates, actions) rule.
     (predicates + countPredicates (rrWhen rule),
      actions + int (length (rrThen rule)) + int (length (rrOtherwise rule)))) (0, 0) rules"

definition validateRuleSetBudgets :: "Limits \<Rightarrow> rawRule list \<Rightarrow> unit result" where
  "validateRuleSetBudgets limits rules =
     (if rules = [] \<or> int (length rules) > MaxRulesPerSet limits then Inl (Sentinel ErrRuleExceedsLimits)
      else (case countRuleSetWork rules of (totalPredicates, totalActions) \<Rightarrow>
        if totalPredicates > MaxPredicates limits \<or> totalActions > MaxActionsPerSet limits
        then Inl (Sentinel ErrRuleExceedsLimits)
        else Inr ()))"

definition validateRuleSet :: "Limits \<Rightarrow> rawRuleSet \<Rightarrow> rawRule list result" where
  "validateRuleSet limits rs =
     (case validateRuleSetMetadata rs of
        Inl err \<Rightarrow> Inl err
      | Inr _ \<Rightarrow>
         (case parseRawRules (rsRules rs) of
            Inl err \<Rightarrow> Inl err
          | Inr rawRules \<Rightarrow>
             (case validateRuleSetBudgets limits rawRules of
                Inl err \<Rightarrow> Inl err
              | Inr _ \<Rightarrow> Inr rawRules)))"

definition validateCompositePredicateShape :: "Predicate \<Rightarrow> unit result" where
  "validateCompositePredicateShape p =
     (if pAll p = Some [] \<or> pAny p = Some [] then Inl (Sentinel ErrInvalidPredicate)
      else if (if pAll p \<noteq> None then 1 else 0) + (if pAny p \<noteq> None then 1 else 0) +
              (if pNot p \<noteq> None then 1 else 0) \<noteq> (1::int)
      then Inl (Sentinel ErrInvalidPredicate)
      else Inr ())"

primrec validateChildren :: "(int \<Rightarrow> unit result) option list \<Rightarrow> int \<Rightarrow> unit result" where
  "validateChildren [] depth = Inr ()"
| "validateChildren (child # children) depth =
     (case child of
        None \<Rightarrow> Inl (Sentinel ErrInvalidPredicate)
      | Some validate \<Rightarrow>
         (case validate (depth + 1) of
            Inl err \<Rightarrow> Inl err
          | Inr _ \<Rightarrow> validateChildren children depth))"

definition validateCompositeChildren ::
  "(int \<Rightarrow> unit result) option list option \<Rightarrow> (int \<Rightarrow> unit result) option list option \<Rightarrow>
   (int \<Rightarrow> unit result) option \<Rightarrow> int \<Rightarrow> unit result" where
  "validateCompositeChildren al an nt depth =
     (case validateChildren (case_option [] id al @ case_option [] id an) depth of
        Inl err \<Rightarrow> Inl err
      | Inr _ \<Rightarrow> (case nt of None \<Rightarrow> Inr () | Some validate \<Rightarrow> validate (depth + 1)))"

primrec validatePredicate :: "Limits \<Rightarrow> Predicate \<Rightarrow> int \<Rightarrow> unit result" where
  "validatePredicate limits (Predicate al an nt path op val) = (\<lambda>depth.
     if depth > MaxNestingDepth limits then Inl (Sentinel ErrRuleExceedsLimits)
     else let hasLeaf = (path \<noteq> []); hasComposite = (al \<noteq> None \<or> an \<noteq> None \<or> nt \<noteq> None)
     in if hasLeaf = hasComposite then Inl (Sentinel ErrInvalidPredicate)
        else if hasLeaf then (if \<not> ValidOp op then Inl (Sentinel ErrInvalidOperator) else Inr ())
        else (case validateCompositePredicateShape (Predicate al an nt path op val) of
            Inl err \<Rightarrow> Inl err
          | Inr _ \<Rightarrow> validateCompositeChildren
              (map_option (map (map_option (validatePredicate limits))) al)
              (map_option (map (map_option (validatePredicate limits))) an)
              (map_option (validatePredicate limits) nt) depth))"

definition validateActionShape :: "Action \<Rightarrow> unit result" where
  "validateActionShape action =
     (if (if acEmit action \<noteq> None then 1 else 0) + (if acEmitEvent action \<noteq> None then 1 else 0) +
         (if acCommand action \<noteq> None then 1 else 0) \<noteq> (1::int)
      then Inl (Sentinel ErrInvalidAction) else Inr ())"

text \<open>\<^verbatim>\<open>json.Marshal\<close> of a \<^verbatim>\<open>json.RawMessage\<close>; its error is ignored and leaves no bytes.\<close>

definition payloadSize :: "string \<Rightarrow> int" where
  "payloadSize value = (case json_raw value of None \<Rightarrow> 0 | Some encoded \<Rightarrow> int (length encoded))"

definition validateEmitAction :: "Limits \<Rightarrow> EmitAction \<Rightarrow> unit result" where
  "validateEmitAction limits action =
     (if emTopic action = [] then Inl (Sentinel ErrInvalidAction)
      else if payloadSize (emData action) > MaxPayloadBytes limits then Inl (Sentinel ErrRuleExceedsLimits)
      else Inr ())"

definition validPartitionKeyPolicy :: "PartitionKeyPolicy \<Rightarrow> bool" where
  "validPartitionKeyPolicy policy =
     (policy = PartitionKeyPolicyExplicit \<or> policy = PartitionKeyPolicyInherit \<or>
      policy = PartitionKeyPolicyFromData)"

definition validatePartitionKeyPolicy :: "EmitEventAction \<Rightarrow> PartitionKeyPolicy \<Rightarrow> unit result" where
  "validatePartitionKeyPolicy action policy =
     (if policy = PartitionKeyPolicyExplicit then
        (if eePartitionKey action = [] then Inl (Sentinel ErrInvalidAction) else Inr ())
      else if policy = PartitionKeyPolicyInherit then Inr ()
      else if policy = PartitionKeyPolicyFromData then
        (if eePartitionKeyPath action = [] \<or> \<not> HasPrefix (eePartitionKeyPath action) ''$.''
         then Inl (Sentinel ErrInvalidAction) else Inr ())
      else Inr ())"

definition validateEmitEventAction :: "Limits \<Rightarrow> EmitEventAction \<Rightarrow> unit result" where
  "validateEmitEventAction limits action =
     (let policy = (if eePartitionKeyPolicy action = [] then PartitionKeyPolicyExplicit
                    else eePartitionKeyPolicy action)
      in if \<not> validPartitionKeyPolicy policy then Inl (Sentinel ErrInvalidAction)
         else (case validatePartitionKeyPolicy action policy of
             Inl err \<Rightarrow> Inl err
           | Inr _ \<Rightarrow>
              (if eeType action = [] \<or> ContainsAny (eeType action) ''*>'' \<or> \<not> json_Valid (eeData action)
               then Inl (Sentinel ErrInvalidAction)
               else if int (length (eeData action)) > MaxPayloadBytes limits
               then Inl (Sentinel ErrRuleExceedsLimits)
               else Inr ())))"

definition validateCommandAction :: "Limits \<Rightarrow> CommandAction \<Rightarrow> unit result" where
  "validateCommandAction limits action =
     (if cmDestination action = [] \<or> cmName action = [] then Inl (Sentinel ErrInvalidAction)
      else if payloadSize (cmData action) > MaxPayloadBytes limits then Inl (Sentinel ErrRuleExceedsLimits)
      else Inr ())"

definition validateAction :: "Limits \<Rightarrow> Action \<Rightarrow> unit result" where
  "validateAction limits action =
     (case validateActionShape action of
        Inl err \<Rightarrow> Inl err
      | Inr _ \<Rightarrow>
         (case acEmit action of
            Some emit \<Rightarrow> validateEmitAction limits emit
          | None \<Rightarrow>
             (case acEmitEvent action of
                Some emitEvent \<Rightarrow> validateEmitEventAction limits emitEvent
              | None \<Rightarrow>
                 (case acCommand action of
                    Some command \<Rightarrow> validateCommandAction limits command
                  | None \<Rightarrow> Inl (Sentinel ErrInvalidAction)))))"

text \<open>A loop that stops at the first error.\<close>

primrec check_each :: "('a \<Rightarrow> unit result) \<Rightarrow> 'a list \<Rightarrow> unit result" where
  "check_each check [] = Inr ()"
| "check_each check (x # xs) = (case check x of Inl err \<Rightarrow> Inl err | Inr _ \<Rightarrow> check_each check xs)"

definition validateRuleActions :: "Limits \<Rightarrow> rawRule \<Rightarrow> unit result" where
  "validateRuleActions limits rule =
     (case validatePredicate limits (rrWhen rule) 0 of
        Inl err \<Rightarrow> Inl err
      | Inr _ \<Rightarrow>
         (if countPredicates (rrWhen rule) > MaxPredicates limits then Inl (Sentinel ErrRuleExceedsLimits)
          else if rrThen rule = [] \<or> int (length (rrThen rule)) > MaxActionsPerSet limits
          then Inl (Sentinel ErrRuleExceedsLimits)
          else (case check_each (validateAction limits) (rrThen rule) of
              Inl err \<Rightarrow> Inl err
            | Inr _ \<Rightarrow>
               (if int (length (rrOtherwise rule)) > MaxActionsPerSet limits
                then Inl (Sentinel ErrRuleExceedsLimits)
                else check_each (validateAction limits) (rrOtherwise rule)))))"

section \<open>Compilation\<close>

text \<open>The sets of identifiers and priorities seen so far are threaded through the rules.\<close>

definition validateRuleIdentity ::
  "rawRule \<Rightarrow> Limits \<Rightarrow> string list \<Rightarrow> int list \<Rightarrow> (string list \<times> int list) result" where
  "validateRuleIdentity rule limits seenIDs seenPriorities =
     (if rrID rule = [] then Inl (Sentinel ErrRuleIDRequired)
      else if int (length (rrID rule)) > MaxRuleIDLen limits then Inl (Sentinel ErrRuleExceedsLimits)
      else if rrID rule \<in> set seenIDs then Inl (Sentinel ErrDuplicateRuleID)
      else if rrPriority rule \<in> set seenPriorities then Inl (Sentinel ErrAmbiguousPriority)
      else Inr (rrID rule # seenIDs, rrPriority rule # seenPriorities))"

definition compiledRule :: "rawRule \<Rightarrow> CompiledRule" where
  "compiledRule rule = \<lparr>ruID = rrID rule, ruName = rrName rule, ruDescription = rrDescription rule,
     ruTags = rrTags rule, ruPriority = rrPriority rule, ruWhen = rrWhen rule, ruThen = rrThen rule,
     ruOtherwise = rrOtherwise rule\<rparr>"

definition compileRule ::
  "Limits \<Rightarrow> rawRule \<Rightarrow> string list \<Rightarrow> int list \<Rightarrow> (CompiledRule \<times> string list \<times> int list) result" where
  "compileRule limits rule seenIDs seenPriorities =
     (case validateRuleIdentity rule limits seenIDs seenPriorities of
        Inl err \<Rightarrow> Inl err
      | Inr (seenIDs', seenPriorities') \<Rightarrow>
         (case validateRuleActions limits rule of
            Inl err \<Rightarrow> Inl err
          | Inr _ \<Rightarrow> Inr (compiledRule rule, seenIDs', seenPriorities')))"

primrec compileRules_loop ::
  "Limits \<Rightarrow> rawRule list \<Rightarrow> string list \<Rightarrow> int list \<Rightarrow> CompiledRule list \<Rightarrow> CompiledRule list result" where
  "compileRules_loop limits [] seenIDs seenPriorities compiled = Inr compiled"
| "compileRules_loop limits (rule # rules) seenIDs seenPriorities compiled =
     (case compileRule limits rule seenIDs seenPriorities of
        Inl err \<Rightarrow> Inl err
      | Inr (c, seenIDs', seenPriorities') \<Rightarrow>
         compileRules_loop limits rules seenIDs' seenPriorities' (compiled @ [c]))"

text \<open>\<^verbatim>\<open>sort.Slice\<close> is not stable, but the priorities are distinct when it runs, so every sort in
  descending order gives the same list (\<open>descending_unique\<close> below).\<close>

definition sort_by_priority :: "CompiledRule list \<Rightarrow> CompiledRule list" where
  "sort_by_priority = sort_key (\<lambda>r. - ruPriority r)"

definition compileRules :: "Limits \<Rightarrow> rawRule list \<Rightarrow> CompiledRule list result" where
  "compileRules limits rawRules = map_sum id sort_by_priority (compileRules_loop limits rawRules [] [] [])"

definition Compile ::
  "(string \<Rightarrow> string) \<Rightarrow> time \<Rightarrow> Limits \<Rightarrow> string \<Rightarrow> RuleRevision result" where
  "Compile H now limits source =
     (case parseRuleSet source of
        Inl err \<Rightarrow> Inl err
      | Inr rawSet \<Rightarrow>
         (case validateRuleSet limits rawSet of
            Inl err \<Rightarrow> Inl err
          | Inr rawRules \<Rightarrow>
             (case compileRules limits rawRules of
                Inl err \<Rightarrow> Inl err
              | Inr compiled \<Rightarrow>
                 (if rsMode rawSet = MatchModeFirstMatch \<and>
                     (\<exists>r \<in> set (butlast compiled). ruOtherwise r \<noteq> [])
                  then Inl (wrap ''first_match permits otherwise only on the lowest-priority rule''
                         (Sentinel ErrInvalidAction))
                  else Inr \<lparr>rvTenantScope = [], rvRuleID = rsRuleSet rawSet, rvRevision = rsRevision rawSet,
                         rvContentHash = ComputeSourceHash H source, rvMatchMode = rsMode rawSet,
                         rvCompiled = compiled, rvSource = source, rvCompilerVersion = CompilerVersion,
                         rvInputContract = rsInputContract rawSet, rvCreatedAt = now\<rparr>))))"

section \<open>Paths against a contract\<close>

text \<open>\<^verbatim>\<open>%q\<close>, for the ASCII texts the messages quote.\<close>

definition Quote :: "string \<Rightarrow> string" where
  "Quote s = CHR ''\"'' # concat (map (\<lambda>c. if c = CHR ''\"'' \<or> c = CHR 0x5C then [CHR 0x5C, c] else [c]) s) @
     [CHR ''\"'']"

definition paths_of_children :: "unit result option list option \<Rightarrow> unit result" where
  "paths_of_children rs = check_each (case_option (Inr ()) id) (case_option [] id rs)"

primrec validatePredicatePaths :: "ContractSchema \<Rightarrow> Predicate \<Rightarrow> unit result" where
  "validatePredicatePaths schema (Predicate al an nt path op val) =
     (case paths_of_children (map_option (map (map_option (validatePredicatePaths schema))) al) of
        Inl err \<Rightarrow> Inl err
      | Inr _ \<Rightarrow>
         (case paths_of_children (map_option (map (map_option (validatePredicatePaths schema))) an) of
            Inl err \<Rightarrow> Inl err
          | Inr _ \<Rightarrow>
             (case case_option (Inr ()) id (map_option (validatePredicatePaths schema) nt) of
                Inl err \<Rightarrow> Inl err
              | Inr _ \<Rightarrow>
                 (if path \<noteq> [] \<and> map_of (csFields schema) (TrimPrefix path ''$.'') = None
                  then Inl (ErrorString (''path '' @ Quote path @ '' not found in contract '' @
                         csName schema @ ''@'' @ csVersion schema))
                  else Inr ()))))"

definition ValidatePathsAgainstContract :: "CompiledRule list \<Rightarrow> ContractSchema \<Rightarrow> unit result" where
  "ValidatePathsAgainstContract compiled schema =
     check_each (\<lambda>rule. case validatePredicatePaths schema (ruWhen rule) of
         Inl err \<Rightarrow> Inl (wrap (''rule '' @ ruID rule) err)
       | Inr u \<Rightarrow> Inr u) compiled"

section \<open>What a well-formed revision is\<close>

inductive wf_predicate :: "Limits \<Rightarrow> int \<Rightarrow> Predicate \<Rightarrow> bool" for limits where
  wf_leaf: "\<lbrakk>depth \<le> MaxNestingDepth limits; path \<noteq> []; ValidOp op\<rbrakk> \<Longrightarrow>
    wf_predicate limits depth (Predicate None None None path op val)"
| wf_all: "\<lbrakk>depth \<le> MaxNestingDepth limits; ps \<noteq> []; \<forall>p \<in> set ps. wf_predicate limits (depth + 1) p\<rbrakk> \<Longrightarrow>
    wf_predicate limits depth (Predicate (Some (map Some ps)) None None [] op val)"
| wf_any: "\<lbrakk>depth \<le> MaxNestingDepth limits; ps \<noteq> []; \<forall>p \<in> set ps. wf_predicate limits (depth + 1) p\<rbrakk> \<Longrightarrow>
    wf_predicate limits depth (Predicate None (Some (map Some ps)) None [] op val)"
| wf_not: "\<lbrakk>depth \<le> MaxNestingDepth limits; wf_predicate limits (depth + 1) p\<rbrakk> \<Longrightarrow>
    wf_predicate limits depth (Predicate None None (Some p) [] op val)"

inductive_cases wf_predicateE: "wf_predicate limits depth (Predicate al an nt path op val)"

inductive wf_action :: "Limits \<Rightarrow> Action \<Rightarrow> bool" for limits where
  wf_emit: "\<lbrakk>emTopic e \<noteq> []; payloadSize (emData e) \<le> MaxPayloadBytes limits\<rbrakk> \<Longrightarrow>
    wf_action limits \<lparr>acEmit = Some e, acEmitEvent = None, acCommand = None\<rparr>"
| wf_emit_event: "\<lbrakk>policy = (if eePartitionKeyPolicy e = [] then PartitionKeyPolicyExplicit else eePartitionKeyPolicy e);
    policy = PartitionKeyPolicyExplicit \<and> eePartitionKey e \<noteq> [] \<or> policy = PartitionKeyPolicyInherit \<or>
    policy = PartitionKeyPolicyFromData \<and> HasPrefix (eePartitionKeyPath e) ''$.'';
    eeType e \<noteq> []; \<not> ContainsAny (eeType e) ''*>''; json_Valid (eeData e);
    int (length (eeData e)) \<le> MaxPayloadBytes limits\<rbrakk> \<Longrightarrow>
    wf_action limits \<lparr>acEmit = None, acEmitEvent = Some e, acCommand = None\<rparr>"
| wf_command: "\<lbrakk>cmDestination c \<noteq> []; cmName c \<noteq> []; payloadSize (cmData c) \<le> MaxPayloadBytes limits\<rbrakk> \<Longrightarrow>
    wf_action limits \<lparr>acEmit = None, acEmitEvent = None, acCommand = Some c\<rparr>"

lemma validateChildren_Inr:
  "validateChildren cs depth = Inr () \<longleftrightarrow> (\<forall>c \<in> set cs. \<exists>v. c = Some v \<and> v (depth + 1) = Inr ())"
  by (induction cs) (auto split: option.splits sum.splits)

lemma all_Some_iff:
  "(\<forall>x \<in> set xs. \<exists>q. x = Some q \<and> P q) \<longleftrightarrow> (\<exists>qs. xs = map Some qs \<and> (\<forall>q \<in> set qs. P q))"
proof
  assume "\<forall>x \<in> set xs. \<exists>q. x = Some q \<and> P q"
  then have "xs = map Some (map the xs) \<and> (\<forall>q \<in> set (map the xs). P q)"
    by (induction xs) auto
  then show "\<exists>qs. xs = map Some qs \<and> (\<forall>q \<in> set qs. P q)" by blast
qed auto

lemma all_children_wf:
  assumes "\<And>q d. Some q \<in> set xs \<Longrightarrow> validatePredicate limits q d = Inr () \<longleftrightarrow> wf_predicate limits d q"
  shows "validateChildren (map (map_option (validatePredicate limits)) xs) depth = Inr () \<longleftrightarrow>
    (\<exists>qs. xs = map Some qs \<and> (\<forall>q \<in> set qs. wf_predicate limits (depth + 1) q))"
  unfolding validateChildren_Inr all_Some_iff [symmetric] using assms by fastforce

lemma validatePredicate_wf:
  "validatePredicate limits p depth = Inr () \<longleftrightarrow> wf_predicate limits depth p"
proof (induction p arbitrary: depth)
  case (Predicate al an nt path op val)
  have all: "validateChildren (map (map_option (validatePredicate limits)) xs) depth = Inr () \<longleftrightarrow>
    (\<exists>qs. xs = map Some qs \<and> (\<forall>q \<in> set qs. wf_predicate limits (depth + 1) q))" if "al = Some xs \<or> an = Some xs" for xs
    using Predicate.IH(1) [of xs] Predicate.IH(2) [of xs] that by (intro all_children_wf) auto
  show ?case
  proof
    assume "validatePredicate limits (Predicate al an nt path op val) depth = Inr ()"
    then show "wf_predicate limits depth (Predicate al an nt path op val)"
      using all Predicate.IH(3)
      by (auto simp: Let_def validateCompositePredicateShape_def validateCompositeChildren_def
          split: if_splits sum.splits option.splits intro: wf_predicate.intros)
  next
    assume "wf_predicate limits depth (Predicate al an nt path op val)"
    then show "validatePredicate limits (Predicate al an nt path op val) depth = Inr ()"
      using all Predicate.IH(3)
      by (auto elim!: wf_predicateE simp: Let_def validateCompositePredicateShape_def validateCompositeChildren_def)
  qed
qed


lemma validateAction_wf: "validateAction limits a = Inr () \<longleftrightarrow> wf_action limits a"
proof
  assume ok: "validateAction limits a = Inr ()"
  show "wf_action limits a"
  proof (cases a)
    case (fields em ee cm)
    have explicit: "[] \<noteq> PartitionKeyPolicyInherit" "[] \<noteq> PartitionKeyPolicyFromData"
      by (simp_all add: go_simps)
    from ok fields show ?thesis
      by (auto simp: validateAction_def validateActionShape_def validateEmitAction_def Let_def
          validateEmitEventAction_def validateCommandAction_def validatePartitionKeyPolicy_def
          validPartitionKeyPolicy_def explicit split: if_splits option.splits sum.splits
          intro!: wf_action.intros)
  qed
next
  assume "wf_action limits a"
  then show "validateAction limits a = Inr ()"
    by cases (auto simp: validateAction_def validateActionShape_def validateEmitAction_def Let_def
          validateEmitEventAction_def validateCommandAction_def validatePartitionKeyPolicy_def
          validPartitionKeyPolicy_def go_simps split: if_splits)
qed

lemma check_each_Inr: "check_each check xs = Inr () \<longleftrightarrow> (\<forall>x \<in> set xs. check x = Inr ())"
  by (induction xs) (auto split: sum.splits)

text \<open>The rules the compiler accepts, and the revision it makes of them.\<close>

definition wf_rule :: "Limits \<Rightarrow> CompiledRule \<Rightarrow> bool" where
  "wf_rule limits rule \<longleftrightarrow>
     ruID rule \<noteq> [] \<and> int (length (ruID rule)) \<le> MaxRuleIDLen limits \<and>
     wf_predicate limits 0 (ruWhen rule) \<and> ruThen rule \<noteq> [] \<and>
     (\<forall>a \<in> set (ruThen rule) \<union> set (ruOtherwise rule). wf_action limits a)"

definition wf_rules :: "Limits \<Rightarrow> CompiledRule list \<Rightarrow> bool" where
  "wf_rules limits rules \<longleftrightarrow>
     rules \<noteq> [] \<and> int (length rules) \<le> MaxRulesPerSet limits \<and>
     (\<Sum>r\<leftarrow>rules. countPredicates (ruWhen r)) \<le> MaxPredicates limits \<and>
     (\<Sum>r\<leftarrow>rules. int (length (ruThen r)) + int (length (ruOtherwise r))) \<le> MaxActionsPerSet limits \<and>
     distinct (map ruID rules) \<and> distinct (map ruPriority rules) \<and> (\<forall>r \<in> set rules. wf_rule limits r)"

definition otherwise_last :: "MatchMode \<Rightarrow> CompiledRule list \<Rightarrow> bool" where
  "otherwise_last mode rules \<longleftrightarrow>
     (mode = MatchModeFirstMatch \<longrightarrow>
       (\<forall>r \<in> set rules. \<forall>r' \<in> set rules. ruPriority r' < ruPriority r \<longrightarrow> ruOtherwise r = []))"

definition descending :: "CompiledRule list \<Rightarrow> bool" where
  "descending rules = sorted_wrt (\<lambda>a b. ruPriority a > ruPriority b) rules"

definition wf_revision :: "Limits \<Rightarrow> RuleRevision \<Rightarrow> bool" where
  "wf_revision limits revision \<longleftrightarrow>
     rvRuleID revision \<noteq> [] \<and> 0 < rvRevision revision \<and>
     rvMatchMode revision \<in> {MatchModeFirstMatch, MatchModeAllMatches} \<and>
     wf_rules limits (rvCompiled revision) \<and> descending (rvCompiled revision) \<and>
     otherwise_last (rvMatchMode revision) (rvCompiled revision)"

lemma countPredicates_nonneg: "0 \<le> countPredicates p"
proof (induction p)
  case (Predicate al an nt path op val)
  have "0 \<le> sum_present (map_option (map (map_option countPredicates)) xs)" if "xs = al \<or> xs = an" for xs
    using that Predicate.IH(1,2)
    by (auto simp: sum_present_def split: option.splits intro!: sum_list_nonneg)
  from this [of al] this [of an] show ?case
    using Predicate.IH(3) by (auto split: option.splits)
qed

lemma countRuleSetWork_sums:
  "countRuleSetWork rules =
     ((\<Sum>r\<leftarrow>rules. countPredicates (rrWhen r)),
      (\<Sum>r\<leftarrow>rules. int (length (rrThen r)) + int (length (rrOtherwise r))))"
proof -
  have "foldl (\<lambda>(predicates, actions) rule. (predicates + countPredicates (rrWhen rule),
      actions + int (length (rrThen rule)) + int (length (rrOtherwise rule)))) (m, n) rules =
    (m + (\<Sum>r\<leftarrow>rules. countPredicates (rrWhen r)),
     n + (\<Sum>r\<leftarrow>rules. int (length (rrThen r)) + int (length (rrOtherwise r))))" for m n
    by (induction rules arbitrary: m n) auto
  then show ?thesis by (simp add: countRuleSetWork_def)
qed

text \<open>The per-rule limits follow from those of the set.\<close>

lemma member_le_sum_list:
  "\<lbrakk>\<And>x. x \<in> set xs \<Longrightarrow> (0::int) \<le> f x; x \<in> set xs\<rbrakk> \<Longrightarrow> f x \<le> (\<Sum>x\<leftarrow>xs. f x)"
proof (induction xs)
  case (Cons y ys)
  then show ?case
    using sum_list_nonneg [of "map f ys"] by fastforce
qed simp

lemma validateRuleActions_wf:
  assumes "countPredicates (rrWhen rule) \<le> MaxPredicates limits"
    and "int (length (rrThen rule)) + int (length (rrOtherwise rule)) \<le> MaxActionsPerSet limits"
  shows "validateRuleActions limits rule = Inr () \<longleftrightarrow>
    wf_predicate limits 0 (rrWhen rule) \<and> rrThen rule \<noteq> [] \<and>
    (\<forall>a \<in> set (rrThen rule) \<union> set (rrOtherwise rule). wf_action limits a)"
  using assms check_each_Inr [of "validateAction limits" "rrThen rule"]
    check_each_Inr [of "validateAction limits" "rrOtherwise rule"]
  by (auto simp: validateRuleActions_def validatePredicate_wf [symmetric] validateAction_wf
      split: sum.splits)

lemma compiledRule_sel [simp]:
  "ruID (compiledRule r) = rrID r" "ruPriority (compiledRule r) = rrPriority r"
  "ruWhen (compiledRule r) = rrWhen r" "ruThen (compiledRule r) = rrThen r"
  "ruOtherwise (compiledRule r) = rrOtherwise r"
  by (simp_all add: compiledRule_def)

lemma compileRules_loop_Inr:
  assumes "\<forall>r \<in> set rules. countPredicates (rrWhen r) \<le> MaxPredicates limits \<and>
    int (length (rrThen r)) + int (length (rrOtherwise r)) \<le> MaxActionsPerSet limits"
  shows "compileRules_loop limits rules ids prios acc = Inr cs \<longleftrightarrow>
    cs = acc @ map compiledRule rules \<and> (\<forall>r \<in> set rules. wf_rule limits (compiledRule r)) \<and>
    distinct (map rrID rules) \<and> distinct (map rrPriority rules) \<and>
    set ids \<inter> rrID ` set rules = {} \<and> set prios \<inter> rrPriority ` set rules = {}"
  using assms
proof (induction rules arbitrary: ids prios acc)
  case (Cons r rules)
  have step: "compileRule limits r ids prios =
    (if rrID r = [] then Inl (Sentinel ErrRuleIDRequired)
     else if int (length (rrID r)) > MaxRuleIDLen limits then Inl (Sentinel ErrRuleExceedsLimits)
     else if rrID r \<in> set ids then Inl (Sentinel ErrDuplicateRuleID)
     else if rrPriority r \<in> set prios then Inl (Sentinel ErrAmbiguousPriority)
     else case validateRuleActions limits r of Inl err \<Rightarrow> Inl err
       | Inr _ \<Rightarrow> Inr (compiledRule r, rrID r # ids, rrPriority r # prios))"
    by (simp add: compileRule_def validateRuleIdentity_def)
  show ?case
    using Cons.prems validateRuleActions_wf [of r limits]
    by (auto simp: step Cons.IH wf_rule_def split: sum.splits)
qed auto

lemma compileRules_Inr:
  assumes "validateRuleSetBudgets limits rules = Inr ()"
  shows "compileRules limits rules = Inr cs \<longleftrightarrow>
    cs = sort_by_priority (map compiledRule rules) \<and> wf_rules limits (map compiledRule rules)"
proof -
  have budgets: "rules \<noteq> []" "int (length rules) \<le> MaxRulesPerSet limits"
    "(\<Sum>r\<leftarrow>rules. countPredicates (rrWhen r)) \<le> MaxPredicates limits"
    "(\<Sum>r\<leftarrow>rules. int (length (rrThen r)) + int (length (rrOtherwise r))) \<le> MaxActionsPerSet limits"
    using assms by (simp_all add: validateRuleSetBudgets_def countRuleSetWork_sums split: if_splits)
  have "countPredicates (rrWhen r) \<le> MaxPredicates limits"
    "int (length (rrThen r)) + int (length (rrOtherwise r)) \<le> MaxActionsPerSet limits" if "r \<in> set rules" for r
    using member_le_sum_list [of rules "\<lambda>r. countPredicates (rrWhen r)", OF _ that]
      member_le_sum_list [of rules "\<lambda>r. int (length (rrThen r)) + int (length (rrOtherwise r))", OF _ that]
      budgets countPredicates_nonneg by fastforce+
  then have loop: "compileRules_loop limits rules [] [] [] = Inr xs \<longleftrightarrow>
    xs = map compiledRule rules \<and> wf_rules limits (map compiledRule rules)" for xs
    using compileRules_loop_Inr [of rules limits "[]" "[]" "[]" xs] budgets
    by (auto simp: wf_rules_def o_def)
  show ?thesis
  proof (cases "compileRules_loop limits rules [] [] []")
    case (Inl err)
    then show ?thesis
      using loop [of "map compiledRule rules"] by (simp add: compileRules_def)
  next
    case (Inr xs)
    then show ?thesis
      using loop [of xs] by (auto simp: compileRules_def)
  qed
qed

lemma validateRuleSetBudgets_wf:
  "wf_rules limits (map compiledRule rules) \<Longrightarrow> validateRuleSetBudgets limits rules = Inr ()"
  by (simp add: wf_rules_def validateRuleSetBudgets_def countRuleSetWork_sums o_def)

lemma descending_iff:
  "descending rules \<longleftrightarrow> sorted (map (\<lambda>r. - ruPriority r) rules) \<and> distinct (map ruPriority rules)"
  unfolding descending_def by (induction rules) (auto simp: order_less_le image_iff)

lemma descending_unique:
  assumes "descending xs" and "mset xs = mset ys"
  shows "sort_by_priority ys = xs"
proof -
  let ?key = "\<lambda>r. - ruPriority r"
  have sorted: "sorted (map ?key xs)" and distinct: "distinct (map ?key xs)"
    using assms(1) by (simp_all add: descending_iff distinct_map inj_on_def)
  have "mset (map ?key (sort_by_priority ys)) = mset (map ?key xs)"
    using assms(2) by (simp add: sort_by_priority_def)
  then have "distinct (map ?key (sort_by_priority ys))"
    using distinct mset_eq_imp_distinct_iff by blast
  moreover have "set xs = set (sort_by_priority ys)"
    using mset_eq_setD [OF assms(2)] by (simp add: sort_by_priority_def)
  ultimately show ?thesis
    using sorted distinct map_sorted_distinct_set_unique [of ?key "sort_by_priority ys" xs]
    by (simp add: sort_by_priority_def distinct_map)
qed

lemma descending_sort:
  assumes "distinct (map ruPriority rules)"
  shows "descending (sort_by_priority rules)"
proof -
  have "mset (map ruPriority (sort_by_priority rules)) = mset (map ruPriority rules)"
    by (simp add: sort_by_priority_def)
  then have "distinct (map ruPriority (sort_by_priority rules))"
    using assms mset_eq_imp_distinct_iff by blast
  then show ?thesis
    by (simp add: descending_iff) (simp add: sort_by_priority_def)
qed

lemma wf_rules_mset:
  assumes "mset xs = mset ys"
  shows "wf_rules limits xs = wf_rules limits ys"
proof -
  have "(\<Sum>r\<leftarrow>xs. f r) = (\<Sum>r\<leftarrow>ys. f r)" for f :: "CompiledRule \<Rightarrow> int"
    using assms by (metis sum_mset_sum_list mset_map)
  moreover have "distinct (map ruID xs) = distinct (map ruID ys)"
    "distinct (map ruPriority xs) = distinct (map ruPriority ys)"
    using assms by (metis mset_eq_imp_distinct_iff mset_map)+
  ultimately show ?thesis
    using mset_eq_setD [OF assms] mset_eq_length [OF assms] assms
    by (auto simp: wf_rules_def)
qed

lemma otherwise_last_butlast:
  assumes "descending rules"
  shows "otherwise_last mode rules \<longleftrightarrow>
    \<not> (mode = MatchModeFirstMatch \<and> (\<exists>r \<in> set (butlast rules). ruOtherwise r \<noteq> []))"
proof -
  have "(\<exists>r \<in> set (butlast rules). P r) \<longleftrightarrow>
    (\<exists>r \<in> set rules. P r \<and> (\<exists>r' \<in> set rules. ruPriority r' < ruPriority r))" for P
    using assms unfolding descending_def
  proof (induction rules)
    case (Cons r rules)
    then have lower: "\<forall>r' \<in> set rules. ruPriority r' < ruPriority r" by simp
    show ?case
    proof (cases "rules = []")
      case False
      then have "\<exists>r' \<in> set rules. ruPriority r' < ruPriority r"
        using lower by (cases rules) auto
      then show ?thesis
        using Cons False lower by auto
    qed simp
  qed simp
  then show ?thesis by (auto simp: otherwise_last_def)
qed

text \<open>The revision made of accepted rules.\<close>

definition revision_of ::
  "(string \<Rightarrow> string) \<Rightarrow> time \<Rightarrow> string \<Rightarrow> rawRuleSet \<Rightarrow> rawRule list \<Rightarrow> RuleRevision" where
  "revision_of H now source rs rules =
     \<lparr>rvTenantScope = [], rvRuleID = rsRuleSet rs, rvRevision = rsRevision rs,
      rvContentHash = ComputeSourceHash H source, rvMatchMode = rsMode rs,
      rvCompiled = sort_by_priority (map compiledRule rules), rvSource = source,
      rvCompilerVersion = CompilerVersion, rvInputContract = rsInputContract rs, rvCreatedAt = now\<rparr>"

definition acceptable :: "Limits \<Rightarrow> rawRuleSet \<Rightarrow> rawRule list \<Rightarrow> bool" where
  "acceptable limits rs rules \<longleftrightarrow>
     rsRuleSet rs \<noteq> [] \<and> 0 < rsRevision rs \<and>
     rsMode rs \<in> {MatchModeFirstMatch, MatchModeAllMatches} \<and>
     wf_rules limits (map compiledRule rules) \<and> otherwise_last (rsMode rs) (map compiledRule rules)"

lemma otherwise_last_mset:
  "mset xs = mset ys \<Longrightarrow> otherwise_last mode xs = otherwise_last mode ys"
  unfolding otherwise_last_def by (drule mset_eq_setD) simp

lemma mset_sort_by_priority [simp]: "mset (sort_by_priority rules) = mset rules"
  by (simp add: sort_by_priority_def)

lemma wf_revision_of:
  assumes "acceptable limits rs rules"
  shows "wf_revision limits (revision_of H now source rs rules)"
  using assms wf_rules_mset [of "sort_by_priority (map compiledRule rules)" "map compiledRule rules" limits]
    otherwise_last_mset [of "sort_by_priority (map compiledRule rules)" "map compiledRule rules"]
    descending_sort [of "map compiledRule rules"]
  by (simp add: wf_revision_def acceptable_def revision_of_def wf_rules_def)

lemma Compile_Inr:
  "Compile H now limits source = Inr revision \<longleftrightarrow>
     (\<exists>rs rules. parseRuleSet source = Inr rs \<and> parseRawRules (rsRules rs) = Inr rules \<and>
        acceptable limits rs rules \<and> revision = revision_of H now source rs rules)"
proof (cases "parseRuleSet source")
  case rs: (Inr rs)
  show ?thesis
  proof (cases "validateRuleSetMetadata rs")
    case (Inl e)
    then show ?thesis
      using rs by (auto simp: Compile_def validateRuleSet_def validateRuleSetMetadata_def acceptable_def
        go_simps split: if_splits)
  next
    case meta: (Inr u)
    then have meta_ok: "rsRuleSet rs \<noteq> [] \<and> 0 < rsRevision rs \<and>
        rsMode rs \<in> {MatchModeFirstMatch, MatchModeAllMatches}"
      by (auto simp: validateRuleSetMetadata_def go_simps split: if_splits)
    show ?thesis
    proof (cases "parseRawRules (rsRules rs)")
      case (Inl e)
      then show ?thesis using rs meta by (simp add: Compile_def validateRuleSet_def)
    next
      case rules: (Inr rules)
      show ?thesis
      proof (cases "wf_rules limits (map compiledRule rules)")
        case True
        have "compileRules limits rules = Inr (sort_by_priority (map compiledRule rules))"
          using compileRules_Inr [OF validateRuleSetBudgets_wf [OF True]] True by blast
        moreover have "otherwise_last (rsMode rs) (map compiledRule rules) \<longleftrightarrow>
          \<not> (rsMode rs = MatchModeFirstMatch \<and>
             (\<exists>r \<in> set (butlast (sort_by_priority (map compiledRule rules))). ruOtherwise r \<noteq> []))"
          using True otherwise_last_butlast [OF descending_sort, of "map compiledRule rules"]
            otherwise_last_mset [OF mset_sort_by_priority]
          by (simp add: wf_rules_def)
        ultimately show ?thesis
          using rs meta meta_ok rules validateRuleSetBudgets_wf [OF True] True
          by (auto simp: Compile_def validateRuleSet_def acceptable_def revision_of_def)
      next
        case False
        have "\<nexists>cs. compileRules limits rules = Inr cs" if "validateRuleSetBudgets limits rules = Inr ()"
          using compileRules_Inr [OF that] False by blast
        then show ?thesis
          using rs meta rules False
          by (auto simp: Compile_def validateRuleSet_def acceptable_def split: sum.splits)
      qed
    qed
  qed
qed (simp add: Compile_def)


text \<open>The paths a predicate reads, in the order they are checked.\<close>

primrec predicate_paths :: "Predicate \<Rightarrow> string list" where
  "predicate_paths (Predicate al an nt path op val) =
     concat (map (case_option [] id) (case_option [] id (map_option (map (map_option predicate_paths)) al))) @
     concat (map (case_option [] id) (case_option [] id (map_option (map (map_option predicate_paths)) an))) @
     case_option [] id (map_option predicate_paths nt) @ (if path = [] then [] else [path])"

definition present :: "'a option list option \<Rightarrow> 'a set" where
  "present xs = {q. Some q \<in> set (case_option [] id xs)}"

lemma present_paths:
  "set (concat (map (case_option [] id) (case_option [] id (map_option (map (map_option f)) xs)))) =
   (\<Union>q \<in> present xs. set (f q))"
  by (cases xs) (force simp: present_def split: option.splits)+

lemma present_check:
  "paths_of_children (map_option (map (map_option f)) xs) = Inr () \<longleftrightarrow> (\<forall>q \<in> present xs. f q = Inr ())"
  by (cases xs) (force simp: present_def paths_of_children_def check_each_Inr split: option.splits)+

lemma validatePredicatePaths_Inr:
  "validatePredicatePaths schema p = Inr () \<longleftrightarrow>
     (\<forall>path \<in> set (predicate_paths p). map_of (csFields schema) (TrimPrefix path ''$.'') \<noteq> None)"
proof (induction p)
  case (Predicate al an nt path op val)
  have step: "validatePredicatePaths schema (Predicate al an nt path op val) = Inr () \<longleftrightarrow>
    (\<forall>q \<in> present al \<union> present an \<union> set_option nt. validatePredicatePaths schema q = Inr ()) \<and>
    (path = [] \<or> map_of (csFields schema) (TrimPrefix path ''$.'') \<noteq> None)"
    using present_check [of "validatePredicatePaths schema" al] present_check [of "validatePredicatePaths schema" an]
    by (auto split: sum.splits option.splits)
  have "set (predicate_paths (Predicate al an nt path op val)) =
    (\<Union>q \<in> present al \<union> present an \<union> set_option nt. set (predicate_paths q)) \<union> (if path = [] then {} else {path})"
    unfolding predicate_paths.simps set_append present_paths by (cases nt) auto
  moreover have "\<forall>q \<in> present al \<union> present an \<union> set_option nt. validatePredicatePaths schema q = Inr () \<longleftrightarrow>
    (\<forall>path \<in> set (predicate_paths q). map_of (csFields schema) (TrimPrefix path ''$.'') \<noteq> None)"
    using Predicate.IH by (auto simp: present_def split: option.splits)
  ultimately show ?case
    unfolding step by (simp add: ball_Un)
qed

section \<open>Properties\<close>

text \<open>A rule set in the source format.\<close>

definition sample_source :: string where
  \<open>sample_source = ''{"rule_set":"o","revision":1,"mode":"first_match","rules":[{"id":"a","priority":1,"when":{"path":"$.x","op":"gt","value":5},"then":[{"emit":{"topic":"t","data":{}}}]}]}''\<close>

lemma sample_compiles: "\<not> isl (Compile id 1 DefaultLimits sample_source)"
  by code_simp

text \<open>C19. What the compiler accepts is well formed: at least one rule and no more than the limits
  allow, unique rule identifiers, strictly descending priorities, predicates of the shape the
  evaluator expects and no deeper than the limit, actions of exactly one valid kind, and with
  first match no fallback except on the lowest rule.  It keeps the source and its hash.\<close>

theorem Compile_well_formed:
  assumes "Compile H now limits source = Inr revision"
  shows "wf_revision limits revision \<and> rvSource revision = source \<and> rvContentHash revision = H source"
  using assms wf_revision_of by (fastforce simp: Compile_Inr revision_of_def ComputeSourceHash_def)

theorem Compile_well_formed_witness:
  "\<exists>revision. Compile id 1 DefaultLimits sample_source = Inr revision \<and>
     wf_revision DefaultLimits revision \<and> rvSource revision = sample_source \<and>
     rvContentHash revision = id sample_source"
proof -
  obtain revision where "Compile id 1 DefaultLimits sample_source = Inr revision"
    using sample_compiles by (cases "Compile id 1 DefaultLimits sample_source") auto
  then show ?thesis
    using Compile_well_formed [of id 1 DefaultLimits sample_source revision] by blast
qed

text \<open>C8. The compiler accepts exactly the sources that decode to an acceptable rule set, and the
  revision it makes is the decoded rules in descending order of priority.\<close>

theorem Compile_accepts_exactly:
  "Compile H now limits source = Inr revision \<longleftrightarrow>
     (\<exists>rs rules. parseRuleSet source = Inr rs \<and> parseRawRules (rsRules rs) = Inr rules \<and>
        acceptable limits rs rules \<and> revision = revision_of H now source rs rules)"
  by (rule Compile_Inr)

text \<open>Validation against a contract succeeds exactly when every path of every rule names a
  field of the contract.\<close>

lemma ValidatePathsAgainstContract_iff:
  "ValidatePathsAgainstContract compiled schema = Inr () \<longleftrightarrow>
     (\<forall>rule \<in> set compiled. \<forall>path \<in> set (predicate_paths (ruWhen rule)).
        TrimPrefix path ''$.'' \<in> fst ` set (csFields schema))"
proof -
  have "(case r of Inl err \<Rightarrow> Inl (wrap m err) | Inr u \<Rightarrow> Inr u) = Inr () \<longleftrightarrow> r = Inr ()" for r m
    by (cases r) auto
  then have "ValidatePathsAgainstContract compiled schema = Inr () \<longleftrightarrow>
     (\<forall>rule \<in> set compiled. validatePredicatePaths schema (ruWhen rule) = Inr ())"
    by (simp add: ValidatePathsAgainstContract_def check_each_Inr)
  then show ?thesis
    by (simp add: validatePredicatePaths_Inr map_of_eq_None_iff)
qed

definition sample_rule :: CompiledRule where
  "sample_rule = \<lparr>ruID = ''a'', ruName = [], ruDescription = [], ruTags = [], ruPriority = 1,
     ruWhen = Predicate None None None ''$.x'' ''gt'' (IInt 5), ruThen = [], ruOtherwise = []\<rparr>"

definition sample_schema :: ContractSchema where
  "sample_schema = \<lparr>csName = ''c'', csVersion = ''1'', csNamespace = [], csDescription = [],
     csFields = [(''x'', ContractField ''number'' [] True INil [] [] None [])], csCompatibility = [],
     csOwner = [], csDeprecated = False, csCreatedAt = 0, csUpdatedAt = 0\<rparr>"

end
