(* ===== verification/RuleRepository.thy ===== *)
theory RuleRepository
  imports TableOrder Compiler "HOL-Library.Product_Lexorder" "HOL-Library.List_Lexorder" "HOL-Library.Char_ord"
begin

text \<open>
  \<^verbatim>\<open>internal/adapters/postgres/rules.go\<close>: the repositories of rule revisions, whose compiled rules
  are stored as JSON, and of rule activations, whose version is compared and swapped.

  The properties: the versions of an activation are a compare-and-swap register, so of two
  activations that expect the same version at most one succeeds.
\<close>

section \<open>The JSON of compiled rules\<close>

text \<open>What \<^verbatim>\<open>json.Marshal\<close> derives from the field tags.  A field is its name and its text, which is
  missing if it cannot be written.\<close>

type_synonym json_fields = "(string \<times> string option) list"

definition json_struct :: "json_fields \<Rightarrow> string option" where
  "json_struct fs =
     map_option (\<lambda>ts. ''{'' @ join_with '','' ts @ ''}'')
       (those (map (\<lambda>(k, v). map_option (\<lambda>t. json_string k @ '':'' @ t) v) fs))"

definition json_array :: "string option list \<Rightarrow> string option" where
  "json_array ts = map_option (\<lambda>ts. ''['' @ join_with '','' ts @ '']'') (those ts)"

definition omitempty :: "bool \<Rightarrow> string \<Rightarrow> string option \<Rightarrow> json_fields" where
  "omitempty is_empty k v = (if is_empty then [] else [(k, v)])"

definition enc_children :: "string \<Rightarrow> string option option list option \<Rightarrow> json_fields" where
  "enc_children k children =
     (case children of
        None \<Rightarrow> []
      | Some cs \<Rightarrow> omitempty (cs = []) k (json_array (map (\<lambda>c. case c of None \<Rightarrow> Some ''null'' | Some t \<Rightarrow> t) cs)))"

primrec enc_Predicate :: "Predicate \<Rightarrow> string option" where
  "enc_Predicate (Predicate al an nt path op val) =
     json_struct
       (enc_children ''all'' (map_option (map (map_option enc_Predicate)) al) @
        enc_children ''any'' (map_option (map (map_option enc_Predicate)) an) @
        (case map_option enc_Predicate nt of None \<Rightarrow> [] | Some t \<Rightarrow> [(''not'', t)]) @
        omitempty (path = []) ''path'' (Some (json_string path)) @
        omitempty (op = []) ''op'' (Some (json_string op)) @
        omitempty (val = INil) ''value'' (json_Marshal val))"

definition enc_EmitAction :: "EmitAction \<Rightarrow> string option" where
  "enc_EmitAction a = json_struct [(''topic'', Some (json_string (emTopic a))), (''data'', json_raw (emData a))]"

definition enc_EmitEventAction :: "EmitEventAction \<Rightarrow> string option" where
  "enc_EmitEventAction a =
     json_struct
       ([(''type'', Some (json_string (eeType a)))] @
        omitempty (eePartitionKey a = []) ''partition_key'' (Some (json_string (eePartitionKey a))) @
        omitempty (eePartitionKeyPolicy a = []) ''partition_key_policy'' (Some (json_string (eePartitionKeyPolicy a))) @
        omitempty (eePartitionKeyPath a = []) ''partition_key_path'' (Some (json_string (eePartitionKeyPath a))) @
        [(''data'', json_raw (eeData a))])"

definition enc_CommandAction :: "CommandAction \<Rightarrow> string option" where
  "enc_CommandAction a =
     json_struct [(''destination'', Some (json_string (cmDestination a))), (''name'', Some (json_string (cmName a))),
       (''data'', json_raw (cmData a))]"

definition enc_pointer :: "string \<Rightarrow> ('a \<Rightarrow> string option) \<Rightarrow> 'a option \<Rightarrow> json_fields" where
  "enc_pointer k enc p = (case p of None \<Rightarrow> [] | Some x \<Rightarrow> [(k, enc x)])"

definition enc_Action :: "Action \<Rightarrow> string option" where
  "enc_Action a =
     json_struct
       (enc_pointer ''emit'' enc_EmitAction (acEmit a) @
        enc_pointer ''emit_event'' enc_EmitEventAction (acEmitEvent a) @
        enc_pointer ''command'' enc_CommandAction (acCommand a))"

text \<open>The list of a slice does not tell nil from empty; both are written \<^verbatim>\<open>[]\<close>, which reads back as
  the same list.\<close>

definition enc_CompiledRule :: "CompiledRule \<Rightarrow> string option" where
  "enc_CompiledRule r =
     json_struct
       ([(''id'', Some (json_string (ruID r)))] @
        omitempty (ruName r = []) ''name'' (Some (json_string (ruName r))) @
        omitempty (ruDescription r = []) ''description'' (Some (json_string (ruDescription r))) @
        omitempty (ruTags r = []) ''tags'' (json_array (map (\<lambda>t. Some (json_string t)) (ruTags r))) @
        [(''priority'', Some (int_dec (ruPriority r))), (''when'', enc_Predicate (ruWhen r)),
         (''then'', json_array (map enc_Action (ruThen r)))] @
        omitempty (ruOtherwise r = []) ''otherwise'' (json_array (map enc_Action (ruOtherwise r))))"

definition marshal_compiled :: "CompiledRule list \<Rightarrow> string option" where
  "marshal_compiled rules = json_array (map enc_CompiledRule rules)"

definition zero_CompiledRule :: CompiledRule where
  "zero_CompiledRule = \<lparr>ruID = [], ruName = [], ruDescription = [], ruTags = [], ruPriority = 0,
     ruWhen = zero_Predicate, ruThen = [], ruOtherwise = []\<rparr>"

definition dec_CompiledRule :: "CompiledRule decoder" where
  "dec_CompiledRule = dec_struct
     [''id'', ''name'', ''description'', ''tags'', ''priority'', ''when'', ''then'', ''otherwise''] (\<lambda>f x c.
     if f = ''id'' then map_option (\<lambda>s. c\<lparr>ruID := s\<rparr>) (dec_string x (ruID c))
     else if f = ''name'' then map_option (\<lambda>s. c\<lparr>ruName := s\<rparr>) (dec_string x (ruName c))
     else if f = ''description'' then map_option (\<lambda>s. c\<lparr>ruDescription := s\<rparr>) (dec_string x (ruDescription c))
     else if f = ''tags'' then map_option (\<lambda>s. c\<lparr>ruTags := s\<rparr>) (dec_slice [] dec_string x (ruTags c))
     else if f = ''priority'' then map_option (\<lambda>n. c\<lparr>ruPriority := n\<rparr>) (dec_int x (ruPriority c))
     else if f = ''when'' then map_option (\<lambda>p. c\<lparr>ruWhen := p\<rparr>) (dec_Predicate x (ruWhen c))
     else if f = ''then'' then
       map_option (\<lambda>a. c\<lparr>ruThen := a\<rparr>) (dec_slice zero_Action dec_Action x (ruThen c))
     else map_option (\<lambda>a. c\<lparr>ruOtherwise := a\<rparr>) (dec_slice zero_Action dec_Action x (ruOtherwise c)))"

definition unmarshal_compiled :: "string \<Rightarrow> CompiledRule list option" where
  "unmarshal_compiled = json_decode (dec_slice zero_CompiledRule dec_CompiledRule) []"

section \<open>Rule revisions\<close>

definition revision_key :: "revision_row \<Rightarrow> string \<times> string \<times> int" where
  [table_simps]: "revision_key r = (rrTenantScope r, rrRuleID r, rrRevision r)"

definition revision_row_of :: "RuleRevision \<Rightarrow> string \<Rightarrow> revision_row" where
  "revision_row_of revision compiled =
     \<lparr>rrTenantScope = rvTenantScope revision, rrRuleID = rvRuleID revision, rrRevision = rvRevision revision, rrSource = rvSource revision,
      rrCompiled = compiled, rrContentHash = rvContentHash revision, rrCompilerVersion = rvCompilerVersion revision,
      rrMatchMode = rvMatchMode revision, rrCreatedAt = rvCreatedAt revision\<rparr>"

text \<open>The scanned columns and the compiled rules; the input contract is not stored.\<close>

definition revision_of_row :: "revision_row \<Rightarrow> RuleRevision result" where
  "revision_of_row r =
     (case unmarshal_compiled (rrCompiled r) of
        None \<Rightarrow> Inl (wrap ''unmarshal compiled'' json_error)
      | Some compiled \<Rightarrow>
          Inr \<lparr>rvTenantScope = rrTenantScope r, rvRuleID = rrRuleID r, rvRevision = rrRevision r,
               rvContentHash = rrContentHash r, rvMatchMode = rrMatchMode r, rvCompiled = compiled, rvSource = rrSource r,
               rvCompilerVersion = rrCompilerVersion r, rvInputContract = None, rvCreatedAt = rrCreatedAt r\<rparr>)"

definition activation_key :: "RuleActivation \<Rightarrow> string \<times> string" where
  [table_simps]: "activation_key a = (raTenantScope a, raRuleSet a)"

text \<open>The join of the activations and the revisions.\<close>

definition active_row :: "string \<Rightarrow> string \<Rightarrow> database \<Rightarrow> revision_row option" where
  "active_row tenantScope ruleSet db =
     (case select_row (\<lambda>a. activation_key a = (tenantScope, ruleSet)) (dbActivations db) of
        None \<Rightarrow> None
      | Some a \<Rightarrow> select_row (\<lambda>r. revision_key r = (tenantScope, ruleSet, raRevision a)) (dbRevisions db))"

definition scanned_revision ::
  "string \<Rightarrow> revision_row result \<times> database world \<Rightarrow> RuleRevision option result \<times> database world" where
  "scanned_revision context answer =
     (case answer of
        (Inl err, w) \<Rightarrow> if errors_Is err PgxErrNoRows then (Inr None, w) else (Inl (wrap context err), w)
      | (Inr r, w) \<Rightarrow>
          (case revision_of_row r of
             Inl err \<Rightarrow> (Inl err, w)
           | Inr revision \<Rightarrow> (Inr (Some revision), w)))"

definition Rule_GetActive :: "string \<Rightarrow> string \<Rightarrow> database world \<Rightarrow> RuleRevision option result \<times> database world" where
  "Rule_GetActive tenantScope ruleSet w =
     scanned_revision ''query active revision'' (QueryRow (reading (\<lambda>now. active_row tenantScope ruleSet)) w)"

definition Rule_Get :: "string \<Rightarrow> string \<Rightarrow> int \<Rightarrow> database world \<Rightarrow> RuleRevision option result \<times> database world" where
  "Rule_Get tenantScope ruleSet revision w =
     scanned_revision ''get revision''
       (QueryRow (reading (\<lambda>now db. select_row (\<lambda>r. revision_key r = (tenantScope, ruleSet, revision)) (dbRevisions db))) w)"

definition on_revisions ::
  "(time \<Rightarrow> revision_row table \<Rightarrow> revision_row table \<times> 'a) \<Rightarrow> time \<Rightarrow> database \<Rightarrow> (database \<times> 'a) result" where
  "on_revisions f now db = (let (t, a) = f now (dbRevisions db) in Inr (db\<lparr>dbRevisions := t\<rparr>, a))"

definition Rule_Save :: "RuleRevision \<Rightarrow> database world \<Rightarrow> unit result \<times> database world" where
  "Rule_Save revision w =
     (case marshal_compiled (rvCompiled revision) of
        None \<Rightarrow> (Inl (wrap ''marshal compiled'' marshal_error), w)
      | Some compiled \<Rightarrow>
          (case Exec (on_revisions (\<lambda>_. insert_do_nothing revision_key (revision_row_of revision compiled))) w of
             (Inl err, w') \<Rightarrow> (Inl (wrap ''save revision'' err), w')
           | (Inr n, w') \<Rightarrow> (Inr (), w')))"

primrec scan_revisions :: "revision_row list \<Rightarrow> RuleRevision list result" where
  "scan_revisions [] = Inr []"
| "scan_revisions (r # rows) =
     (case revision_of_row r of
        Inl err \<Rightarrow> Inl err
      | Inr revision \<Rightarrow> (case scan_revisions rows of Inl err \<Rightarrow> Inl err | Inr revisions \<Rightarrow> Inr (revision # revisions)))"

text \<open>The error of the iteration is not looked at.\<close>

definition Rule_List :: "string \<Rightarrow> database world \<Rightarrow> RuleRevision list result \<times> database world" where
  "Rule_List tenantScope w =
     (case Query (reading (\<lambda>now db. sort_key (\<lambda>r. (rrRuleID r, - rrRevision r))
             (select_rows (\<lambda>r. rrTenantScope r = tenantScope) (dbRevisions db)))) w of
        (Inl err, w') \<Rightarrow> (Inl (wrap ''list revisions'' err), w')
      | (Inr (rows, _), w') \<Rightarrow> (scan_revisions rows, w'))"

text \<open>The foreign key of the activations keeps an active revision from being deleted.\<close>

definition delete_revision_statement ::
  "string \<Rightarrow> string \<Rightarrow> int \<Rightarrow> time \<Rightarrow> database \<Rightarrow> (database \<times> nat) result" where
  "delete_revision_statement tenantScope ruleSet revision now db =
     (if (\<exists>a \<in> set (dbActivations db). activation_key a = (tenantScope, ruleSet) \<and> raRevision a = revision) \<and>
         (\<exists>r \<in> set (dbRevisions db). revision_key r = (tenantScope, ruleSet, revision))
      then Inl (ErrorString ''foreign key violation: rule_activations'')
      else on_revisions (\<lambda>_. delete_where (\<lambda>r. revision_key r = (tenantScope, ruleSet, revision))) now db)"

definition Rule_Delete :: "string \<Rightarrow> string \<Rightarrow> int \<Rightarrow> database world \<Rightarrow> unit result \<times> database world" where
  "Rule_Delete tenantScope ruleSet revision w =
     (case Exec (delete_revision_statement tenantScope ruleSet revision) w of
        (Inl err, w') \<Rightarrow> (Inl (wrap ''delete revision'' err), w')
      | (Inr n, w') \<Rightarrow> (Inr (), w'))"

section \<open>Rule activations\<close>

definition Activation_Get :: "string \<Rightarrow> string \<Rightarrow> database world \<Rightarrow> RuleActivation option result \<times> database world" where
  "Activation_Get tenantScope ruleSet w =
     (case QueryRow (reading (\<lambda>now db. select_row (\<lambda>a. activation_key a = (tenantScope, ruleSet)) (dbActivations db))) w of
        (Inl err, w') \<Rightarrow>
          if errors_Is err PgxErrNoRows then (Inr None, w') else (Inl (wrap ''get activation'' err), w')
      | (Inr act, w') \<Rightarrow> (Inr (Some act), w'))"

text \<open>A statement that writes an activation needs the revision it points to.\<close>

definition with_revision ::
  "RuleActivation \<Rightarrow> (RuleActivation table \<Rightarrow> RuleActivation table \<times> 'a) \<Rightarrow> database \<Rightarrow> (database \<times> 'a) result" where
  "with_revision act f db =
     (if (raTenantScope act, raRuleSet act, raRevision act) \<in> revision_key ` set (dbRevisions db)
      then (let (t, a) = f (dbActivations db) in Inr (db\<lparr>dbActivations := t\<rparr>, a))
      else Inl (ErrorString ''foreign key violation: rule_activations.revision''))"

definition Activation_Set :: "RuleActivation \<Rightarrow> database world \<Rightarrow> unit result \<times> database world" where
  "Activation_Set act w =
     (case Exec (\<lambda>now. with_revision act (insert_do_update activation_key act (\<lambda>a. True)
             (\<lambda>a. a\<lparr>raRevision := raRevision act, raVersion := raVersion a + 1, raActor := raActor act,
                raActivatedAt := raActivatedAt act\<rparr>))) w of
        (Inl err, w') \<Rightarrow> (Inl (wrap ''set activation'' err), w')
      | (Inr n, w') \<Rightarrow> (Inr (), w'))"

text \<open>The upsert of \<^verbatim>\<open>SetWithVersion\<close> and the version it returns: a conflicting row of another version is
  left alone and returns nothing.\<close>

definition swapped :: "RuleActivation \<Rightarrow> int \<Rightarrow> RuleActivation \<Rightarrow> RuleActivation" where
  "swapped act expectedVersion a =
     a\<lparr>raRevision := if raVersion a = expectedVersion then raRevision act else raRevision a,
       raVersion := if raVersion a = expectedVersion then raVersion a + 1 else raVersion a,
       raActor := if raVersion a = expectedVersion then raActor act else raActor a,
       raActivatedAt := if raVersion a = expectedVersion then raActivatedAt act else raActivatedAt a\<rparr>"

definition set_with_version_statement ::
  "RuleActivation \<Rightarrow> int \<Rightarrow> time \<Rightarrow> database \<Rightarrow> (database \<times> int option) result" where
  "set_with_version_statement act expectedVersion now db =
     (case select_row (\<lambda>a. activation_key a = activation_key act) (dbActivations db) of
        Some a \<Rightarrow>
          if raVersion a \<noteq> expectedVersion then Inr (db, None)
          else with_revision act (\<lambda>t. (fst (insert_do_update activation_key act (\<lambda>a. raVersion a = expectedVersion)
                 (swapped act expectedVersion) t), Some (raVersion a + 1))) db
      | None \<Rightarrow>
          with_revision act (\<lambda>t. (fst (insert_do_update activation_key act (\<lambda>a. raVersion a = expectedVersion)
                 (swapped act expectedVersion) t), Some (raVersion act))) db)"

definition Activation_SetWithVersion :: "RuleActivation \<Rightarrow> int \<Rightarrow> database world \<Rightarrow> unit result \<times> database world" where
  "Activation_SetWithVersion act expectedVersion w =
     (case QueryRow (set_with_version_statement act expectedVersion) w of
        (Inl err, w') \<Rightarrow> (Inl (wrap ''set activation with version'' err), w')
      | (Inr version, w') \<Rightarrow>
          if version \<noteq> expectedVersion + 1 then (Inl (Sentinel ErrActivationConflict), w') else (Inr (), w'))"

definition Activation_List :: "string \<Rightarrow> database world \<Rightarrow> RuleActivation list result \<times> database world" where
  "Activation_List tenantScope w =
     (case Query (reading (\<lambda>now db. sort_key raRuleSet
             (select_rows (\<lambda>a. raTenantScope a = tenantScope) (dbActivations db)))) w of
        (Inl err, w') \<Rightarrow> (Inl (wrap ''list activations'' err), w')
      | (Inr (rows, _), w') \<Rightarrow> (Inr rows, w'))"

definition Activation_Delete :: "string \<Rightarrow> string \<Rightarrow> database world \<Rightarrow> unit result \<times> database world" where
  "Activation_Delete tenantScope ruleSet w =
     (case Exec (\<lambda>now db. let (t, n) = delete_where (\<lambda>a. activation_key a = (tenantScope, ruleSet)) (dbActivations db)
                          in Inr (db\<lparr>dbActivations := t\<rparr>, n)) w of
        (Inl err, w') \<Rightarrow> (Inl (wrap ''delete activation'' err), w')
      | (Inr n, w') \<Rightarrow> (Inr (), w'))"

interpretation revision_pk: primary_key revision_key .

section \<open>Versions\<close>

text \<open>An activation only moves to a larger version, unless it stays as it is.\<close>

definition activation_grows :: "RuleActivation \<Rightarrow> RuleActivation \<Rightarrow> bool" where
  "activation_grows a a' = (activation_key a' = activation_key a \<and> (raVersion a < raVersion a' \<or> a' = a))"

abbreviation activation_order :: "database \<Rightarrow> database \<Rightarrow> bool" where
  "activation_order \<equiv> table_order dbActivations activation_key activation_grows"

interpretation activations: growing_rows activation_key dbActivations activation_grows
  by unfold_locales (auto simp: activation_grows_def)

text \<open>The calls that write revisions and activations.\<close>

datatype rule_call =
    CallRuleSave RuleRevision
  | CallRuleDelete string string int
  | CallSet RuleActivation
  | CallSetWithVersion RuleActivation int
  | CallActivationDelete string string

primrec perform_rule :: "rule_call \<Rightarrow> database world \<Rightarrow> database world" where
  "perform_rule (CallRuleSave revision) w = snd (Rule_Save revision w)"
| "perform_rule (CallRuleDelete tenantScope ruleSet revision) w = snd (Rule_Delete tenantScope ruleSet revision w)"
| "perform_rule (CallSet act) w = snd (Activation_Set act w)"
| "perform_rule (CallSetWithVersion act expectedVersion) w = snd (Activation_SetWithVersion act expectedVersion w)"
| "perform_rule (CallActivationDelete tenantScope ruleSet) w = snd (Activation_Delete tenantScope ruleSet w)"

text \<open>One activation lives on, whatever becomes of the others; after its removal its versions would start again.\<close>

definition activation_kept :: "string \<times> string \<Rightarrow> database \<Rightarrow> database \<Rightarrow> bool" where
  "activation_kept k db db' =
     (distinct (map activation_key (dbActivations db)) \<longrightarrow> distinct (map activation_key (dbActivations db')) \<and>
      (\<forall>a \<in> set (dbActivations db). activation_key a = k \<longrightarrow> (\<exists>a' \<in> set (dbActivations db'). activation_grows a a')))"

interpretation kept: interference "activation_kept k" for k
proof
  show "activation_kept k db db" for db
    unfolding activation_kept_def using activations.grows_refl by blast
  show "activation_kept k db db''" if "activation_kept k db db'" "activation_kept k db' db''" for db db' db''
    using that activations.grows_trans activations.grows_key unfolding activation_kept_def by metis
qed

lemma order_kept: "activation_order db db' \<Longrightarrow> activation_kept k db db'"
  unfolding activation_kept_def table_order_def rows_live_on_def by blast

lemma guarantees_kept: "guarantees activation_order f \<Longrightarrow> guarantees (activation_kept k) f"
  unfolding guarantees_def using order_kept by blast

lemma on_revisions_activations: "on_revisions f now db = Inr (db', a) \<Longrightarrow> dbActivations db' = dbActivations db"
  by (auto simp: on_revisions_def Let_def split: prod.splits)

lemma same_activations_guarantees:
  "(\<And>now db db' a. f now db = Inr (db', a) \<Longrightarrow> dbActivations db' = dbActivations db) \<Longrightarrow> guarantees activation_order f"
  by (auto simp: guarantees_def table_order_def activations.live_refl)

lemma with_revision_order:
  "with_revision act f db = Inr (db', a) \<Longrightarrow>
    rows_live_on activation_key activation_grows (dbActivations db) (fst (f (dbActivations db))) \<Longrightarrow> activation_order db db'"
  by (auto simp: with_revision_def table_order_def Let_def split: if_splits prod.splits)

lemma swap_live:
  "rows_live_on activation_key activation_grows t
     (fst (insert_do_update activation_key act (\<lambda>a. raVersion a = v) (swapped act v) t))"
  by (rule activations.live_insert_do_update) (simp add: activation_grows_def swapped_def activation_key_def)

lemma set_with_version_guarantees: "guarantees activation_order (set_with_version_statement act v)"
  by (auto simp: guarantees_def set_with_version_statement_def activations.R_refl split: option.splits if_splits
      dest!: with_revision_order simp: swap_live)

lemma Rule_Save_within: "within (activation_kept k) w (snd (Rule_Save revision w))"
  by (auto simp: Rule_Save_def kept.within_refl split: option.splits prod.splits sum.splits
      intro!: kept.withinI(1) guarantees_kept same_activations_guarantees dest: on_revisions_activations)

lemma Rule_Delete_within: "within (activation_kept k) w (snd (Rule_Delete tenantScope ruleSet revision w))"
proof -
  have "guarantees activation_order (delete_revision_statement tenantScope ruleSet revision)"
    by (rule same_activations_guarantees) (auto simp: delete_revision_statement_def split: if_splits dest: on_revisions_activations)
  then show ?thesis
    by (auto simp: Rule_Delete_def split: prod.splits sum.splits intro: kept.withinI(1) [OF _ guarantees_kept])
qed

lemma Activation_Set_within: "within (activation_kept k) w (snd (Activation_Set act w))"
proof -
  let ?f = "\<lambda>a. a\<lparr>raRevision := raRevision act, raVersion := raVersion a + 1, raActor := raActor act, raActivatedAt := raActivatedAt act\<rparr>"
  have "rows_live_on activation_key activation_grows t (fst (insert_do_update activation_key act (\<lambda>a. True) ?f t))" for t
    by (rule activations.live_insert_do_update) (simp add: activation_grows_def activation_key_def)
  then have "guarantees activation_order (\<lambda>now. with_revision act (insert_do_update activation_key act (\<lambda>a. True) ?f))"
    by (auto simp: guarantees_def dest: with_revision_order)
  then show ?thesis
    by (auto simp: Activation_Set_def split: prod.splits sum.splits intro: kept.withinI(1) [OF _ guarantees_kept])
qed

lemma Activation_SetWithVersion_within: "within (activation_kept k) w (snd (Activation_SetWithVersion act v w))"
  by (auto simp: Activation_SetWithVersion_def split: prod.splits sum.splits
      intro: kept.withinI(2) [OF _ guarantees_kept [OF set_with_version_guarantees]])

lemma Activation_Delete_within:
  assumes "(tenantScope, ruleSet) \<noteq> k"
  shows "within (activation_kept k) w (snd (Activation_Delete tenantScope ruleSet w))"
proof -
  have "activation_kept k db (db\<lparr>dbActivations := fst (delete_where (\<lambda>a. activation_key a = (tenantScope, ruleSet)) (dbActivations db))\<rparr>)" for db
    using assms activations.grows_refl by (auto simp: activation_kept_def delete_where_def distinct_map_filter)
  then have "guarantees (activation_kept k) (\<lambda>now db. let (t, n) = delete_where (\<lambda>a. activation_key a = (tenantScope, ruleSet)) (dbActivations db)
      in Inr (db\<lparr>dbActivations := t\<rparr>, n))"
    by (auto simp: guarantees_def split: prod.splits) (metis fst_conv)
  then show ?thesis
    by (auto simp: Activation_Delete_def split: prod.splits sum.splits intro: kept.withinI(1))
qed

lemma perform_rule_within: "c \<noteq> CallActivationDelete (fst k) (snd k) \<Longrightarrow> within (activation_kept k) w (perform_rule c w)"
  by (cases c; cases k)
    (auto simp: Rule_Save_within Rule_Delete_within Activation_Set_within Activation_SetWithVersion_within intro!: Activation_Delete_within)

lemma performs_rule_within:
  "CallActivationDelete (fst k) (snd k) \<notin> set calls \<Longrightarrow> within (activation_kept k) w (fold perform_rule calls w)"
proof (induction calls arbitrary: w)
  case (Cons c calls)
  then have "c \<noteq> CallActivationDelete (fst k) (snd k)" "within (activation_kept k) (perform_rule c w) (fold perform_rule calls (perform_rule c w))"
    by auto
  then show ?case
    using kept.within_trans [OF perform_rule_within] by simp
qed (simp add: kept.within_refl)

lemma insert_do_update_row:
  assumes "distinct (map activation_key t)" "a \<in> set t" "activation_key a = activation_key act" "raVersion a = v"
  shows "swapped act v a \<in> set (fst (insert_do_update activation_key act (\<lambda>a. raVersion a = v) (swapped act v) t))"
  using assms imageI [OF assms(2), of activation_key] by (auto simp: insert_do_update_def)

text \<open>What a successful swap leaves behind.\<close>

lemma SetWithVersion_Inr:
  assumes "Activation_SetWithVersion act v w = (Inr (), w')" "distinct (map activation_key (dbActivations (now_db w)))"
  shows "\<exists>a \<in> set (dbActivations (woDb w')). activation_key a = activation_key act \<and> raVersion a = v + 1 \<and>
    raRevision a = raRevision act"
proof -
  obtain db' where db': "set_with_version_statement act v (moNow (shd (woFuture w))) (now_db w) = Inr (db', Some (v + 1))"
    "woDb w' = db'"
    using assms(1)
    by (auto simp: Activation_SetWithVersion_def split: prod.splits sum.splits if_splits dest!: QueryRow_Inr)
  show ?thesis
  proof (cases "select_row (\<lambda>a. activation_key a = activation_key act) (dbActivations (now_db w))")
    case None
    then have "activation_key act \<notin> activation_key ` set (dbActivations (now_db w))"
      by (simp add: activations.select_key_None)
    then have "dbActivations db' = dbActivations (now_db w) @ [act]" "raVersion act = v + 1"
      using db'(1) None by (auto simp: set_with_version_statement_def with_revision_def insert_do_update_def split: if_splits)
    then show ?thesis
      using db'(2) by simp
  next
    case (Some a)
    then have a: "a \<in> set (dbActivations (now_db w))" "activation_key a = activation_key act"
      by (auto simp: select_row_def dest: find_SomeD)
    have "raVersion a = v" "dbActivations db' =
        fst (insert_do_update activation_key act (\<lambda>a. raVersion a = v) (swapped act v) (dbActivations (now_db w)))"
      using db'(1) Some by (auto simp: set_with_version_statement_def with_revision_def split: if_splits)
    then have "swapped act v a \<in> set (dbActivations (woDb w'))" "raVersion a = v"
      using insert_do_update_row [OF assms(2) a] db'(2) by simp_all
    then show ?thesis
      using a(2) by (intro bexI [of _ "swapped act v a"]) (simp_all add: swapped_def activation_key_def)
  qed
qed

text \<open>A swap of a version that is gone does not succeed.\<close>

lemma SetWithVersion_stale:
  assumes "a \<in> set (dbActivations (now_db w))" "activation_key a = activation_key act" "v < raVersion a"
    "distinct (map activation_key (dbActivations (now_db w)))"
  shows "fst (Activation_SetWithVersion act v w) \<noteq> Inr ()"
proof
  assume "fst (Activation_SetWithVersion act v w) = Inr ()"
  then obtain db' n where "set_with_version_statement act v (moNow (shd (woFuture w))) (now_db w) = Inr (db', Some n)"
    by (auto simp: Activation_SetWithVersion_def split: prod.splits sum.splits if_splits dest!: QueryRow_Inr)
  moreover have "select_row (\<lambda>a. activation_key a = activation_key act) (dbActivations (now_db w)) = Some a"
    using assms(1,2,4) by (simp add: activations.select_key)
  ultimately show False
    using assms(3) by (simp add: set_with_version_statement_def)
qed

text \<open>C26. Activations are compared and swapped.  Once an activation has replaced a version, no later one of the same rule set that expects the same
  version succeeds, whatever calls on revisions and activations come in between, amid failing calls and other traffic, as long as nobody removes
  that activation.\<close>

theorem activation_swap_once:
  assumes "distinct (map activation_key (dbActivations (woDb w)))" and "rely (activation_kept (activation_key act)) w"
    and "Activation_SetWithVersion act v w = (Inr (), w1)"
    and "fold perform_rule calls w1 = w2" and "CallActivationDelete (raTenantScope act) (raRuleSet act) \<notin> set calls"
    and "activation_key act' = activation_key act"
  shows "fst (Activation_SetWithVersion act' v w2) \<noteq> Inr ()"
proof -
  let ?R = "activation_kept (activation_key act)"
  have now: "?R (woDb w) (now_db w)"
    using assms(2) by (rule kept.rely_others)
  have w1: "?R (woDb w) (woDb w1)" "rely ?R w1"
    using Activation_SetWithVersion_within [of _ w act v] assms(2,3) by (simp_all add: within_def)
  have d: "distinct (map activation_key (dbActivations (now_db w)))" "distinct (map activation_key (dbActivations (woDb w1)))"
    using now w1(1) assms(1) by (simp_all add: activation_kept_def)
  obtain a where a: "a \<in> set (dbActivations (woDb w1))" "activation_key a = activation_key act" "raVersion a = v + 1"
    using SetWithVersion_Inr [OF assms(3) d(1)] by blast
  have "CallActivationDelete (fst (activation_key act)) (snd (activation_key act)) \<notin> set calls"
    using assms(5) by (simp add: activation_key_def)
  then have w2: "?R (woDb w1) (now_db w2)"
    using performs_rule_within [of "activation_key act" calls w1] w1(2) assms(4) kept.rely_others [of _ w2] kept.R_trans
    unfolding within_def by blast
  then obtain a' where a': "a' \<in> set (dbActivations (now_db w2))" "activation_grows a a'"
    "distinct (map activation_key (dbActivations (now_db w2)))"
    using a(1,2) d(2) by (auto simp: activation_kept_def)
  show ?thesis
    by (rule SetWithVersion_stale [OF a'(1) _ _ a'(3)]) (use a a'(2) assms(6) in \<open>auto simp: activation_grows_def\<close>)
qed

text \<open>A first activation of a stored revision, and a second one that comes too late.\<close>

definition stored_revision :: database where
  "stored_revision = empty_database\<lparr>dbRevisions := [\<lparr>rrTenantScope = ''t'', rrRuleID = ''r'', rrRevision = 1, rrSource = ''{}'',
     rrCompiled = ''[]'', rrContentHash = ''h'', rrCompilerVersion = CompilerVersion, rrMatchMode = MatchModeFirstMatch,
     rrCreatedAt = 0\<rparr>]\<rparr>"

definition first_activation :: RuleActivation where
  "first_activation = \<lparr>raTenantScope = ''t'', raRuleSet = ''r'', raRevision = 1, raVersion = 1, raActor = ''ann'', raActivatedAt = 5\<rparr>"

theorem activation_swap_once_witness:
  "fst (Activation_SetWithVersion first_activation 0 (calm 5 stored_revision)) = Inr () \<and>
   fst (Activation_SetWithVersion first_activation 0 (perform_rule (CallActivationDelete ''t'' ''other'')
      (snd (Activation_SetWithVersion first_activation 0 (calm 5 stored_revision))))) \<noteq> Inr ()"
proof
  let ?r = "Activation_SetWithVersion first_activation 0 (calm 5 stored_revision)"
  show first: "fst ?r = Inr ()"
    by (simp add: Activation_SetWithVersion_def calm_simps set_with_version_statement_def with_revision_def sql_defs
        stored_revision_def first_activation_def empty_database_def revision_key_def)
  have ok: "distinct (map activation_key (dbActivations (woDb (calm 5 stored_revision))))" "rely (activation_kept (activation_key first_activation)) (calm 5 stored_revision)"
    by (simp_all add: stored_revision_def empty_database_def rely_calm kept.R_refl)
  have "?r = (Inr (), snd ?r)"
    using first by (metis prod.collapse)
  then show "fst (Activation_SetWithVersion first_activation 0 (perform_rule (CallActivationDelete ''t'' ''other'') (snd ?r))) \<noteq> Inr ()"
    by (rule activation_swap_once [OF ok, where calls = "[CallActivationDelete ''t'' ''other'']"]) (simp_all add: first_activation_def)
qed

end
