(* ===== verification/DomainServiceRepository.thy ===== *)
theory DomainServiceRepository
  imports TableOrder Compiler
begin

text \<open>
  \<^verbatim>\<open>internal/adapters/postgres/domain_services.go\<close>: the tenants' domains, the services that subscribe to
  them, and the services an event is delivered to.  The keys of the tables are those of migration
  018: names are unique within a tenant, and a subscription needs its service and its domain and
  is removed with them.
\<close>

section \<open>Statements\<close>

definition domain_key :: "TenantDomain \<Rightarrow> string \<times> string" where
  [table_simps]: "domain_key d = (tdTenantID d, tdID d)"

definition service_key :: "service_row \<Rightarrow> string \<times> string" where
  [table_simps]: "service_key s = (svTenantID s, svServiceID s)"

definition subscription_key :: "subscription_row \<Rightarrow> string \<times> string \<times> string" where
  [table_simps]: "subscription_key u = (suTenantID u, suServiceID u, suDomainID u)"

definition save_domain_statement :: "TenantDomain \<Rightarrow> time \<Rightarrow> database \<Rightarrow> (database \<times> nat) result" where
  "save_domain_statement item now db =
     (if \<exists>d \<in> set (dbDomains db). tdTenantID d = tdTenantID item \<and> tdName d = tdName item \<and> tdID d \<noteq> tdID item
      then Inl (Sentinel PgUniqueViolation)
      else let (t, n) = insert_do_update domain_key item (\<lambda>d. True)
                  (\<lambda>d. d\<lparr>tdName := tdName item, tdEventTypes := tdEventTypes item, tdUpdatedAt := tdUpdatedAt item\<rparr>) (dbDomains db)
           in Inr (db\<lparr>dbDomains := t\<rparr>, n))"

definition delete_domain_statement :: "string \<Rightarrow> string \<Rightarrow> time \<Rightarrow> database \<Rightarrow> (database \<times> nat) result" where
  "delete_domain_statement tenantID domainID now db =
     (let (t, n) = delete_where (\<lambda>d. domain_key d = (tenantID, domainID)) (dbDomains db);
          (subs, _) = delete_where (\<lambda>u. suTenantID u = tenantID \<and> suDomainID u = domainID) (dbSubscriptions db)
      in Inr (db\<lparr>dbDomains := t, dbSubscriptions := subs\<rparr>, n))"

definition service_row_of :: "DomainService \<Rightarrow> service_row" where
  "service_row_of item =
     \<lparr>svTenantID = dsTenantID item, svServiceID = dsID item, svName = dsName item, svEndpointURL = dsEndpointURL item,
      svActive = dsActive item, svCreatedAt = dsCreatedAt item, svUpdatedAt = dsUpdatedAt item\<rparr>"

definition service_of_row :: "service_row \<Rightarrow> string list \<Rightarrow> DomainService" where
  "service_of_row s domainIDs =
     \<lparr>dsID = svServiceID s, dsTenantID = svTenantID s, dsName = svName s, dsEndpointURL = svEndpointURL s,
      dsDomainIDs = domainIDs, dsActive = svActive s, dsCreatedAt = svCreatedAt s, dsUpdatedAt = svUpdatedAt s\<rparr>"

definition save_service_statement :: "DomainService \<Rightarrow> time \<Rightarrow> database \<Rightarrow> (database \<times> nat) result" where
  "save_service_statement item now db =
     (if \<exists>s \<in> set (dbServices db). svTenantID s = dsTenantID item \<and> svName s = dsName item \<and> svServiceID s \<noteq> dsID item
      then Inl (Sentinel PgUniqueViolation)
      else let (t, n) = insert_do_update service_key (service_row_of item) (\<lambda>s. True)
                  (\<lambda>s. s\<lparr>svName := dsName item, svEndpointURL := dsEndpointURL item, svActive := dsActive item,
                        svUpdatedAt := dsUpdatedAt item\<rparr>) (dbServices db)
           in Inr (db\<lparr>dbServices := t\<rparr>, n))"

definition clear_subscriptions_statement :: "string \<Rightarrow> string \<Rightarrow> time \<Rightarrow> database \<Rightarrow> (database \<times> nat) result" where
  "clear_subscriptions_statement tenantID serviceID now db =
     (let (t, n) = delete_where (\<lambda>u. suTenantID u = tenantID \<and> suServiceID u = serviceID) (dbSubscriptions db)
      in Inr (db\<lparr>dbSubscriptions := t\<rparr>, n))"

definition subscribe_statement :: "string \<Rightarrow> string \<Rightarrow> string \<Rightarrow> time \<Rightarrow> database \<Rightarrow> (database \<times> nat) result" where
  "subscribe_statement tenantID serviceID domainID now db =
     (let u = \<lparr>suTenantID = tenantID, suServiceID = serviceID, suDomainID = domainID\<rparr>
      in if subscription_key u \<in> subscription_key ` set (dbSubscriptions db) then Inl (Sentinel PgUniqueViolation)
         else if (tenantID, serviceID) \<notin> service_key ` set (dbServices db) \<or>
                 (tenantID, domainID) \<notin> domain_key ` set (dbDomains db)
         then Inl (ErrorString ''foreign key violation: tenant_domain_subscriptions'')
         else Inr (db\<lparr>dbSubscriptions := dbSubscriptions db @ [u]\<rparr>, 1))"

section \<open>Domains\<close>

definition isUniqueViolation :: "gerr \<Rightarrow> bool" where
  "isUniqueViolation err = errors_Is err PgUniqueViolation"

definition SaveDomain :: "TenantDomain \<Rightarrow> database world \<Rightarrow> unit result \<times> database world" where
  "SaveDomain item w =
     (case Exec (save_domain_statement item) w of
        (Inl err, w') \<Rightarrow>
          if isUniqueViolation err
          then (Inl (Errorf [([], Sentinel ErrDomainServiceConflict)] '': tenant domain name already exists''), w')
          else (Inl (wrap ''save tenant domain'' err), w')
      | (Inr n, w') \<Rightarrow> (Inr (), w'))"

definition GetDomain :: "string \<Rightarrow> string \<Rightarrow> database world \<Rightarrow> TenantDomain option result \<times> database world" where
  "GetDomain tenantID domainID w =
     (case QueryRow (reading (\<lambda>now db. select_row (\<lambda>d. domain_key d = (tenantID, domainID)) (dbDomains db))) w of
        (Inl err, w') \<Rightarrow>
          if errors_Is err PgxErrNoRows then (Inr None, w') else (Inl (wrap ''get tenant domain'' err), w')
      | (Inr d, w') \<Rightarrow> (Inr (Some d), w'))"

definition ListDomains :: "string \<Rightarrow> database world \<Rightarrow> TenantDomain list result \<times> database world" where
  "ListDomains tenantID w =
     (case Query (reading (\<lambda>now db. sort_key tdName (select_rows (\<lambda>d. tdTenantID d = tenantID) (dbDomains db)))) w of
        (Inl err, w') \<Rightarrow> (Inl (wrap ''list tenant domains'' err), w')
      | (Inr (rows, Some err), w') \<Rightarrow> (Inl (wrap ''iterate tenant domains'' err), w')
      | (Inr (rows, None), w') \<Rightarrow> (Inr rows, w'))"

definition DeleteDomain :: "string \<Rightarrow> string \<Rightarrow> database world \<Rightarrow> unit result \<times> database world" where
  "DeleteDomain tenantID domainID w =
     (case Exec (delete_domain_statement tenantID domainID) w of
        (Inl err, w') \<Rightarrow> (Inl (wrap ''delete tenant domain'' err), w')
      | (Inr n, w') \<Rightarrow> (Inr (), w'))"

section \<open>Services\<close>

primrec saveSubscriptions :: "string \<Rightarrow> string \<Rightarrow> string list \<Rightarrow> database world \<Rightarrow> unit result \<times> database world" where
  "saveSubscriptions tenantID serviceID [] w = (Inr (), w)"
| "saveSubscriptions tenantID serviceID (domainID # domainIDs) w =
     (case Exec (subscribe_statement tenantID serviceID domainID) w of
        (Inl err, w') \<Rightarrow> (Inl (wrap (''save tenant service subscription '' @ Quote domainID) err), w')
      | (Inr n, w') \<Rightarrow> saveSubscriptions tenantID serviceID domainIDs w')"

definition saveService :: "DomainService \<Rightarrow> database world \<Rightarrow> unit result \<times> database world" where
  "saveService item w =
     (case Exec (save_service_statement item) w of
        (Inl err, w') \<Rightarrow>
          if isUniqueViolation err
          then (Inl (Errorf [([], Sentinel ErrDomainServiceConflict)] '': tenant service name already exists''), w')
          else (Inl (wrap ''save tenant service'' err), w')
      | (Inr n, w1) \<Rightarrow>
          (case Exec (clear_subscriptions_statement (dsTenantID item) (dsID item)) w1 of
             (Inl err, w') \<Rightarrow> (Inl (wrap ''replace tenant service subscriptions'' err), w')
           | (Inr n, w2) \<Rightarrow> saveSubscriptions (dsTenantID item) (dsID item) (dsDomainIDs item) w2))"

text \<open>\<^verbatim>\<open>SaveService\<close> on a pool, as the processes use it: the statements of \<^verbatim>\<open>saveService\<close> in one
  transaction.\<close>

definition SaveService :: "DomainService \<Rightarrow> database world \<Rightarrow> unit result \<times> database world" where
  "SaveService item w =
     (case transaction (\<lambda>tw. case saveService item tw of
              (Inl err, tw') \<Rightarrow> (Discard (Inl err), tw')
            | (Inr _, tw') \<Rightarrow> (Keep (Inr ()), tw')) w of
        (BeginFailed err, w') \<Rightarrow> (Inl (wrap ''begin save tenant service'' err), w')
      | (CommitFailed err, w') \<Rightarrow> (Inl (wrap ''commit tenant service'' err), w')
      | (Finished r, w') \<Rightarrow> (r, w'))"

definition listServiceDomains :: "string \<Rightarrow> string \<Rightarrow> database world \<Rightarrow> string list result \<times> database world" where
  "listServiceDomains tenantID serviceID w =
     (case Query (reading (\<lambda>now db. sort (map suDomainID
             (select_rows (\<lambda>u. suTenantID u = tenantID \<and> suServiceID u = serviceID) (dbSubscriptions db))))) w of
        (Inl err, w') \<Rightarrow> (Inl (wrap ''list service domain subscriptions'' err), w')
      | (Inr (rows, Some err), w') \<Rightarrow> (Inl (wrap ''iterate service domain subscriptions'' err), w')
      | (Inr (rows, None), w') \<Rightarrow> (Inr rows, w'))"

definition GetService :: "string \<Rightarrow> string \<Rightarrow> database world \<Rightarrow> DomainService option result \<times> database world" where
  "GetService tenantID serviceID w =
     (case QueryRow (reading (\<lambda>now db. select_row (\<lambda>s. service_key s = (tenantID, serviceID)) (dbServices db))) w of
        (Inl err, w') \<Rightarrow>
          if errors_Is err PgxErrNoRows then (Inr None, w') else (Inl (wrap ''get tenant service'' err), w')
      | (Inr s, w1) \<Rightarrow>
          (case listServiceDomains tenantID serviceID w1 of
             (Inl err, w') \<Rightarrow> (Inl err, w')
           | (Inr domainIDs, w') \<Rightarrow> (Inr (Some (service_of_row s domainIDs)), w')))"

primrec withDomains :: "string \<Rightarrow> service_row list \<Rightarrow> database world \<Rightarrow> DomainService list result \<times> database world" where
  "withDomains tenantID [] w = (Inr [], w)"
| "withDomains tenantID (s # rows) w =
     (case listServiceDomains tenantID (svServiceID s) w of
        (Inl err, w') \<Rightarrow> (Inl err, w')
      | (Inr domainIDs, w1) \<Rightarrow>
          (case withDomains tenantID rows w1 of
             (Inl err, w') \<Rightarrow> (Inl err, w')
           | (Inr items, w') \<Rightarrow> (Inr (service_of_row s domainIDs # items), w')))"

definition ListServices :: "string \<Rightarrow> database world \<Rightarrow> DomainService list result \<times> database world" where
  "ListServices tenantID w =
     (case Query (reading (\<lambda>now db. sort_key svName (select_rows (\<lambda>s. svTenantID s = tenantID) (dbServices db)))) w of
        (Inl err, w') \<Rightarrow> (Inl (wrap ''list tenant services'' err), w')
      | (Inr (rows, Some err), w') \<Rightarrow> (Inl (wrap ''iterate tenant services'' err), w')
      | (Inr (rows, None), w') \<Rightarrow> withDomains tenantID rows w')"

text \<open>Deleting a service only deactivates it.\<close>

definition DeleteService :: "time \<Rightarrow> string \<Rightarrow> string \<Rightarrow> database world \<Rightarrow> unit result \<times> database world" where
  "DeleteService now tenantID serviceID w =
     (case Exec (\<lambda>_ db. let (t, n) = update_where (\<lambda>s. service_key s = (tenantID, serviceID))
                    (\<lambda>s. s\<lparr>svActive := False, svUpdatedAt := now\<rparr>) (dbServices db)
                 in Inr (db\<lparr>dbServices := t\<rparr>, n)) w of
        (Inl err, w') \<Rightarrow> (Inl (wrap ''deactivate tenant service'' err), w')
      | (Inr n, w') \<Rightarrow> (Inr (), w'))"

section \<open>Subscribers\<close>

text \<open>A service subscribes to an event if one of its subscriptions is to a domain of the tenant that
  lists the type of the event.\<close>

definition subscribes :: "string \<Rightarrow> string \<Rightarrow> database \<Rightarrow> service_row \<Rightarrow> bool" where
  "subscribes tenantID eventType db s =
     (svTenantID s = tenantID \<and> svActive s \<and>
      (\<exists>u \<in> set (dbSubscriptions db). suTenantID u = svTenantID s \<and> suServiceID u = svServiceID s \<and>
        (\<exists>d \<in> set (dbDomains db). tdTenantID d = suTenantID u \<and> tdID d = suDomainID u \<and> eventType \<in> set (tdEventTypes d))))"

definition subscribers :: "string \<Rightarrow> string \<Rightarrow> database \<Rightarrow> service_row list" where
  "subscribers tenantID eventType db =
     order_limit svServiceID 101 (remdups (select_rows (subscribes tenantID eventType db) (dbServices db)))"

definition ListSubscribersForEvent :: "string \<Rightarrow> string \<Rightarrow> database world \<Rightarrow> DomainService list result \<times> database world" where
  "ListSubscribersForEvent tenantID eventType w =
     (case Query (reading (\<lambda>now. subscribers tenantID eventType)) w of
        (Inl err, w') \<Rightarrow> (Inl (wrap ''list services subscribed to event'' err), w')
      | (Inr (rows, Some err), w') \<Rightarrow> (Inl (wrap ''iterate event subscribers'' err), w')
      | (Inr (rows, None), w') \<Rightarrow>
          if length rows > 100
          then (Inl (ErrorString (''event '' @ Quote eventType @ '' exceeds maximum of 100 tenant subscribers'')), w')
          else (Inr (map (\<lambda>s. service_of_row s []) rows), w'))"

interpretation domain_pk: primary_key domain_key .
interpretation service_pk: primary_key service_key .
interpretation subscription_pk: primary_key subscription_key .

text \<open>The subscribers that are listed are the active services of the tenant with a subscription to the
  type, unless there are more than fit.\<close>

lemma set_subscribers:
  assumes "length (subscribers tenantID eventType db) \<le> 100"
  shows "set (subscribers tenantID eventType db) = {s \<in> set (dbServices db). subscribes tenantID eventType db s}"
proof -
  let ?rows = "sort_key svServiceID (remdups (filter (subscribes tenantID eventType db) (dbServices db)))"
  have "subscribers tenantID eventType db = take 101 ?rows"
    by (simp add: subscribers_def order_limit_def select_rows_def)
  moreover from this have "length ?rows \<le> 101"
    using assms by (cases "length ?rows \<le> 101") auto
  ultimately show ?thesis
    by auto
qed

end
