(* ===== verification/GoTime.thy ===== *)
theory GoTime
  imports Prelude
begin

text \<open>
  The calendar of \<^verbatim>\<open>time.Time\<close> in UTC and the layouts \<^verbatim>\<open>time.RFC3339\<close> and the one
  \<^verbatim>\<open>encoding/json\<close> writes.  A time is the number of nanoseconds since January 1 of year 1.
\<close>

definition ns_per_day :: int where "ns_per_day = 86400 * second"

definition is_leap :: "int \<Rightarrow> bool" where
  "is_leap y = (y mod 4 = 0 \<and> (y mod 100 \<noteq> 0 \<or> y mod 400 = 0))"

text \<open>The year and the day of the year, by cycles of 400, 100, 4 and 1 years.\<close>

definition year_yday :: "int \<Rightarrow> int \<times> int" where
  "year_yday d =
     (let d1 = d mod 146097; n100 = min 3 (d1 div 36524); d2 = d1 - n100 * 36524;
          d3 = d2 mod 1461; n1 = min 3 (d3 div 365)
      in (400 * (d div 146097) + 100 * n100 + 4 * (d2 div 1461) + n1 + 1, d3 - n1 * 365))"

definition month_lengths :: "bool \<Rightarrow> int list" where
  "month_lengths leap = [31, if leap then 29 else 28, 31, 30, 31, 30, 31, 31, 30, 31, 30, 31]"

fun month_day :: "int \<Rightarrow> int \<Rightarrow> int list \<Rightarrow> int \<times> int" where
  "month_day m d [] = (m, d + 1)"
| "month_day m d (n # ns) = (if d < n then (m, d + 1) else month_day (m + 1) (d - n) ns)"

definition pad :: "nat \<Rightarrow> int \<Rightarrow> string" where
  "pad w n = (if n < 0 then ''-'' else []) @
     replicate (w - length (int_dec \<bar>n\<bar>)) CHR ''0'' @ int_dec \<bar>n\<bar>"

definition date_time :: "time \<Rightarrow> string" where
  "date_time t =
     (case year_yday (t div ns_per_day) of (y, yd) \<Rightarrow>
      (case month_day 1 yd (month_lengths (is_leap y)) of (m, d) \<Rightarrow>
       (let sec = t mod ns_per_day div second
        in pad 4 y @ ''-'' @ pad 2 m @ ''-'' @ pad 2 d @ ''T'' @ pad 2 (sec div 3600) @ '':'' @
           pad 2 (sec div 60 mod 60) @ '':'' @ pad 2 (sec mod 60))))"

definition Format_RFC3339 :: "time \<Rightarrow> string" where
  "Format_RFC3339 t = date_time t @ ''Z''"

text \<open>The fraction of a second without trailing zeros; JSON has no text for years outside 0 to
  9999.\<close>

definition fraction :: "int \<Rightarrow> string" where
  "fraction ns = (if ns = 0 then []
     else CHR ''.'' # rev (dropWhile (\<lambda>c. c = CHR ''0'') (rev (pad 9 ns))))"

definition year_of :: "time \<Rightarrow> int" where
  "year_of t = fst (year_yday (t div ns_per_day))"

definition json_time :: "time \<Rightarrow> string option" where
  "json_time t =
     (if 0 \<le> year_of t \<and> year_of t \<le> 9999
      then Some (CHR ''\"'' # date_time t @ fraction (t mod second) @ ''Z'' @ [CHR ''\"''])
      else None)"

end
