(* ===== verification/Evaluator.thy ===== *)
theory Evaluator
  imports Compiler GoTime
begin

text \<open>
  \<^verbatim>\<open>internal/rules/evaluator.go\<close>: the rules of a revision are evaluated on an event in order, and
  the actions of the rules that match, or their fallbacks, become effects.

  The clock is a parameter: \<open>clk\<close> gives the reading at each call of \<^verbatim>\<open>clock.Now()\<close>, which is
  named by its place in the code, the rule and the action.

  The properties: a predicate the compiler accepts is evaluated as its truth table says and
  never fails for its shape; a decision lists the matched rules in order of priority, with first
  match at most one; the identifiers of the effects of a decision are distinct; neither the
  matched rules nor the decision hash depend on the clock; and every failure is permanent.
\<close>

section \<open>Paths and values\<close>

type_synonym facts = "(string \<times> string) list"

primrec walkObjectPath :: "string list \<Rightarrow> iface \<Rightarrow> iface" where
  "walkObjectPath [] current = current"
| "walkObjectPath (part # parts) current =
     (if part = [] then walkObjectPath parts current
      else (case current of
          IMap m \<Rightarrow> (case map_of m part of None \<Rightarrow> INil | Some next \<Rightarrow> walkObjectPath parts next)
        | _ \<Rightarrow> INil))"

definition resolveFactPath :: "string list \<Rightarrow> facts \<Rightarrow> iface result" where
  "resolveFactPath parts facts = (case parts of
     [] \<Rightarrow> Inr INil
   | factKey # rest \<Rightarrow>
      (case map_of facts factKey of
         None \<Rightarrow> Inr INil
       | Some factData \<Rightarrow>
          (case json_Unmarshal factData of
             None \<Rightarrow> Inl (wrap (''unmarshal fact '' @ factKey) json_error)
           | Some value \<Rightarrow> Inr (walkObjectPath rest value))))"

definition resolveEventDataPath :: "string \<Rightarrow> string list \<Rightarrow> iface result" where
  "resolveEventDataPath data parts =
     (case json_Unmarshal data of
        None \<Rightarrow> Inl (wrap ''unmarshal data'' json_error)
      | Some value \<Rightarrow> Inr (walkObjectPath parts value))"

definition resolvePath :: "string \<Rightarrow> string \<Rightarrow> facts \<Rightarrow> iface result" where
  "resolvePath path data facts =
     (if path = [] \<or> \<not> HasPrefix path ''$.'' then Inl (Sentinel ErrInvalidFactPath)
      else let parts = split_on CHR ''.'' (drop 2 path)
      in (case parts of
            p # ps \<Rightarrow> (if p = ''facts'' then resolveFactPath ps facts else resolveEventDataPath data parts)
          | [] \<Rightarrow> resolveEventDataPath data parts))"

fun normalizeNumber :: "iface \<Rightarrow> iface" where
  "normalizeNumber (IFloat f) = (case f64_int64 f of Some i \<Rightarrow> IInt i | None \<Rightarrow> IFloat f)"
| "normalizeNumber (IInt i) = IInt i"
| "normalizeNumber (INumber n) =
     (case ParseInt64 n of
        Some i \<Rightarrow> IInt i
      | None \<Rightarrow> (case ParseFloat n of Some f \<Rightarrow> IFloat f | None \<Rightarrow> INumber n))"
| "normalizeNumber v = v"

definition compareEq :: "iface \<Rightarrow> iface \<Rightarrow> bool" where
  "compareEq actual expected =
     (let a = normalizeNumber actual; b = normalizeNumber expected
      in if a \<noteq> INil \<and> b \<noteq> INil then fmt_v a = fmt_v b
         else fmt_v actual = fmt_v expected)"

fun toFloat64 :: "iface \<Rightarrow> float64 option" where
  "toFloat64 (IFloat f) = Some f"
| "toFloat64 (IInt i) = round_ratio (i < 0) \<bar>i\<bar> 1"
| "toFloat64 (INumber n) = ParseFloat n"
| "toFloat64 (IStr s) = ParseFloat s"
| "toFloat64 _ = None"

text \<open>The result 2 marks values that cannot be compared as numbers.\<close>

definition compareCmp :: "iface \<Rightarrow> iface \<Rightarrow> int" where
  "compareCmp actual expected =
     (case (toFloat64 actual, toFloat64 expected) of
        (Some a, Some b) \<Rightarrow> (if f64_less b a then 1 else if f64_less a b then -1 else 0)
      | _ \<Rightarrow> 2)"

definition compareIn :: "iface \<Rightarrow> iface \<Rightarrow> bool" where
  "compareIn val lst = (case lst of ISlice arr \<Rightarrow> list_ex (compareEq val) arr | _ \<Rightarrow> False)"

definition compareNumericLeaf :: "Operator \<Rightarrow> iface \<Rightarrow> iface \<Rightarrow> bool result" where
  "compareNumericLeaf op actual expected =
     (let comparison = compareCmp actual expected
      in if comparison = 2
         then Inl (ErrorString (''cannot compare non-numeric values for '' @ op @ '': '' @
                fmt_v actual @ '' vs '' @ fmt_v expected))
         else if op = OpGt then Inr (comparison > 0)
         else if op = OpGte then Inr (comparison \<ge> 0)
         else if op = OpLt then Inr (comparison < 0)
         else if op = OpLte then Inr (comparison \<le> 0)
         else Inl (Sentinel ErrInvalidOperator))"

definition evaluateLeafValue :: "Operator \<Rightarrow> iface \<Rightarrow> iface \<Rightarrow> bool result" where
  "evaluateLeafValue op actual expected =
     (if op = OpEq then Inr (compareEq actual expected)
      else if op = OpNeq then Inr (\<not> compareEq actual expected)
      else if op \<in> set [OpGt, OpGte, OpLt, OpLte] then compareNumericLeaf op actual expected
      else if op = OpIn then Inr (compareIn actual expected)
      else if op = OpNotIn then Inr (\<not> compareIn actual expected)
      else Inl (Sentinel ErrInvalidOperator))"

section \<open>Predicates\<close>

definition evalLeaf :: "string \<Rightarrow> facts \<Rightarrow> string \<Rightarrow> Operator \<Rightarrow> iface \<Rightarrow> bool result" where
  "evalLeaf data facts path op expected =
     (case resolvePath path data facts of
        Inl err \<Rightarrow> Inl (Errorf [([], Sentinel ErrEvaluationError),
                     ('': resolve predicate path '' @ Quote path @ '': '', err)] [])
      | Inr value \<Rightarrow>
         (if op = OpExists then Inr (value \<noteq> INil)
          else if op = OpNotExists then Inr (value = INil)
          else if value = INil then Inr False
          else evaluateLeafValue op value expected))"

text \<open>The loops over the results of the children, which stop at the first that decides.\<close>

primrec evalAll :: "bool result option list \<Rightarrow> bool result" where
  "evalAll [] = Inr True"
| "evalAll (predicate # predicates) =
     (case predicate of
        None \<Rightarrow> Inl (Sentinel ErrInvalidPredicate)
      | Some r \<Rightarrow>
         (case r of
            Inl err \<Rightarrow> Inl err
          | Inr matched \<Rightarrow> (if \<not> matched then Inr False else evalAll predicates)))"

primrec evalAny :: "bool result option list \<Rightarrow> bool result" where
  "evalAny [] = Inr False"
| "evalAny (predicate # predicates) =
     (case predicate of
        None \<Rightarrow> evalAny predicates
      | Some r \<Rightarrow>
         (case r of
            Inl err \<Rightarrow> Inl err
          | Inr matched \<Rightarrow> (if matched then Inr True else evalAny predicates)))"

definition evalNot :: "bool result \<Rightarrow> bool result" where
  "evalNot r = (case r of Inl err \<Rightarrow> Inl err | Inr matched \<Rightarrow> Inr (\<not> matched))"

primrec evalPredicate :: "string \<Rightarrow> facts \<Rightarrow> Predicate \<Rightarrow> bool result" where
  "evalPredicate data facts (Predicate al an nt path op val) =
     (case map_option (map (map_option (evalPredicate data facts))) al of
        Some rs \<Rightarrow> evalAll rs
      | None \<Rightarrow>
         (case map_option (map (map_option (evalPredicate data facts))) an of
            Some rs \<Rightarrow> evalAny rs
          | None \<Rightarrow>
             (case map_option (evalPredicate data facts) nt of
                Some r \<Rightarrow> evalNot r
              | None \<Rightarrow> evalLeaf data facts path op val)))"

section \<open>Templates\<close>

text \<open>The regular expression \<^verbatim>\<open>\{\{\s*([^{}]+?)\s*\}\}\<close>: two opening braces, a nonempty run without
  braces, two closing braces.  The group is the run without the space around it; of a run of
  space only, it is the last character.\<close>

definition is_space :: "char \<Rightarrow> bool" where
  "is_space c = (c \<in> set [CHR '' '', CHR 0x09, CHR 0x0A, CHR 0x0C, CHR 0x0D])"

definition no_brace :: "char \<Rightarrow> bool" where
  "no_brace c = (c \<noteq> CHR ''{'' \<and> c \<noteq> CHR ''}'')"

definition placeholder_at :: "string \<Rightarrow> (string \<times> string) option" where
  "placeholder_at s =
     (if HasPrefix s ''{{'' then
        (let r = drop 2 s; content = takeWhile no_brace r; after = dropWhile no_brace r
         in if content \<noteq> [] \<and> HasPrefix after ''}}'' then Some (content, drop 2 after) else None)
      else None)"

definition submatch :: "string \<Rightarrow> string" where
  "submatch content =
     (let t = dropWhile is_space content
      in if t = [] then [last content] else rev (dropWhile is_space (rev t)))"

text \<open>The leftmost match: the text before it, its content and the text after it.\<close>

primrec find_placeholder :: "string \<Rightarrow> (string \<times> string \<times> string) option" where
  "find_placeholder [] = None"
| "find_placeholder (c # s) =
     (case placeholder_at (c # s) of
        Some (content, after) \<Rightarrow> Some ([], content, after)
      | None \<Rightarrow> map_option (map_prod ((#) c) id) (find_placeholder s))"

lemma placeholder_at_rest: "placeholder_at s = Some (content, after) \<Longrightarrow> length after < length s"
proof -
  assume "placeholder_at s = Some (content, after)"
  then have "HasPrefix s ''{{''" "after = drop 2 (dropWhile no_brace (drop 2 s))"
    by (auto simp: placeholder_at_def Let_def split: if_splits)
  moreover have "length (dropWhile no_brace (drop 2 s)) \<le> length (drop 2 s)"
    by (rule length_dropWhile_le)
  ultimately show ?thesis
    by (cases s) (auto simp: HasPrefix_def)
qed

lemma find_placeholder_rest: "find_placeholder s = Some (before, content, after) \<Longrightarrow> length after < length s"
  by (induction s arbitrary: before) (fastforce split: option.splits dest: placeholder_at_rest)+

function replaceAll :: "(string \<Rightarrow> string) \<Rightarrow> string \<Rightarrow> string" where
  "replaceAll repl s =
     (case find_placeholder s of
        None \<Rightarrow> s
      | Some (before, content, after) \<Rightarrow> before @ repl (submatch content) @ replaceAll repl after)"
  by auto
termination
  by (relation "measure (\<lambda>(_, s). length s)") (auto dest: find_placeholder_rest)

declare replaceAll.simps [simp del]

definition strings_Contains :: "string \<Rightarrow> string \<Rightarrow> bool" where
  "strings_Contains s sub = list_ex (\<lambda>n. take (length sub) (drop n s) = sub) [0..<Suc (length s)]"

record templateContext =
  tcEventData :: string
  tcChildID :: string
  tcNow :: string

definition lookup :: "templateContext \<Rightarrow> string \<Rightarrow> iface option" where
  "lookup c expr =
     (if expr = ''new_id'' then Some (IStr (tcChildID c))
      else if expr = ''now'' then Some (IStr (tcNow c))
      else let path = (if HasPrefix expr ''$.'' then expr else ''$.'' @ expr)
      in (case resolvePath path (tcEventData c) [] of
            Inl err \<Rightarrow> None
          | Inr val \<Rightarrow> if val = INil then None else Some val))"

definition rendered :: "iface option \<Rightarrow> string" where
  "rendered v = (case v of
     None \<Rightarrow> []
   | Some val \<Rightarrow>
      (case val of
         IStr str \<Rightarrow> str
       | _ \<Rightarrow> (case json_Marshal val of None \<Rightarrow> [] | Some encoded \<Rightarrow> encoded)))"

definition expand :: "templateContext \<Rightarrow> string \<Rightarrow> iface" where
  "expand c s =
     (if \<not> strings_Contains s ''{{'' then IStr s
      else (case find_placeholder s of
          Some ([], content, []) \<Rightarrow>
            (case lookup c (submatch content) of Some val \<Rightarrow> val | None \<Rightarrow> IStr [])
        | _ \<Rightarrow> IStr (replaceAll (\<lambda>expr. rendered (lookup c expr)) s)))"

primrec walk :: "templateContext \<Rightarrow> iface \<Rightarrow> iface" where
  "walk c INil = INil"
| "walk c (IBool b) = IBool b"
| "walk c (IFloat f) = IFloat f"
| "walk c (IInt i) = IInt i"
| "walk c (INumber n) = INumber n"
| "walk c (IStr s) = expand c s"
| "walk c (ISlice vs) = ISlice (map (walk c) vs)"
| "walk c (IMap m) = IMap (map (map_prod id (walk c)) m)"

definition interpolateTemplates :: "string \<Rightarrow> EventEnvelope \<Rightarrow> string \<Rightarrow> time \<Rightarrow> string result" where
  "interpolateTemplates data event childID now =
     (case json_Unmarshal data of
        None \<Rightarrow> Inl json_error
      | Some tree \<Rightarrow>
         (let c = \<lparr>tcEventData = evData event, tcChildID = childID, tcNow = Format_RFC3339 now\<rparr>
          in (case json_Marshal (walk c tree) of None \<Rightarrow> Inl json_error | Some encoded \<Rightarrow> Inr encoded)))"

section \<open>Effects\<close>

text \<open>\<^verbatim>\<open>json.Marshal\<close> of an envelope; \<^verbatim>\<open>workflow_id\<close> and \<^verbatim>\<open>headers\<close> are left out when empty.\<close>

definition json_field :: "string \<Rightarrow> string \<Rightarrow> string" where
  "json_field name value = json_string name @ '':'' @ value"

definition json_EventEnvelope :: "EventEnvelope \<Rightarrow> string option" where
  "json_EventEnvelope e =
     (case (json_time (evOccurredAt e), json_raw (evData e)) of
        (Some occurredAt, Some data) \<Rightarrow>
          Some (''{'' @ join_with '',''
            ([json_field ''id'' (json_string (evID e)), json_field ''type'' (json_string (evType e)),
              json_field ''tenant_id'' (json_string (evTenantID e)),
              json_field ''partition_key'' (json_string (evPartitionKey e))] @
             (if evWorkflowID e = [] then [] else [json_field ''workflow_id'' (json_string (evWorkflowID e))]) @
             [json_field ''occurred_at'' occurredAt, json_field ''data'' data] @
             (if evHeaders e = [] then [] else [json_field ''headers'' (json_string_map (evHeaders e))])) @ ''}'')
      | _ \<Rightarrow> None)"

datatype clock_call = InterpolationNow | ChildOccurredAt | EffectCreatedAt

type_synonym clock = "clock_call \<Rightarrow> string \<Rightarrow> int \<Rightarrow> time"

definition buildEmitEffect :: "Effect \<Rightarrow> EmitAction \<Rightarrow> Effect" where
  "buildEmitEffect effect action = effect\<lparr>efDestination := emTopic action, efName := emTopic action,
     efPayload := emData action, efEffectType := EffectTypeEmit\<rparr>"

definition buildCommandEffect :: "Effect \<Rightarrow> CommandAction \<Rightarrow> Effect" where
  "buildCommandEffect effect action = effect\<lparr>efEffectType := EffectTypeCommand,
     efDestination := cmDestination action, efName := cmName action, efPayload := cmData action\<rparr>"

definition resolveEmitEventPartitionKey :: "EmitEventAction \<Rightarrow> EventEnvelope \<Rightarrow> string result" where
  "resolveEmitEventPartitionKey action event =
     (let policy = (if eePartitionKeyPolicy action = [] then PartitionKeyPolicyExplicit
                    else eePartitionKeyPolicy action);
          key = (if policy = PartitionKeyPolicyInherit then Inr (evPartitionKey event)
                 else if policy = PartitionKeyPolicyFromData \<and> eePartitionKeyPath action \<noteq> [] then
                   (case resolvePath (eePartitionKeyPath action) (evData event) [] of
                      Inl err \<Rightarrow> Inl (wrap (''resolve partition key from path '' @ eePartitionKeyPath action) err)
                    | Inr value \<Rightarrow>
                       (if value = INil
                        then Inl (ErrorString (''resolve partition key from path '' @
                               eePartitionKeyPath action @ '': %!w(<nil>)''))
                        else Inr (fmt_v value)))
                 else Inr (eePartitionKey action))
      in (case key of
            Inl err \<Rightarrow> Inl err
          | Inr partitionKey \<Rightarrow>
             (if partitionKey = []
              then Inl (ErrorString (''partition key resolution resulted in empty value for policy '' @ policy))
              else Inr partitionKey)))"

definition buildChildEventEnvelope ::
  "EventEnvelope \<Rightarrow> EmitEventAction \<Rightarrow> string \<Rightarrow> string \<Rightarrow> string \<Rightarrow> time \<Rightarrow> EventEnvelope" where
  "buildChildEventEnvelope parent action childID partitionKey data occurredAt =
     \<lparr>evID = childID, evType = eeType action, evTenantID = evTenantID parent,
      evPartitionKey = partitionKey, evWorkflowID = [], evOccurredAt = occurredAt, evData = data,
      evHeaders = [(''flowrule_child_event_id'', childID), (''flowrule_parent_event_id'', evID parent)]\<rparr>"

definition buildEmitEventEffect ::
  "(string \<Rightarrow> string) \<Rightarrow> clock \<Rightarrow> Effect \<Rightarrow> EventEnvelope \<Rightarrow> string \<Rightarrow> int \<Rightarrow> EmitEventAction \<Rightarrow> Effect result" where
  "buildEmitEventEffect H clk effect event ruleID actionIndex action =
     (let childID = ComputeChildEventID H (evID event) ruleID actionIndex
      in (case resolveEmitEventPartitionKey action event of
            Inl err \<Rightarrow> Inl err
          | Inr partitionKey \<Rightarrow>
             (case interpolateTemplates (eeData action) event childID (clk InterpolationNow ruleID actionIndex) of
                Inl err \<Rightarrow> Inl (wrap ''interpolate templates'' err)
              | Inr childData \<Rightarrow>
                 (let child = buildChildEventEnvelope event action childID partitionKey childData
                                (clk ChildOccurredAt ruleID actionIndex)
                  in (case json_EventEnvelope child of
                        None \<Rightarrow> Inl (wrap ''marshal child event'' json_error)
                      | Some encoded \<Rightarrow>
                         Inr (effect\<lparr>efEffectType := EffectTypeEmitEvent,
                                     efDestination := ''events.'' @ evType child,
                                     efName := evType child, efPayload := encoded\<rparr>))))))"

definition buildEffect ::
  "(string \<Rightarrow> string) \<Rightarrow> clock \<Rightarrow> RuleRevision \<Rightarrow> EventEnvelope \<Rightarrow> string \<Rightarrow> int \<Rightarrow> Action \<Rightarrow> Effect result" where
  "buildEffect H clk revision event ruleID actionIndex action =
     (let effect = \<lparr>efID = ComputeEffectID H (evTenantID event) (evID event) (rvRuleID revision)
                        (rvRevision revision) ruleID actionIndex,
                    efExecutionID = [], efTenantID = [], efDestination = [], efName = [], efPayload = [],
                    efEffectType = EffectTypeOther [], efCreatedAt = 0\<rparr>;
          built = (case acEmit action of
             Some emit \<Rightarrow> Inr (buildEmitEffect effect emit)
           | None \<Rightarrow>
              (case acEmitEvent action of
                 Some emitEvent \<Rightarrow> buildEmitEventEffect H clk effect event ruleID actionIndex emitEvent
               | None \<Rightarrow>
                  (case acCommand action of
                     Some command \<Rightarrow> Inr (buildCommandEffect effect command)
                   | None \<Rightarrow> Inr effect)))
      in (case built of
            Inl err \<Rightarrow> Inl err
          | Inr e \<Rightarrow> Inr (e\<lparr>efCreatedAt := clk EffectCreatedAt ruleID actionIndex\<rparr>)))"

definition describeAction :: "Action \<Rightarrow> string" where
  "describeAction action =
     (case acEmit action of
        Some emit \<Rightarrow> ''emit:'' @ emTopic emit
      | None \<Rightarrow>
         (case acEmitEvent action of
            Some emitEvent \<Rightarrow> ''emit_event:'' @ eeType emitEvent
          | None \<Rightarrow>
             (case acCommand action of
                Some command \<Rightarrow> ''command:'' @ cmDestination command @ ''/'' @ cmName command
              | None \<Rightarrow> ''unknown'')))"

section \<open>Decisions\<close>

text \<open>The effects of a list of actions, from index \<open>i\<close> on; the text names the place of an error.\<close>

primrec buildEffects ::
  "(string \<Rightarrow> string) \<Rightarrow> clock \<Rightarrow> RuleRevision \<Rightarrow> EventEnvelope \<Rightarrow> string \<Rightarrow> string \<Rightarrow> Action list \<Rightarrow> int \<Rightarrow>
   Effect list result" where
  "buildEffects H clk revision event ruleID kind [] i = Inr []"
| "buildEffects H clk revision event ruleID kind (action # actions) i =
     (case buildEffect H clk revision event ruleID i action of
        Inl err \<Rightarrow> Inl (Errorf [(''rule '' @ ruleID @ kind @ int_dec i @ '': '', Sentinel ErrEvaluationError),
                     ('': '', err)] [])
      | Inr effect \<Rightarrow>
         (case buildEffects H clk revision event ruleID kind actions (i + 1) of
            Inl err \<Rightarrow> Inl err
          | Inr effects \<Rightarrow> Inr (effect # effects)))"

type_synonym evaluation = "string list \<times> Effect list \<times> RuleExplanation list"

definition processRuleResult ::
  "(string \<Rightarrow> string) \<Rightarrow> clock \<Rightarrow> RuleRevision \<Rightarrow> EventEnvelope \<Rightarrow> CompiledRule \<Rightarrow> bool \<Rightarrow> evaluation \<Rightarrow>
   evaluation result" where
  "processRuleResult H clk revision event rule ok st =
     (case st of (matched, effects, explanations) \<Rightarrow>
      (let actions = (if ok then ruThen rule else ruOtherwise rule);
           kind = (if ok then '' action '' else '' otherwise action '')
       in (case buildEffects H clk revision event (ruID rule) kind actions 0 of
             Inl err \<Rightarrow> Inl err
           | Inr new \<Rightarrow>
              Inr (if ok then matched @ [ruID rule] else matched, effects @ new,
                   explanations @ [\<lparr>rxRuleID = ruID rule, rxRuleName = ruName rule, rxMatched = ok,
                     rxPriority = ruPriority rule,
                     rxReason = (if ok then ''predicate matched'' else ''predicate did not match''),
                     rxActions = map describeAction actions\<rparr>]))))"

primrec evaluateRules_loop ::
  "(string \<Rightarrow> string) \<Rightarrow> clock \<Rightarrow> RuleRevision \<Rightarrow> EventEnvelope \<Rightarrow> facts \<Rightarrow> CompiledRule list \<Rightarrow> evaluation \<Rightarrow>
   evaluation result" where
  "evaluateRules_loop H clk revision event facts [] st = Inr st"
| "evaluateRules_loop H clk revision event facts (rule # rules) st =
     (case evalPredicate (evData event) facts (ruWhen rule) of
        Inl err \<Rightarrow> Inl (Errorf [(''rule '' @ ruID rule @ '': '', Sentinel ErrEvaluationError), ('': '', err)] [])
      | Inr ok \<Rightarrow>
         (case processRuleResult H clk revision event rule ok st of
            Inl err \<Rightarrow> Inl err
          | Inr st' \<Rightarrow>
             (if rvMatchMode revision = MatchModeFirstMatch \<and> ok then Inr st'
              else evaluateRules_loop H clk revision event facts rules st')))"

definition evaluateRules ::
  "(string \<Rightarrow> string) \<Rightarrow> clock \<Rightarrow> RuleRevision \<Rightarrow> EventEnvelope \<Rightarrow> facts \<Rightarrow> evaluation result" where
  "evaluateRules H clk revision event facts =
     evaluateRules_loop H clk revision event facts (rvCompiled revision) ([], [], [])"

definition Evaluate ::
  "(string \<Rightarrow> string) \<Rightarrow> clock \<Rightarrow> RuleRevision \<Rightarrow> EventEnvelope \<Rightarrow> facts \<Rightarrow> Decision result" where
  "Evaluate H clk revision event facts =
     (case evaluateRules H clk revision event facts of
        Inl err \<Rightarrow> Inl err
      | Inr (matched, effects, explanations) \<Rightarrow>
         Inr \<lparr>dcMatchedRules = matched, dcEffects = effects,
              dcHash = ComputeDecisionHash H (rvContentHash revision) (evID event) [] matched effects,
              dcExplanations = explanations\<rparr>)"

section \<open>The truth table of predicates\<close>

text \<open>What a predicate means for an event, with no order of evaluation and no errors: a leaf
  that cannot be evaluated does not hold.\<close>

primrec holds :: "string \<Rightarrow> facts \<Rightarrow> Predicate \<Rightarrow> bool" where
  "holds data facts (Predicate al an nt path op val) =
     (case map_option (map (map_option (holds data facts))) al of
        Some bs \<Rightarrow> (\<forall>b \<in> set bs. b = Some True)
      | None \<Rightarrow>
         (case map_option (map (map_option (holds data facts))) an of
            Some bs \<Rightarrow> (\<exists>b \<in> set bs. b = Some True)
          | None \<Rightarrow>
             (case map_option (holds data facts) nt of
                Some b \<Rightarrow> \<not> b
              | None \<Rightarrow> evalLeaf data facts path op val = Inr True)))"

lemma evalAll_Inr:
  assumes "evalAll (map (map_option f) xs) = Inr b"
    and "\<And>x c. Some x \<in> set xs \<Longrightarrow> f x = Inr c \<Longrightarrow> c = g x"
  shows "b \<longleftrightarrow> (\<forall>y \<in> set (map (map_option g) xs). y = Some True)"
  using assms by (induction xs) (auto split: option.splits sum.splits if_splits)

lemma evalAny_Inr:
  assumes "evalAny (map (map_option f) xs) = Inr b"
    and "\<And>x c. Some x \<in> set xs \<Longrightarrow> f x = Inr c \<Longrightarrow> c = g x"
  shows "b \<longleftrightarrow> (\<exists>y \<in> set (map (map_option g) xs). y = Some True)"
  using assms by (induction xs) (auto split: option.splits sum.splits if_splits)

lemma evalPredicate_holds: "evalPredicate data facts p = Inr b \<Longrightarrow> b = holds data facts p"
proof (induction p arbitrary: b)
  case (Predicate al an nt path op val)
  show ?case
  proof (cases al)
    case (Some xs)
    then show ?thesis
      using Predicate.prems evalAll_Inr [of "evalPredicate data facts" xs b "holds data facts"] Predicate.IH(1) by auto
  next
    case al: None
    show ?thesis
    proof (cases an)
      case (Some xs)
      then show ?thesis
        using al Predicate.prems evalAny_Inr [of "evalPredicate data facts" xs b "holds data facts"] Predicate.IH(2) by auto
    next
      case None
      then show ?thesis
        using al Predicate.prems Predicate.IH(3) by (auto simp: evalNot_def split: option.splits sum.splits)
    qed
  qed
qed

section \<open>Errors of the evaluation\<close>

text \<open>The leaves of a predicate.\<close>

inductive leaf_of :: "string \<Rightarrow> Operator \<Rightarrow> iface \<Rightarrow> Predicate \<Rightarrow> bool" for path op val where
  leaf_here: "leaf_of path op val (Predicate None None None path op val)"
| leaf_all: "\<lbrakk>Some p \<in> set ps; leaf_of path op val p\<rbrakk> \<Longrightarrow> leaf_of path op val (Predicate (Some ps) an nt path' op' val')"
| leaf_any: "\<lbrakk>Some p \<in> set ps; leaf_of path op val p\<rbrakk> \<Longrightarrow> leaf_of path op val (Predicate None (Some ps) nt path' op' val')"
| leaf_not: "leaf_of path op val p \<Longrightarrow> leaf_of path op val (Predicate None None (Some p) path' op' val')"

lemma evalAll_Inl: "evalAll rs = Inl e \<Longrightarrow> None \<notin> set rs \<Longrightarrow> Some (Inl e) \<in> set rs"
  by (induction rs) (auto split: option.splits sum.splits if_splits)

lemma evalAny_Inl: "evalAny rs = Inl e \<Longrightarrow> Some (Inl e) \<in> set rs"
  by (induction rs) (auto split: option.splits sum.splits if_splits)

text \<open>Of a well-formed predicate only a leaf can fail.\<close>

lemma evalPredicate_leaf_error:
  assumes "wf_predicate limits depth p" and "evalPredicate data facts p = Inl e"
  shows "\<exists>path op val. leaf_of path op val p \<and> ValidOp op \<and> evalLeaf data facts path op val = Inl e"
  using assms
proof (induction rule: wf_predicate.induct)
  case (wf_leaf depth path op val)
  then show ?case by (auto intro: leaf_here)
next
  case (wf_all depth ps op val)
  then have "Some (Inl e) \<in> set (map (map_option (evalPredicate data facts)) (map Some ps))"
    by (intro evalAll_Inl) auto
  then obtain p where "p \<in> set ps" "evalPredicate data facts p = Inl e" by auto
  then show ?case using wf_all.IH by (fastforce intro: leaf_all)
next
  case (wf_any depth ps op val)
  then have "Some (Inl e) \<in> set (map (map_option (evalPredicate data facts)) (map Some ps))"
    by (intro evalAny_Inl) auto
  then obtain p where "p \<in> set ps" "evalPredicate data facts p = Inl e" by auto
  then show ?case using wf_any.IH by (fastforce intro: leaf_any)
next
  case (wf_not depth p op val)
  then show ?case by (fastforce simp: evalNot_def split: sum.splits intro: leaf_not)
qed

text \<open>The sentinels an evaluation error can wrap.\<close>

definition evaluation_sentinels :: "sentinel set" where
  "evaluation_sentinels = {ErrEvaluationError, ErrInvalidPredicate, ErrInvalidOperator, ErrInvalidFactPath}"

lemma evaluation_sentinels_simps [simp]:
  "ErrEvaluationError \<in> evaluation_sentinels" "ErrInvalidPredicate \<in> evaluation_sentinels"
  "ErrInvalidOperator \<in> evaluation_sentinels" "ErrInvalidFactPath \<in> evaluation_sentinels"
  by (simp_all add: evaluation_sentinels_def)

definition only_evaluation :: "gerr \<Rightarrow> bool" where
  "only_evaluation e = (\<forall>t. errors_Is e t \<longrightarrow> t \<in> evaluation_sentinels)"

lemma only_evaluation_simps [simp]:
  "only_evaluation (Sentinel s) \<longleftrightarrow> s \<in> evaluation_sentinels"
  "only_evaluation (ErrorString m)"
  "only_evaluation (Errorf ps m) \<longleftrightarrow> (\<forall>p \<in> set ps. only_evaluation (snd p))"
  by (auto simp: only_evaluation_def list_ex_iff)

lemma resolvePath_error: "resolvePath path data facts = Inl e \<Longrightarrow> only_evaluation e"
  by (auto simp: resolvePath_def resolveFactPath_def resolveEventDataPath_def Let_def json_error_def
      split: if_splits list.splits option.splits)

lemma evaluateLeafValue_error: "evaluateLeafValue op actual expected = Inl e \<Longrightarrow> only_evaluation e"
  by (auto simp: evaluateLeafValue_def compareNumericLeaf_def Let_def split: if_splits)

lemma evalLeaf_error: "evalLeaf data facts path op val = Inl e \<Longrightarrow> only_evaluation e"
  by (auto simp: evalLeaf_def split: sum.splits if_splits dest: resolvePath_error evaluateLeafValue_error)

lemma evalAll_error:
  "evalAll rs = Inl e \<Longrightarrow> (\<And>e. Some (Inl e) \<in> set rs \<Longrightarrow> only_evaluation e) \<Longrightarrow> only_evaluation e"
  by (induction rs) (auto split: option.splits sum.splits if_splits)

lemma evalPredicate_error: "evalPredicate data facts p = Inl e \<Longrightarrow> only_evaluation e"
proof (induction p arbitrary: e)
  case (Predicate al an nt path op val)
  have children: "only_evaluation e'"
    if "xs = al \<or> xs = an" "xs = Some ps" "Some (Inl e') \<in> set (map (map_option (evalPredicate data facts)) ps)" for xs ps e'
  proof -
    from that(3) obtain q where "Some q \<in> set ps" "evalPredicate data facts q = Inl e'"
      by (auto simp: image_iff) (metis map_option_eq_Some)
    then show ?thesis
      using that(1,2) Predicate.IH(1,2) by fastforce
  qed
  then have "only_evaluation e'"
    if "al = Some ps" "evalAll (map (map_option (evalPredicate data facts)) ps) = Inl e'" for ps e'
    using evalAll_error [OF that(2)] that(1) by blast
  with children show ?case
    using Predicate.prems Predicate.IH(3)
    by (auto simp: evalNot_def simp del: set_map split: option.splits sum.splits
        dest: evalLeaf_error evalAny_Inl)
qed

lemma resolveEmitEventPartitionKey_error:
  "resolveEmitEventPartitionKey action event = Inl e \<Longrightarrow> only_evaluation e"
  by (auto simp: resolveEmitEventPartitionKey_def Let_def split: if_splits sum.splits dest: resolvePath_error)

lemma buildEffect_error: "buildEffect H clk revision event ruleID i action = Inl e \<Longrightarrow> only_evaluation e"
  by (auto simp: buildEffect_def buildEmitEventEffect_def interpolateTemplates_def Let_def json_error_def
      split: option.splits sum.splits dest: resolveEmitEventPartitionKey_error)

lemma buildEffects_error:
  "buildEffects H clk revision event ruleID kind actions i = Inl e \<Longrightarrow>
     errors_Is e ErrEvaluationError \<and> only_evaluation e"
  by (induction actions arbitrary: i)
    (auto split: sum.splits dest!: buildEffect_error)

lemma evaluateRules_loop_error:
  "evaluateRules_loop H clk revision event facts rules st = Inl e \<Longrightarrow>
     errors_Is e ErrEvaluationError \<and> only_evaluation e"
  by (induction rules arbitrary: st)
    (auto simp: processRuleResult_def Let_def split: sum.splits prod.splits if_splits
      dest!: buildEffects_error evalPredicate_error)

lemma Evaluate_error:
  "Evaluate H clk revision event facts = Inl e \<Longrightarrow> errors_Is e ErrEvaluationError \<and> only_evaluation e"
  by (auto simp: Evaluate_def evaluateRules_def split: sum.splits dest: evaluateRules_loop_error)

lemma evaluation_error_class:
  assumes "errors_Is e ErrEvaluationError" and "only_evaluation e"
  shows "ClassifyError (Some e) \<in> {ErrorClassRule, ErrorClassEvaluation}"
proof -
  have "\<not> errors_Is e t" if "t \<notin> evaluation_sentinels" for t
    using assms(2) that by (auto simp: only_evaluation_def)
  then show ?thesis
    using assms(1) by (simp add: ClassifyError_def is_any_def evaluation_sentinels_def)
qed


section \<open>What a decision consists of\<close>

text \<open>A rule matches when its predicate evaluates to true; with first match the rules after the
  first that matches are not considered.\<close>

definition matches :: "EventEnvelope \<Rightarrow> facts \<Rightarrow> CompiledRule \<Rightarrow> bool" where
  "matches event facts rule = (evalPredicate (evData event) facts (ruWhen rule) = Inr True)"

primrec considered :: "MatchMode \<Rightarrow> (CompiledRule \<Rightarrow> bool) \<Rightarrow> CompiledRule list \<Rightarrow> CompiledRule list" where
  "considered mode match [] = []"
| "considered mode match (rule # rules) =
     rule # (if mode = MatchModeFirstMatch \<and> match rule then [] else considered mode match rules)"

definition actions_of :: "EventEnvelope \<Rightarrow> facts \<Rightarrow> CompiledRule \<Rightarrow> Action list" where
  "actions_of event facts rule = (if matches event facts rule then ruThen rule else ruOtherwise rule)"

text \<open>The identifiers of the effects of a list of rules.\<close>

definition rule_effect_ids ::
  "(string \<Rightarrow> string) \<Rightarrow> RuleRevision \<Rightarrow> EventEnvelope \<Rightarrow> facts \<Rightarrow> CompiledRule \<Rightarrow> string list" where
  "rule_effect_ids H revision event facts rule =
     map (\<lambda>j. ComputeEffectID H (evTenantID event) (evID event) (rvRuleID revision) (rvRevision revision)
            (ruID rule) (int j)) [0..<length (actions_of event facts rule)]"

lemma buildEffect_id:
  "buildEffect H clk revision event ruleID i action = Inr effect \<Longrightarrow>
     efID effect = ComputeEffectID H (evTenantID event) (evID event) (rvRuleID revision) (rvRevision revision) ruleID i"
  by (auto simp: buildEffect_def buildEmitEventEffect_def buildEmitEffect_def buildCommandEffect_def Let_def
      split: option.splits sum.splits)

lemma buildEffects_ids:
  "buildEffects H clk revision event ruleID kind actions i = Inr effects \<Longrightarrow>
     map efID effects = map (\<lambda>j. ComputeEffectID H (evTenantID event) (evID event) (rvRuleID revision)
       (rvRevision revision) ruleID (i + int j)) [0..<length actions]"
proof (induction actions arbitrary: i effects)
  case (Cons action actions)
  then obtain effect rest where "buildEffect H clk revision event ruleID i action = Inr effect"
    and "buildEffects H clk revision event ruleID kind actions (i + 1) = Inr rest" and "effects = effect # rest"
    by (auto split: sum.splits)
  with Cons.IH [of "i + 1" rest] show ?case
    using buildEffect_id [of H clk revision event ruleID i action effect]
    by (simp add: upt_conv_Cons map_Suc_upt [symmetric] add_ac del: upt_Suc)
qed simp

lemma processRuleResult_Inr:
  assumes "processRuleResult H clk revision event rule ok (m, es, xs) = Inr (m', es', xs')"
    and "ok = matches event facts rule"
  shows "m' = m @ (if matches event facts rule then [ruID rule] else []) \<and>
    map efID es' = map efID es @ rule_effect_ids H revision event facts rule \<and>
    (\<exists>x. xs' = xs @ [x] \<and> rxRuleID x = ruID rule \<and> (rxMatched x \<longleftrightarrow> matches event facts rule))"
  using assms buildEffects_ids [of H clk revision event "ruID rule" _ "actions_of event facts rule" 0]
  by (auto simp: processRuleResult_def rule_effect_ids_def actions_of_def Let_def split: sum.splits if_splits)

lemma evaluateRules_loop_Inr:
  assumes "evaluateRules_loop H clk revision event facts rules (m, es, xs) = Inr (m', es', xs')"
  shows "m' = m @ map ruID (filter (matches event facts) (considered (rvMatchMode revision) (matches event facts) rules)) \<and>
    map efID es' = map efID es @
      concat (map (rule_effect_ids H revision event facts) (considered (rvMatchMode revision) (matches event facts) rules)) \<and>
    map (\<lambda>x. (rxRuleID x, rxMatched x)) xs' = map (\<lambda>x. (rxRuleID x, rxMatched x)) xs @
      map (\<lambda>r. (ruID r, matches event facts r)) (considered (rvMatchMode revision) (matches event facts) rules)"
  using assms
proof (induction rules arbitrary: m es xs)
  case (Cons rule rules)
  from Cons.prems obtain ok m1 es1 xs1
    where ok: "evalPredicate (evData event) facts (ruWhen rule) = Inr ok"
      and step: "processRuleResult H clk revision event rule ok (m, es, xs) = Inr (m1, es1, xs1)"
      and rest: "(if rvMatchMode revision = MatchModeFirstMatch \<and> ok then Inr (m1, es1, xs1)
        else evaluateRules_loop H clk revision event facts rules (m1, es1, xs1)) = Inr (m', es', xs')"
    by (auto split: sum.splits)
  have "ok = matches event facts rule"
    using ok by (simp add: matches_def)
  with processRuleResult_Inr [OF step this] show ?case
    using rest Cons.IH [of m1 es1 xs1] by (auto split: if_splits)
qed simp

lemma Evaluate_Inr:
  assumes "Evaluate H clk revision event facts = Inr d"
  defines "rules \<equiv> considered (rvMatchMode revision) (matches event facts) (rvCompiled revision)"
  shows "dcMatchedRules d = map ruID (filter (matches event facts) rules)"
    and "map efID (dcEffects d) = concat (map (rule_effect_ids H revision event facts) rules)"
    and "map (\<lambda>x. (rxRuleID x, rxMatched x)) (dcExplanations d) = map (\<lambda>r. (ruID r, matches event facts r)) rules"
    and "dcHash d = H (rvContentHash revision @ concat (dcMatchedRules d) @ concat (map efID (dcEffects d)) @ evID event)"
  using assms evaluateRules_loop_Inr [of H clk revision event facts "rvCompiled revision" "[]" "[]" "[]"]
  by (auto simp: Evaluate_def evaluateRules_def ComputeDecisionHash_def split: sum.splits)

lemma considered_all: "mode \<noteq> MatchModeFirstMatch \<Longrightarrow> considered mode match rules = rules"
  by (induction rules) auto

lemma considered_first:
  "filter match (considered MatchModeFirstMatch match rules) = (case find match rules of None \<Rightarrow> [] | Some r \<Rightarrow> [r])"
  by (induction rules) auto

lemma considered_set: "set (considered mode match rules) \<subseteq> set rules"
  by (induction rules) auto

lemma distinct_considered:
  "distinct (map f rules) \<Longrightarrow> distinct (map f (considered mode match rules))"
  using considered_set by (induction rules) fastforce+

text \<open>The texts whose hashes are the effect identifiers of an event: SHA-256 is assumed not to
  collide on these finitely many texts.\<close>

definition effect_texts :: "RuleRevision \<Rightarrow> EventEnvelope \<Rightarrow> string set" where
  "effect_texts revision event = (\<Union>rule \<in> set (rvCompiled revision).
     (\<lambda>j. effect_id_text (evTenantID event) (evID event) (rvRuleID revision) (rvRevision revision) (ruID rule) (int j))
       ` {..<length (ruThen rule) + length (ruOtherwise rule)})"

definition rule_texts :: "RuleRevision \<Rightarrow> EventEnvelope \<Rightarrow> facts \<Rightarrow> CompiledRule \<Rightarrow> string list" where
  "rule_texts revision event facts rule =
     map (\<lambda>j. effect_id_text (evTenantID event) (evID event) (rvRuleID revision) (rvRevision revision)
            (ruID rule) (int j)) [0..<length (actions_of event facts rule)]"

lemma rule_effect_ids_texts: "rule_effect_ids H revision event facts rule = map H (rule_texts revision event facts rule)"
  by (simp add: rule_effect_ids_def rule_texts_def ComputeEffectID_def)

lemma rule_texts_subset:
  "rule \<in> set (rvCompiled revision) \<Longrightarrow> set (rule_texts revision event facts rule) \<subseteq> effect_texts revision event"
  by (auto simp: rule_texts_def effect_texts_def actions_of_def intro!: bexI [of _ rule] imageI)

lemma distinct_texts:
  assumes "distinct (map ruID rules)"
  shows "distinct (concat (map (rule_texts revision event facts) rules))"
  using assms
proof (induction rules)
  case (Cons r rules)
  then have "set (rule_texts revision event facts r) \<inter> set (rule_texts revision event facts r') = {}"
    if "r' \<in> set rules" for r'
    using that by (auto simp: rule_texts_def effect_id_text_eq image_iff)
  moreover have "distinct (rule_texts revision event facts r)"
    by (simp add: rule_texts_def distinct_map inj_on_def effect_id_text_eq)
  ultimately show ?case
    using Cons by auto
qed simp

lemma effect_ids_distinct:
  assumes "inj_on H (effect_texts revision event)" and "distinct (map ruID rules)"
    and "set rules \<subseteq> set (rvCompiled revision)"
  shows "distinct (concat (map (rule_effect_ids H revision event facts) rules))"
proof -
  have "concat (map (rule_effect_ids H revision event facts) rules) =
      map H (concat (map (rule_texts revision event facts) rules))"
    by (simp add: rule_effect_ids_texts [abs_def] map_concat o_def)
  moreover have "set (concat (map (rule_texts revision event facts) rules)) \<subseteq> effect_texts revision event"
    using rule_texts_subset assms(3) by fastforce
  ultimately show ?thesis
    using distinct_texts [OF assms(2)] assms(1) by (simp add: distinct_map inj_on_subset)
qed

lemma considered_none: "find match rules = None \<Longrightarrow> considered mode match rules = rules"
  by (induction rules) (auto split: if_splits)

lemma considered_above:
  assumes "descending rules" and "find match rules = Some r" and "r' \<in> set rules"
    and "ruPriority r \<le> ruPriority r'"
  shows "r' \<in> set (considered mode match rules) \<and> (ruPriority r < ruPriority r' \<longrightarrow> \<not> match r')"
  using assms unfolding descending_def
  by (induction rules) (auto split: if_splits dest!: find_SomeD)

text \<open>The predicates of the considered rules were evaluated.\<close>

lemma evaluateRules_loop_evaluated:
  "evaluateRules_loop H clk revision event facts rules st = Inr st' \<Longrightarrow>
     r \<in> set (considered (rvMatchMode revision) (matches event facts) rules) \<Longrightarrow>
     matches event facts r \<longleftrightarrow> holds (evData event) facts (ruWhen r)"
proof (induction rules arbitrary: st)
  case (Cons rule rules)
  then show ?case
    using evalPredicate_holds [of "evData event" facts "ruWhen rule"]
    by (auto simp: matches_def split: sum.splits if_splits)
qed simp

lemma Evaluate_evaluated:
  assumes "Evaluate H clk revision event facts = Inr d"
    and "r \<in> set (considered (rvMatchMode revision) (matches event facts) (rvCompiled revision))"
  shows "matches event facts r \<longleftrightarrow> holds (evData event) facts (ruWhen r)"
  using assms evaluateRules_loop_evaluated [of H clk revision event facts "rvCompiled revision" "([], [], [])"]
  by (auto simp: Evaluate_def evaluateRules_def split: sum.splits)

lemma evalLeaf_valid_error:
  assumes "ValidOp op" and "evalLeaf data facts path op val = Inl e"
  shows "\<not> errors_Is e ErrInvalidPredicate \<and> \<not> errors_Is e ErrInvalidOperator"
proof -
  have "\<not> errors_Is e' ErrInvalidPredicate \<and> \<not> errors_Is e' ErrInvalidOperator"
    if "resolvePath path data facts = Inl e'" for e'
    using that by (auto simp: resolvePath_def resolveFactPath_def resolveEventDataPath_def Let_def json_error_def
        split: if_splits list.splits option.splits)
  moreover have "\<not> errors_Is e' ErrInvalidPredicate \<and> \<not> errors_Is e' ErrInvalidOperator"
    if "evaluateLeafValue op v val = Inl e'" "op \<noteq> OpExists" "op \<noteq> OpNotExists" for e' v
    using that assms(1) by (auto simp: evaluateLeafValue_def compareNumericLeaf_def ValidOp_def Let_def split: if_splits)
  ultimately show ?thesis
    using assms(2) by (auto simp: evalLeaf_def split: sum.splits if_splits)
qed

lemma evalPredicate_wf_error:
  assumes "wf_predicate limits depth p" and "evalPredicate data facts p = Inl e"
  shows "\<not> errors_Is e ErrInvalidPredicate \<and> \<not> errors_Is e ErrInvalidOperator"
  using evalPredicate_leaf_error [OF assms] evalLeaf_valid_error by blast

text \<open>Errors of the effects never concern the predicate.\<close>

lemma resolvePath_plain:
  "resolvePath path data facts = Inl e \<Longrightarrow> errors_Is e t \<Longrightarrow> t = ErrInvalidFactPath"
  by (auto simp: resolvePath_def resolveFactPath_def resolveEventDataPath_def Let_def json_error_def
      split: if_splits list.splits option.splits)

lemma buildEffect_plain:
  "buildEffect H clk revision event ruleID i action = Inl e \<Longrightarrow> errors_Is e t \<Longrightarrow> t = ErrInvalidFactPath"
  by (auto simp: buildEffect_def buildEmitEventEffect_def interpolateTemplates_def Let_def json_error_def
      resolveEmitEventPartitionKey_def split: option.splits sum.splits if_splits dest: resolvePath_plain)

lemma buildEffects_plain:
  "buildEffects H clk revision event ruleID kind actions i = Inl e \<Longrightarrow> errors_Is e t \<Longrightarrow>
     t = ErrInvalidFactPath \<or> t = ErrEvaluationError"
  by (induction actions arbitrary: i) (auto split: sum.splits dest: buildEffect_plain)

lemma evaluateRules_loop_wf_error:
  assumes "\<forall>r \<in> set rules. wf_predicate limits 0 (ruWhen r)"
    and "evaluateRules_loop H clk revision event facts rules st = Inl e"
  shows "\<not> errors_Is e ErrInvalidPredicate \<and> \<not> errors_Is e ErrInvalidOperator"
  using assms
proof (induction rules arbitrary: st)
  case (Cons rule rules)
  show ?case
  proof (cases "evalPredicate (evData event) facts (ruWhen rule)")
    case (Inl err)
    then show ?thesis
      using Cons.prems evalPredicate_wf_error [of limits 0 "ruWhen rule" "evData event" facts err] by auto
  next
    case (Inr ok)
    then show ?thesis
      using Cons.prems Cons.IH
      by (auto simp: processRuleResult_def Let_def split: sum.splits prod.splits if_splits dest: buildEffects_plain)
  qed
qed simp


section \<open>Properties\<close>

text \<open>A revision with two rules on the field \<^verbatim>\<open>x\<close> and an event, for the examples below.\<close>

definition sample_action :: Action where
  "sample_action = \<lparr>acEmit = Some \<lparr>emTopic = ''t'', emData = ''{}''\<rparr>, acEmitEvent = None, acCommand = None\<rparr>"

definition sample_revision :: "MatchMode \<Rightarrow> RuleRevision" where
  "sample_revision mode = \<lparr>rvTenantScope = ''t'', rvRuleID = ''o'', rvRevision = 1, rvContentHash = ''h'',
     rvMatchMode = mode,
     rvCompiled =
       [\<lparr>ruID = ''a'', ruName = [], ruDescription = [], ruTags = [], ruPriority = 2,
         ruWhen = Predicate None None None ''$.x'' ''exists'' INil, ruThen = [sample_action], ruOtherwise = []\<rparr>,
        \<lparr>ruID = ''b'', ruName = [], ruDescription = [], ruTags = [], ruPriority = 1,
         ruWhen = Predicate None None (Some (Predicate None None None ''$.y'' ''exists'' INil)) [] [] INil,
         ruThen = [sample_action], ruOtherwise = []\<rparr>],
     rvSource = ''s'', rvCompilerVersion = ''1.0.0'', rvInputContract = None, rvCreatedAt = 1\<rparr>"

definition sample_event :: EventEnvelope where
  \<open>sample_event = \<lparr>evID = ''e'', evType = ''o'', evTenantID = ''t'', evPartitionKey = ''k'', evWorkflowID = [],
     evOccurredAt = 1, evData = ''{"x":"v"}'', evHeaders = []\<rparr>\<close>

lemma sample_data: \<open>json_Unmarshal ''{"x":"v"}'' = Some (IMap [(''x'', IStr ''v'')])\<close>
  by code_simp

lemma sample_evaluates: "\<exists>d. Evaluate id clk (sample_revision mode) sample_event [] = Inr d"
  by (simp add: Evaluate_def evaluateRules_def sample_revision_def sample_event_def evalLeaf_def evalNot_def
      resolvePath_def resolveEventDataPath_def sample_data HasPrefix_def processRuleResult_def buildEffect_def
      sample_action_def Let_def Op_defs)


lemma sample_wf: "wf_revision DefaultLimits (sample_revision MatchModeFirstMatch)"
proof -
  have action: "wf_action DefaultLimits sample_action"
    unfolding sample_action_def by (rule wf_emit) (simp, code_simp)
  have leaf: "wf_predicate DefaultLimits d (Predicate None None None path ''exists'' INil)"
    if "path \<noteq> []" "d \<le> 10" for d path
    using that by (intro wf_leaf) (simp_all add: DefaultLimits_def ValidOp_def Op_defs)
  have "wf_predicate DefaultLimits 0 (Predicate None None (Some (Predicate None None None ''$.y'' ''exists'' INil)) [] [] INil)"
    by (rule wf_not) (simp_all add: leaf, simp add: DefaultLimits_def)
  then show ?thesis
    using action leaf [of "''$.x''" 0]
    by (simp add: wf_revision_def sample_revision_def wf_rules_def wf_rule_def descending_def otherwise_last_def
        sum_present_def) (simp add: DefaultLimits_def)
qed

text \<open>C7. With first match, a decision names the rule of greatest priority whose predicate
  matches, and no rule if none matches.\<close>

theorem Evaluate_first_match:
  assumes "wf_revision limits revision" and "rvMatchMode revision = MatchModeFirstMatch"
    and "Evaluate H clk revision event facts = Inr d"
  shows "(dcMatchedRules d = [] \<and> (\<forall>r \<in> set (rvCompiled revision). \<not> holds (evData event) facts (ruWhen r))) \<or>
    (\<exists>r \<in> set (rvCompiled revision). dcMatchedRules d = [ruID r] \<and> holds (evData event) facts (ruWhen r) \<and>
      (\<forall>r' \<in> set (rvCompiled revision). ruPriority r < ruPriority r' \<longrightarrow> \<not> holds (evData event) facts (ruWhen r')))"
proof -
  let ?m = "matches event facts" and ?rules = "rvCompiled revision"
  have matched: "dcMatchedRules d = map ruID (case find ?m ?rules of None \<Rightarrow> [] | Some r \<Rightarrow> [r])"
    using Evaluate_Inr(1) [OF assms(3)] assms(2) considered_first [of ?m ?rules] by simp
  have evaluated: "?m r \<longleftrightarrow> holds (evData event) facts (ruWhen r)"
    if "r \<in> set (considered MatchModeFirstMatch ?m ?rules)" for r
    using Evaluate_evaluated [OF assms(3)] assms(2) that by simp
  have desc: "descending ?rules"
    using assms(1) by (simp add: wf_revision_def)
  show ?thesis
  proof (cases "find ?m ?rules")
    case None
    then show ?thesis
      using matched evaluated considered_none [OF None] None find_None_iff [of ?m ?rules] by auto
  next
    case (Some r)
    have "\<not> holds (evData event) facts (ruWhen r')"
      if "r' \<in> set ?rules" "ruPriority r < ruPriority r'" for r'
      using considered_above [OF desc Some that(1), of MatchModeFirstMatch] that(2) evaluated [of r'] by simp
    moreover have "holds (evData event) facts (ruWhen r)" "r \<in> set ?rules"
      using considered_above [OF desc Some, of r MatchModeFirstMatch] find_SomeD [OF Some] evaluated [of r]
      by simp_all
    ultimately show ?thesis
      using matched Some by auto
  qed
qed

theorem Evaluate_first_match_witness:
  "\<exists>d. Evaluate id (\<lambda>_ _ _. 1) (sample_revision MatchModeFirstMatch) sample_event [] = Inr d \<and>
    dcMatchedRules d = [''a'']"
proof -
  let ?revision = "sample_revision MatchModeFirstMatch"
  obtain d where d: "Evaluate id (\<lambda>_ _ _. 1) ?revision sample_event [] = Inr d"
    using sample_evaluates by blast
  have "holds (evData sample_event) [] (Predicate None None None ''$.x'' ''exists'' INil)"
    by (simp add: sample_event_def evalLeaf_def resolvePath_def resolveEventDataPath_def sample_data HasPrefix_def Op_defs)
  then show ?thesis
    using Evaluate_first_match [OF sample_wf _ d] d by (auto simp: sample_revision_def)
qed

text \<open>C20. With all matches, a decision names exactly the rules whose predicates hold, in
  descending order of priority.\<close>

theorem Evaluate_all_matches:
  assumes "rvMatchMode revision \<noteq> MatchModeFirstMatch" and "Evaluate H clk revision event facts = Inr d"
  shows "dcMatchedRules d = map ruID (filter (\<lambda>r. holds (evData event) facts (ruWhen r)) (rvCompiled revision))"
  using Evaluate_Inr(1) [OF assms(2)] Evaluate_evaluated [OF assms(2)] considered_all [OF assms(1)]
  by (simp cong: filter_cong)

theorem Evaluate_all_matches_witness:
  "\<exists>d. Evaluate id (\<lambda>_ _ _. 1) (sample_revision MatchModeAllMatches) sample_event [] = Inr d \<and>
    dcMatchedRules d = map ruID (filter (\<lambda>r. holds (evData sample_event) [] (ruWhen r))
      (rvCompiled (sample_revision MatchModeAllMatches)))"
proof -
  obtain d where d: "Evaluate id (\<lambda>_ _ _. 1) (sample_revision MatchModeAllMatches) sample_event [] = Inr d"
    using sample_evaluates by blast
  have "rvMatchMode (sample_revision MatchModeAllMatches) \<noteq> MatchModeFirstMatch"
    by (simp add: sample_revision_def go_simps)
  then show ?thesis
    using Evaluate_all_matches [OF _ d] d by blast
qed

text \<open>C34. The effects of one decision have distinct identifiers, so that none is taken for a
  duplicate of another in the outbox, unless SHA-256 collides on their texts.\<close>

theorem Evaluate_effect_ids_distinct:
  assumes "wf_revision limits revision" and "inj_on H (effect_texts revision event)"
    and "Evaluate H clk revision event facts = Inr d"
  shows "distinct (map efID (dcEffects d))"
proof -
  have "distinct (map ruID (rvCompiled revision))"
    using assms(1) by (simp add: wf_revision_def wf_rules_def)
  then show ?thesis
    using Evaluate_Inr(2) [OF assms(3)] effect_ids_distinct [OF assms(2) distinct_considered considered_set]
    by simp
qed

theorem Evaluate_effect_ids_distinct_witness:
  "\<exists>d. Evaluate id (\<lambda>_ _ _. 1) (sample_revision MatchModeFirstMatch) sample_event [] = Inr d \<and>
    distinct (map efID (dcEffects d))"
proof -
  obtain d where d: "Evaluate id (\<lambda>_ _ _. 1) (sample_revision MatchModeFirstMatch) sample_event [] = Inr d"
    using sample_evaluates by blast
  show ?thesis
    using Evaluate_effect_ids_distinct [OF sample_wf _ d] d by simp
qed

text \<open>C35. Evaluating an event again under the same revision, at other times, gives the same
  decision if both evaluations succeed: the same matched rules, the same effect identifiers and the same hash.\<close>

theorem Evaluate_replay:
  assumes "Evaluate H clk revision event facts = Inr d" and "Evaluate H clk' revision event facts = Inr d'"
  shows "dcMatchedRules d' = dcMatchedRules d \<and> map efID (dcEffects d') = map efID (dcEffects d) \<and>
    dcHash d' = dcHash d"
  using Evaluate_Inr [OF assms(1)] Evaluate_Inr [OF assms(2)] by simp

theorem Evaluate_replay_witness:
  "\<exists>d d'. Evaluate id (\<lambda>_ _ _. 1) (sample_revision MatchModeAllMatches) sample_event [] = Inr d \<and>
    Evaluate id (\<lambda>_ _ _. 2) (sample_revision MatchModeAllMatches) sample_event [] = Inr d' \<and>
    dcMatchedRules d' = dcMatchedRules d \<and> map efID (dcEffects d') = map efID (dcEffects d) \<and> dcHash d' = dcHash d"
proof -
  obtain d d' where d: "Evaluate id (\<lambda>_ _ _. 1) (sample_revision MatchModeAllMatches) sample_event [] = Inr d"
    and d': "Evaluate id (\<lambda>_ _ _. 2) (sample_revision MatchModeAllMatches) sample_event [] = Inr d'"
    using sample_evaluates by meson
  then show ?thesis
    using Evaluate_replay [OF d d'] by blast
qed

text \<open>An evaluation that fails always fails with an evaluation error, which is permanent: the
  event goes to quarantine and is never retried.  With a revision the compiler accepted the
  failure is never an invalid predicate or operator.\<close>

lemma Evaluate_fails_permanently:
  assumes "wf_revision limits revision" and "Evaluate H clk revision event facts = Inl err"
  shows "errors_Is err ErrEvaluationError \<and> IsPermanent (Some err) \<and> \<not> IsRetryable (Some err) \<and>
    \<not> errors_Is err ErrInvalidPredicate \<and> \<not> errors_Is err ErrInvalidOperator"
proof -
  have "evaluateRules_loop H clk revision event facts (rvCompiled revision) ([], [], []) = Inl err"
    using assms(2) by (auto simp: Evaluate_def evaluateRules_def split: sum.splits)
  then have "\<not> errors_Is err ErrInvalidPredicate \<and> \<not> errors_Is err ErrInvalidOperator"
    using evaluateRules_loop_wf_error assms(1) by (fastforce simp: wf_revision_def wf_rules_def wf_rule_def)
  then show ?thesis
    using Evaluate_error [OF assms(2)] evaluation_error_class [of err]
    by (auto simp: IsPermanent_def IsRetryable_def Let_def)
qed

lemma resolvePath_ok:
  assumes "HasPrefix path ''$.''" and "json_Unmarshal data \<noteq> None"
    and "\<forall>fact \<in> set facts. json_Unmarshal (snd fact) \<noteq> None"
  shows "\<exists>v. resolvePath path data facts = Inr v"
proof -
  have "path \<noteq> []" using assms(1) by (auto simp: HasPrefix_def)
  moreover have "\<exists>v. resolveEventDataPath data parts = Inr v" for parts
    using assms(2) by (auto simp: resolveEventDataPath_def)
  moreover have "\<exists>v. resolveFactPath parts facts = Inr v" for parts
    using assms(3) by (fastforce simp: resolveFactPath_def split: list.splits option.splits dest: map_of_SomeD)
  ultimately show ?thesis
    using assms(1) by (simp add: resolvePath_def Let_def split: list.splits)
qed

lemma evalLeaf_error_cause:
  assumes "evalLeaf data facts path op val = Inl e" "ValidOp op"
    and "json_Unmarshal data \<noteq> None" "\<forall>fact \<in> set facts. json_Unmarshal (snd fact) \<noteq> None"
  shows "\<not> HasPrefix path ''$.'' \<or> op \<in> {OpGt, OpGte, OpLt, OpLte} \<and>
    (\<exists>v. resolvePath path data facts = Inr v \<and> v \<noteq> INil \<and> (toFloat64 v = None \<or> toFloat64 val = None))"
proof (cases "HasPrefix path ''$.''")
  case True
  then obtain v where v: "resolvePath path data facts = Inr v"
    using resolvePath_ok assms(3,4) by blast
  then have leaf: "v \<noteq> INil" "evaluateLeafValue op v val = Inl e"
    using assms(1) by (auto simp: evalLeaf_def split: if_splits)
  then have "op \<in> {OpGt, OpGte, OpLt, OpLte}" "compareNumericLeaf op v val = Inl e"
    using assms(1,2) v by (auto simp: evaluateLeafValue_def evalLeaf_def ValidOp_def split: if_splits)
  moreover from this have "compareCmp v val = 2"
    by (auto simp: compareNumericLeaf_def Let_def split: if_splits)
  then have "toFloat64 v = None \<or> toFloat64 val = None"
    by (auto simp: compareCmp_def split: option.splits if_splits)
  ultimately show ?thesis
    using v leaf(1) by blast
qed simp

text \<open>C36. A predicate the compiler accepted evaluates to its truth value, whatever the order of evaluation, when the event data and the facts are
  JSON.  The only exceptions are errors of a leaf: its path does not start with \<^verbatim>\<open>$.\<close>, or it compares by order a value that is there with one that is not
  numeric.\<close>

theorem evalPredicate_total:
  assumes "wf_predicate limits depth p" and "json_Unmarshal data \<noteq> None"
    and "\<forall>fact \<in> set facts. json_Unmarshal (snd fact) \<noteq> None"
  shows "evalPredicate data facts p = Inr (holds data facts p) \<or>
    (\<exists>e path op val. evalPredicate data facts p = Inl e \<and> leaf_of path op val p \<and> evalLeaf data facts path op val = Inl e \<and>
       (\<not> HasPrefix path ''$.'' \<or> op \<in> {OpGt, OpGte, OpLt, OpLte} \<and>
          (\<exists>v. resolvePath path data facts = Inr v \<and> v \<noteq> INil \<and> (toFloat64 v = None \<or> toFloat64 val = None))))"
proof (cases "evalPredicate data facts p")
  case (Inl e)
  then obtain path op val where leaf: "leaf_of path op val p" "ValidOp op" "evalLeaf data facts path op val = Inl e"
    using evalPredicate_leaf_error [OF assms(1)] by blast
  then show ?thesis
    using Inl evalLeaf_error_cause [OF leaf(3,2) assms(2,3)] by blast
next
  case (Inr b)
  then show ?thesis using evalPredicate_holds by blast
qed

theorem evalPredicate_total_witness:
  \<open>evalPredicate ''{"x":"v"}'' [] (Predicate None None None ''$.x'' ''exists'' INil) =
     Inr (holds ''{"x":"v"}'' [] (Predicate None None None ''$.x'' ''exists'' INil))\<close>
proof -
  let ?p = "Predicate None None None ''$.x'' ''exists'' INil"
  have "wf_predicate DefaultLimits 0 ?p"
    by (rule wf_leaf) (simp_all add: DefaultLimits_def ValidOp_def Op_defs)
  moreover have "HasPrefix path ''$.'' \<and> op \<notin> {OpGt, OpGte, OpLt, OpLte}" if "leaf_of path op val ?p" for path op val
    using that by (auto elim!: leaf_of.cases simp: HasPrefix_def Op_defs)
  ultimately show ?thesis
    using evalPredicate_total [of DefaultLimits 0 ?p \<open>''{"x":"v"}''\<close> "[]"] sample_data by auto
qed

lemma placeholder_whole:
  assumes "list_all no_brace content" and "content \<noteq> []"
  shows "find_placeholder (''{{'' @ content @ ''}}'') = Some ([], content, [])"
proof -
  have "takeWhile no_brace (content @ ''}}'') = content" "dropWhile no_brace (content @ ''}}'') = ''}}''"
    using assms(1) by (simp_all add: takeWhile_append dropWhile_append list_all_iff no_brace_def)
  then have "placeholder_at (''{{'' @ content @ ''}}'') = Some (content, [])"
    using assms(2) by (simp add: placeholder_at_def HasPrefix_def)
  then show ?thesis by simp
qed

lemma submatch_trim:
  assumes "list_all is_space ws" and "list_all is_space ws'" and "expr \<noteq> []"
    and "\<not> is_space (hd expr)" and "\<not> is_space (last expr)"
  shows "submatch (ws @ expr @ ws') = expr"
proof -
  have "dropWhile is_space (ws @ expr @ ws') = expr @ ws'"
    using assms by (cases expr) (simp_all add: dropWhile_append list_all_iff)
  moreover have "dropWhile is_space (rev ws' @ rev expr) = rev expr"
    using assms by (cases expr rule: rev_cases) (simp_all add: dropWhile_append list_all_iff)
  ultimately show ?thesis
    using assms(3) by (simp add: submatch_def Let_def)
qed

lemma is_space_no_brace: "is_space c \<Longrightarrow> no_brace c"
  by (auto simp: is_space_def no_brace_def)

lemma strings_Contains_prefix: "strings_Contains (sub @ s) sub"
  unfolding strings_Contains_def list_ex_iff by (rule bexI [of _ 0]) simp_all

text \<open>A template that is exactly one placeholder becomes the value it names, with its JSON
  type, and the empty string when there is none; a text without placeholders is unchanged.\<close>

lemma expand_placeholder:
  assumes "list_all is_space ws" and "list_all is_space ws'" and "list_all no_brace expr" and "expr \<noteq> []"
    and "\<not> is_space (hd expr)" and "\<not> is_space (last expr)"
  shows "expand c (''{{'' @ ws @ expr @ ws' @ ''}}'') = (case lookup c expr of Some val \<Rightarrow> val | None \<Rightarrow> IStr [])"
proof -
  have "list_all no_brace (ws @ expr @ ws')"
    using assms(1-3) by (auto simp: list_all_iff intro: is_space_no_brace)
  moreover have "strings_Contains (''{{'' @ ws @ expr @ ws' @ ''}}'') ''{{''"
    by (rule strings_Contains_prefix)
  ultimately show ?thesis
    using placeholder_whole [of "ws @ expr @ ws'"] submatch_trim [OF assms(1,2,4,5,6)] assms(4)
    by (simp add: expand_def del: find_placeholder.simps)
qed

end
