(* ===== verification/EventService.thy ===== *)
theory EventService
  imports ShardLeases InboxRepository OutboxRepository QuarantineRepository RuleRepository DomainServiceRepository Evaluator
begin

text \<open>
  \<^verbatim>\<open>internal/services/events/service.go\<close>: an event is processed in one transaction.  The worker's lease is
  asserted, the event is looked up in and entered into the inbox, the active revision is evaluated,
  and the execution, its effects and the deliveries to subscribed services are recorded.

  The clock is read at three places of a call: its readings are a parameter, as are the clock of
  the evaluator and SHA-256.  The repositories are those \<^verbatim>\<open>NewEventTxRepositories\<close> of the PostgreSQL adapter
  builds, which never fails on its own transactions and always has the domain services.

  The properties: whatever fails, a call either changes nothing or records the whole outcome of the
  event in one step (a refinement of an abstract relation); an event is recorded at most once; a
  worker that lost its lease records nothing; and without faults the outcome is recorded.
\<close>

section \<open>The service\<close>

record readings =
  rdFirstSeen :: time
  rdNow :: time
  rdCommitted :: time

text \<open>The execution of an inbox entry, if there is an entry and it names one.\<close>

definition executionOfEntry ::
  "string \<Rightarrow> InboxEntry option \<Rightarrow> database world \<Rightarrow> Execution option result \<times> database world" where
  "executionOfEntry context entry w =
     (case entry of
        None \<Rightarrow> (Inr None, w)
      | Some e \<Rightarrow>
          (case Execution_Get (inExecutionID e) w of
             (Inl err, w') \<Rightarrow> (Inl (wrap context err), w')
           | (Inr exec, w') \<Rightarrow> (Inr exec, w')))"

definition inbox_entry :: "readings \<Rightarrow> EventEnvelope \<Rightarrow> InboxEntry" where
  "inbox_entry rd envelope =
     \<lparr>inTenantID = evTenantID envelope, inEventID = evID envelope, inStatus = InboxStatusProcessing, inExecutionID = [],
      inPartitionKey = evPartitionKey envelope, inRuleSet = evType envelope, inPayload = evData envelope, inBatchID = [],
      inFirstSeenAt = rdFirstSeen rd, inCommittedAt = None\<rparr>"

definition afterConflict :: "EventEnvelope \<Rightarrow> database world \<Rightarrow> Execution option result \<times> database world" where
  "afterConflict envelope w =
     (case Inbox_Get (evTenantID envelope) (evID envelope) w of
        (Inl err, w') \<Rightarrow> (Inl (wrap ''get inbox after conflict'' err), w')
      | (Inr entry, w1) \<Rightarrow>
          (case executionOfEntry ''get execution after conflict'' entry w1 of
             (Inl err, w') \<Rightarrow> (Inl err, w')
           | (Inr (Some exec), w') \<Rightarrow> (Inr (Some exec), w')
           | (Inr None, w') \<Rightarrow> (Inl (Sentinel ErrInboxDuplicate), w')))"

definition enterInbox :: "readings \<Rightarrow> EventEnvelope \<Rightarrow> database world \<Rightarrow> Execution option result \<times> database world" where
  "enterInbox rd envelope w =
     (case Inbox_Insert (inbox_entry rd envelope) w of
        (Inl err, w') \<Rightarrow> (Inl (wrap ''insert inbox'' err), w')
      | (Inr inserted, w') \<Rightarrow> if inserted then (Inr None, w') else afterConflict envelope w')"

definition deduplicateEvent :: "readings \<Rightarrow> EventEnvelope \<Rightarrow> database world \<Rightarrow> Execution option result \<times> database world" where
  "deduplicateEvent rd envelope w =
     (case Inbox_Get (evTenantID envelope) (evID envelope) w of
        (Inl err, w') \<Rightarrow> (Inl (wrap ''check inbox'' err), w')
      | (Inr entry, w1) \<Rightarrow>
          (case executionOfEntry ''get existing execution'' entry w1 of
             (Inl err, w') \<Rightarrow> (Inl err, w')
           | (Inr (Some exec), w') \<Rightarrow> (Inr (Some exec), w')
           | (Inr None, w') \<Rightarrow> enterInbox rd envelope w'))"

definition loadActiveRevision :: "EventEnvelope \<Rightarrow> database world \<Rightarrow> RuleRevision result \<times> database world" where
  "loadActiveRevision envelope w =
     (case Activation_Get (evTenantID envelope) (evType envelope) w of
        (Inl err, w') \<Rightarrow> (Inl (wrap ''get activation'' err), w')
      | (Inr None, w') \<Rightarrow> (Inl (Sentinel ErrRuleNotReady), w')
      | (Inr (Some activation), w1) \<Rightarrow>
          (case Rule_GetActive (evTenantID envelope) (evType envelope) w1 of
             (Inl err, w') \<Rightarrow> (Inl (wrap ''get active revision'' err), w')
           | (Inr None, w') \<Rightarrow> (Inl (Sentinel ErrRuleNotFound), w')
           | (Inr (Some revision), w') \<Rightarrow> (Inr revision, w')))"

definition execution_of :: "(string \<Rightarrow> string) \<Rightarrow> readings \<Rightarrow> EventEnvelope \<Rightarrow> RuleRevision \<Rightarrow> Decision \<Rightarrow> Execution" where
  "execution_of H rd envelope revision decision =
     \<lparr>exID = ComputeExecutionID H (evTenantID envelope) (evID envelope) (evType envelope) (rvRevision revision),
      exEventID = evID envelope, exTenantID = evTenantID envelope, exRuleSet = evType envelope,
      exRevision = rvRevision revision, exDecisionHash = dcHash decision, exStatus = ExecutionStatusCompleted,
      exError = [], exTraceID = [], exCreatedAt = rdNow rd, exCompletedAt = None\<rparr>"

definition pending_effect :: "time \<Rightarrow> string \<Rightarrow> string \<Rightarrow> string \<Rightarrow> string \<Rightarrow> string \<Rightarrow> string \<Rightarrow> EffectType \<Rightarrow> OutboxEffect" where
  "pending_effect now effectID executionID tenantID destination name payload effectType =
     \<lparr>obID = effectID, obExecutionID = executionID, obTenantID = tenantID, obDestination = destination, obName = name,
      obPayload = payload, obEffectType = effectType, obStatus = OutboxStatusPending, obAttempts = 0, obMaxAttempts = 5,
      obAvailableAt = now, obClaimedBy = [], obClaimedAt = None, obClaimExpiresAt = None, obLastError = [],
      obCreatedAt = now, obUpdatedAt = now\<rparr>"

definition decision_effects :: "time \<Rightarrow> EventEnvelope \<Rightarrow> string \<Rightarrow> Decision \<Rightarrow> OutboxEffect list" where
  "decision_effects now envelope executionID decision =
     map (\<lambda>ef. pending_effect now (efID ef) executionID (evTenantID envelope) (efDestination ef) (efName ef) (efPayload ef)
            (efEffectType ef)) (dcEffects decision)"

definition subscriber_effects ::
  "(string \<Rightarrow> string) \<Rightarrow> time \<Rightarrow> EventEnvelope \<Rightarrow> string \<Rightarrow> string \<Rightarrow> DomainService list \<Rightarrow> OutboxEffect list" where
  "subscriber_effects H now envelope executionID payload services =
     map (\<lambda>s. pending_effect now
            (ComputeEffectID H (evTenantID envelope) (evID envelope) ''service-subscription'' 1 (dsID s) 0)
            executionID (evTenantID envelope) (dsID s) (evType envelope) payload EffectTypeServiceEvent) services"

definition recordOutcome ::
  "readings \<Rightarrow> EventEnvelope \<Rightarrow> Execution \<Rightarrow> OutboxEffect list \<Rightarrow> database world \<Rightarrow> Execution result \<times> database world" where
  "recordOutcome rd envelope execution effects w =
     (case Outbox_Insert effects w of
        (Inl err, w') \<Rightarrow> (Inl (wrap ''insert outbox'' err), w')
      | (Inr _, w1) \<Rightarrow>
          (case Inbox_MarkCommitted (rdCommitted rd) (evTenantID envelope) (evID envelope) (exID execution) w1 of
             (Inl err, w') \<Rightarrow> (Inl (wrap ''mark inbox committed'' err), w')
           | (Inr _, w') \<Rightarrow> (Inr execution, w')))"

definition persistExecutionAndOutbox ::
  "(string \<Rightarrow> string) \<Rightarrow> readings \<Rightarrow> EventEnvelope \<Rightarrow> RuleRevision \<Rightarrow> Decision \<Rightarrow> database world \<Rightarrow> Execution result \<times> database world" where
  "persistExecutionAndOutbox H rd envelope revision decision w =
     (let execution = execution_of H rd envelope revision decision
      in case Execution_Save execution w of
           (Inl err, w') \<Rightarrow> (Inl (wrap ''save execution'' err), w')
         | (Inr _, w1) \<Rightarrow>
             (case ListSubscribersForEvent (evTenantID envelope) (evType envelope) w1 of
                (Inl err, w') \<Rightarrow> (Inl (wrap ''get tenant domain subscribers'' err), w')
              | (Inr services, w2) \<Rightarrow>
                  if length services > 100
                  then (Inl (ErrorString (''event '' @ Quote (evType envelope) @ '' exceeds the 100-service fan-out limit'')), w2)
                  else (case json_EventEnvelope envelope of
                          None \<Rightarrow> (Inl (wrap ''marshal subscribed event'' marshal_error), w2)
                        | Some payload \<Rightarrow>
                            recordOutcome rd envelope execution
                              (decision_effects (rdNow rd) envelope (exID execution) decision @
                               subscriber_effects H (rdNow rd) envelope (exID execution) payload services) w2)))"

text \<open>The body of the transaction: only a recorded outcome is committed.\<close>

definition processEvent ::
  "(string \<Rightarrow> string) \<Rightarrow> clock \<Rightarrow> readings \<Rightarrow> EventEnvelope \<Rightarrow> int \<Rightarrow> u32 \<Rightarrow> string \<Rightarrow> database world \<Rightarrow>
   Execution result verdict \<times> database world" where
  "processEvent H clk rd envelope fencingToken shard workerID w =
     (case AssertHeld shard workerID fencingToken w of
        (Inl err, w') \<Rightarrow> (Discard (Inl (wrap ''fencing token validation failed'' err)), w')
      | (Inr _, w1) \<Rightarrow>
          (case deduplicateEvent rd envelope w1 of
             (Inl err, w') \<Rightarrow> (Discard (Inl err), w')
           | (Inr (Some existingExec), w') \<Rightarrow> (Discard (Inr existingExec), w')
           | (Inr None, w2) \<Rightarrow>
               (case loadActiveRevision envelope w2 of
                  (Inl err, w') \<Rightarrow> (Discard (Inl err), w')
                | (Inr revision, w3) \<Rightarrow>
                    (case Evaluate H clk revision envelope [] of
                       Inl err \<Rightarrow> (Discard (Inl (wrap ''evaluate'' err)), w3)
                     | Inr decision \<Rightarrow>
                         (case persistExecutionAndOutbox H rd envelope revision decision w3 of
                            (Inl err, w') \<Rightarrow> (Discard (Inl err), w')
                          | (Inr execution, w') \<Rightarrow> (Keep (Inr execution), w'))))))"

text \<open>\<^verbatim>\<open>TransactionManager.Begin\<close> wraps its own error once more.\<close>

definition processInTransaction ::
  "(string \<Rightarrow> string) \<Rightarrow> clock \<Rightarrow> readings \<Rightarrow> EventEnvelope \<Rightarrow> int \<Rightarrow> u32 \<Rightarrow> string \<Rightarrow> database world \<Rightarrow> Execution result \<times> database world" where
  "processInTransaction H clk rd envelope fencingToken shard workerID w =
     (case transaction (processEvent H clk rd envelope fencingToken shard workerID) w of
        (BeginFailed err, w') \<Rightarrow> (Inl (wrap ''begin tx'' (wrap ''begin tx'' err)), w')
      | (CommitFailed err, w') \<Rightarrow> (Inl (wrap ''commit tx'' err), w')
      | (Finished r, w') \<Rightarrow> (r, w'))"

definition Process ::
  "(string \<Rightarrow> string) \<Rightarrow> clock \<Rightarrow> readings \<Rightarrow> EventEnvelope \<Rightarrow> int \<Rightarrow> u32 \<Rightarrow> string \<Rightarrow> database world \<Rightarrow> Execution result \<times> database world" where
  "Process H clk rd envelope fencingToken shard workerID w =
     (case Validate envelope of
        Inl err \<Rightarrow> (Inl err, w)
      | Inr _ \<Rightarrow>
          if fencingToken \<le> 0 then (Inl (Sentinel ErrFencingTokenMismatch), w)
          else processInTransaction H clk rd envelope fencingToken shard workerID w)"

definition quarantine_id_text :: "string \<Rightarrow> string \<Rightarrow> string \<Rightarrow> string \<Rightarrow> string" where
  "quarantine_id_text sourceID eventID tenantID errClass =
     ''event-quarantine|'' @ int_dec (int (length tenantID)) @ '':'' @ tenantID @ ''|'' @
     int_dec (int (length sourceID)) @ '':'' @ sourceID @ ''|'' @ int_dec (int (length eventID)) @ '':'' @ eventID @ ''|'' @ errClass"

definition QuarantineEvent ::
  "(string \<Rightarrow> string) \<Rightarrow> time \<Rightarrow> string \<Rightarrow> string \<Rightarrow> string \<Rightarrow> string \<Rightarrow> string \<Rightarrow> database world \<Rightarrow> unit result \<times> database world" where
  "QuarantineEvent H now sourceID eventID tenantID errClass errMsg w =
     Quarantine_Save
       \<lparr>qeID = ComputeSourceHash H (quarantine_id_text sourceID eventID tenantID errClass), qeSourceType = ''event'',
        qeSourceID = sourceID, qeErrorClass = errClass, qePayloadRef = ''jetstream:flowrule'', qeEventID = eventID,
        qeTenantID = tenantID, qeError = errMsg, qeCreatedAt = now\<rparr> w"

section \<open>What a call promises\<close>

text \<open>The worker holds the lease of the shard with its token.\<close>

definition lease_held :: "time \<Rightarrow> database \<Rightarrow> u32 \<Rightarrow> string \<Rightarrow> int \<Rightarrow> bool" where
  "lease_held now db shard owner token =
     (\<exists>r \<in> set (dbLeases db). slVirtualShard r = shard \<and> slOwner r = owner \<and> slFencingToken r = token \<and> 0 < token \<and>
        now < slExpiresAt r)"

text \<open>The event has been processed: the inbox names its execution, which is on record.\<close>

definition processed :: "database \<Rightarrow> string \<Rightarrow> string \<Rightarrow> Execution \<Rightarrow> bool" where
  "processed db tenantID eventID x =
     (x \<in> set (dbExecutions db) \<and>
      (\<exists>r \<in> set (dbInbox db). inbox_key r = (tenantID, eventID) \<and> ixExecutionID r = Some (exID x)))"

definition insert_effects :: "OutboxEffect list \<Rightarrow> outbox_row table \<Rightarrow> outbox_row table" where
  "insert_effects effects t = fold (\<lambda>ef t. fst (insert_do_nothing row_id (outbox_row_of ef) t)) effects t"

definition committed_row :: "readings \<Rightarrow> EventEnvelope \<Rightarrow> string \<Rightarrow> inbox_row" where
  "committed_row rd envelope executionID =
     (inbox_row_of (inbox_entry rd envelope))\<lparr>ixStatus := InboxStatusCommitted, ixExecutionID := Some executionID,
        ixCommittedAt := Some (rdCommitted rd)\<rparr>"

text \<open>The database after an outcome: the event is in the inbox, the execution is saved, and its
  effects wait in the outbox.\<close>

definition recorded_db :: "readings \<Rightarrow> EventEnvelope \<Rightarrow> Execution \<Rightarrow> OutboxEffect list \<Rightarrow> database \<Rightarrow> database" where
  "recorded_db rd envelope execution effects db =
     db\<lparr>dbInbox := dbInbox db @ [committed_row rd envelope (exID execution)],
        dbExecutions := fst (insert_do_nothing exID execution (dbExecutions db)),
        dbOutbox := insert_effects effects (dbOutbox db)\<rparr>"

definition active_revision :: "database \<Rightarrow> EventEnvelope \<Rightarrow> RuleRevision \<Rightarrow> bool" where
  "active_revision db envelope revision =
     (\<exists>r. active_row (evTenantID envelope) (evType envelope) db = Some r \<and> revision_of_row r = Inr revision)"

definition event_subscribers :: "database \<Rightarrow> EventEnvelope \<Rightarrow> DomainService list" where
  "event_subscribers db envelope =
     map (\<lambda>s. service_of_row s []) (subscribers (evTenantID envelope) (evType envelope) db)"

text \<open>The execution and the effects the event should have: the decision of the active revision and
  the deliveries to the subscribers.\<close>

definition outcome ::
  "(string \<Rightarrow> string) \<Rightarrow> clock \<Rightarrow> readings \<Rightarrow> EventEnvelope \<Rightarrow> database \<Rightarrow> Execution \<Rightarrow> OutboxEffect list \<Rightarrow> bool" where
  "outcome H clk rd envelope db execution effects =
     (\<exists>revision decision payload.
        active_revision db envelope revision \<and> Evaluate H clk revision envelope [] = Inr decision \<and>
        json_EventEnvelope envelope = Some payload \<and> length (event_subscribers db envelope) \<le> 100 \<and>
        execution = execution_of H rd envelope revision decision \<and>
        effects = decision_effects (rdNow rd) envelope (exID execution) decision @
          subscriber_effects H (rdNow rd) envelope (exID execution) payload (event_subscribers db envelope))"

text \<open>The steps of the specification: an event is refused, was processed before, or is recorded; in
  the last case the caller may not learn of it.\<close>

inductive event_step ::
  "(string \<Rightarrow> string) \<Rightarrow> clock \<Rightarrow> readings \<Rightarrow> EventEnvelope \<Rightarrow> int \<Rightarrow> u32 \<Rightarrow> string \<Rightarrow> time \<Rightarrow>
   database \<Rightarrow> Execution result \<Rightarrow> database \<Rightarrow> bool"
  for H clk rd envelope token shard worker now db where
  refused: "event_step H clk rd envelope token shard worker now db (Inl err) db"
| replayed: "processed db (evTenantID envelope) (evID envelope) x \<Longrightarrow> lease_held now db shard worker token \<Longrightarrow>
    event_step H clk rd envelope token shard worker now db (Inr x) db"
| recorded: "lease_held now db shard worker token \<Longrightarrow>
    (evTenantID envelope, evID envelope) \<notin> inbox_key ` set (dbInbox db) \<Longrightarrow>
    outcome H clk rd envelope db x effects \<Longrightarrow> r = Inr x \<or> (\<exists>err. r = Inl (wrap ''commit tx'' err)) \<Longrightarrow>
    event_step H clk rd envelope token shard worker now db r (recorded_db rd envelope x effects db)"

section \<open>The steps of the transaction\<close>

lemma quiet_AssertHeld:
  assumes "AssertHeld shard owner token w = (Inr (), w')" "quiet w"
  shows "woDb w' = woDb w" "quiet w'" "lease_held (moNow (shd (woFuture w))) (woDb w) shard owner token"
proof -
  obtain r q where q: "QueryRow (reading (\<lambda>now db. map_option (\<lambda>r. (slFencingToken r, now < slExpiresAt r))
      (select_row (\<lambda>r. slVirtualShard r = shard \<and> slOwner r = owner) (dbLeases db)))) w = (q, w')"
    using assms(1) by (auto simp: AssertHeld_def split: prod.splits sum.splits if_splits)
  show w': "woDb w' = woDb w" "quiet w'"
    using quiet_QueryRow [OF q assms(2)] by simp_all
  show "lease_held (moNow (shd (woFuture w))) (woDb w) shard owner token"
    using AssertHeld_Inr [OF assms(1)] w' by (auto simp: lease_held_def)
qed

lemma quiet_Inbox_Get:
  assumes "Inbox_Get tenantID eventID w = (Inr entry, w')" "quiet w"
  shows "woDb w' = woDb w" "quiet w'"
    "entry = Some e \<Longrightarrow> \<exists>r \<in> set (dbInbox (woDb w)). inbox_key r = (tenantID, eventID) \<and> ixExecutionID r = Some (inExecutionID e)"
proof -
  obtain q where q: "QueryRow (reading (\<lambda>now db. select_row (\<lambda>r. inbox_key r = (tenantID, eventID)) (dbInbox db))) w = (q, w')"
    using assms(1) by (auto simp: Inbox_Get_def split: prod.splits sum.splits if_splits)
  show "woDb w' = woDb w" "quiet w'"
    using quiet_QueryRow [OF q assms(2)] by simp_all
  show "\<exists>r \<in> set (dbInbox (woDb w)). inbox_key r = (tenantID, eventID) \<and> ixExecutionID r = Some (inExecutionID e)"
    if "entry = Some e"
    using that assms(1) q quiet_QueryRow(3) [OF q assms(2)]
    by (auto simp: Inbox_Get_def scan_inbox_def scan_string_def select_row_def split: sum.splits if_splits option.splits dest!: find_SomeD)
qed

lemma quiet_executionOfEntry:
  assumes "executionOfEntry context entry w = (Inr exec, w')" "quiet w"
  shows "woDb w' = woDb w" "quiet w'"
    "exec = Some x \<Longrightarrow> \<exists>e. entry = Some e \<and> x \<in> set (dbExecutions (woDb w)) \<and> exID x = inExecutionID e"
proof -
  have *: "woDb w' = woDb w \<and> quiet w' \<and> (exec = Some x \<longrightarrow> x \<in> set (dbExecutions (woDb w)) \<and> exID x = executionID)"
    if get: "Execution_Get executionID w = (Inr exec, w')" for executionID
  proof -
    obtain q where q: "QueryRow (reading (\<lambda>now db. select_row (\<lambda>r. exID r = executionID) (dbExecutions db))) w = (q, w')"
      using get by (auto simp: Execution_Get_def split: prod.splits sum.splits if_splits)
    show ?thesis
      using get q quiet_QueryRow [OF q assms(2)]
      by (auto simp: Execution_Get_def select_row_def split: sum.splits if_splits dest!: find_SomeD)
  qed
  show "woDb w' = woDb w" "quiet w'"
    "exec = Some x \<Longrightarrow> \<exists>e. entry = Some e \<and> x \<in> set (dbExecutions (woDb w)) \<and> exID x = inExecutionID e"
    using assms * by (auto simp: executionOfEntry_def split: option.splits prod.splits sum.splits)
qed

text \<open>A look-up that finds an execution found the one of the event.\<close>

lemma entry_processed:
  assumes "Inbox_Get tenantID eventID w = (Inr entry, w1)" "executionOfEntry context entry w1 = (Inr (Some x), w')" "quiet w"
  shows "processed (woDb w) tenantID eventID x"
  using quiet_Inbox_Get [OF assms(1,3)] quiet_executionOfEntry [OF assms(2)] unfolding processed_def by metis

lemma quiet_Inbox_Insert:
  assumes "Inbox_Insert entry w = (Inr inserted, w')" "quiet w"
  shows "quiet w'"
    "inserted \<Longrightarrow> inbox_key (inbox_row_of entry) \<notin> inbox_key ` set (dbInbox (woDb w)) \<and>
       woDb w' = (woDb w)\<lparr>dbInbox := dbInbox (woDb w) @ [inbox_row_of entry]\<rparr>"
    "\<not> inserted \<Longrightarrow> woDb w' = woDb w"
proof -
  obtain n where q: "Exec (on_inbox (\<lambda>now. insert_do_nothing inbox_key (inbox_row_of entry))) w = (Inr n, w')" "inserted = (n > 0)"
    using assms(1) by (auto simp: Inbox_Insert_def split: prod.splits sum.splits)
  show "quiet w'"
    "inserted \<Longrightarrow> inbox_key (inbox_row_of entry) \<notin> inbox_key ` set (dbInbox (woDb w)) \<and>
       woDb w' = (woDb w)\<lparr>dbInbox := dbInbox (woDb w) @ [inbox_row_of entry]\<rparr>"
    "\<not> inserted \<Longrightarrow> woDb w' = woDb w"
    using quiet_Exec [OF q(1) assms(2)] q(2) by (auto simp: on_inbox_def insert_do_nothing_def split: if_splits)
qed

lemma inbox_entry_key: "inbox_key (inbox_row_of (inbox_entry rd envelope)) = (evTenantID envelope, evID envelope)"
  by (simp add: inbox_key_def inbox_row_of_def inbox_entry_def)

definition entered_db :: "readings \<Rightarrow> EventEnvelope \<Rightarrow> database \<Rightarrow> database" where
  "entered_db rd envelope db = db\<lparr>dbInbox := dbInbox db @ [inbox_row_of (inbox_entry rd envelope)]\<rparr>"

lemma quiet_afterConflict:
  assumes "afterConflict envelope w = (Inr exec, w')" "quiet w"
  shows "\<exists>x. exec = Some x \<and> processed (woDb w) (evTenantID envelope) (evID envelope) x"
proof -
  obtain entry w1 x where "Inbox_Get (evTenantID envelope) (evID envelope) w = (Inr entry, w1)"
    "executionOfEntry ''get execution after conflict'' entry w1 = (Inr (Some x), w')" "exec = Some x"
    using assms(1) by (auto simp: afterConflict_def split: prod.splits sum.splits option.splits)
  then show ?thesis
    using entry_processed assms(2) by blast
qed

lemma quiet_enterInbox:
  assumes "enterInbox rd envelope w = (Inr exec, w')" "quiet w"
  shows "case exec of
      Some x \<Rightarrow> processed (woDb w) (evTenantID envelope) (evID envelope) x
    | None \<Rightarrow> quiet w' \<and> (evTenantID envelope, evID envelope) \<notin> inbox_key ` set (dbInbox (woDb w)) \<and>
        woDb w' = entered_db rd envelope (woDb w)"
proof -
  obtain inserted w1 where i: "Inbox_Insert (inbox_entry rd envelope) w = (Inr inserted, w1)"
    using assms(1) by (auto simp: enterInbox_def split: prod.splits sum.splits)
  then have r: "(if inserted then (Inr None, w1) else afterConflict envelope w1) = (Inr exec, w')"
    using assms(1) by (simp add: enterInbox_def)
  show ?thesis
  proof (cases inserted)
    case True
    then show ?thesis
      using quiet_Inbox_Insert [OF i assms(2)] r by (auto simp: inbox_entry_key entered_db_def)
  next
    case False
    then show ?thesis
      using quiet_Inbox_Insert(1,3) [OF i assms(2)] quiet_afterConflict [of envelope w1 exec w'] r by auto
  qed
qed

lemma quiet_deduplicateEvent:
  assumes "deduplicateEvent rd envelope w = (Inr exec, w')" "quiet w"
  shows "case exec of
      Some x \<Rightarrow> processed (woDb w) (evTenantID envelope) (evID envelope) x
    | None \<Rightarrow> quiet w' \<and> (evTenantID envelope, evID envelope) \<notin> inbox_key ` set (dbInbox (woDb w)) \<and>
        woDb w' = entered_db rd envelope (woDb w)"
proof -
  obtain entry w1 exec1 w2 where g: "Inbox_Get (evTenantID envelope) (evID envelope) w = (Inr entry, w1)"
    "executionOfEntry ''get existing execution'' entry w1 = (Inr exec1, w2)"
    "exec1 = None \<longrightarrow> enterInbox rd envelope w2 = (Inr exec, w')" "exec1 \<noteq> None \<longrightarrow> exec = exec1"
    using assms(1) by (auto simp: deduplicateEvent_def split: prod.splits sum.splits option.splits)
  have w2: "woDb w2 = woDb w" "quiet w2"
    using quiet_Inbox_Get [OF g(1) assms(2)] quiet_executionOfEntry [OF g(2)] by simp_all
  show ?thesis
  proof (cases exec1)
    case None
    then show ?thesis
      using quiet_enterInbox [of rd envelope w2 exec w'] g(3) w2 by (simp split: option.splits)
  next
    case (Some x)
    then show ?thesis
      using entry_processed [OF g(1) _ assms(2)] g(2,4) by auto
  qed
qed

lemma quiet_loadActiveRevision:
  assumes "loadActiveRevision envelope w = (Inr revision, w')" "quiet w"
  shows "woDb w' = woDb w" "quiet w'" "active_revision (woDb w) envelope revision"
proof -
  obtain a w1 where g: "Activation_Get (evTenantID envelope) (evType envelope) w = (Inr (Some a), w1)"
    "Rule_GetActive (evTenantID envelope) (evType envelope) w1 = (Inr (Some revision), w')"
    using assms(1) by (auto simp: loadActiveRevision_def split: prod.splits sum.splits option.splits)
  obtain q1 where q1: "QueryRow (reading (\<lambda>now db. select_row (\<lambda>a. activation_key a = (evTenantID envelope, evType envelope))
      (dbActivations db))) w = (q1, w1)"
    using g(1) by (auto simp: Activation_Get_def split: prod.splits sum.splits if_splits)
  obtain r where q2: "QueryRow (reading (\<lambda>now. active_row (evTenantID envelope) (evType envelope))) w1 = (Inr r, w')"
    "revision_of_row r = Inr revision"
    using g(2) by (auto simp: Rule_GetActive_def scanned_revision_def split: prod.splits sum.splits if_splits)
  note w1 = quiet_QueryRow [OF q1 assms(2)]
  show "woDb w' = woDb w" "quiet w'" "active_revision (woDb w) envelope revision"
    using quiet_QueryRow [OF q2(1) w1(2)] w1(1) q2(2) by (auto simp: active_revision_def)
qed

lemma quiet_Execution_Save:
  assumes "Execution_Save execution w = (Inr (), w')" "quiet w"
  shows "quiet w'" "woDb w' = (woDb w)\<lparr>dbExecutions := fst (insert_do_nothing exID (execution\<lparr>exCompletedAt := None\<rparr>) (dbExecutions (woDb w)))\<rparr>"
proof -
  obtain n where q: "Exec (on_executions (\<lambda>now. insert_do_nothing exID (execution\<lparr>exCompletedAt := None\<rparr>))) w = (Inr n, w')"
    using assms(1) by (auto simp: Execution_Save_def split: prod.splits sum.splits)
  show "quiet w'" "woDb w' = (woDb w)\<lparr>dbExecutions := fst (insert_do_nothing exID (execution\<lparr>exCompletedAt := None\<rparr>) (dbExecutions (woDb w)))\<rparr>"
    using quiet_Exec [OF q assms(2)] by (auto simp: on_executions_def split: prod.splits)
qed

lemma quiet_ListSubscribers:
  assumes "ListSubscribersForEvent tenantID eventType w = (Inr services, w')" "quiet w"
  shows "woDb w' = woDb w" "quiet w'" "services = map (\<lambda>s. service_of_row s []) (subscribers tenantID eventType (woDb w))"
proof -
  obtain rows where q: "Query (reading (\<lambda>now. subscribers tenantID eventType)) w = (Inr (rows, None), w')"
    "services = map (\<lambda>s. service_of_row s []) rows"
    using assms(1) by (auto simp: ListSubscribersForEvent_def split: prod.splits sum.splits option.splits if_splits)
  show "woDb w' = woDb w" "quiet w'" "services = map (\<lambda>s. service_of_row s []) (subscribers tenantID eventType (woDb w))"
    using quiet_Query [OF q(1) assms(2)] q(2) by auto
qed

lemma quiet_Outbox_Insert:
  assumes "Outbox_Insert effects w = (Inr (), w')" "quiet w"
  shows "quiet w' \<and> woDb w' = (woDb w)\<lparr>dbOutbox := insert_effects effects (dbOutbox (woDb w))\<rparr>"
  using assms
proof (induction effects arbitrary: w)
  case Nil
  then show ?case by (simp add: insert_effects_def)
next
  case (Cons ef effects)
  obtain n w1 where q: "Exec (insert_effect_statement ef) w = (Inr n, w1)" "Outbox_Insert effects w1 = (Inr (), w')"
    using Cons.prems(1) by (auto split: prod.splits sum.splits if_splits)
  have "woDb w1 = (woDb w)\<lparr>dbOutbox := fst (insert_do_nothing row_id (outbox_row_of ef) (dbOutbox (woDb w)))\<rparr>"
    using quiet_Exec(1) [OF q(1) Cons.prems(2)]
    by (auto simp: insert_effect_statement_def on_outbox_def split: if_splits prod.splits)
  then show ?case
    using Cons.IH [OF q(2) quiet_Exec(2) [OF q(1) Cons.prems(2)]] by (simp add: insert_effects_def)
qed

lemma quiet_MarkCommitted:
  assumes "Inbox_MarkCommitted t tenantID eventID executionID w = (Inr (), w')" "quiet w"
  shows "woDb w' = (woDb w)\<lparr>dbInbox := fst (update_where (\<lambda>r. inbox_key r = (tenantID, eventID))
    (\<lambda>r. r\<lparr>ixStatus := InboxStatusCommitted, ixExecutionID := Some executionID, ixCommittedAt := Some t\<rparr>) (dbInbox (woDb w)))\<rparr>"
proof -
  obtain n where q: "Exec (on_inbox (\<lambda>_. update_where (\<lambda>r. inbox_key r = (tenantID, eventID))
      (\<lambda>r. r\<lparr>ixStatus := InboxStatusCommitted, ixExecutionID := Some executionID, ixCommittedAt := Some t\<rparr>))) w = (Inr n, w')"
    using assms(1) by (auto simp: Inbox_MarkCommitted_def split: prod.splits sum.splits)
  show ?thesis
    using quiet_Exec(1) [OF q assms(2)] by (auto simp: on_inbox_def split: prod.splits)
qed

text \<open>Entering the event into the inbox changes neither its subscribers nor the active revision.\<close>

lemma entered_db_simps [simp]:
  "dbLeases (entered_db rd envelope db) = dbLeases db"
  "dbExecutions (entered_db rd envelope db) = dbExecutions db"
  "dbOutbox (entered_db rd envelope db) = dbOutbox db"
  "dbInbox (entered_db rd envelope db) = dbInbox db @ [inbox_row_of (inbox_entry rd envelope)]"
  by (simp_all add: entered_db_def)

lemma subscribers_cong:
  assumes "dbServices db' = dbServices db" "dbSubscriptions db' = dbSubscriptions db" "dbDomains db' = dbDomains db"
  shows "subscribers tenantID eventType db' = subscribers tenantID eventType db"
proof -
  have "subscribes tenantID eventType db' = subscribes tenantID eventType db"
    using assms by (simp add: fun_eq_iff subscribes_def)
  then show ?thesis
    using assms by (simp add: subscribers_def)
qed

lemma subscribers_simps [simp]:
  "subscribers tenantID eventType (db\<lparr>dbExecutions := t\<rparr>) = subscribers tenantID eventType db"
  "subscribers tenantID eventType (entered_db rd envelope db) = subscribers tenantID eventType db"
  by (rule subscribers_cong; simp add: entered_db_def)+

lemma active_revision_entered: "active_revision (entered_db rd envelope db) = active_revision db"
  by (simp add: fun_eq_iff active_revision_def active_row_def entered_db_def split: option.split)

text \<open>Committing the entry that was just made.\<close>

lemma commit_entered:
  assumes "(evTenantID envelope, evID envelope) \<notin> inbox_key ` set (dbInbox db)"
  shows "fst (update_where (\<lambda>r. inbox_key r = (evTenantID envelope, evID envelope))
      (\<lambda>r. r\<lparr>ixStatus := InboxStatusCommitted, ixExecutionID := Some executionID, ixCommittedAt := Some (rdCommitted rd)\<rparr>)
      (dbInbox db @ [inbox_row_of (inbox_entry rd envelope)])) = dbInbox db @ [committed_row rd envelope executionID]"
proof -
  have "map (\<lambda>r. if inbox_key r = (evTenantID envelope, evID envelope) then f r else r) (dbInbox db) = dbInbox db" for f
    using assms by (intro map_idI) (auto simp: image_iff)
  then show ?thesis
    by (simp add: update_where_def inbox_entry_key committed_row_def)
qed

lemma quiet_recordOutcome:
  assumes "recordOutcome rd envelope x effects w = (Inr y, w')" "quiet w"
  shows "y = x" "woDb w' = (woDb w)\<lparr>dbOutbox := insert_effects effects (dbOutbox (woDb w)),
      dbInbox := fst (update_where (\<lambda>r. inbox_key r = (evTenantID envelope, evID envelope))
        (\<lambda>r. r\<lparr>ixStatus := InboxStatusCommitted, ixExecutionID := Some (exID x), ixCommittedAt := Some (rdCommitted rd)\<rparr>) (dbInbox (woDb w)))\<rparr>"
proof -
  obtain w1 where q: "Outbox_Insert effects w = (Inr (), w1)"
    "Inbox_MarkCommitted (rdCommitted rd) (evTenantID envelope) (evID envelope) (exID x) w1 = (Inr (), w')"
    and y: "y = x"
    using assms(1) by (auto simp: recordOutcome_def split: prod.splits sum.splits)
  note w1 = quiet_Outbox_Insert [OF q(1) assms(2)]
  show "y = x" by (fact y)
  show "woDb w' = (woDb w)\<lparr>dbOutbox := insert_effects effects (dbOutbox (woDb w)),
      dbInbox := fst (update_where (\<lambda>r. inbox_key r = (evTenantID envelope, evID envelope))
        (\<lambda>r. r\<lparr>ixStatus := InboxStatusCommitted, ixExecutionID := Some (exID x), ixCommittedAt := Some (rdCommitted rd)\<rparr>) (dbInbox (woDb w)))\<rparr>"
    using quiet_MarkCommitted [OF q(2)] w1 by simp
qed

lemma quiet_persist:
  assumes "persistExecutionAndOutbox H rd envelope revision decision w = (Inr x, w')" "quiet w"
    and "woDb w = entered_db rd envelope db" "(evTenantID envelope, evID envelope) \<notin> inbox_key ` set (dbInbox db)"
  obtains payload where "json_EventEnvelope envelope = Some payload" "length (event_subscribers db envelope) \<le> 100"
    "x = execution_of H rd envelope revision decision"
    "woDb w' = recorded_db rd envelope x (decision_effects (rdNow rd) envelope (exID x) decision @
       subscriber_effects H (rdNow rd) envelope (exID x) payload (event_subscribers db envelope)) db"
proof -
  let ?x = "execution_of H rd envelope revision decision"
  obtain w1 services w2 payload where q: "Execution_Save ?x w = (Inr (), w1)"
    "ListSubscribersForEvent (evTenantID envelope) (evType envelope) w1 = (Inr services, w2)"
    "length services \<le> 100" "json_EventEnvelope envelope = Some payload"
    "recordOutcome rd envelope ?x (decision_effects (rdNow rd) envelope (exID ?x) decision @
       subscriber_effects H (rdNow rd) envelope (exID ?x) payload services) w2 = (Inr x, w')"
    using assms(1)
    by (auto simp: persistExecutionAndOutbox_def Let_def split: prod.splits sum.splits option.splits if_splits)
  have x: "?x\<lparr>exCompletedAt := None\<rparr> = ?x"
    by (simp add: execution_of_def)
  note w1 = quiet_Execution_Save [OF q(1) assms(2)]
  note w2 = quiet_ListSubscribers [OF q(2) w1(1)]
  have services: "services = event_subscribers db envelope"
    using w2(3) w1(2) assms(3) by (simp add: event_subscribers_def)
  note w' = quiet_recordOutcome [OF q(5) w2(2)]
  show ?thesis
    using w' w2(1) w1(2) assms(3) q(3,4) services x commit_entered [OF assms(4)]
    by (intro that [of payload]) (simp_all add: recorded_db_def entered_db_def)
qed

text \<open>A body that keeps its changes recorded the outcome; one that returns an execution without
  keeping anything found it.\<close>

lemma processEvent_Keep:
  assumes "processEvent H clk rd envelope token shard worker w = (Keep r, w')" "quiet w"
  obtains x effects where "r = Inr x" "lease_held (moNow (shd (woFuture w))) (woDb w) shard worker token"
    "(evTenantID envelope, evID envelope) \<notin> inbox_key ` set (dbInbox (woDb w))"
    "outcome H clk rd envelope (woDb w) x effects" "woDb w' = recorded_db rd envelope x effects (woDb w)"
proof -
  obtain w1 w2 revision w3 decision x where q: "AssertHeld shard worker token w = (Inr (), w1)"
    "deduplicateEvent rd envelope w1 = (Inr None, w2)" "loadActiveRevision envelope w2 = (Inr revision, w3)"
    "Evaluate H clk revision envelope [] = Inr decision"
    "persistExecutionAndOutbox H rd envelope revision decision w3 = (Inr x, w')" "r = Inr x"
    using assms(1) by (auto simp: processEvent_def split: prod.splits sum.splits option.splits)
  note w1 = quiet_AssertHeld [OF q(1) assms(2)]
  have w2: "quiet w2" "(evTenantID envelope, evID envelope) \<notin> inbox_key ` set (dbInbox (woDb w))"
    "woDb w2 = entered_db rd envelope (woDb w)"
    using quiet_deduplicateEvent [OF q(2) w1(2)] w1(1) by simp_all
  note w3 = quiet_loadActiveRevision [OF q(3) w2(1)]
  have "woDb w3 = entered_db rd envelope (woDb w)"
    using w3(1) w2(3) by simp
  from quiet_persist [OF q(5) w3(2) this w2(2)] obtain payload where
    "json_EventEnvelope envelope = Some payload" "length (event_subscribers (woDb w) envelope) \<le> 100"
    "x = execution_of H rd envelope revision decision"
    "woDb w' = recorded_db rd envelope x (decision_effects (rdNow rd) envelope (exID x) decision @
       subscriber_effects H (rdNow rd) envelope (exID x) payload (event_subscribers (woDb w) envelope)) (woDb w)" .
  moreover have "active_revision (woDb w) envelope revision"
    using w3(3) w2(3) by (simp add: active_revision_entered)
  ultimately show ?thesis
    using that [OF q(6) w1(3) w2(2)] q(4) by (auto simp: outcome_def)
qed

lemma processEvent_Discard:
  assumes "processEvent H clk rd envelope token shard worker w = (Discard (Inr x), w')" "quiet w"
  shows "processed (woDb w) (evTenantID envelope) (evID envelope) x"
    "lease_held (moNow (shd (woFuture w))) (woDb w) shard worker token"
proof -
  obtain w1 where q: "AssertHeld shard worker token w = (Inr (), w1)" "deduplicateEvent rd envelope w1 = (Inr (Some x), w')"
    using assms(1) by (auto simp: processEvent_def split: prod.splits sum.splits option.splits)
  note w1 = quiet_AssertHeld [OF q(1) assms(2)]
  show "processed (woDb w) (evTenantID envelope) (evID envelope) x"
    "lease_held (moNow (shd (woFuture w))) (woDb w) shard worker token"
    using quiet_deduplicateEvent [OF q(2) w1(2)] w1 by simp_all
qed

lemma transaction_world_now: "moNow (shd (woFuture (transaction_world m db))) = moNow m" "woDb (transaction_world m db) = db"
  by (simp_all add: transaction_world_def)

text \<open>The call as a step of the specification, taken at the moment it begins.\<close>

lemma processInTransaction_step:
  assumes "processInTransaction H clk rd envelope token shard worker w = (r, w')"
  shows "event_step H clk rd envelope token shard worker (moNow (shd (woFuture w))) (now_db w) r (woDb w')"
proof -
  let ?tw = "transaction_world (shd (woFuture w)) (now_db w)"
  note tw = quiet_transaction_world [of "shd (woFuture w)" "now_db w"]
  note keep = processEvent_Keep [OF _ tw, unfolded transaction_world_now]
  obtain t where t: "transaction (processEvent H clk rd envelope token shard worker) w = (t, w')"
    "r = (case t of BeginFailed err \<Rightarrow> Inl (wrap ''begin tx'' (wrap ''begin tx'' err))
          | CommitFailed err \<Rightarrow> Inl (wrap ''commit tx'' err) | Finished r \<Rightarrow> r)"
    using assms by (auto simp: processInTransaction_def split: prod.splits transaction_result.splits)
  from t(1) show ?thesis
  proof (cases rule: transaction_cases)
    case (begin_failed err)
    then show ?thesis using t(2) by (simp add: refused)
  next
    case (discarded a tw')
    then show ?thesis
    proof (cases a)
      case (Inr x)
      then show ?thesis
        using discarded t(2) processEvent_Discard [OF _ tw, unfolded transaction_world_now] by (auto intro: replayed)
    qed (use t(2) in \<open>simp add: refused\<close>)
  next
    case (not_committed a tw' err)
    then show ?thesis using t(2) by (simp add: refused)
  next
    case (maybe_committed a tw' err)
    from keep [OF maybe_committed(1)] obtain x effects where k: "a = Inr x"
      "lease_held (moNow (shd (woFuture w))) (now_db w) shard worker token"
      "(evTenantID envelope, evID envelope) \<notin> inbox_key ` set (dbInbox (now_db w))"
      "outcome H clk rd envelope (now_db w) x effects" "woDb tw' = recorded_db rd envelope x effects (now_db w)" .
    show ?thesis
      unfolding maybe_committed(3) k(5) by (rule recorded [OF k(2-4)]) (simp add: t(2) maybe_committed(2))
  next
    case (committed a tw')
    from keep [OF committed(1)] obtain x effects where k: "a = Inr x"
      "lease_held (moNow (shd (woFuture w))) (now_db w) shard worker token"
      "(evTenantID envelope, evID envelope) \<notin> inbox_key ` set (dbInbox (now_db w))"
      "outcome H clk rd envelope (now_db w) x effects" "woDb tw' = recorded_db rd envelope x effects (now_db w)" .
    show ?thesis
      unfolding committed(3) k(5) by (rule recorded [OF k(2-4)]) (simp add: t(2) committed(2) k(1))
  qed
qed

lemma Process_step:
  assumes "Process H clk rd envelope token shard worker w = (r, w')"
  shows "\<exists>db \<in> {woDb w, now_db w}. event_step H clk rd envelope token shard worker (moNow (shd (woFuture w))) db r (woDb w')"
proof (cases "\<exists>err. (r, w') = (Inl err, w)")
  case True
  then show ?thesis by (auto intro: refused)
next
  case False
  then have "processInTransaction H clk rd envelope token shard worker w = (r, w')"
    using assms by (auto simp: Process_def split: sum.splits if_splits)
  then show ?thesis
    using processInTransaction_step by blast
qed

text \<open>C1. Processing an event refines the specification: whatever calls fail on the way, a call refuses
  the event and changes nothing, or returns the execution recorded before and changes nothing, or
  records execution, effects, deliveries and inbox entry at once, as the decision of the active revision
  demands, while the worker holds the lease.  It takes that step on the database of the caller or
  on the one it finds when the transaction begins.\<close>

theorem Process_refines:
  "\<exists>db \<in> {woDb w, now_db w}.
     event_step H clk rd envelope token shard worker (moNow (shd (woFuture w))) db
       (fst (Process H clk rd envelope token shard worker w)) (woDb (snd (Process H clk rd envelope token shard worker w)))"
  using Process_step [of H clk rd envelope token shard worker w] by (metis prod.collapse)

end
