(* ===== verification/EventHistory.thy ===== *)
theory EventHistory
  imports EventService
begin

text \<open>
  Any number of calls of any workers.  The calls on leases (\<^verbatim>\<open>internal/adapters/postgres/shard.go\<close>) and the
  processing of events (\<^verbatim>\<open>internal/services/events/service.go\<close>) act on one database, amid failing calls and
  other traffic that respects the orders below: an event keeps the execution it got, and fencing
  tokens grow.  From the refinement it follows that an event is recorded at most once, and that a
  worker whose shard has been taken over records nothing.  Without faults the outcome of a valid
  event is recorded.
\<close>

section \<open>The order of inbox and executions\<close>

definition inbox_grows :: "inbox_row \<Rightarrow> inbox_row \<Rightarrow> bool" where
  "inbox_grows r r' = (inbox_key r' = inbox_key r \<and> (ixExecutionID r \<noteq> None \<longrightarrow> ixExecutionID r' = ixExecutionID r))"

text \<open>An execution keeps everything but its status, its error and its completion time.\<close>

definition execution_grows :: "Execution \<Rightarrow> Execution \<Rightarrow> bool" where
  "execution_grows x x' =
     (x'\<lparr>exStatus := exStatus x, exError := exError x, exCompletedAt := exCompletedAt x\<rparr> = x)"

interpretation inbox_rows: growing_rows inbox_key dbInbox inbox_grows
  by unfold_locales (auto simp: inbox_grows_def)

lemma execution_grows_iff:
  "execution_grows x x' \<longleftrightarrow> exID x' = exID x \<and> exEventID x' = exEventID x \<and> exTenantID x' = exTenantID x \<and>
     exRuleSet x' = exRuleSet x \<and> exRevision x' = exRevision x \<and> exDecisionHash x' = exDecisionHash x \<and>
     exTraceID x' = exTraceID x \<and> exCreatedAt x' = exCreatedAt x"
  by (cases x; cases x') (auto simp: execution_grows_def)

interpretation execution_rows: growing_rows exID dbExecutions execution_grows
  by unfold_locales (auto simp: execution_grows_iff)

definition event_order :: "database \<Rightarrow> database \<Rightarrow> bool" where
  "event_order db db' =
     (table_order dbInbox inbox_key inbox_grows db db' \<and> table_order dbExecutions exID execution_grows db db')"

interpretation events: interference event_order
  by unfold_locales (auto simp: event_order_def inbox_rows.R_refl execution_rows.R_refl
      intro: inbox_rows.R_trans execution_rows.R_trans)

lemma recorded_order: 
  assumes "(evTenantID envelope, evID envelope) \<notin> inbox_key ` set (dbInbox db)"
  shows "event_order db (recorded_db rd envelope x effects db)"
proof -
  have "inbox_key (committed_row rd envelope (exID x)) = (evTenantID envelope, evID envelope)"
    by (simp add: committed_row_def inbox_key_def inbox_row_of_def inbox_entry_def)
  then show ?thesis
    using assms inbox_rows.live_append [of "committed_row rd envelope (exID x)" "dbInbox db"]
    by (simp add: event_order_def table_order_def recorded_db_def execution_rows.live_insert_do_nothing)
qed

lemma event_step_order:
  "event_step H clk rd envelope token shard worker now db r db' \<Longrightarrow> event_order db db' \<and> dbLeases db' = dbLeases db"
  by (cases rule: event_step.cases) (auto simp: events.R_refl recorded_order, simp_all add: recorded_db_def)

section \<open>Calls\<close>

datatype worker_call =
    CallLease lease_call
  | CallProcess "string \<Rightarrow> string" clock readings EventEnvelope int u32 string
  | CallUpdateStatus time string ExecutionStatus string

primrec perform_worker :: "worker_call \<Rightarrow> database world \<Rightarrow> database world" where
  "perform_worker (CallLease c) w = perform c w"
| "perform_worker (CallProcess H clk rd envelope token shard worker) w = snd (Process H clk rd envelope token shard worker w)"
| "perform_worker (CallUpdateStatus now executionID status errMsg) w = snd (Execution_UpdateStatus now executionID status errMsg w)"

text \<open>What the statements touch.\<close>

lemma on_leases_Inr: "on_leases f now db = Inr (db', a) \<Longrightarrow> db' = db\<lparr>dbLeases := fst (f now (dbLeases db))\<rparr>"
  by (auto simp: on_leases_def split: prod.splits)

lemma on_executions_Inr: "on_executions f now db = Inr (db', a) \<Longrightarrow> db' = db\<lparr>dbExecutions := fst (f now (dbExecutions db))\<rparr>"
  by (auto simp: on_executions_def split: prod.splits)

lemma on_leases_event: "guarantees event_order (on_leases f)"
  by (auto simp: guarantees_def event_order_def table_order_def inbox_rows.live_refl execution_rows.live_refl dest!: on_leases_Inr)

lemma GetOwner_event: "within event_order w (snd (GetOwner shard w))"
  by (auto simp: GetOwner_def split: prod.splits sum.splits intro: events.withinI_reading)

lemma lease_call_event: "within event_order w (perform c w)"
  by (cases c)
    (auto simp: Acquire_def Renew_def RenewOwned_def Release_def AssertHeld_def ValidateFencingToken_def ListOwned_def GetOwner_event
      split: prod.splits sum.splits option.splits if_splits
      intro: events.within_refl events.withinI(1,3) [OF _ on_leases_event] events.withinI_reading
        events.within_trans [OF events.withinI(1) [OF _ on_leases_event] GetOwner_event])

lemma processInTransaction_rely:
  "(\<And>db. R db db) \<Longrightarrow> (\<And>db db' db''. R db db' \<Longrightarrow> R db' db'' \<Longrightarrow> R db db'') \<Longrightarrow> rely R w \<Longrightarrow>
    rely R (snd (processInTransaction H clk rd envelope token shard worker w))"
  using interference.transaction_rely [of R w "processEvent H clk rd envelope token shard worker"]
  by (auto simp: processInTransaction_def interference_def split: prod.splits transaction_result.splits)

lemma Process_within:
  assumes "interference R" and "\<And>now db r db'. event_step H clk rd envelope token shard worker now db r db' \<Longrightarrow> R db db'"
  shows "within R w (snd (Process H clk rd envelope token shard worker w))"
  unfolding within_def
proof
  assume rely: "rely R w"
  note R = interference.R_refl [OF assms(1)] interference.R_trans [OF assms(1)]
  obtain r w' where p: "Process H clk rd envelope token shard worker w = (r, w')"
    by (metis prod.exhaust)
  have "rely R w'"
    using p rely processInTransaction_rely [where R = R and w = w and H = H and clk = clk and rd = rd and envelope = envelope and
        token = token and shard = shard and worker = worker] R
    by (auto simp: Process_def split: sum.splits if_splits)
  moreover have "R (woDb w) (woDb w')"
    using Process_step [OF p] assms(2) R interference.rely_others [OF assms(1) rely] by blast
  ultimately show "R (woDb w) (woDb (snd (Process H clk rd envelope token shard worker w))) \<and>
      rely R (snd (Process H clk rd envelope token shard worker w))"
    using p by simp
qed

lemma Process_event: "within event_order w (snd (Process H clk rd envelope token shard worker w))"
  by (rule Process_within [OF events.interference_axioms]) (simp add: event_step_order)

lemma Process_lease: "within lease_order w (snd (Process H clk rd envelope token shard worker w))"
  by (rule Process_within [OF leases.interference_axioms])
    (drule event_step_order, simp add: lease_order_def lease_le_subset)

lemma UpdateStatus_within:
  assumes "interference R" and "\<And>db t. rows_live_on exID execution_grows (dbExecutions db) t \<Longrightarrow> R db (db\<lparr>dbExecutions := t\<rparr>)"
  shows "within R w (snd (Execution_UpdateStatus now executionID status errMsg w))"
proof -
  let ?f = "\<lambda>c. on_executions (\<lambda>_. update_where (\<lambda>r. exID r = executionID)
      (\<lambda>r. r\<lparr>exStatus := status, exError := errMsg, exCompletedAt := c\<rparr>))"
  have "rows_live_on exID execution_grows t (fst (update_where (\<lambda>r. exID r = executionID)
      (\<lambda>r. r\<lparr>exStatus := status, exError := errMsg, exCompletedAt := c\<rparr>) t))" for t c
    by (rule execution_rows.live_update) (simp add: execution_grows_iff)
  then have "guarantees R (?f c)" for c
    using assms(2) by (auto simp: guarantees_def dest!: on_executions_Inr)
  then show ?thesis
    by (auto simp: Execution_UpdateStatus_def Let_def split: prod.splits sum.splits intro: interference.withinI(1) [OF assms(1)])
qed

lemma perform_worker_event: "within event_order w (perform_worker c w)"
proof (cases c)
  case (CallUpdateStatus now executionID status errMsg)
  then show ?thesis
    using UpdateStatus_within [OF events.interference_axioms]
    by (simp add: event_order_def table_order_def inbox_rows.live_refl)
qed (simp_all add: lease_call_event Process_event)

lemma perform_worker_lease: "within lease_order w (perform_worker c w)"
proof (cases c)
  case (CallUpdateStatus now executionID status errMsg)
  then show ?thesis
    using UpdateStatus_within [OF leases.interference_axioms] by (simp add: lease_order_def lease_le_subset)
qed (simp_all add: perform_within Process_lease)

lemma perform_workers_event: "within event_order w (fold perform_worker calls w)"
  by (rule events.fold_within) (rule perform_worker_event)

lemma perform_workers_lease: "within lease_order w (fold perform_worker calls w)"
  by (rule leases.fold_within) (rule perform_worker_lease)

section \<open>At most once\<close>

definition keys_ok :: "database \<Rightarrow> bool" where
  "keys_ok db = (distinct (map inbox_key (dbInbox db)) \<and> distinct (map exID (dbExecutions db)))"

definition execution_known :: "database \<Rightarrow> string \<Rightarrow> string \<Rightarrow> string \<Rightarrow> bool" where
  "execution_known db tenantID eventID executionID =
     (executionID \<in> exID ` set (dbExecutions db) \<and>
      (\<exists>r \<in> set (dbInbox db). inbox_key r = (tenantID, eventID) \<and> ixExecutionID r = Some executionID))"

lemma keys_ok_order: "event_order db db' \<Longrightarrow> keys_ok db \<Longrightarrow> keys_ok db'"
  by (simp add: event_order_def keys_ok_def table_order_def rows_live_on_def)

lemma execution_known_order:
  assumes "event_order db db'" "keys_ok db" "execution_known db tenantID eventID executionID"
  shows "execution_known db' tenantID eventID executionID"
proof -
  obtain r x where r: "r \<in> set (dbInbox db)" "inbox_key r = (tenantID, eventID)" "ixExecutionID r = Some executionID"
    and x: "x \<in> set (dbExecutions db)" "exID x = executionID"
    using assms(3) by (auto simp: execution_known_def)
  obtain r' where "r' \<in> set (dbInbox db')" "inbox_grows r r'"
    using assms(1,2) r(1) by (auto simp: event_order_def keys_ok_def table_order_def rows_live_on_def)
  moreover obtain x' where "x' \<in> set (dbExecutions db')" "execution_grows x x'"
    using assms(1,2) x(1) by (auto simp: event_order_def keys_ok_def table_order_def rows_live_on_def)
  ultimately show ?thesis
    using r(2,3) x(2) unfolding execution_known_def inbox_grows_def execution_grows_iff by (metis image_eqI option.distinct(1))
qed

lemma processed_known: "processed db tenantID eventID x \<Longrightarrow> execution_known db tenantID eventID (exID x)"
  by (auto simp: processed_def execution_known_def)

lemma processed_unique:
  assumes "processed db tenantID eventID y" "execution_known db tenantID eventID executionID" "keys_ok db"
  shows "exID y = executionID"
  using assms inbox_pk.same_row [of "dbInbox db"] unfolding processed_def execution_known_def keys_ok_def
  by (metis option.inject)

lemma recorded_known: "execution_known (recorded_db rd envelope x effects db) (evTenantID envelope) (evID envelope) (exID x)"
  by (auto simp: execution_known_def recorded_db_def insert_do_nothing_def committed_row_def inbox_key_def inbox_row_of_def inbox_entry_def)

text \<open>A step that returns an execution leaves it on record; from a state where it is on record, a
  step returns nothing else and changes nothing.\<close>

lemma step_known:
  "event_step H clk rd envelope token shard worker now db (Inr x) db' \<Longrightarrow>
    execution_known db' (evTenantID envelope) (evID envelope) (exID x)"
  by (erule event_step.cases) (auto intro: processed_known recorded_known)

lemma step_from_known:
  assumes "event_step H clk rd envelope token shard worker now db r db'"
    and "execution_known db (evTenantID envelope) (evID envelope) executionID" "keys_ok db"
  shows "db' = db" "r = Inr y \<Longrightarrow> exID y = executionID"
  using assms by (cases rule: event_step.cases; auto simp: processed_unique execution_known_def image_iff)+

lemma Process_known:
  assumes "Process H clk rd envelope token shard worker w = (Inr x, w')"
  shows "execution_known (woDb w') (evTenantID envelope) (evID envelope) (exID x)"
  using Process_step [OF assms] step_known by blast

lemma process_again:
  assumes "keys_ok (woDb w)" and "rely event_order w"
    and "Process H clk rd envelope token shard worker w = (Inr x, w1)"
    and "fold perform_worker calls w1 = w2"
    and "evTenantID envelope' = evTenantID envelope" and "evID envelope' = evID envelope"
    and "Process H' clk' rd' envelope' token' shard' worker' w2 = (r, w3)"
  shows "woDb w3 \<in> {woDb w2, now_db w2}" "r = Inr y \<Longrightarrow> exID y = exID x"
    "execution_known (woDb w2) (evTenantID envelope') (evID envelope') (exID x)" "keys_ok (woDb w2)"
proof -
  have w1: "event_order (woDb w) (woDb w1)" "rely event_order w1"
    using Process_event [of w H clk rd envelope token shard worker] assms(2,3) by (simp_all add: within_def)
  have w2: "event_order (woDb w1) (woDb w2)" "rely event_order w2"
    using perform_workers_event [of w1 calls] w1(2) assms(4) by (simp_all add: within_def)
  have known: "execution_known (woDb w2) (evTenantID envelope') (evID envelope') (exID x)" "keys_ok (woDb w2)"
    using Process_known [OF assms(3)] execution_known_order [OF w2(1)] keys_ok_order [OF w2(1)] keys_ok_order [OF w1(1) assms(1)]
    by (simp_all add: assms(5,6))
  have now: "event_order (woDb w2) (now_db w2)"
    using w2(2) by (rule events.rely_others)
  obtain db where db: "db \<in> {woDb w2, now_db w2}"
    "event_step H' clk' rd' envelope' token' shard' worker' (moNow (shd (woFuture w2))) db r (woDb w3)"
    using Process_step [OF assms(7)] by blast
  have "execution_known db (evTenantID envelope') (evID envelope') (exID x)" "keys_ok db"
    using db(1) known now execution_known_order keys_ok_order by blast+
  note last = step_from_known [OF db(2) this]
  show "woDb w3 \<in> {woDb w2, now_db w2}" "r = Inr y \<Longrightarrow> exID y = exID x"
    using db(1) last by simp_all
  show "execution_known (woDb w2) (evTenantID envelope') (evID envelope') (exID x)" "keys_ok (woDb w2)"
    using known by simp_all
qed

section \<open>Fencing\<close>

lemma lease_held_token:
  assumes "lease_order db db'" "lease_ok (dbLeases db)" "lease_held now db shard a token" "lease_held now' db' shard b token'"
  shows "token \<le> token'"
proof -
  obtain r r' where r: "r \<in> set (dbLeases db)" "slVirtualShard r = shard" "slFencingToken r = token"
    and r': "r' \<in> set (dbLeases db')" "slVirtualShard r' = shard" "slFencingToken r' = token'"
    using assms(3,4) by (auto simp: lease_held_def)
  obtain r'' where "r'' \<in> set (dbLeases db')" "lease_step r r''" "lease_ok (dbLeases db')"
    using assms(1,2) r(1) by (auto simp: lease_order_def lease_le_def)
  moreover from this have "r'' = r'"
    using lease_key.same_row [of "dbLeases db'" r'' r'] r(2) r'(1,2) by (simp add: lease_ok_def lease_step_def)
  ultimately show ?thesis
    using r(3) r'(3) by (auto simp: lease_step_def)
qed

lemma step_held:
  "event_step H clk rd envelope token shard worker now db (Inr x) db' \<Longrightarrow>
    lease_held now db shard worker token \<and> dbLeases db' = dbLeases db"
  by (erule event_step.cases) (auto simp: recorded_db_def)

lemma step_not_held:
  "event_step H clk rd envelope token shard worker now db r db' \<Longrightarrow> \<not> lease_held now db shard worker token \<Longrightarrow>
    db' = db \<and> (\<exists>err. r = Inl err)"
  by (cases rule: event_step.cases) auto

text \<open>C11. Zombie workers.  After a worker has processed an event of a shard with its token, and any calls
  of any workers have followed amid failing calls, a worker that comes with a smaller token
  for the shard is refused and records nothing.\<close>

theorem stale_worker_records_nothing:
  assumes "lease_ok (dbLeases (woDb w))" and "rely lease_order w"
    and "Process H clk rd envelope token shard worker w = (Inr x, w1)"
    and "fold perform_worker calls w1 = w2"
    and "stale < token"
    and "Process H' clk' rd' envelope' stale shard worker' w2 = (r, w3)"
  shows "woDb w3 \<in> {woDb w2, now_db w2} \<and> (\<exists>err. r = Inl err)"
proof -
  obtain db where db: "db \<in> {woDb w, now_db w}"
    "event_step H clk rd envelope token shard worker (moNow (shd (woFuture w))) db (Inr x) (woDb w1)"
    using Process_step [OF assms(3)] by blast
  have ok: "lease_ok (dbLeases db)"
    using db(1) assms(1) leases.rely_others [OF assms(2)] by (auto simp: lease_order_def)
  note held = step_held [OF db(2)]
  have w1: "rely lease_order w1"
    using Process_lease [of w H clk rd envelope token shard worker] assms(2,3) by (simp add: within_def)
  have w2: "lease_order (woDb w1) (woDb w2)" "rely lease_order w2"
    using perform_workers_lease [of w1 calls] w1 assms(4) by (simp_all add: within_def)
  obtain db' where db': "db' \<in> {woDb w2, now_db w2}"
    "event_step H' clk' rd' envelope' stale shard worker' (moNow (shd (woFuture w2))) db' r (woDb w3)"
    using Process_step [OF assms(6)] by blast
  have "lease_order (woDb w1) db'"
    using db'(1) w2 leases.rely_others leases.R_trans by blast
  then have "lease_order db db'"
    using held by (simp add: lease_order_def)
  then have "\<not> lease_held (moNow (shd (woFuture w2))) db' shard worker' stale"
    using lease_held_token [OF _ ok conjunct1 [OF held]] assms(5) by fastforce
  from step_not_held [OF db'(2) this] show ?thesis
    using db'(1) by auto
qed

section \<open>Without faults\<close>

lemma AssertHeld_calm:
  assumes "lease_held now db shard worker token" "distinct (map slVirtualShard (dbLeases db))"
  shows "AssertHeld shard worker token (calm now db) = (Inr (), calm now db)"
proof -
  obtain r where r: "r \<in> set (dbLeases db)" "slVirtualShard r = shard" "slOwner r = worker" "slFencingToken r = token"
    "0 < token" "now < slExpiresAt r"
    using assms(1) by (auto simp: lease_held_def)
  have "select_row (\<lambda>r. slVirtualShard r = shard \<and> slOwner r = worker) (dbLeases db) = Some r"
  proof (cases "select_row (\<lambda>r. slVirtualShard r = shard \<and> slOwner r = worker) (dbLeases db)")
    case None
    then show ?thesis using r by (auto simp: select_row_def find_None_iff)
  next
    case (Some r')
    then have "r' \<in> set (dbLeases db)" "slVirtualShard r' = shard"
      by (auto simp: select_row_def dest: find_SomeD)
    then show ?thesis
      using Some r lease_key.same_row [OF assms(2)] by auto
  qed
  then show ?thesis
    using r by (simp add: AssertHeld_def calm_simps)
qed

lemma deduplicateEvent_calm:
  assumes "(evTenantID envelope, evID envelope) \<notin> inbox_key ` set (dbInbox db)"
  shows "deduplicateEvent rd envelope (calm now db) = (Inr None, calm now (entered_db rd envelope db))"
proof -
  have "select_row (\<lambda>r. inbox_key r = (evTenantID envelope, evID envelope)) (dbInbox db) = None"
    using assms by (simp add: inbox_pk.select_key_None)
  then show ?thesis
    using assms
    by (simp add: deduplicateEvent_def Inbox_Get_def calm_simps executionOfEntry_def enterInbox_def Inbox_Insert_def on_inbox_def
        insert_do_nothing_def inbox_entry_key entered_db_def)
qed

lemma loadActiveRevision_calm:
  assumes "active_revision db envelope revision"
  shows "loadActiveRevision envelope (calm now (entered_db rd envelope db)) = (Inr revision, calm now (entered_db rd envelope db))"
proof -
  let ?db = "entered_db rd envelope db"
  obtain row where row: "active_row (evTenantID envelope) (evType envelope) ?db = Some row" "revision_of_row row = Inr revision"
    using assms active_revision_entered [of rd envelope db] unfolding active_revision_def by (metis (no_types))
  then obtain a where "select_row (\<lambda>a. activation_key a = (evTenantID envelope, evType envelope)) (dbActivations ?db) = Some a"
    by (auto simp: active_row_def split: option.splits)
  then show ?thesis
    using row by (simp add: loadActiveRevision_def Activation_Get_def Rule_GetActive_def scanned_revision_def calm_simps)
qed

lemma Outbox_Insert_calm:
  assumes "\<And>ef. ef \<in> set effects \<Longrightarrow> obTenantID ef \<noteq> [] \<and> obExecutionID ef \<in> exID ` set (dbExecutions db)"
  shows "Outbox_Insert effects (calm now db) = (Inr (), calm now (db\<lparr>dbOutbox := insert_effects effects (dbOutbox db)\<rparr>))"
  using assms
proof (induction effects arbitrary: db)
  case Nil
  then show ?case by (simp add: insert_effects_def)
next
  case (Cons ef effects)
  let ?db = "db\<lparr>dbOutbox := fst (insert_do_nothing row_id (outbox_row_of ef) (dbOutbox db))\<rparr>"
  have "Exec (insert_effect_statement ef) (calm now db) =
      (Inr (snd (insert_do_nothing row_id (outbox_row_of ef) (dbOutbox db))), calm now ?db)"
    using Cons.prems [of ef] by (simp add: calm_simps insert_effect_statement_def on_outbox_def split: prod.splits)
  then show ?case
    using Cons.prems Cons.IH [of ?db] by (simp add: insert_effects_def)
qed

lemma recordOutcome_calm:
  assumes "\<And>ef. ef \<in> set effects \<Longrightarrow> obTenantID ef \<noteq> [] \<and> obExecutionID ef \<in> exID ` set (dbExecutions db)"
  shows "recordOutcome rd envelope x effects (calm now db) = (Inr x, calm now (db\<lparr>dbOutbox := insert_effects effects (dbOutbox db),
      dbInbox := fst (update_where (\<lambda>r. inbox_key r = (evTenantID envelope, evID envelope))
        (\<lambda>r. r\<lparr>ixStatus := InboxStatusCommitted, ixExecutionID := Some (exID x), ixCommittedAt := Some (rdCommitted rd)\<rparr>) (dbInbox db))\<rparr>))"
  by (simp add: recordOutcome_def Outbox_Insert_calm [OF assms] Inbox_MarkCommitted_def calm_simps on_inbox_def split: prod.splits)

lemma persist_calm:
  assumes "outcome H clk rd envelope db x effects" "evTenantID envelope \<noteq> []"
    and "(evTenantID envelope, evID envelope) \<notin> inbox_key ` set (dbInbox db)"
    and "active_revision db envelope revision" "Evaluate H clk revision envelope [] = Inr decision"
  shows "persistExecutionAndOutbox H rd envelope revision decision (calm now (entered_db rd envelope db)) =
    (Inr x, calm now (recorded_db rd envelope x effects db))"
proof -
  let ?db = "entered_db rd envelope db"
  let ?db1 = "?db\<lparr>dbExecutions := fst (insert_do_nothing exID x (dbExecutions db))\<rparr>"
  obtain payload where oc: "json_EventEnvelope envelope = Some payload" "length (event_subscribers db envelope) \<le> 100"
    "x = execution_of H rd envelope revision decision"
    "effects = decision_effects (rdNow rd) envelope (exID x) decision @
      subscriber_effects H (rdNow rd) envelope (exID x) payload (event_subscribers db envelope)"
    using assms(1,4,5) by (auto simp: outcome_def active_revision_def)
  have "x\<lparr>exCompletedAt := None\<rparr> = x"
    using oc(3) by (simp add: execution_of_def)
  then have save: "Execution_Save x (calm now ?db) = (Inr (), calm now ?db1)"
    by (simp add: Execution_Save_def calm_simps on_executions_def split: prod.splits)
  have list: "ListSubscribersForEvent (evTenantID envelope) (evType envelope) (calm now ?db1) =
      (Inr (event_subscribers db envelope), calm now ?db1)"
    using oc(2) by (simp add: ListSubscribersForEvent_def calm_simps event_subscribers_def)
  have "obTenantID ef \<noteq> [] \<and> obExecutionID ef \<in> exID ` set (dbExecutions ?db1)" if "ef \<in> set effects" for ef
    using that assms(2) oc(4)
    by (auto simp: decision_effects_def subscriber_effects_def pending_effect_def insert_do_nothing_def)
  then have "recordOutcome rd envelope x effects (calm now ?db1) = (Inr x, calm now (recorded_db rd envelope x effects db))"
    using commit_entered [OF assms(3)] by (simp add: recordOutcome_calm recorded_db_def entered_db_def) (simp add: calm_def)
  moreover have "persistExecutionAndOutbox H rd envelope revision decision (calm now ?db) = recordOutcome rd envelope x effects (calm now ?db1)"
    using save list oc(1,2) unfolding oc(4) persistExecutionAndOutbox_def Let_def oc(3) [symmetric] by simp
  ultimately show ?thesis by simp
qed

lemma Process_calm:
  assumes "Validate envelope = Inr ()" "lease_held now db shard worker token" "distinct (map slVirtualShard (dbLeases db))"
    and "(evTenantID envelope, evID envelope) \<notin> inbox_key ` set (dbInbox db)" "outcome H clk rd envelope db x effects"
  shows "Process H clk rd envelope token shard worker (calm now db) = (Inr x, calm now (recorded_db rd envelope x effects db))"
proof -
  obtain revision decision where oc: "active_revision db envelope revision" "Evaluate H clk revision envelope [] = Inr decision"
    using assms(5) by (auto simp: outcome_def)
  have "evTenantID envelope \<noteq> []" "0 < token"
    using assms(1,2) by (auto simp: Validate_def lease_held_def split: if_splits)
  then show ?thesis
    using assms(1) AssertHeld_calm [OF assms(2,3)] deduplicateEvent_calm [OF assms(4)] loadActiveRevision_calm [OF oc(1)]
      persist_calm [OF assms(5) _ assms(4) oc] oc(2)
    by (simp add: Process_def processInTransaction_def transaction_calm processEvent_def)
qed

lemma calm_moment [simp]: "moOthers (shd (woFuture (calm now db))) = id"
  by (simp add: calm_def)

lemma Process_calm_refused:
  assumes "(evTenantID envelope, evID envelope) \<notin> inbox_key ` set (dbInbox db)" "\<nexists>x effects. outcome H clk rd envelope db x effects"
  obtains err where "fst (Process H clk rd envelope token shard worker (calm now db)) = Inl err"
    "woDb (snd (Process H clk rd envelope token shard worker (calm now db))) = db"
proof -
  obtain r w' where p: "Process H clk rd envelope token shard worker (calm now db) = (r, w')"
    by (metis prod.exhaust)
  have "event_step H clk rd envelope token shard worker (moNow (shd (woFuture (calm now db)))) db r (woDb w')"
    using Process_step [OF p] by simp
  then have "woDb w' = db \<and> (\<exists>err. r = Inl err)"
    using assms by (cases rule: event_step.cases) (auto simp: processed_def image_iff)
  then show thesis
    using that p by auto
qed

text \<open>C17. Without faults, the worker that holds the lease of its shard processes a valid event that is not in the inbox.  If the event has an outcome,
  which is that it has an active revision whose evaluation succeeds, that it can be written as JSON and that it has at most a hundred subscribers,
  the call returns the execution and leaves it recorded together with the inbox entry, the effects of the decision and the deliveries to all
  subscribers; if it has none, the call fails and leaves the database as it was.\<close>

theorem process_records_outcome:
  assumes "Validate envelope = Inr ()" and "lease_held now db shard worker token"
    and "distinct (map slVirtualShard (dbLeases db))"
    and "(evTenantID envelope, evID envelope) \<notin> inbox_key ` set (dbInbox db)"
    and "Process H clk rd envelope token shard worker (calm now db) = (r, w)"
  shows "(\<forall>x effects. outcome H clk rd envelope db x effects \<longrightarrow> r = Inr x \<and> woDb w = recorded_db rd envelope x effects db) \<and>
    ((\<nexists>x effects. outcome H clk rd envelope db x effects) \<longrightarrow> (\<exists>err. r = Inl err) \<and> woDb w = db)"
proof (intro conjI impI allI)
  show "r = Inr x" "woDb w = recorded_db rd envelope x effects db" if "outcome H clk rd envelope db x effects" for x effects
    using Process_calm [OF assms(1-4) that] assms(5) by simp_all
  show "\<exists>err. r = Inl err" "woDb w = db" if "\<nexists>x effects. outcome H clk rd envelope db x effects"
    using Process_calm_refused [OF assms(4) that, of token shard worker now] assms(5) by (metis fst_conv, metis snd_conv)
qed

section \<open>Once more\<close>

lemma deduplicateEvent_known:
  assumes "execution_known db (evTenantID envelope) (evID envelope) executionID" "keys_ok db"
  shows "\<exists>y. deduplicateEvent rd envelope (calm now db) = (Inr (Some y), calm now db) \<and> exID y = executionID"
proof -
  obtain r y where r: "r \<in> set (dbInbox db)" "inbox_key r = (evTenantID envelope, evID envelope)" "ixExecutionID r = Some executionID"
    and y: "y \<in> set (dbExecutions db)" "exID y = executionID"
    using assms(1) by (auto simp: execution_known_def)
  have "select_row (\<lambda>r. inbox_key r = (evTenantID envelope, evID envelope)) (dbInbox db) = Some r"
    "select_row (\<lambda>x. exID x = executionID) (dbExecutions db) = Some y"
    using r(1,2) y assms(2) by (simp_all add: keys_ok_def inbox_pk.select_key execution_pk.select_key)
  then show ?thesis
    using r(3) y(2)
    by (simp add: deduplicateEvent_def Inbox_Get_def Execution_Get_def calm_simps executionOfEntry_def scan_inbox_def scan_string_def)
qed

lemma Process_calm_known:
  assumes "Validate envelope = Inr ()" "lease_held now db shard worker token" "distinct (map slVirtualShard (dbLeases db))"
    and "execution_known db (evTenantID envelope) (evID envelope) executionID" "keys_ok db"
  shows "\<exists>y. Process H clk rd envelope token shard worker (calm now db) = (Inr y, calm now db) \<and> exID y = executionID"
proof -
  have "0 < token"
    using assms(2) by (auto simp: lease_held_def)
  then show ?thesis
    using assms(1) AssertHeld_calm [OF assms(2,3)] deduplicateEvent_known [OF assms(4,5), of rd now]
    by (auto simp: Process_def processInTransaction_def transaction_calm processEvent_def)
qed

text \<open>C2. At most once.  After an event has been processed, and any calls of any workers have followed amid failing calls, processing the event again
  changes nothing, and an execution it returns is the one recorded first.  It may fail; but without faults, and for a valid envelope with the lease
  held, it returns that execution.\<close>

theorem process_at_most_once:
  assumes "keys_ok (woDb w)" and "rely event_order w"
    and "Process H clk rd envelope token shard worker w = (Inr x, w1)"
    and "fold perform_worker calls w1 = w2"
    and "evTenantID envelope' = evTenantID envelope" and "evID envelope' = evID envelope"
    and "Process H' clk' rd' envelope' token' shard' worker' w2 = (r, w3)"
  shows "woDb w3 \<in> {woDb w2, now_db w2} \<and> (\<forall>y. r = Inr y \<longrightarrow> exID y = exID x) \<and>
    (w2 = calm now db \<and> Validate envelope' = Inr () \<and> lease_held now db shard' worker' token' \<and> distinct (map slVirtualShard (dbLeases db)) \<longrightarrow>
      (\<exists>y. r = Inr y \<and> exID y = exID x))"
proof (intro conjI impI allI)
  note again = process_again [OF assms]
  show "woDb w3 \<in> {woDb w2, now_db w2}" "r = Inr y \<Longrightarrow> exID y = exID x" for y
    by (fact again(1), rule again(2))
  show "\<exists>y. r = Inr y \<and> exID y = exID x"
    if "w2 = calm now db \<and> Validate envelope' = Inr () \<and> lease_held now db shard' worker' token' \<and> distinct (map slVirtualShard (dbLeases db))"
  proof -
    have "execution_known db (evTenantID envelope') (evID envelope') (exID x)" "keys_ok db"
      using again(3,4) that by simp_all
    from Process_calm_known [OF _ _ _ this, of now shard' worker' token' H' clk' rd'] show ?thesis
      using assms(7) that by auto
  qed
qed

section \<open>An event with a subscriber\<close>

definition sample_clock :: clock where
  "sample_clock = (\<lambda>call ruleID i. 5)"

definition sample_readings :: readings where
  "sample_readings = \<lparr>rdFirstSeen = 5, rdNow = 5, rdCommitted = 6\<rparr>"

definition sample_database :: database where
  "sample_database = empty_database
     \<lparr>dbLeases := [\<lparr>slVirtualShard = 0, slOwner = ''w'', slFencingToken = 2, slExpiresAt = 100, slRoutingEpoch = 0\<rparr>],
      dbRevisions := [\<lparr>rrTenantScope = ''t'', rrRuleID = ''o'', rrRevision = 1, rrSource = ''{}'', rrCompiled = ''[]'',
        rrContentHash = ''h'', rrCompilerVersion = CompilerVersion, rrMatchMode = MatchModeFirstMatch, rrCreatedAt = 1\<rparr>],
      dbActivations := [\<lparr>raTenantScope = ''t'', raRuleSet = ''o'', raRevision = 1, raVersion = 1, raActor = ''ann'', raActivatedAt = 1\<rparr>],
      dbDomains := [\<lparr>tdID = ''d'', tdTenantID = ''t'', tdName = ''d'', tdEventTypes = [''o''], tdCreatedAt = 1, tdUpdatedAt = 1\<rparr>],
      dbServices := [\<lparr>svTenantID = ''t'', svServiceID = ''s'', svName = ''s'', svEndpointURL = ''https://s'', svActive = True,
        svCreatedAt = 1, svUpdatedAt = 1\<rparr>],
      dbSubscriptions := [\<lparr>suTenantID = ''t'', suServiceID = ''s'', suDomainID = ''d''\<rparr>]\<rparr>"

lemma sample_envelope_json: "\<exists>payload. json_EventEnvelope sample_event = Some payload"
proof -
  have "json_Valid (evData sample_event)"
    using sample_data by (cases "json_parse (evData sample_event)") (simp_all add: json_Valid_def json_Unmarshal_def sample_event_def)
  moreover have "json_time 1 \<noteq> None" by code_simp
  then have "json_time (evOccurredAt sample_event) \<noteq> None" by (simp add: sample_event_def)
  ultimately show ?thesis
    by (auto simp: json_EventEnvelope_def json_raw_def split: option.splits)
qed

lemma sample_compiled: "unmarshal_compiled ''[]'' = Some []"
proof -
  have "json_parse ''[]'' = Some (JArr [])" by code_simp
  then show ?thesis by (simp add: unmarshal_compiled_def json_decode_def dec_slice_def)
qed

lemma sample_subscribers: "length (event_subscribers sample_database sample_event) = 1"
  by (simp add: event_subscribers_def subscribers_def order_limit_def select_rows_def subscribes_def sample_database_def
      empty_database_def sample_event_def)

lemma sample_outcome: "\<exists>x effects. outcome id clk sample_readings sample_event sample_database x effects \<and> length effects = 1"
proof -
  obtain payload where "json_EventEnvelope sample_event = Some payload"
    using sample_envelope_json by blast
  moreover obtain revision where "active_revision sample_database sample_event revision" "rvCompiled revision = []"
    by (simp add: active_revision_def active_row_def sample_database_def empty_database_def sample_event_def select_row_def
        activation_key_def revision_key_def revision_of_row_def sample_compiled)
  moreover from this obtain decision where "Evaluate id clk revision sample_event [] = Inr decision" "dcEffects decision = []"
    by (simp add: Evaluate_def evaluateRules_def)
  ultimately show ?thesis
    using sample_subscribers unfolding outcome_def by (fastforce simp: decision_effects_def subscriber_effects_def)
qed

lemma sample_ready:
  "Validate sample_event = Inr ()" "lease_held 5 sample_database 0 ''w'' 2" "distinct (map slVirtualShard (dbLeases sample_database))"
  "(evTenantID sample_event, evID sample_event) \<notin> inbox_key ` set (dbInbox sample_database)"
  by (simp_all add: Validate_def sample_event_def lease_held_def sample_database_def empty_database_def IsZero_def)

theorem process_records_outcome_witness:
  "\<exists>x ef. fst (Process id sample_clock sample_readings sample_event 2 0 ''w'' (calm 5 sample_database)) = Inr x \<and>
     dbOutbox (woDb (snd (Process id sample_clock sample_readings sample_event 2 0 ''w'' (calm 5 sample_database)))) = [outbox_row_of ef]"
proof -
  obtain x effects where oc: "outcome id sample_clock sample_readings sample_event sample_database x effects" "length effects = 1"
    using sample_outcome by blast
  obtain ef where ef: "effects = [ef]"
    using oc(2) by (cases effects) auto
  have "dbOutbox (recorded_db sample_readings sample_event x effects sample_database) = [outbox_row_of ef]"
    by (simp add: ef recorded_db_def insert_effects_def insert_do_nothing_def sample_database_def empty_database_def)
  moreover obtain r w where p: "Process id sample_clock sample_readings sample_event 2 0 ''w'' (calm 5 sample_database) = (r, w)"
    by (metis prod.exhaust)
  ultimately show ?thesis
    using process_records_outcome [OF sample_ready p] oc(1) by auto
qed

lemma sample_processed:
  "\<exists>x w1. Process id sample_clock sample_readings sample_event 2 0 ''w'' (calm 5 sample_database) = (Inr x, w1)"
  using sample_outcome Process_calm [OF sample_ready] by blast

lemma sample_world:
  "keys_ok (woDb (calm 5 sample_database))" "rely event_order (calm 5 sample_database)"
  "lease_ok (dbLeases (woDb (calm 5 sample_database)))" "rely lease_order (calm 5 sample_database)"
  by (simp_all add: keys_ok_def lease_ok_def sample_database_def empty_database_def rely_calm events.R_refl leases.R_refl)

theorem process_at_most_once_witness:
  "\<exists>x w1 y w2. Process id sample_clock sample_readings sample_event 2 0 ''w'' (calm 5 sample_database) = (Inr x, w1) \<and>
     Process id sample_clock sample_readings sample_event 2 0 ''w'' w1 = (Inr y, w2) \<and> exID y = exID x \<and> woDb w2 = woDb w1"
proof -
  obtain x effects where "outcome id sample_clock sample_readings sample_event sample_database x effects"
    using sample_outcome by blast
  note p = Process_calm [OF sample_ready this]
  let ?db = "recorded_db sample_readings sample_event x effects sample_database"
  obtain r w2 where q: "Process id sample_clock sample_readings sample_event 2 0 ''w'' (calm 5 ?db) = (r, w2)"
    by (metis prod.exhaust)
  have "lease_held 5 ?db 0 ''w'' 2" "distinct (map slVirtualShard (dbLeases ?db))"
    using sample_ready(2,3) by (simp_all add: lease_held_def recorded_db_def)
  then show ?thesis
    using process_at_most_once [OF sample_world(1,2) p, where calls = "[]", OF _ refl refl q, of 5 ?db] sample_ready(1) p q by auto
qed

theorem stale_worker_records_nothing_witness:
  "\<exists>x w1 err w2. Process id sample_clock sample_readings sample_event 2 0 ''w'' (calm 5 sample_database) = (Inr x, w1) \<and>
     Process id sample_clock sample_readings sample_event 1 0 ''w'' w1 = (Inl err, w2) \<and> woDb w2 \<in> {woDb w1, now_db w1}"
proof -
  obtain x w1 where p: "Process id sample_clock sample_readings sample_event 2 0 ''w'' (calm 5 sample_database) = (Inr x, w1)"
    using sample_processed by blast
  obtain r w2 where q: "Process id sample_clock sample_readings sample_event 1 0 ''w'' w1 = (r, w2)"
    by (metis prod.exhaust)
  have "woDb w2 \<in> {woDb w1, now_db w1} \<and> (\<exists>err. r = Inl err)"
    by (rule stale_worker_records_nothing [OF sample_world(3,4) p, where calls = "[]", OF _ _ q]) simp_all
  then show ?thesis
    using p q by blast
qed

end
