(* ===== verification/ScheduledRepository.thy ===== *)
theory ScheduledRepository
  imports TableOrder GoStrings Compiler "HOL-Library.Product_Lexorder"
begin

text \<open>
  \<^verbatim>\<open>internal/adapters/postgres/scheduled.go\<close>: the repository of scheduled events.  A due event is claimed for
  a while and then released, retried later or failed by the holder of the claim.

  A row that was only saved has no last error, and every reader scans that null into a string: it
  cannot be read until a retry or a failure has written an error, which only a reader can do.

  The properties: released, failed and cancelled events are final and no event changes its
  content.
\<close>

section \<open>Rows\<close>

abbreviation scheduled_id :: "scheduled_row \<Rightarrow> string" where
  "scheduled_id r \<equiv> seEventID (srEvent r)"

abbreviation scheduled_status :: "scheduled_row \<Rightarrow> ScheduledEventStatus" where
  "scheduled_status r \<equiv> seStatus (srEvent r)"

text \<open>The columns that are not inserted are null, but for the retry count, whose default is 0.\<close>

definition scheduled_row_of :: "ScheduledEvent \<Rightarrow> scheduled_row" where
  "scheduled_row_of ev =
     \<lparr>srEvent = ev\<lparr>seRetryAt := None, seRetryCount := 0, seLastError := [], seReleasedAt := None\<rparr>,
      srLastError = None, srClaimant = None, srClaimedAt = None, srClaimExpiresAt = None\<rparr>"

definition scan_scheduled :: "scheduled_row \<Rightarrow> ScheduledEvent result" where
  "scan_scheduled r =
     (case scan_string (srLastError r) of Inl err \<Rightarrow> Inl err | Inr e \<Rightarrow> Inr ((srEvent r)\<lparr>seLastError := e\<rparr>))"

primrec scanScheduledRows :: "scheduled_row list \<Rightarrow> gerr option \<Rightarrow> ScheduledEvent list result" where
  "scanScheduledRows [] rowsErr = (case rowsErr of None \<Rightarrow> Inr [] | Some err \<Rightarrow> Inl (wrap ''iterate scheduled events'' err))"
| "scanScheduledRows (r # rows) rowsErr =
     (case scan_scheduled r of
        Inl err \<Rightarrow> Inl (wrap ''scan scheduled event'' err)
      | Inr ev \<Rightarrow> (case scanScheduledRows rows rowsErr of Inl err \<Rightarrow> Inl err | Inr evs \<Rightarrow> Inr (ev # evs)))"

definition scanScheduledEvents ::
  "string \<Rightarrow> (scheduled_row list \<times> gerr option) result \<times> database world \<Rightarrow> ScheduledEvent list result \<times> database world" where
  "scanScheduledEvents context answer =
     (case answer of
        (Inl err, w) \<Rightarrow> (Inl (wrap context err), w)
      | (Inr (rows, rowsErr), w) \<Rightarrow> (scanScheduledRows rows rowsErr, w))"

definition due_at :: "scheduled_row \<Rightarrow> time" where
  "due_at r = (case seRetryAt (srEvent r) of Some t \<Rightarrow> t | None \<Rightarrow> seScheduledAt (srEvent r))"

definition scheduled_due :: "time \<Rightarrow> scheduled_row \<Rightarrow> bool" where
  "scheduled_due now r =
     (scheduled_status r = ScheduledEventStatusPending \<and> due_at r \<le> now \<or>
      scheduled_status r = ScheduledEventStatusClaimed \<and>
        (case srClaimExpiresAt r of None \<Rightarrow> False | Some e \<Rightarrow> e \<le> now))"

section \<open>The repository\<close>

definition on_scheduled ::
  "(time \<Rightarrow> scheduled_row table \<Rightarrow> scheduled_row table \<times> 'a) \<Rightarrow> time \<Rightarrow> database \<Rightarrow> (database \<times> 'a) result" where
  "on_scheduled f now db = (let (t, a) = f now (dbScheduled db) in Inr (db\<lparr>dbScheduled := t\<rparr>, a))"

definition Scheduled_Save :: "ScheduledEvent \<Rightarrow> database world \<Rightarrow> unit result \<times> database world" where
  "Scheduled_Save ev w =
     (case Exec (on_scheduled (\<lambda>now. insert_do_nothing scheduled_id (scheduled_row_of ev))) w of
        (Inl err, w') \<Rightarrow> (Inl (wrap ''save scheduled event'' err), w')
      | (Inr n, w') \<Rightarrow> (Inr (), w'))"

definition due_rows :: "time \<Rightarrow> int \<Rightarrow> database \<Rightarrow> scheduled_row list" where
  "due_rows before limit db = order_limit due_at limit (select_rows (scheduled_due before) (dbScheduled db))"

definition Scheduled_GetDue :: "time \<Rightarrow> int \<Rightarrow> database world \<Rightarrow> ScheduledEvent list result \<times> database world" where
  "Scheduled_GetDue before limit w =
     (let limit = (if limit \<le> 0 then 100 else limit)
      in scanScheduledEvents ''get due scheduled events'' (Query (reading (\<lambda>now. due_rows before limit)) w))"

definition claimed_scheduled :: "string \<Rightarrow> time \<Rightarrow> time \<Rightarrow> scheduled_row \<Rightarrow> scheduled_row" where
  "claimed_scheduled claimant now expiresAt r =
     r\<lparr>srEvent := (srEvent r)\<lparr>seStatus := ScheduledEventStatusClaimed\<rparr>, srClaimant := Some claimant,
       srClaimExpiresAt := Some expiresAt, srClaimedAt := Some now\<rparr>"

definition scheduled_claim_query ::
  "string list \<Rightarrow> string \<Rightarrow> time \<Rightarrow> time \<Rightarrow> scheduled_row table \<Rightarrow> scheduled_row table \<times> scheduled_row list" where
  "scheduled_claim_query eventIDs claimant now expiresAt t =
     (let P = (\<lambda>r. scheduled_id r \<in> set eventIDs \<and> scheduled_due now r); f = claimed_scheduled claimant now expiresAt
      in (fst (update_where P f t), map f (filter P t)))"

text \<open>\<open>now\<close> is the reading of the process clock.\<close>

definition Scheduled_Claim ::
  "time \<Rightarrow> string list \<Rightarrow> string \<Rightarrow> duration \<Rightarrow> database world \<Rightarrow> ScheduledEvent list result \<times> database world" where
  "Scheduled_Claim now eventIDs claimant leaseTTL w =
     (if eventIDs = [] then (Inr [], w)
      else if TrimSpace claimant = [] then (Inl (ErrorString ''claim scheduled events: claimant is required''), w)
      else if leaseTTL \<le> 0 then (Inl (ErrorString ''claim scheduled events: lease TTL must be positive''), w)
      else scanScheduledEvents ''claim scheduled events''
             (Query (on_scheduled (\<lambda>_. scheduled_claim_query eventIDs claimant now (now + leaseTTL))) w))"

definition scheduled_held :: "string \<Rightarrow> string \<Rightarrow> time \<Rightarrow> scheduled_row \<Rightarrow> bool" where
  "scheduled_held eventID claimant now r =
     (scheduled_id r = eventID \<and> scheduled_status r = ScheduledEventStatusClaimed \<and> srClaimant r = Some claimant \<and>
      (case srClaimExpiresAt r of None \<Rightarrow> False | Some e \<Rightarrow> now < e))"

definition unclaimed :: "scheduled_row \<Rightarrow> scheduled_row" where
  "unclaimed r = r\<lparr>srClaimant := None, srClaimedAt := None, srClaimExpiresAt := None\<rparr>"

text \<open>The settlements share their shape: the update of a held row, and what is said if there is none.\<close>

definition settle_scheduled ::
  "string \<Rightarrow> string \<Rightarrow> string \<Rightarrow> (scheduled_row \<Rightarrow> scheduled_row) \<Rightarrow> database world \<Rightarrow> unit result \<times> database world" where
  "settle_scheduled context eventID claimant f w =
     (case Exec (on_scheduled (\<lambda>now. update_where (scheduled_held eventID claimant now) (\<lambda>r. unclaimed (f r)))) w of
        (Inl err, w') \<Rightarrow> (Inl (wrap context err), w')
      | (Inr n, w') \<Rightarrow>
          if n \<noteq> 1 then
            (Inl (ErrorString (context @ '': claim for event '' @ Quote eventID @ '' is no longer owned by '' @ Quote claimant)), w')
          else (Inr (), w'))"

definition Scheduled_MarkReleased :: "string \<Rightarrow> string \<Rightarrow> time \<Rightarrow> database world \<Rightarrow> unit result \<times> database world" where
  "Scheduled_MarkReleased eventID claimant releasedAt w =
     settle_scheduled ''mark scheduled event released'' eventID claimant
       (\<lambda>r. r\<lparr>srEvent := (srEvent r)\<lparr>seStatus := ScheduledEventStatusReleased, seReleasedAt := Some releasedAt, seRetryAt := None\<rparr>\<rparr>) w"

definition Scheduled_ScheduleRetry :: "string \<Rightarrow> string \<Rightarrow> time \<Rightarrow> string \<Rightarrow> database world \<Rightarrow> unit result \<times> database world" where
  "Scheduled_ScheduleRetry eventID claimant retryAt errMsg w =
     settle_scheduled ''schedule scheduled event retry'' eventID claimant
       (\<lambda>r. r\<lparr>srEvent := (srEvent r)\<lparr>seStatus := ScheduledEventStatusPending, seRetryAt := Some retryAt,
                seRetryCount := seRetryCount (srEvent r) + 1\<rparr>, srLastError := Some errMsg\<rparr>) w"

definition Scheduled_MarkFailed :: "string \<Rightarrow> string \<Rightarrow> string \<Rightarrow> database world \<Rightarrow> unit result \<times> database world" where
  "Scheduled_MarkFailed eventID claimant errMsg w =
     settle_scheduled ''mark scheduled event failed'' eventID claimant
       (\<lambda>r. r\<lparr>srEvent := (srEvent r)\<lparr>seStatus := ScheduledEventStatusFailed,
                seRetryCount := seRetryCount (srEvent r) + 1\<rparr>, srLastError := Some errMsg\<rparr>) w"

definition Scheduled_Get :: "string \<Rightarrow> string \<Rightarrow> database world \<Rightarrow> ScheduledEvent option result \<times> database world" where
  "Scheduled_Get tenantID eventID w =
     (case QueryRow (reading (\<lambda>now db. select_row (\<lambda>r. seTenantID (srEvent r) = tenantID \<and> scheduled_id r = eventID)
             (dbScheduled db))) w of
        (Inl err, w') \<Rightarrow>
          if errors_Is err PgxErrNoRows then (Inr None, w') else (Inl (wrap ''get scheduled event'' err), w')
      | (Inr r, w') \<Rightarrow>
          (case scan_scheduled r of
             Inl err \<Rightarrow> (Inl (wrap ''get scheduled event'' err), w')
           | Inr ev \<Rightarrow> (Inr (Some ev), w')))"

definition Scheduled_List :: "string \<Rightarrow> int \<Rightarrow> int \<Rightarrow> database world \<Rightarrow> ScheduledEvent list result \<times> database world" where
  "Scheduled_List tenantID limit offset w =
     (let limit = (if limit \<le> 0 then 100 else limit);
          limit = (if limit > 500 then 500 else limit);
          offset = (if offset < 0 then 0 else offset)
      in scanScheduledEvents ''list scheduled events''
           (Query (reading (\<lambda>now db. take (nat limit) (drop (nat offset)
              (sort_key (\<lambda>r. (- seScheduledAt (srEvent r), - seCreatedAt (srEvent r)))
                (select_rows (\<lambda>r. seTenantID (srEvent r) = tenantID) (dbScheduled db)))))) w))"

definition Scheduled_Cancel :: "string \<Rightarrow> string \<Rightarrow> database world \<Rightarrow> unit result \<times> database world" where
  "Scheduled_Cancel tenantID eventID w =
     (case Exec (on_scheduled (\<lambda>now. update_where (\<lambda>r. seTenantID (srEvent r) = tenantID \<and> scheduled_id r = eventID \<and>
               scheduled_status r = ScheduledEventStatusPending)
             (\<lambda>r. r\<lparr>srEvent := (srEvent r)\<lparr>seStatus := ScheduledEventStatusCancelled\<rparr>\<rparr>))) w of
        (Inl err, w') \<Rightarrow> (Inl (wrap ''cancel scheduled event'' err), w')
      | (Inr n, w') \<Rightarrow>
          if n \<noteq> 1 then
            (Inl (ErrorString (''cancel scheduled event: event '' @ Quote eventID @ '' not found or not pending for tenant '' @
               Quote tenantID)), w')
          else (Inr (), w'))"

section \<open>The life of a scheduled event\<close>

definition scheduled_final :: "scheduled_row \<Rightarrow> bool" where
  "scheduled_final r =
     (scheduled_status r \<in> {ScheduledEventStatusReleased, ScheduledEventStatusFailed, ScheduledEventStatusCancelled})"

definition scheduled_content :: "scheduled_row \<Rightarrow> string \<times> string \<times> string \<times> string \<times> string \<times> string \<times> (string \<times> string) list \<times> time \<times> time" where
  "scheduled_content r =
     (let e = srEvent r in (seEventID e, seTenantID e, seEventType e, sePartitionKey e, seWorkflowID e, sePayload e, seHeaders e,
        seScheduledAt e, seCreatedAt e))"

definition scheduled_grows :: "scheduled_row \<Rightarrow> scheduled_row \<Rightarrow> bool" where
  "scheduled_grows r r' =
     (scheduled_content r' = scheduled_content r \<and> seRetryCount (srEvent r) \<le> seRetryCount (srEvent r') \<and>
      (scheduled_final r \<longrightarrow> r' = r))"

interpretation scheduled_rows: growing_rows scheduled_id dbScheduled scheduled_grows
  by unfold_locales (auto simp: scheduled_grows_def scheduled_content_def Let_def)

abbreviation scheduled_order :: "database \<Rightarrow> database \<Rightarrow> bool" where
  "scheduled_order \<equiv> table_order dbScheduled scheduled_id scheduled_grows"

lemma on_scheduled_guarantees:
  assumes "\<And>now t. rows_live_on scheduled_id scheduled_grows t (fst (f now t))"
  shows "guarantees scheduled_order (on_scheduled f)"
  using assms by (auto simp: guarantees_def on_scheduled_def table_order_def split: prod.splits) (metis fst_conv)

lemma scanScheduledEvents_snd: "snd (scanScheduledEvents context answer) = snd answer"
  by (auto simp: scanScheduledEvents_def split: prod.splits sum.splits)

lemma Scheduled_Save_within: "within scheduled_order w (snd (Scheduled_Save ev w))"
  by (auto simp: Scheduled_Save_def split: prod.splits sum.splits
      intro!: scheduled_rows.withinI(1) on_scheduled_guarantees scheduled_rows.live_insert_do_nothing)

lemma Scheduled_GetDue_within: "within scheduled_order w (snd (Scheduled_GetDue before limit w))"
  unfolding Scheduled_GetDue_def Let_def scanScheduledEvents_snd
  by (rule scheduled_rows.Query_within) (rule scheduled_rows.guarantees_reading)

lemma claim_live:
  "rows_live_on scheduled_id scheduled_grows t (fst (scheduled_claim_query eventIDs claimant now expiresAt t))"
  unfolding scheduled_claim_query_def Let_def fst_conv
  by (rule scheduled_rows.live_update)
    (auto simp: scheduled_grows_def scheduled_due_def claimed_scheduled_def scheduled_content_def scheduled_final_def Let_def)

lemma Scheduled_Claim_within: "within scheduled_order w (snd (Scheduled_Claim now eventIDs claimant leaseTTL w))"
  by (auto simp: Scheduled_Claim_def scanScheduledEvents_snd scheduled_rows.within_refl
      intro!: scheduled_rows.Query_within on_scheduled_guarantees claim_live)

lemma settle_within:
  assumes "\<And>r. scheduled_status r = ScheduledEventStatusClaimed \<Longrightarrow> scheduled_content (f r) = scheduled_content r \<and>
    seRetryCount (srEvent r) \<le> seRetryCount (srEvent (f r))"
  shows "within scheduled_order w (snd (settle_scheduled context eventID claimant f w))"
proof -
  have "rows_live_on scheduled_id scheduled_grows t
      (fst (update_where (scheduled_held eventID claimant now) (\<lambda>r. unclaimed (f r)) t))" for now t
    using assms
    by (intro scheduled_rows.live_update)
      (auto simp: scheduled_grows_def scheduled_held_def unclaimed_def scheduled_content_def scheduled_final_def Let_def)
  then show ?thesis
    by (auto simp: settle_scheduled_def split: prod.splits sum.splits intro!: scheduled_rows.withinI(1) on_scheduled_guarantees)
qed

lemma settlements_within:
  "within scheduled_order w (snd (Scheduled_MarkReleased eventID claimant t w))"
  "within scheduled_order w (snd (Scheduled_ScheduleRetry eventID claimant t errMsg w))"
  "within scheduled_order w (snd (Scheduled_MarkFailed eventID claimant errMsg w))"
  unfolding Scheduled_MarkReleased_def Scheduled_ScheduleRetry_def Scheduled_MarkFailed_def
  by (rule settle_within; simp add: scheduled_content_def Let_def)+

lemma Scheduled_Cancel_within: "within scheduled_order w (snd (Scheduled_Cancel tenantID eventID w))"
  by (auto simp: Scheduled_Cancel_def scheduled_grows_def scheduled_content_def scheduled_final_def Let_def split: prod.splits sum.splits
      intro!: scheduled_rows.withinI(1) on_scheduled_guarantees scheduled_rows.live_update)

end
