(* ===== verification/Scheduler.thy ===== *)
theory Scheduler
  imports ScheduledRepository Evaluator
begin

text \<open>
  \<^verbatim>\<open>internal/runtime/scheduler/scheduler.go\<close>: the loop that claims due scheduled events and publishes them
  to the shard of their partition.

  The publisher is a function from the subject, the shard and the message to an error; the
  identifiers of \<^verbatim>\<open>domain.NewID()\<close> and the readings of the clocks are arguments.  Beside the world a
  tick returns the events it tried to publish.
\<close>

section \<open>The scheduler\<close>

abbreviation maxScheduledEventAttempts :: int where
  "maxScheduledEventAttempts \<equiv> 8"

type_synonym shard_publisher = "string \<Rightarrow> u32 \<Rightarrow> string \<Rightarrow> gerr option"

record Scheduler =
  schPublisher :: shard_publisher
  schPollInterval :: duration
  schBatchSize :: int
  schNumShards :: u32
  schRunning :: bool
  schStopped :: bool
  schLoopRunning :: bool

definition NewScheduler :: "shard_publisher \<Rightarrow> duration \<Rightarrow> int \<Rightarrow> u32 \<Rightarrow> Scheduler" where
  "NewScheduler publisher pollInterval batchSize numShards =
     \<lparr>schPublisher = publisher,
      schPollInterval = (if pollInterval \<le> 0 then 5 * second else pollInterval),
      schBatchSize = (if batchSize \<le> 0 then 100 else batchSize),
      schNumShards = (if numShards = 0 then 4096 else numShards),
      schRunning = False, schStopped = False, schLoopRunning = False\<rparr>"

text \<open>Where the clocks are read: for the due events, for the claim, and for each event when its
  envelope is made and when it is settled.\<close>

datatype scheduler_reading = DueNow | ClaimNow | OccurredNow string | SettledNow string

type_synonym scheduler_clock = "scheduler_reading \<Rightarrow> time"

definition scheduledRetryDelay :: "int \<Rightarrow> duration" where
  "scheduledRetryDelay attempt =
     (let attempt = (if attempt < 1 then 1 else attempt);
          attempt = (if attempt > 7 then 7 else attempt);
          delay = 2 ^ nat (attempt - 1) * second
      in if delay > minute then minute else delay)"

definition releaseEnvelope :: "time \<Rightarrow> ScheduledEvent \<Rightarrow> string \<Rightarrow> EventEnvelope" where
  "releaseEnvelope now evt idempotencyKey =
     \<lparr>evID = seEventID evt, evType = seEventType evt, evTenantID = seTenantID evt, evPartitionKey = sePartitionKey evt,
      evWorkflowID = seWorkflowID evt, evOccurredAt = now, evData = sePayload evt,
      evHeaders = obj_put ''Idempotency-Key'' idempotencyKey (seHeaders evt)\<rparr>"

definition releaseEvent :: "Scheduler \<Rightarrow> time \<Rightarrow> ScheduledEvent \<Rightarrow> string \<Rightarrow> gerr option" where
  "releaseEvent s now evt idempotencyKey =
     (let env = releaseEnvelope now evt idempotencyKey
      in case json_EventEnvelope env of
           None \<Rightarrow> Some (wrap ''marshal event'' marshal_error)
         | Some data \<Rightarrow> schPublisher s ''events'' (VirtualShard env (schNumShards s)) data)"

text \<open>Errors of the settlement are only logged.\<close>

definition handleReleaseFailure ::
  "scheduler_clock \<Rightarrow> ScheduledEvent \<Rightarrow> string \<Rightarrow> gerr \<Rightarrow> database world \<Rightarrow> database world" where
  "handleReleaseFailure clk event claimant releaseErr w =
     (let nextAttempt = seRetryCount event + 1
      in if nextAttempt \<ge> maxScheduledEventAttempts
         then snd (Scheduled_MarkFailed (seEventID event) claimant (error_text releaseErr) w)
         else snd (Scheduled_ScheduleRetry (seEventID event) claimant
                (clk (SettledNow (seEventID event)) + scheduledRetryDelay nextAttempt) (error_text releaseErr) w))"

definition markEventReleased :: "scheduler_clock \<Rightarrow> ScheduledEvent \<Rightarrow> string \<Rightarrow> database world \<Rightarrow> database world" where
  "markEventReleased clk event claimant w =
     snd (Scheduled_MarkReleased (seEventID event) claimant (clk (SettledNow (seEventID event))) w)"

definition processClaimedEvent ::
  "Scheduler \<Rightarrow> scheduler_clock \<Rightarrow> string \<Rightarrow> ScheduledEvent \<Rightarrow> database world \<Rightarrow> database world" where
  "processClaimedEvent s clk claimant event w =
     (let idempotencyKey = ''sched-'' @ seEventID event
      in case releaseEvent s (clk (OccurredNow (seEventID event))) event idempotencyKey of
           Some err \<Rightarrow> handleReleaseFailure clk event claimant err w
         | None \<Rightarrow> markEventReleased clk event claimant w)"

definition scheduledEventIDs :: "ScheduledEvent list \<Rightarrow> string list" where
  "scheduledEventIDs events = map seEventID events"

definition claimDueEvents ::
  "time \<Rightarrow> ScheduledEvent list \<Rightarrow> string \<Rightarrow> database world \<Rightarrow> ScheduledEvent list result \<times> database world" where
  "claimDueEvents now events claimant w = Scheduled_Claim now (scheduledEventIDs events) claimant (5 * minute) w"

definition tick :: "Scheduler \<Rightarrow> string \<Rightarrow> scheduler_clock \<Rightarrow> database world \<Rightarrow> ScheduledEvent list \<times> database world" where
  "tick s newID clk w =
     (case Scheduled_GetDue (clk DueNow) (schBatchSize s) w of
        (Inl err, w1) \<Rightarrow> ([], w1)
      | (Inr events, w1) \<Rightarrow>
          if events = [] then ([], w1)
          else
            let claimant = ''scheduler-'' @ newID
            in case claimDueEvents (clk ClaimNow) events claimant w1 of
                 (Inl err, w2) \<Rightarrow> ([], w2)
               | (Inr claimed, w2) \<Rightarrow> (claimed, fold (processClaimedEvent s clk claimant) claimed w2))"

text \<open>The loop against the sequence of what its \<^verbatim>\<open>select\<close> receives after the initial tick.\<close>

datatype scheduler_signal = SchedulerCtxDone | StopChan | SchedulerTicker string scheduler_clock

fun runLoop_select :: "scheduler_signal list \<Rightarrow> Scheduler \<Rightarrow> database world \<Rightarrow> Scheduler \<times> database world" where
  "runLoop_select [] s w = (s, w)"
| "runLoop_select (SchedulerCtxDone # signals) s w = (s\<lparr>schLoopRunning := False\<rparr>, w)"
| "runLoop_select (StopChan # signals) s w = (s\<lparr>schLoopRunning := False\<rparr>, w)"
| "runLoop_select (SchedulerTicker newID clk # signals) s w = runLoop_select signals s (snd (tick s newID clk w))"

definition runLoop ::
  "string \<Rightarrow> scheduler_clock \<Rightarrow> scheduler_signal list \<Rightarrow> Scheduler \<Rightarrow> database world \<Rightarrow> Scheduler \<times> database world" where
  "runLoop newID clk signals s w = runLoop_select signals s (snd (tick s newID clk w))"

definition Scheduler_Start :: "bool \<Rightarrow> Scheduler \<Rightarrow> Scheduler" where
  "Scheduler_Start ctx s =
     (if \<not> ctx then s
      else if schRunning s \<or> schStopped s then s
      else s\<lparr>schRunning := True, schLoopRunning := True\<rparr>)"

text \<open>\<^verbatim>\<open>Stop\<close> waits for the loop, which takes the closed channel.\<close>

definition Scheduler_Stop :: "Scheduler \<Rightarrow> Scheduler" where
  "Scheduler_Stop s = s\<lparr>schStopped := True, schRunning := False, schLoopRunning := False\<rparr>"

section \<open>The scheduler keeps the order of scheduled events\<close>

lemma processClaimedEvent_within: "within scheduled_order w (processClaimedEvent s clk claimant event w)"
  by (simp add: processClaimedEvent_def handleReleaseFailure_def markEventReleased_def Let_def settlements_within split: option.split)

lemma tick_within: "within scheduled_order w (snd (tick s newID clk w))"
proof -
  obtain r w1 where due: "Scheduled_GetDue (clk DueNow) (schBatchSize s) w = (r, w1)"
    by (cases "Scheduled_GetDue (clk DueNow) (schBatchSize s) w")
  have w1: "within scheduled_order w w1"
    using Scheduled_GetDue_within [of w "clk DueNow" "schBatchSize s"] due by simp
  obtain c w2 where claim: "claimDueEvents (clk ClaimNow) (projr r) (''scheduler-'' @ newID) w1 = (c, w2)"
    by (cases "claimDueEvents (clk ClaimNow) (projr r) (''scheduler-'' @ newID) w1")
  have w2: "within scheduled_order w w2"
    using Scheduled_Claim_within [of w1 "clk ClaimNow" "scheduledEventIDs (projr r)" "''scheduler-'' @ newID" "5 * minute"]
      claim scheduled_rows.within_trans [OF w1] by (simp add: claimDueEvents_def)
  have "within scheduled_order w (fold (processClaimedEvent s clk (''scheduler-'' @ newID)) evs w2)" for evs
    by (rule scheduled_rows.within_trans [OF w2]) (rule scheduled_rows.fold_within, rule processClaimedEvent_within)
  then show ?thesis
    using due claim w1 w2 by (cases r; cases c) (simp_all add: tick_def Let_def)
qed

lemma runLoop_select_within: "within scheduled_order w (snd (runLoop_select signals s w))"
proof (induction signals s w rule: runLoop_select.induct)
  case (4 newID clk signals s w)
  then show ?case
    using scheduled_rows.within_trans [OF tick_within] by simp
qed (simp_all add: scheduled_rows.within_refl)

datatype scheduling_call =
    CallSave ScheduledEvent
  | CallCancel string string
  | CallRunLoop string scheduler_clock "scheduler_signal list" Scheduler

primrec perform_scheduling :: "scheduling_call \<Rightarrow> database world \<Rightarrow> database world" where
  "perform_scheduling (CallSave ev) w = snd (Scheduled_Save ev w)"
| "perform_scheduling (CallCancel tenantID eventID) w = snd (Scheduled_Cancel tenantID eventID w)"
| "perform_scheduling (CallRunLoop newID clk signals s) w = snd (runLoop newID clk signals s w)"

lemma perform_scheduling_within: "within scheduled_order w (perform_scheduling c w)"
  by (cases c)
    (simp_all add: Scheduled_Save_within Scheduled_Cancel_within runLoop_def
      scheduled_rows.within_trans [OF tick_within runLoop_select_within])

text \<open>C27. A scheduled event stays on record with its identity, type, partition, payload, headers and times, and its retry count does not fall; one
  that was released, failed or cancelled stays as it is.  This holds whatever is saved or cancelled later and however schedulers run, also when
  statements fail or their answers are lost, as long as the others keep events too.\<close>

theorem settled_schedule_is_final:
  assumes "rely scheduled_order w" and "distinct (map scheduled_id (dbScheduled (woDb w)))"
    and "r \<in> set (dbScheduled (woDb w))"
  shows "\<exists>r' \<in> set (dbScheduled (woDb (fold perform_scheduling calls w))).
    scheduled_content r' = scheduled_content r \<and> seRetryCount (srEvent r) \<le> seRetryCount (srEvent r') \<and> (scheduled_final r \<longrightarrow> r' = r)"
proof -
  have "within scheduled_order w (fold perform_scheduling calls w)"
    by (rule scheduled_rows.fold_within) (rule perform_scheduling_within)
  then obtain r' where "r' \<in> set (dbScheduled (woDb (fold perform_scheduling calls w)))" "scheduled_grows r r'"
    using assms by (auto simp: within_def table_order_def rows_live_on_def)
  then show ?thesis
    unfolding scheduled_grows_def by blast
qed

definition sample_schedule :: ScheduledEvent where
  "sample_schedule =
     \<lparr>seEventID = ''e'', seTenantID = ''t'', seEventType = ''order'', sePartitionKey = ''p'', seWorkflowID = [], sePayload = ''{}'',
      seHeaders = [], seScheduledAt = 10, seStatus = ScheduledEventStatusPending, seRetryAt = None, seRetryCount = 0,
      seLastError = [], seCreatedAt = 0, seReleasedAt = None\<rparr>"

theorem settled_schedule_is_final_witness:
  "let r = scheduled_row_of (sample_schedule\<lparr>seStatus := ScheduledEventStatusCancelled\<rparr>)
   in r \<in> set (dbScheduled (woDb (fold perform_scheduling [CallSave sample_schedule, CallCancel ''t'' ''e'']
        (calm 20 (empty_database\<lparr>dbScheduled := [r]\<rparr>)))))"
proof -
  let ?r = "scheduled_row_of (sample_schedule\<lparr>seStatus := ScheduledEventStatusCancelled\<rparr>)"
  let ?w = "calm 20 (empty_database\<lparr>dbScheduled := [?r]\<rparr>)"
  have "rely scheduled_order ?w" "distinct (map scheduled_id (dbScheduled (woDb ?w)))" "?r \<in> set (dbScheduled (woDb ?w))"
    by (simp_all add: rely_calm scheduled_rows.live_refl table_order_def woDb_calm)
  moreover have "scheduled_final ?r"
    by (simp add: scheduled_row_of_def scheduled_final_def)
  ultimately show ?thesis
    using settled_schedule_is_final [of ?w ?r "[CallSave sample_schedule, CallCancel ''t'' ''e'']"] unfolding Let_def by blast
qed

section \<open>Events that were never tried\<close>

text \<open>A row whose last error is null stops the scan, wherever it stands.\<close>

lemma scan_fresh:
  "r \<in> set rows \<Longrightarrow> srLastError r = None \<Longrightarrow> \<exists>err. scanScheduledRows rows rowsErr = Inl err"
  by (induction rows) (auto simp: scan_scheduled_def scan_string_def split: sum.split option.splits)

lemma scan_lost: "\<exists>err. scanScheduledRows rows (Some e) = Inl err"
  by (induction rows) (auto split: sum.split)

lemma Query_reading_cases:
  "(\<exists>err. Query (reading f) w = (Inl err, w\<lparr>woDb := now_db w, woFuture := stl (woFuture w)\<rparr>)) \<or>
   (\<exists>rows e. Query (reading f) w = (Inr (rows, Some e), w\<lparr>woDb := now_db w, woFuture := stl (woFuture w)\<rparr>)) \<or>
   Query (reading f) w = (Inr (f (moNow (shd (woFuture w))) (now_db w), None), w\<lparr>woDb := now_db w, woFuture := stl (woFuture w)\<rparr>)"
  by (simp add: Query_def db_call_def Let_def split: fault.split option.split)

text \<open>C38. While an event that was never tried is among the due events of a batch, a tick of the
  scheduler claims and publishes nothing and leaves the database as it is: the row cannot be read,
  and one unreadable row fails the whole batch.\<close>

theorem fresh_schedule_blocks_tick:
  assumes "0 < schBatchSize s"
    and "r \<in> set (due_rows (clk DueNow) (schBatchSize s) (now_db w))" and "srLastError r = None"
  shows "tick s newID clk w = ([], w\<lparr>woDb := now_db w, woFuture := stl (woFuture w)\<rparr>)"
proof -
  let ?w = "w\<lparr>woDb := now_db w, woFuture := stl (woFuture w)\<rparr>"
  obtain err where "Scheduled_GetDue (clk DueNow) (schBatchSize s) w = (Inl err, ?w)"
    using Query_reading_cases [of "\<lambda>now. due_rows (clk DueNow) (schBatchSize s)" w] scan_lost scan_fresh [OF assms(2,3)] assms(1)
    by (fastforce simp: Scheduled_GetDue_def Let_def scanScheduledEvents_def)
  then show ?thesis
    by (simp add: tick_def)
qed

theorem fresh_schedule_blocks_tick_witness:
  "fst (tick (NewScheduler (\<lambda>_ _ _. None) second 10 4) ''x'' (\<lambda>_. 20) (snd (Scheduled_Save sample_schedule (calm 20 empty_database)))) = []"
proof -
  have saved: "snd (Scheduled_Save sample_schedule (calm 20 empty_database)) =
      calm 20 (empty_database\<lparr>dbScheduled := [scheduled_row_of sample_schedule]\<rparr>)"
    by (simp add: Scheduled_Save_def calm_simps on_scheduled_def insert_do_nothing_def empty_database_def)
  show ?thesis
    unfolding saved
    using fresh_schedule_blocks_tick [of "NewScheduler (\<lambda>_ _ _. None) second 10 4" "scheduled_row_of sample_schedule" "\<lambda>_. 20"
        "calm 20 (empty_database\<lparr>dbScheduled := [scheduled_row_of sample_schedule]\<rparr>)" "''x''"]
    by (simp add: NewScheduler_def due_rows_def order_limit_def select_rows_def scheduled_row_of_def sample_schedule_def scheduled_due_def
        due_at_def calm_def)
qed

end
