(* ===== verification/RuleService.thy ===== *)
theory RuleService
  imports RuleRepository EventService
begin

text \<open>
  \<^verbatim>\<open>internal/services/rules/service.go\<close> and \<^verbatim>\<open>internal/services/rules/check.go\<close>: rule sources are compiled and activated in a
  transaction that compares and swaps the version of the activation; a dry run compiles and
  evaluates without writing.

  SHA-256, the limits of the compiler and the readings of the clock are parameters; the
  repositories are those of the PostgreSQL adapter.

  The property: after a successful activation the rule set is active with the stored revision of
  that number, which is the one just compiled only if the number was not in use.
\<close>

section \<open>Activation\<close>

definition current_version :: "RuleActivation option \<Rightarrow> int" where
  "current_version currentActivation = (case currentActivation of None \<Rightarrow> 0 | Some a \<Rightarrow> raVersion a)"

definition new_activation :: "time \<Rightarrow> string \<Rightarrow> string \<Rightarrow> RuleRevision \<Rightarrow> string \<Rightarrow> int \<Rightarrow> RuleActivation" where
  "new_activation now tenantScope ruleSet revision actor expectedVersion =
     \<lparr>raTenantScope = tenantScope, raRuleSet = ruleSet, raRevision = rvRevision revision, raVersion = expectedVersion + 1,
      raActor = actor, raActivatedAt = now\<rparr>"

text \<open>The body of the transaction; the deferred rollback discards its changes on every error.\<close>

definition activateInTx ::
  "time \<Rightarrow> string \<Rightarrow> string \<Rightarrow> RuleRevision \<Rightarrow> string \<Rightarrow> database world \<Rightarrow> RuleActivation result verdict \<times> database world" where
  "activateInTx now tenantScope ruleSet revision actor w =
     (case Rule_Save revision w of
        (Inl err, w1) \<Rightarrow> (Discard (Inl (wrap ''save revision'' err)), w1)
      | (Inr _, w1) \<Rightarrow>
          (case Activation_Get tenantScope ruleSet w1 of
             (Inl err, w2) \<Rightarrow> (Discard (Inl (wrap ''get activation'' err)), w2)
           | (Inr currentActivation, w2) \<Rightarrow>
               (let expectedVersion = current_version currentActivation;
                    activation = new_activation now tenantScope ruleSet revision actor expectedVersion
                in case Activation_SetWithVersion activation expectedVersion w2 of
                     (Inl err, w3) \<Rightarrow> (Discard (Inl (wrap ''set activation'' err)), w3)
                   | (Inr _, w3) \<Rightarrow> (Keep (Inr activation), w3))))"

definition activateWithCAS ::
  "time \<Rightarrow> string \<Rightarrow> string \<Rightarrow> RuleRevision \<Rightarrow> string \<Rightarrow> database world \<Rightarrow> RuleActivation result \<times> database world" where
  "activateWithCAS now tenantScope ruleSet revision actor w =
     (case transaction (activateInTx now tenantScope ruleSet revision actor) w of
        (BeginFailed err, w') \<Rightarrow> (Inl (wrap ''begin tx'' (wrap ''begin tx'' err)), w')
      | (CommitFailed err, w') \<Rightarrow> (Inl (wrap ''commit tx'' err), w')
      | (Finished r, w') \<Rightarrow> (r, w'))"

text \<open>\<open>now\<close> and \<open>activatedAt\<close> are the readings of the clock by the compiler and by the service.\<close>

definition Activate ::
  "(string \<Rightarrow> string) \<Rightarrow> Limits \<Rightarrow> time \<Rightarrow> time \<Rightarrow> string \<Rightarrow> string \<Rightarrow> string \<Rightarrow> string \<Rightarrow> database world \<Rightarrow>
   RuleActivation result \<times> database world" where
  "Activate H limits now activatedAt tenantScope ruleSet source actor w =
     (case Compile H now limits source of
        Inl err \<Rightarrow> (Inl err, w)
      | Inr revision \<Rightarrow>
          activateWithCAS activatedAt tenantScope ruleSet (revision\<lparr>rvRuleID := ruleSet, rvTenantScope := tenantScope\<rparr>) actor w)"

definition CompileAndActivate ::
  "(string \<Rightarrow> string) \<Rightarrow> Limits \<Rightarrow> time \<Rightarrow> time \<Rightarrow> string \<Rightarrow> string \<Rightarrow> string \<Rightarrow> string \<Rightarrow> database world \<Rightarrow>
   RuleActivation result \<times> database world" where
  "CompileAndActivate H limits now activatedAt tenantScope ruleSet source actor w =
     Activate H limits now activatedAt tenantScope ruleSet source actor w"

text \<open>The activation that is read is not looked at.\<close>

definition Deactivate :: "string \<Rightarrow> string \<Rightarrow> database world \<Rightarrow> unit result \<times> database world" where
  "Deactivate tenantScope ruleSet w =
     (case Activation_Get tenantScope ruleSet w of
        (Inl err, w1) \<Rightarrow> (Inl (wrap ''get activation'' err), w1)
      | (Inr _, w1) \<Rightarrow> Activation_Delete tenantScope ruleSet w1)"

section \<open>Queries\<close>

definition GetExecution :: "string \<Rightarrow> database world \<Rightarrow> Execution option result \<times> database world" where
  "GetExecution executionID w = Execution_Get executionID w"

definition ListRevisions :: "string \<Rightarrow> database world \<Rightarrow> RuleRevision list result \<times> database world" where
  "ListRevisions tenantScope w = Rule_List tenantScope w"

definition GetRevision :: "string \<Rightarrow> string \<Rightarrow> int \<Rightarrow> database world \<Rightarrow> RuleRevision option result \<times> database world" where
  "GetRevision tenantScope ruleSet revision w = Rule_Get tenantScope ruleSet revision w"

definition GetActivation :: "string \<Rightarrow> string \<Rightarrow> database world \<Rightarrow> RuleActivation option result \<times> database world" where
  "GetActivation tenantScope ruleSet w = Activation_Get tenantScope ruleSet w"

definition ListActiveRules :: "string \<Rightarrow> database world \<Rightarrow> RuleActivation list result \<times> database world" where
  "ListActiveRules tenantScope w = Activation_List tenantScope w"

section \<open>The dry run\<close>

record RuleCheckResult =
  rcValid :: bool
  rcError :: string
  rcRuleSet :: string
  rcRevision :: int
  rcMatchMode :: string
  rcContentHash :: string
  rcRuleCount :: nat
  rcDecision :: "Decision option"
  rcEvalError :: string

definition meta_rule_set :: "string \<Rightarrow> string" where
  "meta_rule_set source =
     (case json_decode (dec_struct [''rule_set''] (\<lambda>f. dec_string)) [] source of None \<Rightarrow> [] | Some ruleSet \<Rightarrow> ruleSet)"

definition check_event :: "time \<Rightarrow> string \<Rightarrow> string \<Rightarrow> string \<Rightarrow> EventEnvelope" where
  "check_event now tenantScope eventType sampleData =
     \<lparr>evID = ''check-event'', evType = eventType, evTenantID = tenantScope, evPartitionKey = ''check'', evWorkflowID = [],
      evOccurredAt = now, evData = sampleData, evHeaders = []\<rparr>"

definition CheckRule ::
  "(string \<Rightarrow> string) \<Rightarrow> Limits \<Rightarrow> time \<Rightarrow> clock \<Rightarrow> time \<Rightarrow> string \<Rightarrow> string \<Rightarrow> string \<Rightarrow> string \<Rightarrow> RuleCheckResult" where
  "CheckRule H limits compiledAt clk now tenantScope eventType source sampleData =
     (case Compile H compiledAt limits source of
        Inl err \<Rightarrow>
          \<lparr>rcValid = False, rcError = error_text err, rcRuleSet = [], rcRevision = 0, rcMatchMode = [], rcContentHash = [],
           rcRuleCount = 0, rcDecision = None, rcEvalError = []\<rparr>
      | Inr revision \<Rightarrow>
          let result = \<lparr>rcValid = True, rcError = [], rcRuleSet = meta_rule_set source, rcRevision = rvRevision revision,
                rcMatchMode = rvMatchMode revision, rcContentHash = rvContentHash revision,
                rcRuleCount = length (rvCompiled revision), rcDecision = None, rcEvalError = []\<rparr>
          in if sampleData = [] then result
             else
               let eventType = (if eventType = [] then rcRuleSet result else eventType)
               in case Evaluate H clk revision (check_event now tenantScope eventType sampleData) [] of
                    Inl err \<Rightarrow> result\<lparr>rcEvalError := error_text err\<rparr>
                  | Inr decision \<Rightarrow> result\<lparr>rcDecision := Some decision\<rparr>)"

section \<open>What an activation leaves behind\<close>

text \<open>The stored row of a revision number: the old one if there is one.\<close>

definition stored_revision :: "RuleRevision \<Rightarrow> string \<Rightarrow> database \<Rightarrow> revision_row" where
  "stored_revision revision compiled db =
     (let r = revision_row_of revision compiled
      in case select_row (\<lambda>x. revision_key x = revision_key r) (dbRevisions db) of Some old \<Rightarrow> old | None \<Rightarrow> r)"

lemma quiet_Rule_Save:
  assumes "Rule_Save revision w = (Inr u, w')" "quiet w" "distinct (map revision_key (dbRevisions (woDb w)))"
  shows "quiet w'" "dbActivations (woDb w') = dbActivations (woDb w)"
    "\<exists>compiled. marshal_compiled (rvCompiled revision) = Some compiled \<and>
       select_row (\<lambda>x. revision_key x = (rvTenantScope revision, rvRuleID revision, rvRevision revision)) (dbRevisions (woDb w')) =
         Some (stored_revision revision compiled (woDb w))"
proof -
  obtain compiled n where m: "marshal_compiled (rvCompiled revision) = Some compiled"
    "Exec (on_revisions (\<lambda>_. insert_do_nothing revision_key (revision_row_of revision compiled))) w = (Inr n, w')"
    using assms(1) by (auto simp: Rule_Save_def split: option.splits prod.splits sum.splits)
  let ?r = "revision_row_of revision compiled"
  have db: "woDb w' = (woDb w)\<lparr>dbRevisions := fst (insert_do_nothing revision_key ?r (dbRevisions (woDb w)))\<rparr>" "quiet w'"
    using quiet_Exec [OF m(2) assms(2)] by (auto simp: on_revisions_def split: prod.splits)
  then show "quiet w'" "dbActivations (woDb w') = dbActivations (woDb w)"
    by simp_all
  have key: "revision_key ?r = (rvTenantScope revision, rvRuleID revision, rvRevision revision)"
    by (simp add: revision_row_of_def revision_key_def)
  have "select_row (\<lambda>x. revision_key x = revision_key ?r) (dbRevisions (woDb w')) = Some (stored_revision revision compiled (woDb w))"
  proof (cases "select_row (\<lambda>x. revision_key x = revision_key ?r) (dbRevisions (woDb w))")
    case None
    then have "revision_key ?r \<notin> revision_key ` set (dbRevisions (woDb w))"
      by (simp add: revision_pk.select_key_None)
    moreover then have "select_row (\<lambda>x. revision_key x = revision_key ?r) (dbRevisions (woDb w) @ [?r]) = Some ?r"
      using assms(3) by (auto simp: revision_pk.select_key)
    ultimately show ?thesis
      using None db(1) by (simp add: insert_do_nothing_def stored_revision_def Let_def)
  next
    case (Some old)
    then have "revision_key ?r \<in> revision_key ` set (dbRevisions (woDb w))"
      using revision_pk.select_key_None [of "revision_key ?r" "dbRevisions (woDb w)"] by auto
    then show ?thesis
      using Some db(1) by (simp add: insert_do_nothing_def stored_revision_def Let_def)
  qed
  then show "\<exists>compiled. marshal_compiled (rvCompiled revision) = Some compiled \<and>
       select_row (\<lambda>x. revision_key x = (rvTenantScope revision, rvRuleID revision, rvRevision revision)) (dbRevisions (woDb w')) =
         Some (stored_revision revision compiled (woDb w))"
    using m(1) by (auto simp: key)
qed

lemma set_with_version_revisions:
  "set_with_version_statement act v now db = Inr (db', a) \<Longrightarrow> dbRevisions db' = dbRevisions db"
  by (auto simp: set_with_version_statement_def with_revision_def Let_def split: option.splits if_splits prod.splits)

lemma quiet_SetWithVersion:
  assumes "Activation_SetWithVersion act v w = (Inr u, w')" "quiet w" "distinct (map activation_key (dbActivations (woDb w)))"
  shows "dbRevisions (woDb w') = dbRevisions (woDb w)"
    "\<exists>a. select_row (\<lambda>a. activation_key a = activation_key act) (dbActivations (woDb w')) = Some a \<and>
       raVersion a = v + 1 \<and> raRevision a = raRevision act"
    "select_row (\<lambda>a. activation_key a = activation_key act) (dbActivations (woDb w)) = Some b \<Longrightarrow> raVersion b = v"
proof -
  obtain n db' where st: "set_with_version_statement act v (moNow (shd (woFuture w))) (woDb w) = Inr (db', Some n)" "woDb w' = db'"
    using assms(1) quiet_now [OF assms(2)]
    by (auto simp: Activation_SetWithVersion_def split: prod.splits sum.splits if_splits dest!: QueryRow_Inr)
  then show "dbRevisions (woDb w') = dbRevisions (woDb w)"
    by (simp add: set_with_version_revisions)
  show "raVersion b = v" if "select_row (\<lambda>a. activation_key a = activation_key act) (dbActivations (woDb w)) = Some b"
    using st(1) that by (auto simp: set_with_version_statement_def split: if_splits)
  have "activation_order (woDb w) (woDb w')"
    using set_with_version_guarantees [of act v] st by (auto simp: guarantees_def)
  then have "distinct (map activation_key (dbActivations (woDb w')))"
    using assms(3) by (simp add: table_order_def rows_live_on_def)
  then show "\<exists>a. select_row (\<lambda>a. activation_key a = activation_key act) (dbActivations (woDb w')) = Some a \<and>
       raVersion a = v + 1 \<and> raRevision a = raRevision act"
    using SetWithVersion_Inr [of act v w w'] assms quiet_now [OF assms(2)] by (auto simp: activations.select_key)
qed

definition rule_keys_ok :: "database \<Rightarrow> bool" where
  "rule_keys_ok db = (distinct (map revision_key (dbRevisions db)) \<and> distinct (map activation_key (dbActivations db)))"

definition activation_version :: "string \<Rightarrow> string \<Rightarrow> database \<Rightarrow> int" where
  "activation_version tenantScope ruleSet db =
     current_version (select_row (\<lambda>a. activation_key a = (tenantScope, ruleSet)) (dbActivations db))"

lemma quiet_Activation_Get:
  assumes "Activation_Get tenantScope ruleSet w = (Inr current, w')" "quiet w"
  shows "woDb w' = woDb w" "quiet w'"
    "current = Some a \<Longrightarrow> select_row (\<lambda>a. activation_key a = (tenantScope, ruleSet)) (dbActivations (woDb w)) = Some a"
proof -
  obtain q where q: "QueryRow (reading (\<lambda>now db. select_row (\<lambda>a. activation_key a = (tenantScope, ruleSet)) (dbActivations db))) w = (q, w')"
    "current = Some a \<Longrightarrow> q = Inr a"
    using assms(1) by (auto simp: Activation_Get_def split: prod.splits sum.splits if_splits)
  show "woDb w' = woDb w" "quiet w'"
    using quiet_QueryRow [OF q(1) assms(2)] by simp_all
  show "select_row (\<lambda>a. activation_key a = (tenantScope, ruleSet)) (dbActivations (woDb w)) = Some a" if "current = Some a"
    using q(1) q(2) [OF that] quiet_now [OF assms(2)] by (auto dest!: QueryRow_Inr)
qed

lemma activateInTx_Keep:
  assumes "activateInTx now tenantScope ruleSet revision actor w = (Keep r, w')" "quiet w" "rule_keys_ok (woDb w)"
    "rvTenantScope revision = tenantScope" "rvRuleID revision = ruleSet"
  shows "\<exists>act compiled. r = Inr act \<and> marshal_compiled (rvCompiled revision) = Some compiled \<and>
    active_row tenantScope ruleSet (woDb w') = Some (stored_revision revision compiled (woDb w)) \<and>
    activation_version tenantScope ruleSet (woDb w') = raVersion act \<and> raVersion act = activation_version tenantScope ruleSet (woDb w) + 1"
proof -
  obtain w1 where save: "Rule_Save revision w = (Inr (), w1)"
    using assms(1) by (auto simp: activateInTx_def split: prod.splits sum.splits)
  obtain current w2 where get: "Activation_Get tenantScope ruleSet w1 = (Inr current, w2)"
    using assms(1) save by (auto simp: activateInTx_def split: prod.splits sum.splits)
  let ?act = "new_activation now tenantScope ruleSet revision actor (current_version current)"
  have set: "Activation_SetWithVersion ?act (current_version current) w2 = (Inr (), w')" "r = Inr ?act"
    using assms(1) save get by (auto simp: activateInTx_def Let_def split: prod.splits sum.splits)
  note saved = quiet_Rule_Save [OF save assms(2)]
  have w1: "quiet w1" "dbActivations (woDb w1) = dbActivations (woDb w)"
    using saved assms(3) by (simp_all add: rule_keys_ok_def)
  note got = quiet_Activation_Get [OF get w1(1)]
  have w2: "woDb w2 = woDb w1" "quiet w2"
    using got by simp_all
  have "distinct (map activation_key (dbActivations (woDb w2)))"
    using assms(3) w1(2) w2(1) by (simp add: rule_keys_ok_def)
  note swap = quiet_SetWithVersion [OF set(1) w2(2) this]
  obtain a where a: "select_row (\<lambda>a. activation_key a = (tenantScope, ruleSet)) (dbActivations (woDb w')) = Some a"
    "raVersion a = current_version current + 1" "raRevision a = rvRevision revision"
    using swap(2) by (auto simp: new_activation_def activation_key_def)
  have "activation_key ?act = (tenantScope, ruleSet)"
    by (simp add: new_activation_def activation_key_def)
  then have before: "select_row (\<lambda>a. activation_key a = (tenantScope, ruleSet)) (dbActivations (woDb w)) = Some b \<Longrightarrow> raVersion b = current_version current" for b
    using swap(3) w1(2) w2(1) by simp
  have "activation_version tenantScope ruleSet (woDb w) = current_version current"
  proof (cases "select_row (\<lambda>a. activation_key a = (tenantScope, ruleSet)) (dbActivations (woDb w))")
    case None
    then have "current = None"
      using got(3) w1(2) by (cases current) auto
    then show ?thesis
      using None by (simp add: activation_version_def current_version_def)
  next
    case (Some b)
    then show ?thesis
      using before by (simp add: activation_version_def current_version_def [of "Some b"])
  qed
  then show ?thesis
    using saved(3) a swap(1) w2(1) set(2) assms(3-5)
    by (auto simp: rule_keys_ok_def active_row_def activation_version_def current_version_def new_activation_def)
qed

text \<open>C25. A successful activation takes effect: the rule set is active, at the version after the one it had (0 if it was not active), which
  is returned, with the stored revision of the number its source gives.  That is the compiled source if the
  number was not in use, and otherwise the content that was stored before, whatever the source
  says now.\<close>

theorem Activate_takes_effect:
  assumes "Activate H limits now activatedAt tenantScope ruleSet source actor w = (Inr act, w')" and "rule_keys_ok (now_db w)"
  shows "\<exists>revision compiled. Compile H now limits source = Inr revision \<and> marshal_compiled (rvCompiled revision) = Some compiled \<and>
    active_row tenantScope ruleSet (woDb w') =
      Some (stored_revision (revision\<lparr>rvRuleID := ruleSet, rvTenantScope := tenantScope\<rparr>) compiled (now_db w)) \<and>
    activation_version tenantScope ruleSet (woDb w') = raVersion act \<and> raVersion act = activation_version tenantScope ruleSet (now_db w) + 1"
proof -
  obtain revision where compile: "Compile H now limits source = Inr revision"
    using assms(1) by (auto simp: Activate_def split: sum.splits)
  let ?rev = "revision\<lparr>rvRuleID := ruleSet, rvTenantScope := tenantScope\<rparr>"
  obtain t where t: "transaction (activateInTx activatedAt tenantScope ruleSet ?rev actor) w = (t, w')" "t = Finished (Inr act)"
    using assms(1) compile by (auto simp: Activate_def activateWithCAS_def split: prod.splits transaction_result.splits)
  from t(1) show ?thesis
  proof (cases rule: transaction_cases)
    case (discarded a tw)
    then show ?thesis
      using t(2) by (auto simp: activateInTx_def Let_def split: prod.splits sum.splits)
  next
    case (committed a tw)
    have tw: "woDb (transaction_world (shd (woFuture w)) (now_db w)) = now_db w"
      by (simp add: transaction_world_def)
    show ?thesis
      using activateInTx_Keep [OF committed(1) quiet_transaction_world] committed(2,3) t(2) assms(2) compile
      by (auto simp: tw)
  qed (use t(2) in simp_all)
qed

lemma sample_marshals:
  "case Compile id 1 DefaultLimits sample_source of
     Inl err \<Rightarrow> False | Inr revision \<Rightarrow> marshal_compiled (rvCompiled revision) \<noteq> None"
  by code_simp

lemma sample_activates:
  "\<exists>act w'. Activate id DefaultLimits 1 2 ''t'' ''orders'' sample_source ''me'' (calm 5 empty_database) = (Inr act, w')"
proof -
  obtain revision compiled where "Compile id 1 DefaultLimits sample_source = Inr revision"
    "marshal_compiled (rvCompiled revision) = Some compiled"
    using sample_marshals by (auto split: sum.splits)
  then show ?thesis
    by (simp add: Activate_def activateWithCAS_def transaction_calm activateInTx_def Rule_Save_def calm_simps on_revisions_def
        insert_do_nothing_def Activation_Get_def Activation_SetWithVersion_def set_with_version_statement_def with_revision_def
        new_activation_def current_version_def revision_row_of_def revision_key_def select_row_def empty_database_def errors_Is_def Let_def)
qed

theorem Activate_takes_effect_witness:
  "\<exists>revision compiled. Compile id 1 DefaultLimits sample_source = Inr revision \<and>
     active_row ''t'' ''orders''
       (woDb (snd (Activate id DefaultLimits 1 2 ''t'' ''orders'' sample_source ''me'' (calm 5 empty_database)))) =
       Some (stored_revision (revision\<lparr>rvRuleID := ''orders'', rvTenantScope := ''t''\<rparr>) compiled empty_database) \<and>
     activation_version ''t'' ''orders'' (woDb (snd (Activate id DefaultLimits 1 2 ''t'' ''orders'' sample_source ''me'' (calm 5 empty_database)))) = 1"
proof -
  obtain act w' where "Activate id DefaultLimits 1 2 ''t'' ''orders'' sample_source ''me'' (calm 5 empty_database) = (Inr act, w')"
    using sample_activates by blast
  then show ?thesis
    using Activate_takes_effect [of id DefaultLimits 1 2 "''t''" "''orders''" sample_source "''me''" "calm 5 empty_database" act w']
    by (auto simp: rule_keys_ok_def empty_database_def calm_def activation_version_def current_version_def select_row_def)
qed

end
