(* ===== verification/TimeParse.thy ===== *)
theory TimeParse
  imports GoTime
begin

text \<open>
  \<^verbatim>\<open>time.Time.UnmarshalJSON\<close>: the strict RFC 3339 parser of the standard library.  A time is an instant: the
  zone of a text is applied and not kept.

  The main fact: parsing what \<^verbatim>\<open>MarshalJSON\<close> writes gives the time back.
\<close>

section \<open>The parser\<close>

definition digits_value :: "string \<Rightarrow> int" where
  "digits_value s = foldl (\<lambda>n c. n * 10 + (of_char c - 48)) 0 s"

text \<open>A number of fixed width between two bounds.\<close>

definition parse_uint :: "string \<Rightarrow> int \<Rightarrow> int \<Rightarrow> int option" where
  "parse_uint s lo hi =
     (if list_all is_digit s \<and> lo \<le> digits_value s \<and> digits_value s \<le> hi then Some (digits_value s) else None)"

definition sub_string :: "string \<Rightarrow> nat \<Rightarrow> nat \<Rightarrow> string" where
  "sub_string s i j = take (j - i) (drop i s)"

definition days_in :: "int \<Rightarrow> int \<Rightarrow> int" where
  "days_in m y = month_lengths (is_leap y) ! nat (m - 1)"

definition days_before_year :: "int \<Rightarrow> int" where
  "days_before_year y = 365 * (y - 1) + (y - 1) div 4 - (y - 1) div 100 + (y - 1) div 400"

definition date_days :: "int \<Rightarrow> int \<Rightarrow> int \<Rightarrow> int" where
  "date_days y m d = days_before_year y + sum_list (take (nat (m - 1)) (month_lengths (is_leap y))) + d - 1"

definition parse_date :: "string \<Rightarrow> int option" where
  "parse_date s =
     (if length s < 19 then None
      else case (parse_uint (sub_string s 0 4) 0 9999, parse_uint (sub_string s 5 7) 1 12) of
             (Some y, Some m) \<Rightarrow>
               (case (parse_uint (sub_string s 8 10) 1 (days_in m y), parse_uint (sub_string s 11 13) 0 23,
                      parse_uint (sub_string s 14 16) 0 59, parse_uint (sub_string s 17 19) 0 59) of
                  (Some d, Some hour, Some mins, Some sec) \<Rightarrow>
                    if s ! 4 = CHR ''-'' \<and> s ! 7 = CHR ''-'' \<and> s ! 10 = CHR ''T'' \<and> s ! 13 = CHR '':'' \<and> s ! 16 = CHR '':''
                    then Some (date_days y m d * 86400 + hour * 3600 + mins * 60 + sec) else None
                | _ \<Rightarrow> None)
           | _ \<Rightarrow> None)"

text \<open>The digits of a fraction after its point; those after the ninth are ignored.\<close>

definition parse_fraction :: "string \<Rightarrow> int \<times> string" where
  "parse_fraction s =
     (if 2 \<le> length s \<and> s ! 0 = CHR ''.'' \<and> is_digit (s ! 1)
      then let ds = take 9 (takeWhile is_digit (tl s))
           in (digits_value ds * 10 ^ (9 - length ds), dropWhile is_digit (tl s))
      else (0, s))"

definition parse_zone :: "string \<Rightarrow> int option" where
  "parse_zone s =
     (if s = ''Z'' then Some 0
      else if length s \<noteq> 6 then None
      else case (parse_uint (sub_string s 1 3) 0 23, parse_uint (sub_string s 4 6) 0 59) of
             (Some hr, Some mm) \<Rightarrow>
               if (s ! 0 = CHR ''-'' \<or> s ! 0 = CHR ''+'') \<and> s ! 3 = CHR '':''
               then Some ((if s ! 0 = CHR ''-'' then - 1 else 1) * (hr * 60 + mm) * 60) else None
           | _ \<Rightarrow> None)"

definition parseRFC3339 :: "string \<Rightarrow> time option" where
  "parseRFC3339 s =
     (case parse_date s of
        None \<Rightarrow> None
      | Some secs \<Rightarrow>
          (case parse_fraction (drop 19 s) of
             (ns, rest) \<Rightarrow>
               (case parse_zone rest of None \<Rightarrow> None | Some zone \<Rightarrow> Some ((secs - zone) * second + ns))))"

definition unmarshal_time :: "string \<Rightarrow> time option" where
  "unmarshal_time raw =
     (if 2 \<le> length raw \<and> hd raw = CHR ''\"'' \<and> last raw = CHR ''\"'' then parseRFC3339 (butlast (tl raw)) else None)"

section \<open>Dates\<close>

lemma min_3: "(min 3 x :: int) = (if 3 \<le> x then 3 else x)"
  by simp

lemma year_split:
  fixes q n100 a n1 :: int
  assumes "0 \<le> n100" "n100 \<le> 3" "0 \<le> a" "a \<le> 24" "0 \<le> n1" "n1 \<le> 3"
  shows "(400 * q + 100 * n100 + 4 * a + n1) div 4 = 100 * q + 25 * n100 + a"
    "(400 * q + 100 * n100 + 4 * a + n1) div 100 = 4 * q + n100"
    "(400 * q + 100 * n100 + 4 * a + n1) div 400 = q"
  using assms int_div_pos_eq [of _ 4 _ n1] int_div_pos_eq [of _ 100 _ "4 * a + n1"] int_div_pos_eq [of _ 400 _ "100 * n100 + 4 * a + n1"]
  by simp_all

lemma year_yday_days:
  assumes "year_yday d = (y, yd)"
  shows "days_before_year y + yd = d" "0 \<le> yd" "yd < (if is_leap y then 366 else 365)"
proof -
  define q d1 n100 d2 a d3 n1 where
    defs: "q = d div 146097" "d1 = d mod 146097" "n100 = min 3 (d1 div 36524)" "d2 = d1 - n100 * 36524"
      "a = d2 div 1461" "d3 = d2 mod 1461" "n1 = min 3 (d3 div 365)"
  have y: "y - 1 = 400 * q + 100 * n100 + 4 * a + n1" "yd = d3 - n1 * 365"
    using assms by (simp_all add: year_yday_def Let_def defs)
  have d1: "0 \<le> d1" "d1 \<le> 146096" "d = 146097 * q + d1"
    using pos_mod_bound [of 146097 d] by (simp_all add: defs)
  have n100: "0 \<le> n100" "n100 \<le> 3" "0 \<le> d2" "d2 \<le> 36524" "n100 < 3 \<Longrightarrow> d2 \<le> 36523"
    using d1 mult_div_mod_eq [of 36524 d1] pos_mod_bound [of 36524 d1] pos_mod_sign [of 36524 d1]
    unfolding defs(3,4) min_3 by (simp_all split: if_splits; linarith)+
  have a: "0 \<le> a" "a \<le> 24" "0 \<le> d3" "d3 \<le> 1460" "d2 = 1461 * a + d3"
    using n100 mult_div_mod_eq [of 1461 d2] pos_mod_bound [of 1461 d2] pos_mod_sign [of 1461 d2]
    unfolding defs(5,6) by linarith+
  have n1: "0 \<le> n1" "n1 \<le> 3" "0 \<le> yd" "yd \<le> 365" "yd = 365 \<Longrightarrow> n1 = 3 \<and> d3 = 1460"
    using a y(2) mult_div_mod_eq [of 365 d3] pos_mod_bound [of 365 d3] pos_mod_sign [of 365 d3]
    unfolding defs(7) min_3 by (simp_all split: if_splits; linarith)+
  note split = year_split [OF n100(1,2) a(1,2) n1(1,2), of q]
  show "days_before_year y + yd = d"
    unfolding days_before_year_def y(1) split using d1(3) a(5) y(2) defs(4) by simp
  show "0 \<le> yd"
    by (rule n1)
  show "yd < (if is_leap y then 366 else 365)"
  proof (cases "yd = 365")
    case True
    then have "n1 = 3" "d2 = 1461 * a + 1460"
      using n1(5) a(5) by simp_all
    then have yy: "y = 400 * q + 100 * n100 + 4 * a + 4" "n100 < 3 \<Longrightarrow> a \<le> 23"
      using y(1) n100(5) by auto
    have "y = 4 * (100 * q + 25 * n100 + a + 1)"
      using yy(1) by simp
    then have "y mod 4 = 0"
      by simp
    moreover have "y mod 400 = 0 \<or> y mod 100 \<noteq> 0"
    proof (cases "a = 24")
      case True
      then have "n100 = 3"
        using yy(2) n100(2) by linarith
      then have "y = 400 * (q + 1)"
        using yy(1) True by simp
      then show ?thesis
        by simp
    next
      case False
      have "y = 100 * (4 * q + n100) + (4 * a + 4)"
        using yy(1) by simp
      then have "y mod 100 = 4 * a + 4"
        using False a(1,2) by (intro int_mod_pos_eq [where q = "4 * q + n100"]) simp_all
      then show ?thesis
        using a(1) by simp
    qed
    ultimately show ?thesis
      using True by (auto simp: is_leap_def)
  qed (use n1(4) in simp)
qed

lemma month_day_split:
  assumes "month_day m d ns = (m', d')" "0 \<le> d" "d < sum_list ns" "\<forall>n \<in> set ns. 0 < n"
  shows "m \<le> m' \<and> m' < m + int (length ns) \<and> 1 \<le> d' \<and> d' \<le> ns ! nat (m' - m) \<and> sum_list (take (nat (m' - m)) ns) + d' - 1 = d"
  using assms
proof (induction ns arbitrary: m d)
  case (Cons n ns)
  show ?case
  proof (cases "d < n")
    case False
    have "month_day (m + 1) (d - n) ns = (m', d')" "0 \<le> d - n" "d - n < sum_list ns" "\<forall>n \<in> set ns. 0 < n"
      using Cons.prems False by simp_all
    note ih = Cons.IH [OF this]
    then have "nat (m' - m) = Suc (nat (m' - (m + 1)))"
      by linarith
    then show ?thesis
      using ih by simp
  qed (use Cons.prems in simp)
qed simp

lemma month_lengths_facts:
  "sum_list (month_lengths leap) = (if leap then 366 else 365)" "length (month_lengths leap) = 12" "\<forall>n \<in> set (month_lengths leap). 0 < n"
  "\<forall>n \<in> set (month_lengths leap). n \<le> 31"
  by (simp_all add: month_lengths_def)

section \<open>Digits\<close>

lemma digits_value_append: "digits_value (s @ [c]) = digits_value s * 10 + (of_char c - 48)"
  by (simp add: digits_value_def)

lemma digit_char_value: "n < 10 \<Longrightarrow> of_char (digit_char n) - 48 = int n"
  by (drule less_10_cases) (auto simp: digit_char_def)

lemma digits_value_nat_dec: "digits_value (nat_dec n) = int n"
proof (induction n rule: nat_dec.induct)
  case (1 n)
  show ?case
  proof (cases "n < 10")
    case True
    then show ?thesis
      using digit_char_value [of n] by (subst nat_dec.simps) (simp add: digits_value_def)
  next
    case False
    then show ?thesis
      using 1 digit_char_value [of "n mod 10"] by (subst nat_dec.simps) (simp add: digits_value_append zdiv_int zmod_int)
  qed
qed

lemma digits_value_zeros: "digits_value (replicate k CHR ''0'' @ s) = digits_value s"
  by (induction k) (simp_all add: digits_value_def)

lemma digits_value_shift: "digits_value (s @ replicate k CHR ''0'') = digits_value s * 10 ^ k"
proof (induction k)
  case (Suc k)
  then show ?case
    using digits_value_append [of "s @ replicate k CHR ''0''" "CHR ''0''"] by (simp add: replicate_append_same)
qed simp

lemma nat_dec_length: "n < 10 ^ k \<Longrightarrow> 0 < k \<Longrightarrow> length (nat_dec n) \<le> k"
proof (induction n arbitrary: k rule: nat_dec.induct)
  case (1 n)
  show ?case
  proof (cases "n < 10")
    case False
    then obtain k' where k: "k = Suc k'" "0 < k'"
      using "1.prems" by (cases k; cases "k - 1") auto
    then have "n div 10 < 10 ^ k'"
      using "1.prems"(1) by (simp add: less_mult_imp_div_less mult.commute)
    then show ?thesis
      using "1.IH" [OF False _ k(2)] False k(1) by (subst nat_dec.simps) simp
  qed (use "1.prems" in \<open>subst nat_dec.simps, simp\<close>)
qed

lemma pad_facts:
  assumes "0 \<le> n" "n < 10 ^ k" "0 < k"
  shows "length (pad k n) = k" "list_all is_digit (pad k n)" "digits_value (pad k n) = n"
proof -
  have n: "pad k n = replicate (k - length (nat_dec (nat n))) CHR ''0'' @ nat_dec (nat n)"
    using assms(1) by (simp add: pad_def int_dec_def)
  have "nat n < 10 ^ k"
    using assms(1,2) by (simp add: nat_less_iff)
  then show "length (pad k n) = k"
    using nat_dec_length [OF _ assms(3)] by (simp add: n)
  show "list_all is_digit (pad k n)"
    unfolding n list_all_append list_all_iff [of _ "nat_dec (nat n)"]
    by (intro conjI ballI nat_dec_digits) (simp_all add: list_all_length)
  show "digits_value (pad k n) = n"
    using assms(1) by (simp add: n digits_value_zeros digits_value_nat_dec)
qed

lemma parse_uint_pad:
  "0 \<le> n \<Longrightarrow> n < 10 ^ k \<Longrightarrow> 0 < k \<Longrightarrow> lo \<le> n \<Longrightarrow> n \<le> hi \<Longrightarrow> parse_uint (pad k n) lo hi = Some n"
  using pad_facts [of n k] by (simp add: parse_uint_def)

section \<open>Parsing what was written\<close>

lemma sub_string_skip: "length p \<le> i \<Longrightarrow> sub_string (p @ s) i j = sub_string s (i - length p) (j - length p)"
  by (simp add: sub_string_def)

lemma sub_string_take: "length p = j \<Longrightarrow> sub_string (p @ s) 0 j = p"
  by (simp add: sub_string_def)

lemma parse_date_pads:
  assumes y: "0 \<le> y" "y \<le> 9999" and m: "1 \<le> m" "m \<le> 12" and d: "1 \<le> d" "d \<le> days_in m y"
    and hour: "0 \<le> hour" "hour \<le> 23" and mins: "0 \<le> mins" "mins \<le> 59" and sec: "0 \<le> sec" "sec \<le> 59"
  shows "parse_date (pad 4 y @ ''-'' @ pad 2 m @ ''-'' @ pad 2 d @ ''T'' @ pad 2 hour @ '':'' @ pad 2 mins @ '':'' @ pad 2 sec @ rest) =
    Some (date_days y m d * 86400 + hour * 3600 + mins * 60 + sec)"
proof -
  have "d \<le> 31"
    using d m month_lengths_facts [of "is_leap y"] by (auto simp: days_in_def intro: order_trans)
  then have len: "length (pad 4 y) = 4" "length (pad 2 m) = 2" "length (pad 2 d) = 2" "length (pad 2 hour) = 2" "length (pad 2 mins) = 2"
    "length (pad 2 sec) = 2"
    and val: "parse_uint (pad 4 y) 0 9999 = Some y" "parse_uint (pad 2 m) 1 12 = Some m" "parse_uint (pad 2 d) 1 (days_in m y) = Some d"
      "parse_uint (pad 2 hour) 0 23 = Some hour" "parse_uint (pad 2 mins) 0 59 = Some mins" "parse_uint (pad 2 sec) 0 59 = Some sec"
    using assms by (simp_all add: pad_facts parse_uint_pad)
  let ?s = "pad 4 y @ ''-'' @ pad 2 m @ ''-'' @ pad 2 d @ ''T'' @ pad 2 hour @ '':'' @ pad 2 mins @ '':'' @ pad 2 sec @ rest"
  have sub: "sub_string ?s 0 4 = pad 4 y" "sub_string ?s 5 7 = pad 2 m" "sub_string ?s 8 10 = pad 2 d" "sub_string ?s 11 13 = pad 2 hour"
    "sub_string ?s 14 16 = pad 2 mins" "sub_string ?s 17 19 = pad 2 sec"
    by (simp_all add: sub_string_def len)
  have nth: "?s ! 4 = CHR ''-''" "?s ! 7 = CHR ''-''" "?s ! 10 = CHR ''T''" "?s ! 13 = CHR '':''" "?s ! 16 = CHR '':''"
    by (simp_all add: nth_append len)
  show ?thesis
    unfolding parse_date_def sub nth val by (simp add: len val)
qed

lemma drop_date:
  assumes "0 \<le> y" "y \<le> 9999" "1 \<le> m" "m \<le> 12" "1 \<le> d" "d \<le> 31" "0 \<le> hour" "hour \<le> 23" "0 \<le> mins" "mins \<le> 59" "0 \<le> sec" "sec \<le> 59"
  shows "length (pad 4 y @ ''-'' @ pad 2 m @ ''-'' @ pad 2 d @ ''T'' @ pad 2 hour @ '':'' @ pad 2 mins @ '':'' @ pad 2 sec) = 19"
  using assms by (simp add: pad_facts)

text \<open>The digits of a fraction, with the trailing zeros that were dropped.\<close>

lemma strip_zeros:
  "\<exists>k. s = rev (dropWhile (\<lambda>c. c = CHR ''0'') (rev s)) @ replicate k CHR ''0''"
proof -
  have "s = rev (dropWhile (\<lambda>c. c = CHR ''0'') (rev s)) @ rev (takeWhile (\<lambda>c. c = CHR ''0'') (rev s))"
    by (metis rev_append rev_rev_ident takeWhile_dropWhile_id)
  moreover have "\<forall>c \<in> set (rev (takeWhile (\<lambda>c. c = CHR ''0'') (rev s))). c = CHR ''0''"
    by (auto dest: set_takeWhileD)
  ultimately show ?thesis
    by (metis replicate_eqI)
qed

lemma parse_fraction_fraction:
  assumes "0 \<le> ns" "ns < second"
  shows "parse_fraction (fraction ns @ ''Z'') = (ns, ''Z'')"
proof (cases "ns = 0")
  case True
  then show ?thesis by (simp add: fraction_def parse_fraction_def)
next
  case False
  define ds where "ds = rev (dropWhile (\<lambda>c. c = CHR ''0'') (rev (pad 9 ns)))"
  obtain k where k: "pad 9 ns = ds @ replicate k CHR ''0''"
    using strip_zeros unfolding ds_def by blast
  have pad: "length (pad 9 ns) = 9" "list_all is_digit (pad 9 ns)" "digits_value (pad 9 ns) = ns"
    using pad_facts [of ns 9] assms by (simp_all add: second_def)
  have ds: "length ds + k = 9" "list_all is_digit ds" "digits_value ds * 10 ^ k = ns"
    using pad unfolding k by (simp_all add: digits_value_shift)
  then have "ds \<noteq> []"
    using False by (auto simp: digits_value_def)
  then obtain c cs where c: "ds = c # cs" "is_digit c"
    using ds(2) by (cases ds) auto
  have span: "takeWhile is_digit (ds @ ''Z'') = ds" "dropWhile is_digit (ds @ ''Z'') = ''Z''"
    using ds(2) by (simp_all add: list_all_iff takeWhile_append dropWhile_append)
  have "fraction ns @ ''Z'' = CHR ''.'' # ds @ ''Z''"
    using False by (simp add: fraction_def ds_def)
  moreover have "parse_fraction (CHR ''.'' # ds @ ''Z'') = (digits_value (take 9 ds) * 10 ^ (9 - length (take 9 ds)), ''Z'')"
    unfolding parse_fraction_def list.sel span Let_def using c by simp
  moreover have "take 9 ds = ds" "9 - length ds = k"
    using ds(1) by simp_all
  ultimately show ?thesis
    using ds(3) by simp
qed

lemma parse_date_date_time:
  assumes "0 \<le> year_of t" "year_of t \<le> 9999"
  shows "parse_date (date_time t @ rest) = Some (t div second)" "length (date_time t) = 19"
proof -
  define sec where "sec = t mod ns_per_day div second"
  obtain y yd m d where yd: "year_yday (t div ns_per_day) = (y, yd)" and md: "month_day 1 yd (month_lengths (is_leap y)) = (m, d)"
    by (metis surj_pair)
  have y: "0 \<le> y" "y \<le> 9999"
    using assms yd by (simp_all add: year_of_def)
  note day = year_yday_days [OF yd]
  have md': "1 \<le> m" "m \<le> 12" "1 \<le> d" "d \<le> days_in m y" "date_days y m d = t div ns_per_day"
    using month_day_split [OF md] day month_lengths_facts [of "is_leap y"] by (auto simp: days_in_def date_days_def)
  then have "d \<le> 31"
    using month_lengths_facts [of "is_leap y"] by (auto simp: days_in_def intro: order_trans)
  have t: "t = ns_per_day * (t div ns_per_day) + t mod ns_per_day" "0 \<le> t mod ns_per_day" "t mod ns_per_day < ns_per_day"
    by (simp_all add: ns_per_day_def second_def)
  have sec: "0 \<le> sec" "sec < 86400"
    using t(2,3) by (simp_all add: sec_def ns_per_day_def second_def)
  have secs: "t div second = (t div ns_per_day) * 86400 + sec"
  proof -
    have "t div second = (second * (86400 * (t div ns_per_day)) + t mod ns_per_day) div second"
      using t(1) by (simp add: ns_per_day_def mult.assoc mult.left_commute)
    then show ?thesis
      by (simp add: sec_def second_def)
  qed
  have hour: "sec div 3600 = sec div 60 div 60"
    using zdiv_zmult2_eq [of 60 sec 60] by simp
  have hms: "0 \<le> sec div 3600" "sec div 3600 \<le> 23" "0 \<le> sec div 60 mod 60" "sec div 60 mod 60 \<le> 59" "0 \<le> sec mod 60" "sec mod 60 \<le> 59"
    using sec by simp_all
  have sum: "sec div 3600 * 3600 + sec div 60 mod 60 * 60 + sec mod 60 = sec"
    unfolding hour using mult_div_mod_eq [of 60 sec] mult_div_mod_eq [of 60 "sec div 60"] by linarith
  have written: "date_time t = pad 4 y @ ''-'' @ pad 2 m @ ''-'' @ pad 2 d @ ''T'' @ pad 2 (sec div 3600) @ '':'' @
      pad 2 (sec div 60 mod 60) @ '':'' @ pad 2 (sec mod 60)"
    by (simp add: date_time_def yd md sec_def Let_def)
  show "length (date_time t) = 19"
    unfolding written by (rule drop_date) (use y md' \<open>d \<le> 31\<close> hms in simp_all)
  show "parse_date (date_time t @ rest) = Some (t div second)"
    using parse_date_pads [OF y md'(1-4) hms, of rest] sum by (simp add: written md'(5) secs)
qed

lemma unmarshal_json_time:
  assumes "json_time t = Some raw"
  shows "unmarshal_time raw = Some t"
proof -
  have year: "0 \<le> year_of t" "year_of t \<le> 9999" and raw: "raw = CHR ''\"'' # date_time t @ fraction (t mod second) @ ''Z'' @ [CHR ''\"'']"
    using assms by (auto simp: json_time_def split: if_splits)
  have "parse_fraction (fraction (t mod second) @ ''Z'') = (t mod second, ''Z'')"
    by (rule parse_fraction_fraction) (simp_all add: second_def)
  then have "parseRFC3339 (date_time t @ fraction (t mod second) @ ''Z'') = Some t"
    using parse_date_date_time [OF year] by (simp add: parseRFC3339_def parse_zone_def second_def)
  then show ?thesis
    by (simp add: unmarshal_time_def raw butlast_append)
qed

end
