(* ===== verification/JsonRead.thy ===== *)
theory JsonRead
  imports GoJson
begin

text \<open>
  Reading what \<^verbatim>\<open>encoding/json\<close> has written: string literals, values in front of a delimiter, and
  objects.  These facts carry the round trips of the records that are sent as JSON.
\<close>

section \<open>String literals\<close>

function utf8_valid :: "string \<Rightarrow> bool" where
  "utf8_valid s = (if s = [] then True else if utf8_len s = 0 then False else utf8_valid (drop (utf8_len s) s))"
  by pat_completeness auto
termination
  by (relation "measure length") auto

declare utf8_valid.simps [simp del]

lemma utf8_valid_Nil [simp]: "utf8_valid []"
  by (simp add: utf8_valid.simps)

lemma utf8_len_ascii: "byte c < 0x80 \<Longrightarrow> utf8_len (c # r) = 1"
  by (simp add: utf8_len_def)

text \<open>The second byte of a sequence of three and of four.\<close>

definition three_ok :: "char \<Rightarrow> char \<Rightarrow> bool" where
  "three_ok a b = ((if byte a = 0xE0 then 0xA0 \<le> byte b else 0x80 \<le> byte b) \<and> (if byte a = 0xED then byte b \<le> 0x9F else byte b \<le> 0xBF))"

definition four_ok :: "char \<Rightarrow> char \<Rightarrow> bool" where
  "four_ok a b = ((if byte a = 0xF0 then 0x90 \<le> byte b else 0x80 \<le> byte b) \<and> (if byte a = 0xF4 then byte b \<le> 0x8F else byte b \<le> 0xBF))"

lemma utf8_lead:
  obtains (ascii) "byte a < 0x80" "\<And>r. utf8_len (a # r) = 1"
  | (two) "\<not> byte a < 0x80" "\<And>r. utf8_len (a # r) = (case r of b # _ \<Rightarrow> if cont b then 2 else 0 | [] \<Rightarrow> 0)"
  | (three) "\<not> byte a < 0x80" "\<And>r. utf8_len (a # r) = (case r of b # c # _ \<Rightarrow> if three_ok a b \<and> cont c then 3 else 0 | _ \<Rightarrow> 0)"
  | (four) "\<not> byte a < 0x80" "\<And>r. utf8_len (a # r) = (case r of b # c # d # _ \<Rightarrow> if four_ok a b \<and> cont c \<and> cont d then 4 else 0 | _ \<Rightarrow> 0)"
  | (bad) "\<not> byte a < 0x80" "\<And>r. utf8_len (a # r) = 0"
proof -
  consider "byte a < 0x80" | "\<not> byte a < 0x80" "0xC2 \<le> byte a" "byte a \<le> 0xDF" | "\<not> byte a < 0x80" "0xE0 \<le> byte a" "byte a \<le> 0xEF"
    | "\<not> byte a < 0x80" "0xF0 \<le> byte a" "byte a \<le> 0xF4"
    | "\<not> byte a < 0x80" "\<not> (0xC2 \<le> byte a \<and> byte a \<le> 0xDF)" "\<not> (0xE0 \<le> byte a \<and> byte a \<le> 0xEF)" "\<not> (0xF0 \<le> byte a \<and> byte a \<le> 0xF4)"
    by blast
  then show thesis
  proof cases
    case 1
    show thesis by (rule ascii [OF 1]) (simp add: utf8_len_def 1)
  next
    case 2
    show thesis by (rule two [OF 2(1)]) (simp add: utf8_len_def 2 del: not_less)
  next
    case 3
    show thesis
      by (rule three [OF 3(1)]) (use 3 in \<open>simp add: utf8_len_def three_ok_def cong: list.case_cong\<close>)
  next
    case 4
    show thesis
      by (rule four [OF 4(1)]) (use 4 in \<open>simp add: utf8_len_def four_ok_def cong: list.case_cong\<close>)
  next
    case 5
    show thesis
      by (rule bad [OF 5(1)]) (simp only: utf8_len_def list.case 5 if_False)
  qed
qed

lemma utf8_len_Nil [simp]: "utf8_len [] = 0"
  by (simp add: utf8_len_def)

lemma utf8_len_append: "utf8_len s \<noteq> 0 \<Longrightarrow> utf8_len (s @ t) = utf8_len s"
proof (cases s)
  case (Cons a r)
  show "utf8_len s \<noteq> 0 \<Longrightarrow> ?thesis"
    unfolding Cons append_Cons by (cases a rule: utf8_lead; simp split: list.splits if_splits)
qed (simp add: utf8_len_def)

lemma utf8_len_take: "utf8_len (take (utf8_len s) s) = utf8_len s"
proof (cases s)
  case (Cons a r)
  show ?thesis
    unfolding Cons by (cases a rule: utf8_lead; simp split: list.split)
qed (simp add: utf8_len_def)

lemma utf8_len_bound: "utf8_len s \<le> length s"
proof (cases s)
  case (Cons a r)
  show ?thesis
    unfolding Cons by (cases a rule: utf8_lead; simp split: list.split)
qed (simp add: utf8_len_def)

lemma hex_val_digits: "list_all (\<lambda>n. hex_val (hex_digit n) = Some (int n)) [0..<16]"
  by code_simp

lemma hex_val_digit: "n < 16 \<Longrightarrow> hex_val (hex_digit n) = Some (int n)"
  using hex_val_digits by (simp add: list_all_iff)

lemma read_unicode_byte:
  assumes "byte c < 0x80"
  shows "read_string (Suc n) (CHR 0x5C # ''u00'' @ [hex_digit (byte c div 16), hex_digit (byte c mod 16)] @ rest) =
    map_option (map_prod ((@) [c]) id) (read_string n rest)"
proof -
  have "hex_val (hex_digit (byte c div 16)) = Some (int (byte c div 16))" "hex_val (hex_digit (byte c mod 16)) = Some (int (byte c mod 16))"
    using assms by (simp_all add: hex_val_digit less_mult_imp_div_less)
  moreover have "hex_val CHR ''0'' = Some 0"
    by (simp add: hex_val_def digit_val_def)
  moreover have "nat (int (byte c div 16) * 16 + int (byte c mod 16)) = byte c"
    by (metis div_mult_mod_eq nat_int of_nat_add of_nat_mult of_nat_numeral)
  ultimately have "hex4 (''00'' @ [hex_digit (byte c div 16), hex_digit (byte c mod 16)] @ rest) = Some (byte c, rest)"
    by (simp add: hex4_def)
  then show ?thesis
    using assms by (simp add: simple_escape_def unicode_escape_def utf8_encode_def)
qed

lemma read_escape_byte:
  assumes "byte c < 0x80"
  shows "read_string (Suc n) (escape_byte c @ rest) = map_option (map_prod ((@) [c]) id) (read_string n rest)"
proof -
  let ?simple = "{CHR ''\"'', CHR 0x5C, CHR 0x08, CHR 0x0C, CHR 0x0A, CHR 0x0D, CHR 0x09}"
  consider "c \<in> ?simple" | "c \<notin> ?simple" "byte c < 0x20 \<or> c \<in> set ''<>&''" | "c \<notin> ?simple" "\<not> (byte c < 0x20 \<or> c \<in> set ''<>&'')"
    by blast
  then show ?thesis
  proof cases
    case 1
    then show ?thesis
      by (elim insertE emptyE; simp add: escape_byte_def simple_escape_def)
  next
    case 2
    then have "escape_byte c = CHR 0x5C # ''u00'' @ [hex_digit (byte c div 16), hex_digit (byte c mod 16)]"
      unfolding escape_byte_def by (simp del: set_simps)
    then show ?thesis
      using read_unicode_byte [OF assms, of n rest] by simp
  next
    case 3
    then have "escape_byte c = [c]"
      unfolding escape_byte_def by (simp del: set_simps)
    then show ?thesis
      using 3 utf8_len_ascii [OF assms, of rest] by simp
  qed
qed

lemma read_plain_rune:
  assumes "utf8_len s \<noteq> 0" "\<not> byte (hd s) < 0x80"
  shows "read_string (Suc n) (take (utf8_len s) s @ rest) = map_option (map_prod ((@) (take (utf8_len s) s)) id) (read_string n rest)"
proof -
  obtain c r where s: "s = c # r"
    using assms(1) by (cases s) (auto simp: utf8_len_def)
  have len: "utf8_len (take (utf8_len s) s @ rest) = utf8_len s"
    using utf8_len_append [of "take (utf8_len s) s" rest] utf8_len_take [of s] assms(1) by simp
  have cut: "take (utf8_len s) (take (utf8_len s) s @ rest) = take (utf8_len s) s" "drop (utf8_len s) (take (utf8_len s) s @ rest) = rest"
    using utf8_len_bound [of s] by simp_all
  obtain x where hd: "take (utf8_len s) s @ rest = c # x"
    using assms(1) s by (cases "utf8_len s") auto
  have "c \<noteq> CHR ''\"''" "c \<noteq> CHR 0x5C" "\<not> byte c < 0x20"
    using assms(2) s by auto
  then show ?thesis
    using len cut assms(1) unfolding hd by simp
qed

lemma encode_line_separator:
  "utf8_encode 0x2028 = [CHR 0xE2, CHR 0x80, CHR 0xA8]" "utf8_encode 0x2029 = [CHR 0xE2, CHR 0x80, CHR 0xA9]"
  by (simp_all add: utf8_encode_def char_of_eq_iff)

lemma read_line_separator:
  "read_string (Suc n) (CHR 0x5C # ''u2028'' @ rest) = map_option (map_prod ((@) [CHR 0xE2, CHR 0x80, CHR 0xA8]) id) (read_string n rest)"
  "read_string (Suc n) (CHR 0x5C # ''u2029'' @ rest) = map_option (map_prod ((@) [CHR 0xE2, CHR 0x80, CHR 0xA9]) id) (read_string n rest)"
  by (simp_all add: simple_escape_def hex4_def hex_val_def digit_val_def unicode_escape_def encode_line_separator)

lemma separator_split:
  assumes "take 3 s = [CHR 0xE2, CHR 0x80, x]" "x = CHR 0xA8 \<or> x = CHR 0xA9"
  shows "utf8_len s = 3" "s = [CHR 0xE2, CHR 0x80, x] @ drop 3 s"
proof -
  show s: "s = [CHR 0xE2, CHR 0x80, x] @ drop 3 s"
    using assms(1) by (metis append_take_drop_id)
  show "utf8_len s = 3"
    using assms(2) by (subst s) (auto simp: utf8_len_def)
qed

text \<open>A literal is read back, with any fuel that its length allows.\<close>

lemma read_escape:
  "utf8_valid s \<Longrightarrow> length s \<le> k \<Longrightarrow> length (escape_string k s) < n \<Longrightarrow>
    read_string n (escape_string k s @ CHR ''\"'' # t) = Some (s, t)"
proof (induction s arbitrary: k n rule: utf8_valid.induct)
  case (1 s)
  obtain n' where n: "n = Suc n'"
    using "1.prems"(3) by (cases n) auto
  show ?case
  proof (cases s)
    case Nil
    then show ?thesis using n by (cases k) simp_all
  next
    case (Cons c r)
    obtain k' where k: "k = Suc k'"
      using "1.prems"(2) Cons by (cases k) auto
    let ?l = "utf8_len s"
    have l: "?l \<noteq> 0" "utf8_valid (drop ?l s)" "length (drop ?l s) \<le> k'"
      using "1.prems"(1,2) Cons k utf8_valid.simps [of s] by (auto split: if_splits)
    have rest: "read_string n' (escape_string k' (drop ?l s) @ CHR ''\"'' # t) = Some (drop ?l s, t)"
      if "length (escape_string k' (drop ?l s)) < n'"
      using "1.IH" [OF _ l(1) l(2,3) that] Cons by simp
    have join: "take ?l s @ drop ?l s = s"
      by simp
    consider "byte c < 0x80"
      | "\<not> byte c < 0x80" "take 3 s = [CHR 0xE2, CHR 0x80, CHR 0xA8]"
      | "\<not> byte c < 0x80" "take 3 s = [CHR 0xE2, CHR 0x80, CHR 0xA9]"
      | "\<not> byte c < 0x80" "take 3 s \<noteq> [CHR 0xE2, CHR 0x80, CHR 0xA8]" "take 3 s \<noteq> [CHR 0xE2, CHR 0x80, CHR 0xA9]"
      by blast
    then show ?thesis
    proof cases
      case 1
      have "escape_byte c \<noteq> []"
        by (simp add: escape_byte_def)
      have e: "escape_string k s = escape_byte c @ escape_string k' (drop ?l s)" "?l = 1"
        using 1 Cons utf8_len_ascii [OF 1, of r] by (simp_all add: k)
      then have "length (escape_string k' (drop ?l s)) < n'"
        using "1.prems"(3) n \<open>escape_byte c \<noteq> []\<close> by (cases "escape_byte c") auto
      then show ?thesis
        using rest read_escape_byte [OF 1, of n'] e Cons n by simp
    next
      case 2
      note sep = separator_split [OF 2(2)]
      have e: "escape_string k s = CHR 0x5C # ''u2028'' @ escape_string k' (drop ?l s)"
        using 2 l(1) sep(1) Cons by (simp add: k)
      then have "length (escape_string k' (drop ?l s)) < n'"
        using "1.prems"(3) n by simp
      then show ?thesis
        using rest read_line_separator(1) [of n'] sep n by (simp add: e del: read_string.simps)
    next
      case 3
      note sep = separator_split [OF 3(2)]
      have e: "escape_string k s = CHR 0x5C # ''u2029'' @ escape_string k' (drop ?l s)"
        using 3 l(1) sep(1) Cons by (simp add: k)
      then have "length (escape_string k' (drop ?l s)) < n'"
        using "1.prems"(3) n by simp
      then show ?thesis
        using rest read_line_separator(2) [of n'] sep n by (simp add: e del: read_string.simps)
    next
      case 4
      then have e: "escape_string k s = take ?l s @ escape_string k' (drop ?l s)"
        using Cons l(1) by (auto simp: k)
      then have "length (escape_string k' (drop ?l s)) < n'"
        using "1.prems"(3) n l(1) utf8_len_bound [of s] by simp
      then show ?thesis
        using rest read_plain_rune [OF l(1), of n'] 4(1) e n Cons join by simp
    qed
  qed
qed

section \<open>Values in front of a delimiter\<close>

text \<open>What is read is not changed by what follows, as long as that does not continue a number.\<close>

definition delim :: "string \<Rightarrow> bool" where
  "delim t = (t \<noteq> [] \<and> hd t \<in> {CHR '','', CHR ''}'', CHR '']''})"

lemma hex4_append: "hex4 r = Some (u, r') \<Longrightarrow> hex4 (r @ t) = Some (u, r' @ t)"
  by (auto simp: hex4_def split: list.splits option.splits)

lemma read_string_fuel_mono: "length s \<le> n \<Longrightarrow> n \<le> m \<Longrightarrow> read_string m s = read_string n s"
proof (induction m rule: nat_induct)
  case (Suc m)
  then show ?case
    using read_string_fuel [of s m] by (cases "n \<le> m") (auto simp: not_less_eq_eq le_Suc_eq)
qed simp

lemma cont_lead: "cont c \<Longrightarrow> utf8_len (c # r) = 0"
  by (simp add: utf8_len_def)

lemma read_conts: "list_all cont r \<Longrightarrow> read_string n r = None"
proof (induction n arbitrary: r)
  case (Suc n)
  then show ?case
    by (cases r) (auto simp: cont_lead)
qed simp

text \<open>A sequence that is only completed by what follows has nothing but continuation bytes, and no
  closing quote.\<close>

lemma second_byte: "three_ok a b \<or> four_ok a b \<Longrightarrow> cont b"
  by (auto simp: three_ok_def four_ok_def split: if_splits)

lemma utf8_len_completed:
  assumes "utf8_len (c # r) = 0" "utf8_len (c # r @ t) \<noteq> 0"
  shows "list_all cont r"
proof (cases c rule: utf8_lead)
  case three
  then show ?thesis
    using assms second_byte by (auto split: list.splits if_splits simp: append_eq_Cons_conv)
next
  case four
  then show ?thesis
    using assms second_byte by (auto split: list.splits if_splits simp: append_eq_Cons_conv)
qed (use assms in \<open>auto split: list.splits if_splits simp: append_eq_Cons_conv\<close>)

lemma unicode_escape_append:
  assumes "unicode_escape u r = (x, r1)" "read_string n r1 = Some y"
  shows "unicode_escape u (r @ t) = (x, r1 @ t)"
proof (cases "0xD800 \<le> u \<and> u < 0xE000 \<and> (\<exists>r'. r = CHR 0x5C # CHR ''u'' # r')")
  case True
  then obtain r' where r: "r = CHR 0x5C # CHR ''u'' # r'" and u: "0xD800 \<le> u" "u < 0xE000"
    by blast
  show ?thesis
  proof (cases "hex4 r'")
    case None
    then have "r1 = r"
      using assms(1) r u by (simp add: unicode_escape_def)
    then have "read_string n r1 = None"
      using None r by (cases n) (simp_all add: simple_escape_def)
    then show ?thesis
      using assms(2) by simp
  next
    case (Some p)
    then show ?thesis
      using assms(1) r u hex4_append [of r' _ _ t] by (cases p) (auto simp: unicode_escape_def split: if_splits)
  qed
next
  case False
  have "r1 \<noteq> []"
    using assms(2) by (cases n) auto
  show ?thesis
  proof (cases "0xD800 \<le> u \<and> u < 0xE000")
    case surrogate: True
    have r1: "r1 = r" "x = replacement"
      using assms(1) False surrogate by (auto simp: unicode_escape_def split: list.splits if_splits)
    obtain a b where r: "r = a # b"
      using \<open>r1 \<noteq> []\<close> r1 by (cases r) auto
    have "\<not> (a = CHR 0x5C \<and> b = [])"
    proof
      assume "a = CHR 0x5C \<and> b = []"
      then have "read_string n r1 = None"
        using r1 r by (cases n) simp_all
      then show False
        using assms(2) by simp
    qed
    then show ?thesis
      using False surrogate r1 r by (cases b) (auto simp: unicode_escape_def split: list.splits)
  qed (use assms(1) in \<open>auto simp: unicode_escape_def\<close>)
qed

lemma read_string_append: "read_string n s = Some (x, r) \<Longrightarrow> read_string n (s @ t) = Some (x, r @ t)"
proof (induction n arbitrary: s x r)
  case (Suc n)
  obtain c s' where s: "s = c # s'"
    using Suc.prems by (cases s) auto
  consider "c = CHR ''\"''" | "c = CHR 0x5C" | "c \<noteq> CHR ''\"''" "c \<noteq> CHR 0x5C"
    by blast
  then show ?case
  proof cases
    case 2
    obtain e s2 where s2: "s' = e # s2"
      using Suc.prems s 2 by (cases s') auto
    show ?thesis
    proof (cases "simple_escape e")
      case (Some y)
      then show ?thesis
        using Suc.prems s 2 s2 Suc.IH by auto
    next
      case None
      then obtain u s3 y s4 where h: "e = CHR ''u''" "hex4 s2 = Some (u, s3)" "unicode_escape u s3 = (y, s4)"
        "map_option (map_prod ((@) y) id) (read_string n s4) = Some (x, r)"
        using Suc.prems s 2 s2 by (auto split: if_splits option.splits prod.splits)
      then obtain x' where x': "read_string n s4 = Some (x', r)" "x = y @ x'"
        by auto
      have "unicode_escape u (s3 @ t) = (y, s4 @ t)"
        using h(3) x'(1) by (rule unicode_escape_append)
      then show ?thesis
        using None h(1) hex4_append [OF h(2), of t] Suc.IH [OF x'(1)] x'(2) s 2 s2 by simp
    qed
  next
    case 3
    then have ctl: "\<not> byte c < 0x20"
      using Suc.prems s by (auto split: if_splits)
    show ?thesis
    proof (cases "utf8_len s = 0")
      case True
      then obtain x' where x': "read_string n s' = Some (x', r)" "x = replacement @ x'"
        using Suc.prems s 3 ctl by auto
      then have "utf8_len (c # s' @ t) = 0"
        using True s utf8_len_completed [of c s' t] read_conts [of s' n] by auto
      then show ?thesis
        using Suc.IH [OF x'(1)] x'(2) s 3 ctl by simp
    next
      case False
      then obtain x' where x': "read_string n (drop (utf8_len s) s) = Some (x', r)" "x = take (utf8_len s) s @ x'"
        using Suc.prems s 3 ctl by auto
      have "utf8_len (s @ t) = utf8_len s" "take (utf8_len s) (s @ t) = take (utf8_len s) s"
        "drop (utf8_len s) (s @ t) = drop (utf8_len s) s @ t"
        using False utf8_len_append utf8_len_bound [of s] by simp_all
      then show ?thesis
        using Suc.IH [OF x'(1)] x'(2) s 3 ctl False by simp
    qed
  qed (use Suc.prems s in simp)
qed simp

text \<open>Numbers.\<close>

lemma delim_cases:
  assumes "delim t"
  obtains x t' where "t = x # t'" "\<not> is_digit x" "x \<noteq> CHR ''.''" "x \<noteq> CHR ''e''" "x \<noteq> CHR ''E''" "x \<noteq> CHR ''+''" "x \<noteq> CHR ''-''" "\<not> is_ws x"
  using assms by (cases t) (auto simp: delim_def is_ws_def)

lemma span_stop: "\<not> P x \<Longrightarrow> takeWhile P (s @ x # t) = takeWhile P s \<and> dropWhile P (s @ x # t) = dropWhile P s @ x # t"
  by (induction s) simp_all

lemma span_digits_append: "delim t \<Longrightarrow> span_digits s = (ds, r) \<Longrightarrow> span_digits (s @ t) = (ds, r @ t)"
  by (elim delim_cases) (simp only: span_digits_def span_stop prod.inject simp_thms)

lemma read_sign_append: "read_sign s = (sg, r) \<Longrightarrow> s \<noteq> [] \<Longrightarrow> read_sign (s @ t) = (sg, r @ t)"
  by (auto simp: read_sign_def split: list.splits if_splits)

lemma read_int_part_append: "delim t \<Longrightarrow> read_int_part s = (ds, r) \<Longrightarrow> ds \<noteq> [] \<Longrightarrow> read_int_part (s @ t) = (ds, r @ t)"
  using span_digits_append [of t s] by (cases s) (auto simp: read_int_part_def split: if_splits)

lemma read_fraction_append: "delim t \<Longrightarrow> read_fraction s = Some (fs, r) \<Longrightarrow> read_fraction (s @ t) = Some (fs, r @ t)"
proof (cases s)
  case Nil
  assume "delim t" "read_fraction s = Some (fs, r)"
  then show ?thesis
    using Nil by (elim delim_cases) (simp add: read_fraction_def)
next
  case (Cons c s')
  assume "delim t" "read_fraction s = Some (fs, r)"
  then show ?thesis
    using Cons span_digits_append [of t s'] by (auto simp: read_fraction_def split: if_splits prod.splits)
qed

lemma read_exp_part_append: "delim t \<Longrightarrow> read_exp_part s = Some (fs, r) \<Longrightarrow> read_exp_part (s @ t) = Some (fs, r @ t)"
proof (cases s)
  case Nil
  assume "delim t" "read_exp_part s = Some (fs, r)"
  then show ?thesis
    using Nil by (elim delim_cases) (simp add: read_exp_part_def)
next
  case (Cons c s')
  assume d: "delim t" "read_exp_part s = Some (fs, r)"
  then show ?thesis
  proof (cases s')
    case Nil
    then show ?thesis
      using d Cons by (auto simp: read_exp_part_def span_digits_def split: if_splits)
  next
    case c2: (Cons c2 s2)
    then show ?thesis
      using d Cons span_digits_append [of t s2] span_digits_append [of t s']
      by (auto simp: read_exp_part_def split: if_splits prod.splits)
  qed
qed

lemma number_literal_append:
  assumes "delim t" "number_literal s = Some (lit, r)"
  shows "number_literal (s @ t) = Some (lit, r @ t)"
proof -
  have "s \<noteq> []"
    using number_literal_rest [OF assms(2)] by auto
  obtain sg s1 where 1: "read_sign s = (sg, s1)" by (metis surj_pair)
  obtain ds s2 where 2: "read_int_part s1 = (ds, s2)" by (metis surj_pair)
  obtain frac s3 ex s4 where 3: "ds \<noteq> []" "read_fraction s2 = Some (frac, s3)" "read_exp_part s3 = Some (ex, s4)"
    "lit = sg @ ds @ frac @ ex" "r = s4"
    using assms(2) 1 2 by (auto simp: number_literal_def split: if_splits option.splits prod.splits)
  show ?thesis
    using read_sign_append [OF 1 \<open>s \<noteq> []\<close>, of t] read_int_part_append [OF assms(1) 2 3(1)] read_fraction_append [OF assms(1) 3(2)]
      read_exp_part_append [OF assms(1) 3(3)] 3 by (simp add: number_literal_def)
qed

lemma skip_ws_append: "skip_ws s \<noteq> [] \<Longrightarrow> skip_ws (s @ t) = skip_ws s @ t"
  by (induction s) (auto simp: skip_ws_def split: if_splits)

lemma skip_ws_delim: "delim t \<Longrightarrow> skip_ws t = t"
  by (elim delim_cases) (simp add: skip_ws_def)

lemma number_literal_head:
  assumes "number_literal (c # s) = Some p"
  shows "c = CHR ''-'' \<or> is_digit c"
proof (cases "c = CHR ''0''")
  case False
  then show ?thesis
    using assms by (auto simp: number_literal_def read_sign_def read_int_part_def span_digits_def simp del: set_simps
        split: if_splits prod.splits)
qed simp

lemma read_scalar_append:
  assumes "delim t" "read_scalar s = Some (v, r)"
  shows "read_scalar (s @ t) = Some (v, r @ t)"
proof -
  obtain c s' where s: "s = c # s'"
    using read_scalar_rest [OF assms(2)] by (cases s) auto
  have quote: "HasPrefix s [CHR ''\"''] = (c = CHR ''\"'')"
    by (simp add: s HasPrefix_def)
  consider (str) "c = CHR ''\"''" | (lit) "HasPrefix s ''true'' \<or> HasPrefix s ''false'' \<or> HasPrefix s ''null''"
    | (num) "c \<noteq> CHR ''\"''" "\<not> HasPrefix s ''true''" "\<not> HasPrefix s ''false''" "\<not> HasPrefix s ''null''"
    by blast
  then show ?thesis
  proof cases
    case str
    then obtain x where x: "read_string (length s) s' = Some (x, r)" "v = JStr x"
      using assms(2) s by (auto simp: read_scalar_def HasPrefix_def simp del: read_string.simps)
    then have "read_string (length (s @ t)) s' = Some (x, r)"
      using read_string_fuel_mono [of s' "length s" "length (s @ t)"] s by simp
    then have "read_string (length (s @ t)) (s' @ t) = Some (x, r @ t)"
      by (rule read_string_append)
    then show ?thesis
      using str s x(2) by (simp add: read_scalar_def HasPrefix_def del: read_string.simps)
  next
    case lit
    then obtain q where "s = ''true'' @ q \<or> s = ''false'' @ q \<or> s = ''null'' @ q"
      by (auto simp: HasPrefix_iff)
    then show ?thesis
      using assms(2) by (elim disjE) (auto simp: read_scalar_def HasPrefix_def)
  next
    case num
    then obtain n where n: "number_literal s = Some (n, r)" "v = JNum n"
      using assms(2) quote by (auto simp: read_scalar_def)
    then have "c = CHR ''-'' \<or> is_digit c"
      using number_literal_head s by blast
    then have "c \<notin> {CHR ''\"'', CHR ''t'', CHR ''f'', CHR ''n''}"
      by auto
    then show ?thesis
      using number_literal_append [OF assms(1) n(1)] n(2) s by (auto simp: read_scalar_def HasPrefix_def)
  qed
qed

lemma text_between_append:
  "skip_ws s \<noteq> [] \<Longrightarrow> length r \<le> length (skip_ws s) \<Longrightarrow> text_between (s @ t) (r @ t) = text_between s r"
  by (simp add: text_between_def skip_ws_append Let_def)

lemma read_key_append: "read_key s = Some (k, r) \<Longrightarrow> read_key (s @ t) = Some (k, r @ t)"
proof -
  assume k: "read_key s = Some (k, r)"
  then obtain q s1 where s1: "skip_ws s = q # s1"
    by (auto simp: read_key_def split: list.splits)
  then obtain r1 r2 x where r: "q = CHR ''\"''" "read_string (length s1) s1 = Some (k, r1)" "skip_ws r1 = CHR '':'' # r"
    using k by (auto simp: read_key_def split: list.splits if_splits option.splits)
  have "skip_ws (s @ t) = q # s1 @ t" "skip_ws (r1 @ t) = CHR '':'' # r @ t"
    using s1 r(3) skip_ws_append [of s t] skip_ws_append [of r1 t] by simp_all
  moreover have "read_string (length (s1 @ t)) (s1 @ t) = Some (k, r1 @ t)"
    using r(2) read_string_fuel_mono [of s1 "length s1" "length (s1 @ t)"] by (intro read_string_append) simp
  ultimately show ?thesis
    using r(1) by (simp add: read_key_def)
qed

lemma read_json_skip: "read_json n Value d s = Some (v, r) \<Longrightarrow> skip_ws s \<noteq> []"
  by (cases n) (auto split: list.splits)

lemma read_json_shorter: "read_json n Value d s = Some (v, r) \<Longrightarrow> length r < length (skip_ws s)"
proof -
  assume "read_json n Value d s = Some (v, r)"
  moreover have "skip_ws (skip_ws s) = skip_ws s"
    by (simp add: skip_ws_def)
  ultimately have "read_json n Value d (skip_ws s) = Some (v, r)"
    by (cases n) simp_all
  then show ?thesis
    by (rule read_json_rest)
qed

lemma read_json_append: "delim t \<Longrightarrow> read_json n m d s = Some (v, r) \<Longrightarrow> read_json n m d (s @ t) = Some (v, r @ t)"
proof (induction n arbitrary: m d s v r)
  case (Suc n)
  note ih = Suc.IH [OF Suc.prems(1)]
  show ?case
  proof (cases m)
    case Value
    then obtain c s1 where s1: "skip_ws s = c # s1"
      using Suc.prems(2) by (auto split: list.splits)
    then have "skip_ws (s @ t) = c # s1 @ t"
      using skip_ws_append [of s t] by simp
    moreover have "skip_ws (s1 @ t) = x # s2 @ t" if "skip_ws s1 = x # s2" for x s2
      using skip_ws_append [of s1 t] that by simp
    moreover have "read_json n m' d' (x # s2 @ t) = Some (v, r @ t)" if "read_json n m' d' (x # s2) = Some (v, r)" for m' d' x s2
      using ih [OF that] by simp
    ultimately show ?thesis
      using Suc.prems s1 Value read_scalar_append [OF Suc.prems(1), of "c # s1" v r]
      by (auto split: if_splits list.splits)
  next
    case (Elems acc)
    then obtain v1 r1 x r2 where r1: "read_json n Value d s = Some (v1, r1)" "skip_ws r1 = x # r2"
      using Suc.prems(2) by (auto split: option.splits list.splits)
    then have "skip_ws (r1 @ t) = x # r2 @ t" "text_between (s @ t) (r1 @ t) = text_between s r1"
      using skip_ws_append [of r1 t] text_between_append read_json_skip read_json_shorter by (auto simp: less_imp_le)
    then show ?thesis
      using Suc.prems(2) Elems r1 ih [OF r1(1)] ih by (auto split: if_splits)
  next
    case (Members acc)
    then obtain k s1 v1 r1 x r2 where r1: "read_key s = Some (k, s1)" "read_json n Value d s1 = Some (v1, r1)" "skip_ws r1 = x # r2"
      using Suc.prems(2) by (auto split: option.splits list.splits)
    then have "skip_ws (r1 @ t) = x # r2 @ t" "text_between (s1 @ t) (r1 @ t) = text_between s1 r1"
      using skip_ws_append [of r1 t] text_between_append read_json_skip read_json_shorter by (auto simp: less_imp_le)
    then show ?thesis
      using Suc.prems(2) Members r1 ih [OF r1(2)] ih read_key_append [OF r1(1), of t] by (auto split: if_splits)
  qed
qed simp

section \<open>Texts of values\<close>

text \<open>A text that is read as a value wherever it stands, or in front of a delimiter.\<close>

definition writes :: "int \<Rightarrow> string \<Rightarrow> jval \<Rightarrow> string \<Rightarrow> bool" where
  "writes d txt v t = (skip_ws (txt @ t) = txt @ t \<and> read_json (2 * length (txt @ t) + 1) Value d (txt @ t) = Some (v, t))"

lemma writes_fuel: "writes d txt v t \<Longrightarrow> 2 * length (txt @ t) + 1 \<le> n \<Longrightarrow> read_json n Value d (txt @ t) = Some (v, t)"
  unfolding writes_def using json_parse_fuel [of "txt @ t" n d] by argo

lemma writes_json_string:
  assumes "utf8_valid s"
  shows "writes d (json_string s) (JStr s) t"
proof -
  let ?e = "escape_string (length s) s"
  have "read_string (length (json_string s @ t)) (?e @ CHR ''\"'' # t) = Some (s, t)"
    by (rule read_escape) (simp_all add: assms json_string_def)
  then have "read_scalar (json_string s @ t) = Some (JStr s, t)"
    by (simp add: read_scalar_def HasPrefix_def json_string_def del: read_string.simps)
  then show ?thesis
    by (simp add: writes_def json_string_def skip_ws_def is_ws_def)
qed

lemma writes_document:
  assumes "read_json (2 * length s + 1) Value d s = Some (v, [])" "skip_ws s = s" "delim t"
  shows "writes d s v t"
proof -
  have "s \<noteq> []"
    using read_json_rest [OF assms(1)] by auto
  then have "skip_ws (s @ t) = s @ t"
    using skip_ws_append [of s t] assms(2) by simp
  moreover have "read_json (2 * length (s @ t) + 1) Value d s = Some (v, [])"
    using json_parse_fuel [of s "2 * length (s @ t) + 1" d] assms(1) by (simp del: read_json.simps)
  then have "read_json (2 * length (s @ t) + 1) Value d (s @ t) = Some (v, [] @ t)"
    by (rule read_json_append [OF assms(3)])
  ultimately show ?thesis
    by (simp add: writes_def)
qed

lemma read_key_written: "utf8_valid k \<Longrightarrow> read_key (json_string k @ CHR '':'' # rest) = Some (k, rest)"
proof -
  assume "utf8_valid k"
  then have "read_string (length (escape_string (length k) k @ CHR ''\"'' # CHR '':'' # rest))
      (escape_string (length k) k @ CHR ''\"'' # CHR '':'' # rest) = Some (k, CHR '':'' # rest)"
    by (rule read_escape) simp_all
  then show ?thesis
    by (simp add: read_key_def json_string_def skip_ws_def is_ws_def)
qed

definition member_text :: "string \<times> string \<times> jval \<Rightarrow> string" where
  "member_text m = json_string (fst m) @ CHR '':'' # fst (snd m)"

definition object_text :: "(string \<times> string \<times> jval) list \<Rightarrow> string" where
  "object_text ms = ''{'' @ join_with '','' (map member_text ms) @ ''}''"

definition member_ok :: "int \<Rightarrow> string \<times> string \<times> jval \<Rightarrow> bool" where
  "member_ok d m = (utf8_valid (fst m) \<and> (\<forall>t. delim t \<longrightarrow> writes d (fst (snd m)) (snd (snd m)) t))"

lemma read_member:
  assumes "member_ok d m" "t = x # t'" "x = CHR '','' \<or> x = CHR ''}''" "2 * length (member_text m @ t) + 2 \<le> Suc n"
  shows "read_json (Suc n) (Members acc) d (member_text m @ t) =
    (if x = CHR '','' then read_json n (Members (acc @ [m])) d t' else Some (JObj (acc @ [m]), t'))"
proof -
  have m: "utf8_valid (fst m)" "writes d (fst (snd m)) (snd (snd m)) t"
    using assms(1-3) by (auto simp: member_ok_def delim_def)
  have key: "read_key (member_text m @ t) = Some (fst m, fst (snd m) @ t)"
    using read_key_written [OF m(1)] by (simp add: member_text_def)
  have val: "read_json n Value d (fst (snd m) @ t) = Some (snd (snd m), t)"
    using m(2) assms(4) by (intro writes_fuel) (auto simp: member_text_def)
  have "text_between (fst (snd m) @ t) t = fst (snd m)" "skip_ws t = t"
    using m(2) assms(2,3) by (auto simp: writes_def text_between_def Let_def skip_ws_def is_ws_def)
  then show ?thesis
    using key val assms(2,3) by auto
qed

lemma read_members:
  assumes "ms \<noteq> []" "\<forall>m \<in> set ms. member_ok d m" "2 * length (join_with '','' (map member_text ms) @ CHR ''}'' # t) + 2 \<le> n"
  shows "read_json n (Members acc) d (join_with '','' (map member_text ms) @ CHR ''}'' # t) = Some (JObj (acc @ ms), t)"
  using assms
proof (induction ms arbitrary: acc n)
  case (Cons m ms)
  obtain n' where n: "n = Suc n'"
    using Cons.prems(3) by (cases n) auto
  show ?case
  proof (cases ms)
    case Nil
    then show ?thesis
      using read_member [of d m "CHR ''}'' # t" "CHR ''}''" t n' acc] Cons.prems n by (simp del: read_json.simps)
  next
    case (Cons m' ms')
    let ?rest = "join_with '','' (map member_text ms) @ CHR ''}'' # t"
    have whole: "join_with '','' (map member_text (m # ms)) @ CHR ''}'' # t = member_text m @ CHR '','' # ?rest"
      by (simp add: Cons)
    have "read_json n (Members acc) d (member_text m @ CHR '','' # ?rest) = read_json n' (Members (acc @ [m])) d ?rest"
      using read_member [of d m "CHR '','' # ?rest" "CHR '',''" ?rest n' acc] Cons.prems(2,3) n unfolding whole
      by (simp del: read_json.simps)
    also have "\<dots> = Some (JObj ((acc @ [m]) @ ms), t)"
      using Cons.prems(2,3) n unfolding whole by (intro Cons.IH) (auto simp: Cons)
    finally show ?thesis
      unfolding whole by simp
  qed
qed simp

lemma writes_object:
  assumes "ms \<noteq> []" "\<forall>m \<in> set ms. member_ok (d + 1) m" "d < max_nesting"
  shows "writes d (object_text ms) (JObj ms) t"
proof -
  let ?rest = "join_with '','' (map member_text ms) @ CHR ''}'' # t"
  obtain m ms' where ms: "ms = m # ms'"
    using assms(1) by (cases ms) auto
  obtain r where r: "?rest = CHR ''\"'' # r"
    by (cases ms') (simp_all add: ms member_text_def json_string_def)
  have whole: "object_text ms @ t = CHR ''{'' # ?rest"
    by (simp add: object_text_def)
  have "read_json (2 * length (object_text ms @ t)) (Members []) (d + 1) ?rest = Some (JObj ([] @ ms), t)"
    by (rule read_members [OF assms(1,2)]) (simp add: whole)
  then have "read_json (2 * length (object_text ms @ t) + 1) Value d (CHR ''{'' # ?rest) = Some (JObj ms, t)"
    unfolding r using assms(3) by (simp add: skip_ws_def is_ws_def)
  then show ?thesis
    unfolding writes_def whole by (simp add: skip_ws_def is_ws_def del: read_json.simps)
qed

end
