(* ===== verification/JsonCompact.thy ===== *)
theory JsonCompact
  imports JsonRead
begin

text \<open>
  Compaction keeps the meaning of a document: what \<^verbatim>\<open>json.Marshal\<close> writes for a \<^verbatim>\<open>json.RawMessage\<close>, without the space
  between tokens and with HTML-sensitive characters escaped, is read as the value of the original.
\<close>

section \<open>String literals\<close>

text \<open>Bytes that are copied.\<close>

definition copied :: "char \<Rightarrow> bool" where
  "copied c = (c \<notin> {CHR ''\"'', CHR 0x5C, CHR ''<'', CHR ''>'', CHR ''&'', CHR 0xE2})"

lemma compact_copied: "copied c \<Longrightarrow> compact_loop True (c # r) = c # compact_loop True r"
  by (simp add: copied_def)

lemma cont_copied: "cont c \<Longrightarrow> copied c"
  unfolding copied_def by (rule notI, elim insertE emptyE) simp_all

lemmas compact_cont = compact_copied [OF cont_copied]

lemma compact_head: "compact_loop True (b # r) \<noteq> [] \<and> hd (compact_loop True (b # r)) \<in> {b, CHR 0x5C}"
  by (simp split: list.split)

declare compact_loop.simps(2,3) [simp del]

lemma compact_noncont:
  assumes "\<not> cont b"
  obtains b' r' where "compact_loop True (b # r) = b' # r'" "\<not> cont b'"
proof -
  obtain b' r' where c: "compact_loop True (b # r) = b' # r'"
    using compact_head [of b r] by (cases "compact_loop True (b # r)") simp_all
  then have "b' = b \<or> b' = CHR 0x5C"
    using compact_head [of b r] by simp
  then show thesis
    using that [OF c] assms by auto
qed

lemma compact_bytes:
  obtains (none) "r = []" "compact_loop True r = []"
  | (same) b r' where "r = b # r'" "cont b" "compact_loop True r = b # compact_loop True r'"
  | (other) b r' b' r'' where "r = b # r'" "\<not> cont b" "compact_loop True r = b' # r''" "\<not> cont b'"
proof (cases r)
  case (Cons b r')
  show thesis
  proof (cases "cont b")
    case True
    then show thesis
      using same [OF Cons] compact_cont Cons by blast
  next
    case False
    then show thesis
      using compact_noncont [of b r'] other [OF Cons False] Cons by blast
  qed
qed (simp add: none)

text \<open>A byte that starts no sequence starts none afterwards: continuation bytes are copied, and what is not one does not
  become one.\<close>

lemma utf8_len_compact:
  assumes "utf8_len (a # r) = 0"
  shows "utf8_len (a # compact_loop True r) = 0"
proof (cases a rule: utf8_lead)
  case ascii
  then show ?thesis using assms by simp
next
  case bad
  then show ?thesis by simp
next
  case two
  show ?thesis
    by (cases r rule: compact_bytes) (use assms in \<open>auto simp: two(2) split: if_splits\<close>)
next
  case three
  show ?thesis
  proof (cases r rule: compact_bytes)
    case (same b r')
    show ?thesis
      by (cases r' rule: compact_bytes) (use assms same in \<open>auto simp: three(2) split: if_splits\<close>)
  next
    case (other b r' b' r'')
    then have "\<not> three_ok a b'"
      using second_byte by blast
    then show ?thesis
      using other by (simp add: three(2) split: list.split)
  qed (simp add: three(2))
next
  case four
  show ?thesis
  proof (cases r rule: compact_bytes)
    case (same b r')
    show ?thesis
    proof (cases r' rule: compact_bytes)
      case (same c r'')
      show ?thesis
        by (cases r'' rule: compact_bytes) (use assms same \<open>r = b # r'\<close> \<open>compact_loop True r = b # compact_loop True r'\<close> in \<open>auto simp: four(2) split: if_splits\<close>)
    qed (use \<open>compact_loop True r = b # compact_loop True r'\<close> in \<open>auto simp: four(2) split: list.split\<close>)
  next
    case (other b r' b' r'')
    then have "\<not> four_ok a b'"
      using second_byte by blast
    then show ?thesis
      using other by (simp add: four(2) split: list.split)
  qed (simp add: four(2))
qed

lemma no_hex: "list_all (\<lambda>c. hex_val c = None) [CHR ''\"'', CHR 0x5C, CHR ''<'', CHR ''>'', CHR ''&'', CHR 0xE2]"
  by code_simp

lemma hex_copied: "hex_val c = Some h \<Longrightarrow> copied c"
  using no_hex by (auto simp: copied_def)

lemma hex4_compact: "hex4 r = Some (u, r') \<Longrightarrow> hex4 (compact_loop True r) = Some (u, compact_loop True r')"
  by (auto simp: hex4_def compact_copied [OF hex_copied] split: list.splits option.splits)

text \<open>An escape that the compaction inserts is no surrogate.\<close>

lemma hex_inserted:
  "hex_val CHR ''0'' = Some 0" "hex_val CHR ''2'' = Some 2" "hex_val CHR ''3'' = Some 3" "hex_val CHR ''6'' = Some 6"
  "hex_val CHR ''8'' = Some 8" "hex_val CHR ''9'' = Some 9" "hex_val CHR ''c'' = Some 12" "hex_val CHR ''e'' = Some 14"
  by code_simp+

lemma unicode_escape_inserted:
  assumes "0xD800 \<le> u" "u < 0xE000"
  shows "unicode_escape u (CHR 0x5C # ''u003c'' @ q) = (replacement, CHR 0x5C # ''u003c'' @ q)"
    "unicode_escape u (CHR 0x5C # ''u003e'' @ q) = (replacement, CHR 0x5C # ''u003e'' @ q)"
    "unicode_escape u (CHR 0x5C # ''u0026'' @ q) = (replacement, CHR 0x5C # ''u0026'' @ q)"
    "unicode_escape u (CHR 0x5C # ''u2028'' @ q) = (replacement, CHR 0x5C # ''u2028'' @ q)"
    "unicode_escape u (CHR 0x5C # ''u2029'' @ q) = (replacement, CHR 0x5C # ''u2029'' @ q)"
  using assms by (simp_all add: unicode_escape_def hex4_def hex_inserted)

lemma compact_html:
  "compact_loop True (CHR ''<'' # r) = CHR 0x5C # ''u003c'' @ compact_loop True r"
  "compact_loop True (CHR ''>'' # r) = CHR 0x5C # ''u003e'' @ compact_loop True r"
  "compact_loop True (CHR ''&'' # r) = CHR 0x5C # ''u0026'' @ compact_loop True r"
  by (simp_all add: compact_loop.simps(3) hex_digit_def)

lemma compact_separator:
  "compact_loop True (CHR 0xE2 # r) =
    (if take 2 r = [CHR 0x80, CHR 0xA8] then CHR 0x5C # ''u2028'' @ compact_loop True (drop 2 r)
     else if take 2 r = [CHR 0x80, CHR 0xA9] then CHR 0x5C # ''u2029'' @ compact_loop True (drop 2 r)
     else CHR 0xE2 # compact_loop True r)"
  by (simp add: compact_loop.simps(3))

lemma compact_quote: "compact_loop True (CHR ''\"'' # r) = CHR ''\"'' # compact_loop False r"
  by (simp add: compact_loop.simps(3))

lemma compact_escape: "compact_loop True (CHR 0x5C # x # r) = CHR 0x5C # x # compact_loop True r"
  by (simp add: compact_loop.simps(3))

lemma not_copied: "\<not> copied c \<Longrightarrow> c \<in> {CHR ''\"'', CHR 0x5C, CHR ''<'', CHR ''>'', CHR ''&'', CHR 0xE2}"
  by (simp add: copied_def)

lemma unicode_escape_other: "\<not> (\<exists>q. r = CHR 0x5C # CHR ''u'' # q) \<Longrightarrow> 0xD800 \<le> u \<Longrightarrow> u < 0xE000 \<Longrightarrow> unicode_escape u r = (replacement, r)"
  by (auto simp: unicode_escape_def split: list.splits)

lemma unicode_escape_compact:
  assumes "unicode_escape u r = (x, r1)" "read_string n r1 = Some y"
  shows "unicode_escape u (compact_loop True r) = (x, compact_loop True r1)"
proof (cases "0xD800 \<le> u \<and> u < 0xE000")
  case False
  then have "unicode_escape u r' = (utf8_encode u, r')" for r'
    by (auto simp: unicode_escape_def)
  then show ?thesis
    using assms(1) by simp
next
  case True
  show ?thesis
  proof (cases "\<exists>q. r = CHR 0x5C # CHR ''u'' # q")
    case escape: True
    then obtain q where q: "r = CHR 0x5C # CHR ''u'' # q"
      by blast
    show ?thesis
    proof (cases "hex4 q")
      case None
      then have "r1 = r"
        using assms(1) q True by (simp add: unicode_escape_def)
      then have "read_string n r1 = None"
        using None q by (cases n) (simp_all add: simple_escape_def)
      then show ?thesis
        using assms(2) by simp
    next
      case (Some p)
      then show ?thesis
        using assms(1) q True hex4_compact [of q] by (cases p) (auto simp: unicode_escape_def compact_escape split: if_splits)
    qed
  next
    case other: False
    then have r1: "x = replacement" "r1 = r"
      using assms(1) unicode_escape_other [OF other, of u] True by simp_all
    then obtain c r' where r: "r = c # r'"
      using assms(2) by (cases r; cases n) auto
    consider "copied c \<or> c = CHR ''\"''" | "c = CHR 0x5C" | "c = CHR ''<''" | "c = CHR ''>''" | "c = CHR ''&''" | "c = CHR 0xE2"
      using not_copied [of c] by blast
    then have "unicode_escape u (compact_loop True r) = (replacement, compact_loop True r)"
    proof cases
      case 1
      then have "\<exists>q. compact_loop True r = c # q"
        using r compact_copied compact_quote by auto
      then show ?thesis
        using 1 True by (intro unicode_escape_other) (auto simp: copied_def)
    next
      case 2
      show ?thesis
      proof (cases r')
        case Nil
        then show ?thesis
          using 2 r assms(2) r1(2) by (cases n) simp_all
      next
        case (Cons e q)
        then show ?thesis
          using 2 r other True by (intro unicode_escape_other) (auto simp: compact_escape)
      qed
    next
      case 6
      then show ?thesis
        using r True unicode_escape_inserted [of u] by (auto simp: compact_separator intro!: unicode_escape_other)
    qed (use r True unicode_escape_inserted [of u] compact_html in simp_all)
    then show ?thesis
      using r1 by simp
  qed
qed

lemma compact_append: "list_all copied a \<Longrightarrow> compact_loop True (a @ r) = a @ compact_loop True r"
  by (induction a) (simp_all add: compact_copied)

text \<open>A sequence of several bytes is copied, unless it is a line separator.\<close>

lemma rune_tail: "utf8_len (c # r) = Suc n \<Longrightarrow> list_all cont (take n r)"
  by (cases c rule: utf8_lead) (auto dest: second_byte [OF disjI1] second_byte [OF disjI2] split: list.splits if_splits)

lemma compact_rune:
  assumes "utf8_len s = Suc n" "s = c # r" "c \<notin> {CHR ''\"'', CHR 0x5C, CHR ''<'', CHR ''>'', CHR ''&''}"
    "take 3 s \<noteq> [CHR 0xE2, CHR 0x80, CHR 0xA8]" "take 3 s \<noteq> [CHR 0xE2, CHR 0x80, CHR 0xA9]"
  shows "compact_loop True s = take (Suc n) s @ compact_loop True (drop (Suc n) s)"
proof -
  have "take 2 r \<noteq> [CHR 0x80, CHR 0xA8]" "take 2 r \<noteq> [CHR 0x80, CHR 0xA9]" if "c = CHR 0xE2"
    using assms(2,4,5) that by (auto simp: numeral_3_eq_3 numeral_2_eq_2)
  then have "compact_loop True s = c # compact_loop True r"
    using assms(2,3) compact_copied [of c r] by (cases "c = CHR 0xE2") (simp_all add: compact_separator copied_def)
  moreover have "list_all copied (take n r)"
    using rune_tail assms(1,2) cont_copied by (auto simp: list_all_iff)
  then have "compact_loop True r = take n r @ compact_loop True (drop n r)"
    using compact_append [of "take n r" "drop n r"] by simp
  ultimately show ?thesis
    using assms(2) by simp
qed

lemma read_plain_compact:
  assumes "\<And>s x r. read_string n s = Some (x, r) \<Longrightarrow> read_string n (compact_loop True s) = Some (x, compact_loop False r)"
    and "read_string (Suc n) s = Some (x, r)" "s = c # s'" "c \<notin> {CHR ''\"'', CHR 0x5C, CHR ''<'', CHR ''>'', CHR ''&''}"
    "take 3 s \<noteq> [CHR 0xE2, CHR 0x80, CHR 0xA8]" "take 3 s \<noteq> [CHR 0xE2, CHR 0x80, CHR 0xA9]"
  shows "read_string (Suc n) (compact_loop True s) = Some (x, compact_loop False r)"
proof -
  have ctl: "\<not> byte c < 0x20"
    using assms(2,3) by (auto split: if_splits)
  show ?thesis
  proof (cases "utf8_len s")
    case 0
    then obtain x' where x': "read_string n s' = Some (x', r)" "x = replacement @ x'"
      using assms(2,3) assms(4-6) ctl by auto
    have "compact_loop True s = c # compact_loop True s'"
      using assms(3-6) compact_copied [of c s'] by (cases "c = CHR 0xE2") (auto simp: compact_separator copied_def numeral_3_eq_3 numeral_2_eq_2)
    then show ?thesis
      using 0 assms(3) utf8_len_compact [of c s'] assms(1) [OF x'(1)] x'(2) assms(4) ctl by simp
  next
    case (Suc l)
    then obtain x' where x': "read_string n (drop (Suc l) s) = Some (x', r)" "x = take (Suc l) s @ x'"
      using assms(2,3) assms(4-6) ctl by auto
    have "read_string (Suc n) (take (Suc l) s @ rest) = map_option (map_prod ((@) (take (Suc l) s)) id) (read_string n rest)" for rest
    proof (cases "byte c < 0x80")
      case True
      then show ?thesis
        using utf8_len_ascii [OF True] Suc assms(3) assms(4) ctl by simp
    next
      case False
      then show ?thesis
        using read_plain_rune [of s n rest] Suc assms(3) by (simp del: read_string.simps)
    qed
    then show ?thesis
      using compact_rune [OF Suc assms(3-6)] assms(1) [OF x'(1)] x'(2) by simp
  qed
qed

lemma read_string_compact: "read_string n s = Some (x, r) \<Longrightarrow> read_string n (compact_loop True s) = Some (x, compact_loop False r)"
proof (induction n arbitrary: s x r)
  case (Suc n)
  obtain c s' where s: "s = c # s'"
    using Suc.prems by (cases s) auto
  consider (quote) "c = CHR ''\"''" | (escape) "c = CHR 0x5C" | (html) "c \<in> {CHR ''<'', CHR ''>'', CHR ''&''}"
    | (sep) z where "z = CHR 0xA8 \<or> z = CHR 0xA9" "take 3 s = [CHR 0xE2, CHR 0x80, z]"
    | (plain) "c \<notin> {CHR ''\"'', CHR 0x5C, CHR ''<'', CHR ''>'', CHR ''&''}"
        "take 3 s \<noteq> [CHR 0xE2, CHR 0x80, CHR 0xA8]" "take 3 s \<noteq> [CHR 0xE2, CHR 0x80, CHR 0xA9]"
    by blast
  then show ?case
  proof cases
    case quote
    then show ?thesis
      using Suc.prems s by (simp add: compact_quote)
  next
    case escape
    obtain e s2 where s2: "s' = e # s2"
      using Suc.prems s escape by (cases s') auto
    show ?thesis
    proof (cases "simple_escape e")
      case (Some y)
      then show ?thesis
        using Suc.prems s escape s2 Suc.IH by (auto simp: compact_escape)
    next
      case None
      then obtain u s3 y s4 x' where h: "e = CHR ''u''" "hex4 s2 = Some (u, s3)" "unicode_escape u s3 = (y, s4)"
        "read_string n s4 = Some (x', r)" "x = y @ x'"
        using Suc.prems s escape s2 by (auto split: if_splits option.splits prod.splits)
      show ?thesis
        using None h(1,5) hex4_compact [OF h(2)] unicode_escape_compact [OF h(3,4)] Suc.IH [OF h(4)] s escape s2
        by (simp add: compact_escape)
    qed
  next
    case html
    then have "byte c < 0x80"
      by auto
    then obtain x' where x': "read_string n s' = Some (x', r)" "x = c # x'"
      using Suc.prems s html utf8_len_ascii [of c s'] by auto
    show ?thesis
      using html s x'(2) Suc.IH [OF x'(1)] read_unicode_byte [OF \<open>byte c < 0x80\<close>, of n "compact_loop True s'"]
      by (auto simp: compact_html hex_digit_def simp del: read_string.simps)
  next
    case sep
    note split = separator_split [OF sep(2,1)]
    have "c = CHR 0xE2"
      using sep(2) s by simp
    then obtain x' where x': "read_string n (drop 3 s) = Some (x', r)" "x = [CHR 0xE2, CHR 0x80, z] @ x'"
      using Suc.prems s split sep(2) by auto
    have "compact_loop True s = (if z = CHR 0xA8 then CHR 0x5C # ''u2028'' else CHR 0x5C # ''u2029'') @ compact_loop True (drop 3 s)"
      using sep(1) by (subst split(2)) (auto simp: compact_separator)
    then show ?thesis
      using read_line_separator [of n "compact_loop True (drop 3 s)"] Suc.IH [OF x'(1)] x'(2) sep(1)
      by (auto simp del: read_string.simps)
  next
    case plain
    then show ?thesis
      using read_plain_compact [OF Suc.IH Suc.prems s] by blast
  qed
qed simp

lemma read_string_more: "read_string n s = Some y \<Longrightarrow> n \<le> m \<Longrightarrow> read_string m s = Some y"
proof (induction n arbitrary: m s y)
  case (Suc n)
  obtain m' where m: "m = Suc m'" "n \<le> m'"
    using Suc.prems(2) by (cases m) auto
  obtain c r where s: "s = c # r"
    using Suc.prems(1) by (cases s) auto
  have more: "map_option f (read_string n q) = Some y \<Longrightarrow> map_option f (read_string m' q) = Some y" for f q
    using Suc.IH [OF _ m(2), of q] by auto
  consider "c = CHR ''\"''" | "c = CHR 0x5C" | "c \<noteq> CHR ''\"''" "c \<noteq> CHR 0x5C"
    by blast
  then show ?case
  proof cases
    case 2
    obtain e s2 where s2: "r = e # s2"
      using Suc.prems(1) s 2 by (cases r) auto
    show ?thesis
    proof (cases "simple_escape e")
      case (Some t)
      then show ?thesis
        using Suc.prems(1) s m(1) more [of "map_prod ((@) t) id" s2] 2 s2 by simp
    next
      case None
      then obtain u s3 t s4 where h: "e = CHR ''u''" "hex4 s2 = Some (u, s3)" "unicode_escape u s3 = (t, s4)"
        "map_option (map_prod ((@) t) id) (read_string n s4) = Some y"
        using Suc.prems(1) s 2 s2 by (auto split: if_splits option.splits prod.splits)
      then show ?thesis
        using None s m(1) more [OF h(4)] 2 s2 by simp
    qed
  next
    case 3
    then show ?thesis
      using Suc.prems(1) s m(1) more [of "map_prod ((@) replacement) id" r] more [of "map_prod ((@) (take (utf8_len s) s)) id" "drop (utf8_len s) s"]
      by (simp split: if_splits)
  qed (use Suc.prems(1) s m(1) in simp)
qed simp

lemma read_string_enough: "read_string n s = Some y \<Longrightarrow> length s \<le> m \<Longrightarrow> read_string m s = Some y"
  using read_string_more [of n s y "max n m"] read_string_fuel_mono [of s m "max n m"] by simp

section \<open>Space between tokens\<close>

lemma compact_skip_ws: "compact_loop False s = compact_loop False (skip_ws s)"
  by (induction s) (simp_all add: skip_ws_def compact_loop.simps(2))

lemma skip_ws_Cons: "skip_ws s = c # r \<Longrightarrow> \<not> is_ws c"
  by (simp add: skip_ws_def dropWhile_eq_Cons_conv)

lemma compact_token: "skip_ws s = c # r \<Longrightarrow> compact_loop False s = c # compact_loop (c = CHR ''\"'') r"
  by (subst compact_skip_ws) (simp add: compact_loop.simps(2) skip_ws_Cons)

lemma compact_blank: "skip_ws s = [] \<Longrightarrow> compact_loop False s = []"
  by (subst compact_skip_ws) simp

lemma skip_compact: "skip_ws (compact_loop False s) = compact_loop False s"
proof (cases "skip_ws s")
  case (Cons c r)
  then show ?thesis
    using skip_ws_Cons [OF Cons] by (simp add: compact_token skip_ws_def)
qed (simp add: compact_blank skip_ws_def)

definition number_char :: "char \<Rightarrow> bool" where
  "number_char c = (is_digit c \<or> c \<in> set ''+-.eE'')"

lemma number_char_kept: "number_char c \<Longrightarrow> \<not> is_ws c \<and> c \<noteq> CHR ''\"''"
  by (auto simp: number_char_def is_ws_def)

lemma compact_number: "list_all number_char a \<Longrightarrow> compact_loop False (a @ r) = a @ compact_loop False r"
  by (induction a) (simp_all add: number_char_kept compact_loop.simps(2))

text \<open>A number ends at the end of the text or in front of a delimiter.\<close>

definition ends :: "string \<Rightarrow> bool" where
  "ends t = (t = [] \<or> delim t)"

lemma ends_compact: "ends (skip_ws r) \<Longrightarrow> ends (compact_loop False r)"
proof (cases "skip_ws r")
  case (Cons c r')
  then show "ends (skip_ws r) \<Longrightarrow> ?thesis"
    by (simp add: compact_token ends_def delim_def)
qed (simp add: ends_def compact_blank)

lemma list_all_takeWhile: "list_all P (takeWhile P s)"
  by (induction s) simp_all

lemma span_digits_text: "span_digits s = (ds, r) \<Longrightarrow> s = ds @ r \<and> list_all is_digit ds"
  unfolding span_digits_def prod.inject by (elim conjE, hypsubst) (intro conjI takeWhile_dropWhile_id [symmetric] list_all_takeWhile)

lemma span_digits_stop: "list_all is_digit ds \<Longrightarrow> t = [] \<or> \<not> is_digit (hd t) \<Longrightarrow> span_digits (ds @ t) = (ds, t)"
  unfolding span_digits_def by (induction ds; cases t) (simp_all del: set_simps)

section \<open>Numbers\<close>

text \<open>A part of a number that is read takes a text of its own, and is read again in front of whatever does not continue
  it.\<close>

definition stops :: "char set \<Rightarrow> string \<Rightarrow> bool" where
  "stops cs t = (t = [] \<or> \<not> is_digit (hd t) \<and> hd t \<notin> cs)"

lemma stops_ends: "ends t \<Longrightarrow> stops {CHR ''.'', CHR ''e'', CHR ''E''} t"
  by (auto simp: ends_def stops_def delim_def)

lemma read_sign_exact:
  assumes "read_sign s = (sg, r)"
  shows "s = sg @ r \<and> list_all number_char sg" "t \<noteq> [] \<Longrightarrow> hd t \<noteq> CHR ''-'' \<Longrightarrow> read_sign (sg @ t) = (sg, t)"
  using assms by (auto simp: read_sign_def number_char_def split: list.splits if_splits)

lemma read_int_part_exact:
  assumes "read_int_part s = (ds, r)" "ds \<noteq> []"
  shows "s = ds @ r \<and> list_all is_digit ds" "stops {} t \<Longrightarrow> read_int_part (ds @ t) = (ds, t)"
proof -
  obtain c s' where s: "s = c # s'"
    using assms by (cases s) (auto simp: read_int_part_def)
  have zero: "c = CHR ''0'' \<Longrightarrow> ds = ''0'' \<and> r = s'" and span: "c \<noteq> CHR ''0'' \<Longrightarrow> span_digits s = (ds, r)"
    using assms(1) s by (simp_all add: read_int_part_def)
  show whole: "s = ds @ r \<and> list_all is_digit ds"
    using zero span span_digits_text [of s ds r] s by (cases "c = CHR ''0''") simp_all
  show "read_int_part (ds @ t) = (ds, t)" if "stops {} t"
  proof (cases "c = CHR ''0''")
    case False
    then obtain ds' where "ds = c # ds'"
      using whole assms(2) s by (cases ds) auto
    then show ?thesis
      using False span_digits_stop [of ds t] whole that by (simp add: read_int_part_def stops_def)
  qed (simp add: zero read_int_part_def)
qed

lemma digits_number: "list_all is_digit ds \<Longrightarrow> list_all number_char ds"
  unfolding list_all_iff number_char_def by blast

lemma read_fraction_exact:
  assumes "read_fraction s = Some (fs, r)"
  shows "s = fs @ r \<and> list_all number_char fs \<and> (fs = [] \<or> hd fs = CHR ''.'')" "stops {CHR ''.''} t \<Longrightarrow> read_fraction (fs @ t) = Some (fs, t)"
proof -
  consider "fs = []" "r = s" | ds s' where "s = CHR ''.'' # s'" "span_digits s' = (ds, r)" "ds \<noteq> []" "fs = CHR ''.'' # ds"
    using assms by (cases s) (auto simp: read_fraction_def split: if_splits prod.splits)
  then have "(s = fs @ r \<and> list_all number_char fs \<and> (fs = [] \<or> hd fs = CHR ''.'')) \<and> (stops {CHR ''.''} t \<longrightarrow> read_fraction (fs @ t) = Some (fs, t))"
  proof cases
    case 1
    then show ?thesis
      by (cases t) (simp_all add: read_fraction_def stops_def)
  next
    case 2
    note whole = span_digits_text [OF 2(2)]
    have "span_digits (ds @ t) = (ds, t)" if "stops {CHR ''.''} t"
      using span_digits_stop [of ds t] whole that unfolding stops_def by blast
    then show ?thesis
      using 2 whole digits_number [of ds] by (simp add: read_fraction_def number_char_def [of "CHR ''.''"])
  qed
  then show "s = fs @ r \<and> list_all number_char fs \<and> (fs = [] \<or> hd fs = CHR ''.'')" "stops {CHR ''.''} t \<Longrightarrow> read_fraction (fs @ t) = Some (fs, t)"
    by blast+
qed

lemma read_exp_part_exact:
  assumes "read_exp_part s = Some (fs, r)"
  shows "s = fs @ r \<and> list_all number_char fs \<and> (fs = [] \<or> hd fs \<in> {CHR ''e'', CHR ''E''})"
    "stops {CHR ''e'', CHR ''E''} t \<Longrightarrow> read_exp_part (fs @ t) = Some (fs, t)"
proof -
  consider "fs = []" "r = s"
    | c es s' ds where "s = c # es @ s'" "c \<in> {CHR ''e'', CHR ''E''}" "es \<in> {[], ''+'', ''-''}" "es = [] \<longrightarrow> s' = [] \<or> hd s' \<notin> {CHR ''+'', CHR ''-''}"
      "span_digits s' = (ds, r)" "ds \<noteq> []" "fs = c # es @ ds"
  proof (cases "\<exists>c s0. s = c # s0 \<and> c \<in> {CHR ''e'', CHR ''E''}")
    case False
    then show thesis
      using assms that(1) by (cases s) (auto simp: read_exp_part_def)
  next
    case True
    then obtain c s0 where s: "s = c # s0" "c \<in> {CHR ''e'', CHR ''E''}"
      by blast
    show thesis
    proof (cases "\<exists>d s'. s0 = d # s' \<and> d \<in> {CHR ''+'', CHR ''-''}")
      case True
      then obtain d s' where "s0 = [d] @ s'" "d \<in> {CHR ''+'', CHR ''-''}"
        by auto
      then show thesis
        using assms s that(2) [of c "[d]" s'] by (auto simp: read_exp_part_def split: if_splits prod.splits)
    next
      case False
      then show thesis
        using assms s that(2) [of c "[]" s0] by (cases s0) (auto simp: read_exp_part_def split: if_splits prod.splits)
    qed
  qed
  then have "(s = fs @ r \<and> list_all number_char fs \<and> (fs = [] \<or> hd fs \<in> {CHR ''e'', CHR ''E''})) \<and>
      (stops {CHR ''e'', CHR ''E''} t \<longrightarrow> read_exp_part (fs @ t) = Some (fs, t))"
  proof cases
    case 1
    then show ?thesis
      by (cases t) (auto simp: read_exp_part_def stops_def)
  next
    case 2
    note whole = span_digits_text [OF 2(5)]
    have "span_digits (ds @ t) = (ds, t)" if "stops {CHR ''e'', CHR ''E''} t"
      using span_digits_stop [of ds t] whole that unfolding stops_def by blast
    moreover obtain d ds' where d: "ds = d # ds'" "d \<noteq> CHR ''+''" "d \<noteq> CHR ''-''"
      using 2(6) whole by (cases ds) auto
    ultimately have "read_exp_part (fs @ t) = Some (fs, t)" if "stops {CHR ''e'', CHR ''E''} t"
      using that 2(2,3,7) by (elim insertE emptyE) (simp_all add: read_exp_part_def)
    moreover have "list_all number_char (c # es)"
      using 2(2,3) by (auto simp: number_char_def)
    moreover have "s = fs @ r"
      using 2(1,7) whole by simp
    ultimately show ?thesis
      using 2(2,7) whole digits_number [of ds] by (simp del: set_simps)
  qed
  then show "s = fs @ r \<and> list_all number_char fs \<and> (fs = [] \<or> hd fs \<in> {CHR ''e'', CHR ''E''})"
    "stops {CHR ''e'', CHR ''E''} t \<Longrightarrow> read_exp_part (fs @ t) = Some (fs, t)"
    by blast+
qed

lemma number_literal_exact:
  assumes "number_literal s = Some (lit, r)"
  shows "s = lit @ r \<and> list_all number_char lit" "ends t \<Longrightarrow> number_literal (lit @ t) = Some (lit, t)"
proof -
  obtain sg s1 where 1: "read_sign s = (sg, s1)" by (metis surj_pair)
  obtain ds s2 where 2: "read_int_part s1 = (ds, s2)" by (metis surj_pair)
  obtain frac s3 ex where 3: "ds \<noteq> []" "read_fraction s2 = Some (frac, s3)" "read_exp_part s3 = Some (ex, r)"
    "lit = sg @ ds @ frac @ ex"
    using assms 1 2 by (auto simp: number_literal_def split: if_splits option.splits prod.splits)
  note texts = read_sign_exact(1) [OF 1] read_int_part_exact(1) [OF 2 3(1)] read_fraction_exact(1) [OF 3(2)] read_exp_part_exact(1) [OF 3(3)]
  show "s = lit @ r \<and> list_all number_char lit"
    using texts 3(4) digits_number [of ds] by simp
  show "number_literal (lit @ t) = Some (lit, t)" if t: "ends t"
  proof -
    have "stops {CHR ''e'', CHR ''E''} t"
      using stops_ends [OF t] by (auto simp: stops_def)
    moreover have "stops {CHR ''.''} (ex @ t)"
      using stops_ends [OF t] texts(4) by (cases ex) (auto simp: stops_def)
    moreover have "stops {} (frac @ ex @ t)"
      using stops_ends [OF t] texts(3,4) by (cases frac; cases ex) (auto simp: stops_def)
    moreover have "ds @ frac @ ex @ t \<noteq> []" "hd (ds @ frac @ ex @ t) \<noteq> CHR ''-''"
      using 3(1) texts(2) by (cases ds; auto)+
    ultimately show ?thesis
      using read_sign_exact(2) [OF 1, of "ds @ frac @ ex @ t"] read_int_part_exact(2) [OF 2 3(1), of "frac @ ex @ t"]
        read_fraction_exact(2) [OF 3(2), of "ex @ t"] read_exp_part_exact(2) [OF 3(3), of t] 3(1,4)
      by (simp add: number_literal_def)
  qed
qed

section \<open>Documents\<close>

lemma compact_structural: "\<not> is_ws c \<Longrightarrow> c \<noteq> CHR ''\"'' \<Longrightarrow> compact_loop False (c # r) = c # compact_loop False r"
  by (simp add: compact_loop.simps(2))

lemma compact_literal: "list_all (\<lambda>c. \<not> is_ws c \<and> c \<noteq> CHR ''\"'') a \<Longrightarrow> compact_loop False (a @ r) = a @ compact_loop False r"
  by (induction a) (simp_all add: compact_structural)

lemma compact_string_literal: "compact_loop False (CHR ''\"'' # r) = CHR ''\"'' # compact_loop True r"
  by (simp add: compact_loop.simps(2) is_ws_def)

lemma read_scalar_compact:
  assumes "read_scalar s = Some (v, r)" "ends (skip_ws r)"
  shows "read_scalar (compact_loop False s) = Some (v, compact_loop False r)"
proof -
  consider (str) s' x where "s = CHR ''\"'' # s'" "read_string (length s) s' = Some (x, r)" "v = JStr x"
    | (lit) a where "s = a @ r" "(a, v) \<in> {(''true'', JBool True), (''false'', JBool False), (''null'', JNull)}"
    | (num) n where "number_literal s = Some (n, r)" "v = JNum n"
    using assms(1) by (auto simp: read_scalar_def HasPrefix_iff simp del: read_string.simps split: if_splits)
  then show ?thesis
  proof cases
    case str
    have "read_string (length (compact_loop False s)) (compact_loop True s') = Some (x, compact_loop False r)"
      using read_string_enough [OF read_string_compact [OF str(2)]] str(1) by (simp add: compact_string_literal del: read_string.simps)
    then show ?thesis
      using str(1,3) by (simp add: read_scalar_def HasPrefix_def compact_string_literal del: read_string.simps)
  next
    case lit
    then have "compact_loop False s = a @ compact_loop False r"
      by (auto simp: is_ws_def intro!: compact_literal)
    then show ?thesis
      using lit(2) by (auto simp: read_scalar_def HasPrefix_def)
  next
    case num
    note exact = number_literal_exact [OF num(1)]
    have whole: "compact_loop False s = n @ compact_loop False r"
      using exact(1) compact_number by blast
    have read: "number_literal (n @ compact_loop False r) = Some (n, compact_loop False r)"
      using exact(2) ends_compact [OF assms(2)] by blast
    obtain c n' where n: "n = c # n'"
      using number_literal_rest [OF num(1)] exact(1) by (cases n) auto
    then have "c = CHR ''-'' \<or> is_digit c"
      using number_literal_head read by (metis append_Cons)
    then have "c \<notin> {CHR ''\"'', CHR ''t'', CHR ''f'', CHR ''n''}"
      by auto
    then show ?thesis
      using read num(2) n unfolding whole by (simp add: read_scalar_def HasPrefix_def)
  qed
qed

lemma read_key_compact:
  assumes "read_key s = Some (k, r)"
  shows "read_key (compact_loop False s) = Some (k, compact_loop False r)"
proof -
  obtain s1 r1 where s1: "skip_ws s = CHR ''\"'' # s1" "read_string (length s1) s1 = Some (k, r1)" "skip_ws r1 = CHR '':'' # r"
    using assms by (auto simp: read_key_def split: list.splits if_splits option.splits)
  have "compact_loop False s = CHR ''\"'' # compact_loop True s1" "compact_loop False r1 = CHR '':'' # compact_loop False r"
    using compact_token [OF s1(1)] compact_token [OF s1(3)] by simp_all
  moreover have "read_string (length (compact_loop True s1)) (compact_loop True s1) = Some (k, compact_loop False r1)"
    using read_string_enough [OF read_string_compact [OF s1(2)]] by simp
  ultimately show ?thesis
    using skip_compact [of s] skip_compact [of r1] by (simp add: read_key_def)
qed

text \<open>A value without the texts of the values in it.\<close>

primrec bare :: "jval \<Rightarrow> jval" where
  "bare JNull = JNull"
| "bare (JBool b) = JBool b"
| "bare (JNum n) = JNum n"
| "bare (JStr s) = JStr s"
| "bare (JArr es) = JArr (map (\<lambda>p. ([], snd p)) (map (map_prod id bare) es))"
| "bare (JObj ms) = JObj (map (\<lambda>p. (fst p, [], snd (snd p))) (map (map_prod id (map_prod id bare)) ms))"

lemma to_iface_bare:
  "to_iface (bare v) = to_iface v"
  "to_ifaces (map (\<lambda>p. ([], snd p)) (map (map_prod id bare) es)) = to_ifaces es"
  "to_entries (map (\<lambda>p. (fst p, [], snd (snd p))) (map (map_prod id (map_prod id bare)) ms)) m = to_entries ms m"
  by (induction v and es and ms m rule: to_iface_to_ifaces_to_entries.induct) (simp_all add: id_def split: option.split)

primrec bare_reading :: "reading \<Rightarrow> jval" where
  "bare_reading Value = JNull"
| "bare_reading (Elems acc) = bare (JArr acc)"
| "bare_reading (Members acc) = bare (JObj acc)"

text \<open>What the reader does with some fuel, it does after compaction.\<close>

definition compacted :: "nat \<Rightarrow> bool" where
  "compacted n = (\<forall>m m' d s v r. read_json n m d s = Some (v, r) \<longrightarrow> bare_reading m' = bare_reading m \<longrightarrow>
     (m = Value \<longrightarrow> ends (skip_ws r)) \<longrightarrow>
     (\<exists>v'. read_json n m' d (compact_loop False s) = Some (v', compact_loop False r) \<and> bare v' = bare v))"

lemma compactedD:
  assumes "compacted n" "read_json n m d s = Some (v, r)" "bare_reading m' = bare_reading m" "m = Value \<Longrightarrow> ends (skip_ws r)"
  shows "\<exists>v'. read_json n m' d (compact_loop False s) = Some (v', compact_loop False r) \<and> bare v' = bare v"
  using assms unfolding compacted_def by blast

lemma compacted_Value:
  assumes "compacted n" "read_json (Suc n) Value d s = Some (v, r)" "bare_reading m' = bare_reading Value" "ends (skip_ws r)"
  shows "\<exists>v'. read_json (Suc n) m' d (compact_loop False s) = Some (v', compact_loop False r) \<and> bare v' = bare v"
proof -
  have m': "m' = Value"
    using assms(3) by (cases m') simp_all
  obtain c s1 where s1: "skip_ws s = c # s1"
    using assms(2) by (auto split: list.splits)
  note token = compact_token [OF s1] skip_compact [of s]
  consider (nested) b where "(c, b) \<in> {(CHR ''{'', Members []), (CHR ''['', Elems [])}" | (scalar) "c \<noteq> CHR ''{''" "c \<noteq> CHR ''[''"
    by blast
  then show ?thesis
  proof cases
    case nested
    then obtain x s2 where s2: "skip_ws s1 = x # s2"
      using assms(2) s1 by (auto split: list.splits if_splits)
    note inner = compact_token [OF s2] skip_compact [of s1]
    have step: "\<exists>v'. read_json n b (d + 1) (compact_loop False s1) = Some (v', compact_loop False r) \<and> bare v' = bare v"
      if "read_json n b (d + 1) (x # s2) = Some (v, r)"
      using compactedD [OF assms(1) that refl] nested compact_skip_ws [of s1] s2 by auto
    show ?thesis
      using assms(2) m' s1 s2 token inner nested step by (auto split: if_splits)
  next
    case scalar
    then have "read_scalar (c # s1) = Some (v, r)"
      using assms(2) s1 by simp
    then have "read_scalar (compact_loop False s) = Some (v, compact_loop False r)"
      using read_scalar_compact [of "c # s1" v r] assms(4) compact_skip_ws [of s] s1 by simp
    then show ?thesis
      using scalar m' token by simp
  qed
qed

lemma compacted_Elems:
  assumes "compacted n" "read_json (Suc n) (Elems acc) d s = Some (v, r)" "bare_reading m' = bare_reading (Elems acc)"
  shows "\<exists>v'. read_json (Suc n) m' d (compact_loop False s) = Some (v', compact_loop False r) \<and> bare v' = bare v"
proof -
  obtain acc' where m': "m' = Elems acc'" "bare (JArr acc') = bare (JArr acc)"
    using assms(3) by (cases m') simp_all
  obtain v1 r1 x r2 where r1: "read_json n Value d s = Some (v1, r1)" "skip_ws r1 = x # r2" "x \<in> {CHR '','', CHR '']''}"
    using assms(2) by (auto split: option.splits list.splits if_splits)
  have "ends (skip_ws r1)"
    using r1(2,3) by (auto simp: ends_def delim_def)
  then obtain v2 where v2: "read_json n Value d (compact_loop False s) = Some (v2, compact_loop False r1)" "bare v2 = bare v1"
    using compactedD [OF assms(1) r1(1) refl] by blast
  have same: "bare (JArr (acc' @ [(t', v2)])) = bare (JArr (acc @ [(t, v1)]))" for t t'
    using m'(2) v2(2) by simp
  have rest: "skip_ws (compact_loop False r1) = x # compact_loop False r2"
    using compact_token [OF r1(2)] skip_compact [of r1] r1(3) by auto
  show ?thesis
  proof (cases "x = CHR '',''")
    case True
    then have "read_json n (Elems (acc @ [(text_between s r1, v1)])) d r2 = Some (v, r)"
      using assms(2) r1 by simp
    from compactedD [OF assms(1) this, of "Elems (acc' @ [(text_between (compact_loop False s) (compact_loop False r1), v2)])"] show ?thesis
      using True m'(1) v2(1) rest same by simp
  next
    case False
    then show ?thesis
      using assms(2) r1 m'(1) v2(1) rest same by auto
  qed
qed

lemma compacted_Members:
  assumes "compacted n" "read_json (Suc n) (Members acc) d s = Some (v, r)" "bare_reading m' = bare_reading (Members acc)"
  shows "\<exists>v'. read_json (Suc n) m' d (compact_loop False s) = Some (v', compact_loop False r) \<and> bare v' = bare v"
proof -
  obtain acc' where m': "m' = Members acc'" "bare (JObj acc') = bare (JObj acc)"
    using assms(3) by (cases m') simp_all
  obtain k s1 v1 r1 x r2 where r1: "read_key s = Some (k, s1)" "read_json n Value d s1 = Some (v1, r1)" "skip_ws r1 = x # r2"
    "x \<in> {CHR '','', CHR ''}''}"
    using assms(2) by (auto split: option.splits list.splits if_splits)
  have "ends (skip_ws r1)"
    using r1(3,4) by (auto simp: ends_def delim_def)
  then obtain v2 where v2: "read_json n Value d (compact_loop False s1) = Some (v2, compact_loop False r1)" "bare v2 = bare v1"
    using compactedD [OF assms(1) r1(2) refl] by blast
  have same: "bare (JObj (acc' @ [(k, t', v2)])) = bare (JObj (acc @ [(k, t, v1)]))" for t t'
    using m'(2) v2(2) by simp
  have rest: "skip_ws (compact_loop False r1) = x # compact_loop False r2"
    using compact_token [OF r1(3)] skip_compact [of r1] r1(4) by auto
  show ?thesis
  proof (cases "x = CHR '',''")
    case True
    then have "read_json n (Members (acc @ [(k, text_between s1 r1, v1)])) d r2 = Some (v, r)"
      using assms(2) r1 by simp
    from compactedD [OF assms(1) this, of "Members (acc' @ [(k, text_between (compact_loop False s1) (compact_loop False r1), v2)])"] show ?thesis
      using True m'(1) v2(1) rest same read_key_compact [OF r1(1)] by simp
  next
    case False
    then show ?thesis
      using assms(2) r1 m'(1) v2(1) rest same read_key_compact [OF r1(1)] by auto
  qed
qed

lemma compacted: "compacted n"
proof (induction n)
  case (Suc n)
  have "\<exists>v'. read_json (Suc n) m' d (compact_loop False s) = Some (v', compact_loop False r) \<and> bare v' = bare v"
    if "read_json (Suc n) m d s = Some (v, r)" "bare_reading m' = bare_reading m" "m = Value \<longrightarrow> ends (skip_ws r)" for m m' d s v r
    using that compacted_Value [OF Suc] compacted_Elems [OF Suc] compacted_Members [OF Suc] by (cases m) blast+
  then show ?case
    unfolding compacted_def by blast
qed (simp add: compacted_def)

lemma read_json_more: "read_json n m d s = Some (v, r) \<Longrightarrow> n \<le> k \<Longrightarrow> read_json k m d s = Some (v, r)"
proof (induction n arbitrary: m d s v r k)
  case (Suc n)
  obtain k' where k: "k = Suc k'" "n \<le> k'"
    using Suc.prems(2) by (cases k) auto
  note more = Suc.IH [OF _ k(2)]
  show ?case
  proof (cases m)
    case Value
    then show ?thesis
      using Suc.prems(1) k(1) more by (auto split: list.splits if_splits)
  next
    case (Elems acc)
    then obtain v1 r1 where "read_json n Value d s = Some (v1, r1)"
      using Suc.prems(1) by (auto split: option.splits)
    then show ?thesis
      using Suc.prems(1) Elems k(1) more by (auto split: list.splits if_splits)
  next
    case (Members acc)
    then obtain q s1 v1 r1 where "read_key s = Some (q, s1)" "read_json n Value d s1 = Some (v1, r1)"
      using Suc.prems(1) by (auto split: option.splits)
    then show ?thesis
      using Suc.prems(1) Members k(1) more by (auto split: list.splits if_splits)
  qed
qed simp

lemma read_json_enough: "read_json n Value d s = Some (v, r) \<Longrightarrow> read_json (2 * length s + 1) Value d s = Some (v, r)"
  using read_json_more [of n Value d s v r "max n (2 * length s + 1)"] json_parse_fuel [of s "max n (2 * length s + 1)" d] by simp

lemma compact_document:
  assumes "read_json n Value d s = Some (v, r)" "skip_ws r = []"
  obtains v' where "read_json (2 * length (compact_loop False s) + 1) Value d (compact_loop False s) = Some (v', [])" "bare v' = bare v"
  using compactedD [OF compacted assms(1) refl] assms(2) compact_blank [OF assms(2)] read_json_enough [of n d "compact_loop False s"]
  by (auto simp: ends_def simp del: read_json.simps)

lemma json_Unmarshal_compact:
  assumes "json_Valid s"
  shows "json_Unmarshal (compact_loop False s) = json_Unmarshal s"
proof -
  obtain v r where v: "read_json (2 * length s + 1) Value 0 s = Some (v, r)" "skip_ws r = []"
    using assms by (auto simp: json_Valid_def json_parse_def simp del: read_json.simps split: option.splits if_splits)
  obtain v' where v': "read_json (2 * length (compact_loop False s) + 1) Value 0 (compact_loop False s) = Some (v', [])" "bare v' = bare v"
    using compact_document [OF v] .
  have "json_parse s = Some v" "json_parse (compact_loop False s) = Some v'"
    using v v'(1) by (simp_all add: json_parse_def skip_ws_def del: read_json.simps)
  moreover have "to_iface v' = to_iface v"
    using v'(2) to_iface_bare(1) by metis
  ultimately show ?thesis
    by (simp add: json_Unmarshal_def)
qed

declare compact_loop.simps(2,3) [simp]

end
