(* ===== verification/EnvelopeCodec.thy ===== *)
theory EnvelopeCodec
  imports Evaluator TimeParse JsonCompact
begin

text \<open>
  \<^verbatim>\<open>json.Unmarshal\<close> of a \<^verbatim>\<open>domain.EventEnvelope\<close>: how the broker adapter (\<^verbatim>\<open>internal/adapters/nats/jetstream.go\<close>) reads
  the messages that publishers write.

  The property: an envelope is read back as it was written, its payload compacted to a text of the same meaning, provided
  its texts are UTF-8, its payload is JSON and its headers are kept in key order.
\<close>

section \<open>Decoding\<close>

definition dec_time :: "time decoder" where
  "dec_time = (\<lambda>(raw, v) cur. if v = JNull then Some cur else unmarshal_time raw)"

text \<open>A \<^verbatim>\<open>map[string]string\<close>: entries are added to what is stored.\<close>

primrec dec_map_members :: "(string \<times> string \<times> jval) list \<Rightarrow> (string \<times> string) list \<Rightarrow> (string \<times> string) list option" where
  "dec_map_members [] m = Some m"
| "dec_map_members (e # es) m =
     (case dec_string (snd e) [] of None \<Rightarrow> None | Some x \<Rightarrow> dec_map_members es (obj_put (fst e) x m))"

definition dec_string_map :: "(string \<times> string) list decoder" where
  "dec_string_map = (\<lambda>(raw, v) cur. case v of JObj es \<Rightarrow> dec_map_members es cur | JNull \<Rightarrow> Some [] | _ \<Rightarrow> None)"

definition dec_EventEnvelope :: "EventEnvelope decoder" where
  "dec_EventEnvelope =
     dec_struct [''id'', ''type'', ''tenant_id'', ''partition_key'', ''workflow_id'', ''occurred_at'', ''data'', ''headers''] (\<lambda>f x c.
     if f = ''id'' then map_option (\<lambda>s. c\<lparr>evID := s\<rparr>) (dec_string x (evID c))
     else if f = ''type'' then map_option (\<lambda>s. c\<lparr>evType := s\<rparr>) (dec_string x (evType c))
     else if f = ''tenant_id'' then map_option (\<lambda>s. c\<lparr>evTenantID := s\<rparr>) (dec_string x (evTenantID c))
     else if f = ''partition_key'' then map_option (\<lambda>s. c\<lparr>evPartitionKey := s\<rparr>) (dec_string x (evPartitionKey c))
     else if f = ''workflow_id'' then map_option (\<lambda>s. c\<lparr>evWorkflowID := s\<rparr>) (dec_string x (evWorkflowID c))
     else if f = ''occurred_at'' then map_option (\<lambda>t. c\<lparr>evOccurredAt := t\<rparr>) (dec_time x (evOccurredAt c))
     else if f = ''data'' then map_option (\<lambda>s. c\<lparr>evData := s\<rparr>) (dec_raw x (evData c))
     else map_option (\<lambda>m. c\<lparr>evHeaders := m\<rparr>) (dec_string_map x (evHeaders c)))"

definition zero_EventEnvelope :: EventEnvelope where
  "zero_EventEnvelope =
     \<lparr>evID = [], evType = [], evTenantID = [], evPartitionKey = [], evWorkflowID = [], evOccurredAt = 0, evData = [], evHeaders = []\<rparr>"

definition unmarshal_EventEnvelope :: "string \<Rightarrow> EventEnvelope option" where
  "unmarshal_EventEnvelope = json_decode dec_EventEnvelope zero_EventEnvelope"

section \<open>The texts of the fields\<close>

definition plain :: "char \<Rightarrow> bool" where
  "plain c = (c \<in> set ''0123456789-:.TZ'')"

lemma plain_chars: "list_all (\<lambda>c. escape_byte c = [c] \<and> byte c < 0x80) ''0123456789-:.TZ''"
  by (simp add: escape_byte_def)

lemma plain_escape: "plain c \<Longrightarrow> escape_byte c = [c] \<and> byte c < 0x80"
  using plain_chars unfolding list_all_iff plain_def by blast

lemma plain_string: "list_all plain s \<Longrightarrow> escape_string (length s) s = s \<and> utf8_valid s"
proof (induction s)
  case (Cons c s)
  then have "escape_byte c = [c]" "byte c < 0x80"
    using plain_escape by auto
  then show ?case
    using Cons utf8_valid.simps [of "c # s"] utf8_len_ascii [of c s] by simp
qed simp

lemma plain_digit: "is_digit c \<Longrightarrow> plain c"
  by (auto simp: plain_def)

lemma plain_pad: "list_all plain (pad w n)"
  by (auto simp: pad_def int_dec_def list_all_iff plain_digit dest: nat_dec_digits) (simp_all add: plain_def)

lemma plain_literals: "list_all plain ''-''" "list_all plain '':''" "list_all plain ''T''" "list_all plain ''Z''" "list_all plain ''.''"
  by (simp_all add: plain_def)

lemma plain_date_time: "list_all plain (date_time t)"
  unfolding date_time_def Let_def by (auto simp: plain_pad plain_def split: prod.split)

lemma plain_fraction: "list_all plain (fraction ns)"
proof -
  have "set (dropWhile P xs) \<subseteq> set xs" for P and xs :: string
    by (auto dest: set_dropWhileD)
  then show ?thesis
    using plain_pad [of 9 ns] by (auto simp: fraction_def list_all_iff plain_def [of "CHR ''.''"] dest!: set_dropWhileD)
qed

lemma json_time_string:
  assumes "json_time t = Some raw"
  obtains s where "raw = json_string s" "utf8_valid s"
proof -
  let ?s = "date_time t @ fraction (t mod second) @ ''Z''"
  have "list_all plain ?s"
    by (simp add: plain_date_time plain_fraction plain_literals plain_def)
  then have "escape_string (length ?s) ?s = ?s" "utf8_valid ?s"
    using plain_string by blast+
  moreover have "raw = CHR ''\"'' # ?s @ [CHR ''\"'']"
    using assms by (auto simp: json_time_def split: if_splits)
  ultimately show ?thesis
    using that [of ?s] by (simp add: json_string_def)
qed

section \<open>The round trip\<close>

text \<open>The payload is JSON; the reader meets it one level deep, so that it may be nested one level less than a
  document of its own.\<close>

definition payload_ok :: "string \<Rightarrow> bool" where
  "payload_ok data = (case read_json (2 * length data + 1) Value 1 data of Some (v, r) \<Rightarrow> skip_ws r = [] | None \<Rightarrow> False)"

definition headers_ok :: "(string \<times> string) list \<Rightarrow> bool" where
  "headers_ok m = (sorted_wrt (<) (map fst m) \<and> list_all (\<lambda>(k, v). utf8_valid k \<and> utf8_valid v) m)"

definition envelope_ok :: "EventEnvelope \<Rightarrow> bool" where
  "envelope_ok e =
     (list_all utf8_valid [evID e, evType e, evTenantID e, evPartitionKey e, evWorkflowID e] \<and> payload_ok (evData e) \<and>
      headers_ok (evHeaders e))"

text \<open>What the wire does to an envelope: its payload loses the space between tokens, and HTML-sensitive characters are
  escaped.\<close>

definition on_wire :: "EventEnvelope \<Rightarrow> EventEnvelope" where
  "on_wire e = e\<lparr>evData := compact_loop False (evData e)\<rparr>"

lemma on_wire_fields [simp]:
  "evID (on_wire e) = evID e" "evType (on_wire e) = evType e" "evTenantID (on_wire e) = evTenantID e"
  "evPartitionKey (on_wire e) = evPartitionKey e" "evWorkflowID (on_wire e) = evWorkflowID e"
  "evOccurredAt (on_wire e) = evOccurredAt e" "evHeaders (on_wire e) = evHeaders e"
  "evData (on_wire e) = compact_loop False (evData e)"
  by (simp_all add: on_wire_def)

definition header_members :: "(string \<times> string) list \<Rightarrow> (string \<times> string \<times> jval) list" where
  "header_members m = map (\<lambda>(k, v). (k, json_string v, JStr v)) m"

lemma json_string_map_object: "json_string_map m = object_text (header_members m)"
  by (simp add: json_string_map_def object_text_def header_members_def member_text_def comp_def case_prod_unfold)

lemma writes_headers:
  "headers_ok m \<Longrightarrow> m \<noteq> [] \<Longrightarrow> d < max_nesting \<Longrightarrow> writes d (json_string_map m) (JObj (header_members m)) t"
  unfolding json_string_map_object
  by (rule writes_object)
    (auto simp: header_members_def member_ok_def headers_ok_def list_all_iff intro!: writes_json_string)

text \<open>Entries that come in key order are stored in that order.\<close>

lemma obj_put_last: "sorted_wrt (<) (map fst m @ [k]) \<Longrightarrow> obj_put k v m = m @ [(k, v)]"
proof (induction m)
  case (Cons e m)
  then show ?case
    by (cases e) (auto simp: sorted_wrt_append)
qed simp

lemma dec_header_members: "sorted_wrt (<) (map fst (m @ es)) \<Longrightarrow> dec_map_members (header_members es) m = Some (m @ es)"
proof (induction es arbitrary: m)
  case (Cons e es)
  obtain k v where e: "e = (k, v)"
    by (cases e)
  have "obj_put k v m = m @ [e]"
    using Cons.prems by (intro obj_put_last [THEN trans]) (auto simp: e sorted_wrt_append)
  then show ?case
    using Cons.IH [of "m @ [e]"] Cons.prems by (simp add: header_members_def e dec_string_def)
qed (simp add: header_members_def)

definition envelope_members :: "EventEnvelope \<Rightarrow> string \<Rightarrow> string \<Rightarrow> jval \<Rightarrow> (string \<times> string \<times> jval) list" where
  "envelope_members e at s v =
     [(''id'', json_string (evID e), JStr (evID e)), (''type'', json_string (evType e), JStr (evType e)),
      (''tenant_id'', json_string (evTenantID e), JStr (evTenantID e)),
      (''partition_key'', json_string (evPartitionKey e), JStr (evPartitionKey e))] @
     (if evWorkflowID e = [] then [] else [(''workflow_id'', json_string (evWorkflowID e), JStr (evWorkflowID e))]) @
     [(''occurred_at'', at, JStr s), (''data'', evData e, v)] @
     (if evHeaders e = [] then [] else [(''headers'', json_string_map (evHeaders e), JObj (header_members (evHeaders e)))])"

lemma json_EventEnvelope_object:
  "json_time (evOccurredAt e) = Some at \<Longrightarrow> json_raw (evData e) = Some (compact_loop False (evData e)) \<Longrightarrow>
    json_EventEnvelope e = Some (object_text (envelope_members (on_wire e) at s v))"
  by (simp add: json_EventEnvelope_def object_text_def envelope_members_def member_text_def json_field_def)

lemma field_names_valid:
  "list_all utf8_valid [''id'', ''type'', ''tenant_id'', ''partition_key'', ''workflow_id'', ''occurred_at'', ''data'', ''headers'']"
  by code_simp

lemma dec_envelope_members:
  assumes "unmarshal_time at = Some (evOccurredAt e)" "headers_ok (evHeaders e)"
  shows "dec_EventEnvelope (raw, JObj (envelope_members e at s v)) zero_EventEnvelope = Some e"
proof -
  have "dec_map_members (header_members (evHeaders e)) [] = Some (evHeaders e)"
    using dec_header_members [of "[]" "evHeaders e"] assms(2) by (simp add: headers_ok_def)
  then show ?thesis
    using assms(1)
    by (simp add: dec_EventEnvelope_def dec_struct_def envelope_members_def match_field_def zero_EventEnvelope_def dec_string_def
        dec_time_def dec_raw_def dec_string_map_def)
qed

lemma envelope_members_ok:
  assumes "envelope_ok e" "at = json_string s" "utf8_valid s"
    and "read_json (2 * length (compact_loop False (evData e)) + 1) Value 1 (compact_loop False (evData e)) = Some (v, [])"
  shows "\<forall>m \<in> set (envelope_members (on_wire e) at s v). member_ok (0 + 1) m"
proof -
  have "delim t \<Longrightarrow> writes 1 (compact_loop False (evData e)) v t" for t
    using assms(4) by (intro writes_document) (simp_all add: skip_compact)
  moreover have "evHeaders e \<noteq> [] \<Longrightarrow> writes 1 (json_string_map (evHeaders e)) (JObj (header_members (evHeaders e))) t" for t
    using assms(1) by (intro writes_headers) (simp_all add: envelope_ok_def max_nesting_def)
  ultimately show ?thesis
    using assms(1-3) field_names_valid by (auto simp: envelope_members_def member_ok_def envelope_ok_def intro: writes_json_string)
qed

lemma envelope_decodes:
  assumes "envelope_ok e" and "json_EventEnvelope e = Some message"
  shows "unmarshal_EventEnvelope message = Some (on_wire e)" "json_Unmarshal (evData (on_wire e)) = json_Unmarshal (evData e)"
proof -
  obtain at data where at: "json_time (evOccurredAt e) = Some at" and data: "json_raw (evData e) = Some data"
    using assms(2) by (auto simp: json_EventEnvelope_def split: option.splits)
  obtain v0 r where v0: "read_json (2 * length (evData e) + 1) Value 1 (evData e) = Some (v0, r)" "skip_ws r = []"
    using assms(1) by (auto simp: envelope_ok_def payload_ok_def split: option.splits)
  have "evData e \<noteq> []"
    using read_json_rest [OF v0(1)] by auto
  then have raw: "json_raw (evData e) = Some (compact_loop False (evData e))" "json_Valid (evData e)"
    using data by (simp_all add: json_raw_def split: if_splits)
  show "json_Unmarshal (evData (on_wire e)) = json_Unmarshal (evData e)"
    using json_Unmarshal_compact [OF raw(2)] by simp
  obtain v where v: "read_json (2 * length (compact_loop False (evData e)) + 1) Value 1 (compact_loop False (evData e)) = Some (v, [])"
    using compact_document [OF v0] by blast
  obtain s where s: "at = json_string s" "utf8_valid s"
    using json_time_string [OF at] .
  let ?ms = "envelope_members (on_wire e) at s v"
  have message: "message = object_text ?ms"
    using json_EventEnvelope_object [OF at raw(1)] assms(2) by simp
  have "writes 0 message (JObj ?ms) []"
    unfolding message
    by (rule writes_object [OF _ envelope_members_ok [OF assms(1) s v]]) (simp_all add: envelope_members_def max_nesting_def)
  then have "json_parse message = Some (JObj ?ms)"
    by (simp add: writes_def json_parse_def skip_ws_def del: read_json.simps)
  then show "unmarshal_EventEnvelope message = Some (on_wire e)"
    using dec_envelope_members [of at "on_wire e"] unmarshal_json_time [OF at] assms(1)
    by (simp add: unmarshal_EventEnvelope_def json_decode_def envelope_ok_def)
qed

text \<open>C18. An envelope is read back as it was written, if its texts are UTF-8, its headers are in key order and its payload is JSON that may be
  nested once more: decoding its JSON gives the envelope with the payload compacted, and the compacted payload means the same value.\<close>

theorem envelope_round_trip:
  assumes "envelope_ok e" and "json_EventEnvelope e = Some message"
  shows "unmarshal_EventEnvelope message = Some (e\<lparr>evData := compact_loop False (evData e)\<rparr>) \<and>
    json_Unmarshal (compact_loop False (evData e)) = json_Unmarshal (evData e)"
  using envelope_decodes [OF assms] by (simp add: on_wire_def)

definition sample_envelope :: EventEnvelope where
  "sample_envelope =
     \<lparr>evID = ''e1'', evType = ''order.placed'', evTenantID = ''t'', evPartitionKey = ''p<1>'', evWorkflowID = ''w'',
      evOccurredAt = 63870000000500000000, evData = ''[1, {\"<a>\": null}]'', evHeaders = [(''Idempotency-Key'', ''k''), (''x'', ''y'')]\<rparr>"

lemma sample_envelope_ok: "envelope_ok sample_envelope"
  by code_simp

lemma sample_envelope_written: "json_EventEnvelope sample_envelope \<noteq> None"
proof -
  have "json_time (evOccurredAt sample_envelope) \<noteq> None"
    by (simp add: json_time_def year_of_def year_yday_def sample_envelope_def Let_def ns_per_day_def second_def)
  moreover have "json_raw (evData sample_envelope) \<noteq> None"
    by code_simp
  ultimately show ?thesis
    by (auto simp: json_EventEnvelope_def)
qed

theorem envelope_round_trip_witness:
  "Option.bind (json_EventEnvelope sample_envelope) unmarshal_EventEnvelope =
     Some (sample_envelope\<lparr>evData := compact_loop False (evData sample_envelope)\<rparr>) \<and>
   evData sample_envelope \<noteq> compact_loop False (evData sample_envelope)"
proof -
  obtain message where "json_EventEnvelope sample_envelope = Some message"
    using sample_envelope_written by blast
  moreover have "evData sample_envelope \<noteq> compact_loop False (evData sample_envelope)"
    by code_simp
  ultimately show ?thesis
    using envelope_round_trip [OF sample_envelope_ok] by simp
qed

end
