(* ===== verification/NatsConsumer.thy ===== *)
theory NatsConsumer
  imports EnvelopeCodec GoStrings "HOL-Library.Product_Lexorder" "HOL-Library.AList"
begin

text \<open>
  \<^verbatim>\<open>internal/adapters/nats/jetstream.go\<close>: the adapter that keeps one durable pull consumer per shard, subject and rule
  set, fetches from them in turn within a budget, and publishes to the subjects of shards.

  The JetStream client is a record of operations on a state of its own; SHA-256 in hexadecimal is
  the parameter \<open>H\<close>.  Fetches from several consumers run at the same time and their results are
  collected as they arrive: the order of arrival is a parameter.

  The properties: fetches serve every consumer in turn and stay within their budget; reconciling
  consumers with the owned shards converges; a worker that gives up a shard deletes the durable
  consumer of its new owner, who never notices.
\<close>

section \<open>Configuration\<close>

record Config =
  cfStream :: string
  cfConsumer :: string
  cfSubjects :: "string list"
  cfRuleSets :: "string list"
  cfAckWait :: duration
  cfMaxDeliver :: int
  cfNumShards :: u32

definition applyConfigDefaults :: "Config \<Rightarrow> Config" where
  "applyConfigDefaults cfg =
     cfg\<lparr>cfNumShards := if cfNumShards cfg = 0 then 4096 else cfNumShards cfg,
         cfSubjects := if cfSubjects cfg = [] then [''events''] else cfSubjects cfg,
         cfStream := if cfStream cfg = [] then ''flowrule'' else cfStream cfg,
         cfConsumer := if cfConsumer cfg = [] then ''flowrule-worker'' else cfConsumer cfg,
         cfAckWait := if cfAckWait cfg \<le> 0 then 30 * second else cfAckWait cfg,
         cfMaxDeliver := if cfMaxDeliver cfg = 0 then - 1 else cfMaxDeliver cfg\<rparr>"

definition validateConsumerConfig :: "Config \<Rightarrow> unit result" where
  "validateConsumerConfig cfg =
     (if cfMaxDeliver cfg \<noteq> - 1
      then Inl (ErrorString ''NATS MaxDeliver must be -1 (unlimited) until durable exhausted-delivery recovery is implemented'')
      else Inr ())"

primrec normalizeSubjects_loop :: "string list \<Rightarrow> string list \<Rightarrow> string list result" where
  "normalizeSubjects_loop [] subjects = Inr subjects"
| "normalizeSubjects_loop (v # values) subjects =
     (let subject = TrimSpace v
      in if subject = [] then Inl (ErrorString ''NATS subject must not be empty'')
         else if subject \<in> set subjects then normalizeSubjects_loop values subjects
         else normalizeSubjects_loop values (subjects @ [subject]))"

definition normalizeSubjects :: "string list \<Rightarrow> string list result" where
  "normalizeSubjects values = normalizeSubjects_loop values []"

primrec normalizeRuleSets_loop :: "string list \<Rightarrow> string list \<Rightarrow> string list result" where
  "normalizeRuleSets_loop [] ruleSets = Inr (sort ruleSets)"
| "normalizeRuleSets_loop (v # values) ruleSets =
     (let ruleSet = TrimSpace v
      in if ruleSet = [] then Inl (ErrorString ''NATS ruleset must not be empty'')
         else if length ruleSet > 128 then Inl (ErrorString ''NATS ruleset exceeds 128 bytes'')
         else if ruleSet \<in> set ruleSets then Inl (ErrorString (''duplicate NATS ruleset '' @ Quote ruleSet))
         else normalizeRuleSets_loop values (ruleSets @ [ruleSet]))"

definition normalizeRuleSets :: "string list \<Rightarrow> string list result" where
  "normalizeRuleSets values = normalizeRuleSets_loop values []"

definition normalizeConfig :: "Config \<Rightarrow> Config result" where
  "normalizeConfig cfg0 =
     (let cfg = applyConfigDefaults cfg0
      in case validateConsumerConfig cfg of
           Inl err \<Rightarrow> Inl err
         | Inr _ \<Rightarrow>
             (case normalizeSubjects (cfSubjects cfg) of
                Inl err \<Rightarrow> Inl err
              | Inr subjects \<Rightarrow>
                  (case normalizeRuleSets (cfRuleSets cfg) of
                     Inl err \<Rightarrow> Inl err
                   | Inr ruleSets \<Rightarrow> Inr (cfg\<lparr>cfSubjects := subjects, cfRuleSets := ruleSets\<rparr>))))"

definition streamSubjects :: "Config \<Rightarrow> string list" where
  "streamSubjects cfg = concat (map (\<lambda>base. [base @ ''.shard.*'', base @ ''.ruleset.*.shard.*'']) (cfSubjects cfg))"

section \<open>Subjects\<close>

definition shard_dec :: "u32 \<Rightarrow> string" where
  "shard_dec shard = int_dec (uint shard)"

definition ruleSetToken :: "(string \<Rightarrow> string) \<Rightarrow> string \<Rightarrow> string" where
  "ruleSetToken H ruleSet = H ruleSet"

definition ruleSetSubject :: "(string \<Rightarrow> string) \<Rightarrow> string \<Rightarrow> string \<Rightarrow> u32 \<Rightarrow> string" where
  "ruleSetSubject H baseSubject ruleSet shard = baseSubject @ ''.ruleset.'' @ ruleSetToken H ruleSet @ ''.shard.'' @ shard_dec shard"

primrec containsRuleSet :: "string list \<Rightarrow> string \<Rightarrow> bool" where
  "containsRuleSet [] candidate = False"
| "containsRuleSet (ruleSet # ruleSets) candidate = (if ruleSet = candidate then True else containsRuleSet ruleSets candidate)"

definition subjectForMessage :: "(string \<Rightarrow> string) \<Rightarrow> string \<Rightarrow> u32 \<Rightarrow> string \<Rightarrow> string list \<Rightarrow> string" where
  "subjectForMessage H baseSubject shard data ruleSets =
     (case unmarshal_EventEnvelope data of
        Some envelope \<Rightarrow>
          if evType envelope \<noteq> [] \<and> containsRuleSet ruleSets (evType envelope)
          then ruleSetSubject H baseSubject (evType envelope) shard
          else baseSubject @ ''.shard.'' @ shard_dec shard
      | None \<Rightarrow> baseSubject @ ''.shard.'' @ shard_dec shard)"

definition safeDurableToken :: "string \<Rightarrow> string" where
  "safeDurableToken value =
     take 32 (map (\<lambda>c. if c = CHR ''.'' then CHR ''-'' else if c = CHR ''*'' then CHR ''x'' else if c = CHR ''>'' then CHR ''x''
       else if c = CHR '' '' then CHR ''-'' else c) value)"

section \<open>Consumers\<close>

record consumerKey =
  ckBaseSubject :: string
  ckRuleSet :: string
  ckShard :: u32

record ConsumerConfig =
  ccDurable :: string
  ccFilterSubject :: string
  ccMaxDeliver :: int
  ccAckWait :: duration

text \<open>The operations of the client: to create, delete and look up a durable consumer of a stream, to
  fetch from it (an error, or messages and the error of the batch), and to publish; and which errors
  are its \<^verbatim>\<open>ErrTimeout\<close> and \<^verbatim>\<open>ErrNoMessages\<close>.  A message is its data, and how often it was delivered if that
  is known.\<close>

record message =
  msData :: string
  msNumDelivered :: "nat option"

record 'j JetStream =
  jsCreateOrUpdateConsumer :: "string \<Rightarrow> ConsumerConfig \<Rightarrow> 'j \<Rightarrow> gerr option \<times> 'j"
  jsDeleteConsumer :: "string \<Rightarrow> string \<Rightarrow> 'j \<Rightarrow> gerr option \<times> 'j"
  jsConsumer :: "string \<Rightarrow> string \<Rightarrow> 'j \<Rightarrow> gerr option"
  jsFetch :: "string \<Rightarrow> string \<Rightarrow> nat \<Rightarrow> 'j \<Rightarrow> (message list \<times> gerr option) result \<times> 'j"
  jsPublish :: "string \<Rightarrow> string \<Rightarrow> 'j \<Rightarrow> gerr option \<times> 'j"
  jsIsTimeout :: "gerr \<Rightarrow> bool"
  jsIsNoMessages :: "gerr \<Rightarrow> bool"

record Consumer =
  cnStream :: string
  cnConsumers :: "(consumerKey \<times> string) list"
  cnSubjects :: "string list"
  cnRuleSets :: "string list"
  cnBaseDurable :: string
  cnCfg :: Config
  cnNumShards :: u32
  cnFetchCursor :: nat

definition NewConsumer_of :: "Config \<Rightarrow> Consumer" where
  "NewConsumer_of cfg =
     \<lparr>cnStream = cfStream cfg, cnConsumers = [], cnSubjects = cfSubjects cfg, cnRuleSets = cfRuleSets cfg,
      cnBaseDurable = cfConsumer cfg, cnCfg = cfg, cnNumShards = cfNumShards cfg, cnFetchCursor = 0\<rparr>"

definition durable_name :: "(string \<Rightarrow> string) \<Rightarrow> Consumer \<Rightarrow> consumerKey \<Rightarrow> string" where
  "durable_name H c key =
     (if ckRuleSet key \<noteq> []
      then cnBaseDurable c @ ''-'' @ safeDurableToken (ckBaseSubject key) @ ''-rs-'' @ take 32 (ruleSetToken H (ckRuleSet key)) @
        ''-shard-'' @ shard_dec (ckShard key)
      else if ckBaseSubject key \<noteq> hd (cnSubjects c)
      then cnBaseDurable c @ ''-'' @ safeDurableToken (ckBaseSubject key) @ ''-shard-'' @ shard_dec (ckShard key)
      else cnBaseDurable c @ ''-shard-'' @ shard_dec (ckShard key))"

definition filter_subject :: "(string \<Rightarrow> string) \<Rightarrow> consumerKey \<Rightarrow> string" where
  "filter_subject H key =
     (if ckRuleSet key \<noteq> [] then ruleSetSubject H (ckBaseSubject key) (ckRuleSet key) (ckShard key)
      else ckBaseSubject key @ ''.shard.'' @ shard_dec (ckShard key))"

definition ensureConsumerLocked ::
  "(string \<Rightarrow> string) \<Rightarrow> 'j JetStream \<Rightarrow> consumerKey \<Rightarrow> Consumer \<times> 'j \<Rightarrow> gerr option \<times> Consumer \<times> 'j" where
  "ensureConsumerLocked H js key = (\<lambda>(c, j).
     if map_of (cnConsumers c) key \<noteq> None then (None, c, j)
     else
       let filterSubject = filter_subject H key; durable = durable_name H c key
       in case jsCreateOrUpdateConsumer js (cfStream (cnCfg c))
                 \<lparr>ccDurable = durable, ccFilterSubject = filterSubject, ccMaxDeliver = cfMaxDeliver (cnCfg c),
                  ccAckWait = cfAckWait (cnCfg c)\<rparr> j of
            (Some err, j') \<Rightarrow>
              (Some (Errorf [(''create consumer for subject '' @ Quote filterSubject @ '' shard '' @ shard_dec (ckShard key) @ '': '', err)] []),
               c, j')
          | (None, j') \<Rightarrow> (None, c\<lparr>cnConsumers := AList.update key durable (cnConsumers c)\<rparr>, j'))"

text \<open>The keys of a shard, in the order they are made.\<close>

definition shard_keys :: "Consumer \<Rightarrow> u32 \<Rightarrow> consumerKey list" where
  "shard_keys c shard =
     concat (map (\<lambda>base. map (\<lambda>ruleSet. \<lparr>ckBaseSubject = base, ckRuleSet = ruleSet, ckShard = shard\<rparr>) ([] # cnRuleSets c)) (cnSubjects c))"

primrec ensure_keys ::
  "(string \<Rightarrow> string) \<Rightarrow> 'j JetStream \<Rightarrow> consumerKey list \<Rightarrow> Consumer \<times> 'j \<Rightarrow> gerr option \<times> Consumer \<times> 'j" where
  "ensure_keys H js [] s = (None, s)"
| "ensure_keys H js (key # keys) s =
     (case ensureConsumerLocked H js key s of
        (Some err, s') \<Rightarrow> (Some err, s')
      | (None, s') \<Rightarrow> ensure_keys H js keys s')"

definition EnsureShardConsumer ::
  "(string \<Rightarrow> string) \<Rightarrow> 'j JetStream \<Rightarrow> u32 \<Rightarrow> Consumer \<times> 'j \<Rightarrow> gerr option \<times> Consumer \<times> 'j" where
  "EnsureShardConsumer H js shard s = ensure_keys H js (shard_keys (fst s) shard) s"

text \<open>The body of the loop that removes keys; the map has no empty names.\<close>

definition remove_key :: "'j JetStream \<Rightarrow> consumerKey \<Rightarrow> gerr list \<times> Consumer \<times> 'j \<Rightarrow> gerr list \<times> Consumer \<times> 'j" where
  "remove_key js key = (\<lambda>(errs, c, j).
     case map_of (cnConsumers c) key of
       None \<Rightarrow> (errs, c, j)
     | Some durable \<Rightarrow>
         if durable = [] then (errs, c, j)
         else case jsDeleteConsumer js (cfStream (cnCfg c)) durable j of
                (Some err, j') \<Rightarrow> (errs @ [Errorf [(''delete consumer '' @ Quote durable @ '': '', err)] []], c, j')
              | (None, j') \<Rightarrow> (errs, c\<lparr>cnConsumers := AList.delete key (cnConsumers c)\<rparr>, j'))"

definition RemoveShardConsumer ::
  "'j JetStream \<Rightarrow> u32 \<Rightarrow> Consumer \<times> 'j \<Rightarrow> gerr option \<times> Consumer \<times> 'j" where
  "RemoveShardConsumer js shard s =
     (let keys = sort_key (\<lambda>k. (ckBaseSubject k, ckRuleSet k)) (filter (\<lambda>k. ckShard k = shard) (map fst (cnConsumers (fst s))));
          (errs, s') = fold (remove_key js) keys ([], s)
      in (errors_Join errs, s'))"

text \<open>Shards whose consumers are complete.\<close>

definition Consumer_OwnedShards :: "Consumer \<Rightarrow> u32 list" where
  "Consumer_OwnedShards c =
     (let expected = length (cnSubjects c) * (1 + length (cnRuleSets c)); shards = map (\<lambda>p. ckShard (fst p)) (cnConsumers c)
      in sort (filter (\<lambda>shard. length (filter (\<lambda>s. s = shard) shards) = expected) (remdups shards)))"

section \<open>Fetching\<close>

definition validateFetchRequest :: "int \<Rightarrow> gerr option \<Rightarrow> unit result" where
  "validateFetchRequest maxMessages ctxErr =
     (if maxMessages \<le> 0 then Inl (ErrorString ''fetch shards: maxMessages must be > 0'')
      else case ctxErr of None \<Rightarrow> Inr () | Some err \<Rightarrow> Inl err)"

definition matchingConsumerKeys :: "(consumerKey \<times> string) list \<Rightarrow> u32 list \<Rightarrow> consumerKey list" where
  "matchingConsumerKeys consumers wanted =
     sort_key (\<lambda>k. (ckShard k, ckBaseSubject k, ckRuleSet k)) (filter (\<lambda>k. ckShard k \<in> set wanted) (map fst consumers))"

definition selectFetchConsumers :: "nat \<Rightarrow> u32 list \<Rightarrow> Consumer \<Rightarrow> (consumerKey \<times> string) list \<times> Consumer" where
  "selectFetchConsumers maxMessages shards c =
     (let keys = matchingConsumerKeys (cnConsumers c) shards
      in if keys = [] then ([], c)
         else
           let selectedCount = min (length keys) maxMessages;
               start = cnFetchCursor c mod length keys;
               selected = map (\<lambda>i. keys ! ((start + i) mod length keys)) [0..<selectedCount]
           in (map (\<lambda>key. (key, the (map_of (cnConsumers c) key))) selected,
               c\<lparr>cnFetchCursor := (start + selectedCount) mod length keys\<rparr>))"

text \<open>Messages, and an error.\<close>

type_synonym shardFetchResult = "message list \<times> gerr option"

definition isUnexpectedFetchError :: "'j JetStream \<Rightarrow> gerr option \<Rightarrow> bool" where
  "isUnexpectedFetchError js err = (case err of None \<Rightarrow> False | Some e \<Rightarrow> \<not> jsIsTimeout js e \<and> \<not> jsIsNoMessages js e)"

definition fetchFromConsumer :: "'j JetStream \<Rightarrow> string \<Rightarrow> string \<Rightarrow> nat \<Rightarrow> 'j \<Rightarrow> shardFetchResult \<times> 'j" where
  "fetchFromConsumer js stream durable budget j =
     (case jsConsumer js stream durable j of
        Some err \<Rightarrow> (([], Some (Errorf [(''get consumer '' @ Quote durable @ '': '', err)] [])), j)
      | None \<Rightarrow>
          (case jsFetch js stream durable budget j of
             (Inl err, j') \<Rightarrow>
               if jsIsTimeout js err then (([], None), j')
               else (([], Some (Errorf [(''fetch consumer '' @ Quote durable @ '': '', err)] [])), j')
           | (Inr (deliveries, batchErr), j') \<Rightarrow>
               if isUnexpectedFetchError js batchErr
               then ((deliveries, Some (Errorf [(''receive from consumer '' @ Quote durable @ '': '', the batchErr)] [])), j')
               else ((deliveries, None), j')))"

definition fetch_budgets :: "nat \<Rightarrow> nat \<Rightarrow> nat list" where
  "fetch_budgets maxMessages n = map (\<lambda>i. maxMessages div n + (if i < maxMessages mod n then 1 else 0)) [0..<n]"

primrec fetch_each :: "'j JetStream \<Rightarrow> string \<Rightarrow> (string \<times> nat) list \<Rightarrow> 'j \<Rightarrow> shardFetchResult list \<times> 'j" where
  "fetch_each js stream [] j = ([], j)"
| "fetch_each js stream (f # fs) j =
     (let (r, j1) = fetchFromConsumer js stream (fst f) (snd f) j; (rs, j2) = fetch_each js stream fs j1 in (r # rs, j2))"

definition fetchSelectedConsumers ::
  "'j JetStream \<Rightarrow> (shardFetchResult list \<Rightarrow> shardFetchResult list) \<Rightarrow> string \<Rightarrow> nat \<Rightarrow> (consumerKey \<times> string) list \<Rightarrow> 'j \<Rightarrow>
   shardFetchResult list \<times> 'j" where
  "fetchSelectedConsumers js arrival stream maxMessages selected j =
     (let (results, j') = fetch_each js stream (zip (map snd selected) (fetch_budgets maxMessages (length selected))) j
      in (arrival results, j'))"

definition collectFetchResults :: "shardFetchResult list \<Rightarrow> nat \<Rightarrow> message list \<times> gerr option" where
  "collectFetchResults results maxMessages =
     (let deliveries = concat (map fst results); fetchErrs = List.map_filter snd results
      in (deliveries,
          errors_Join (fetchErrs @
            (if length deliveries > maxMessages
             then [ErrorString (''fetch invariant violated: got '' @ nat_dec (length deliveries) @ '' deliveries for limit '' @
                nat_dec maxMessages)]
             else []))))"

definition FetchShards ::
  "'j JetStream \<Rightarrow> (shardFetchResult list \<Rightarrow> shardFetchResult list) \<Rightarrow> gerr option \<Rightarrow> int \<Rightarrow> u32 list \<Rightarrow> Consumer \<times> 'j \<Rightarrow>
   (message list \<times> gerr option) \<times> Consumer \<times> 'j" where
  "FetchShards js arrival ctxErr maxMessages shards = (\<lambda>(c, j).
     case validateFetchRequest maxMessages ctxErr of
       Inl err \<Rightarrow> (([], Some err), c, j)
     | Inr _ \<Rightarrow>
         if shards = [] then (([], None), c, j)
         else
           let (selected, c') = selectFetchConsumers (nat maxMessages) shards c
           in if selected = [] then (([], None), c', j)
              else
                let (results, j') = fetchSelectedConsumers js arrival (cnStream c) (nat maxMessages) selected j
                in (collectFetchResults results (nat maxMessages), c', j'))"

definition Fetch ::
  "'j JetStream \<Rightarrow> (shardFetchResult list \<Rightarrow> shardFetchResult list) \<Rightarrow> gerr option \<Rightarrow> int \<Rightarrow> Consumer \<times> 'j \<Rightarrow>
   (message list \<times> gerr option) \<times> Consumer \<times> 'j" where
  "Fetch js arrival ctxErr maxMessages s = FetchShards js arrival ctxErr maxMessages (Consumer_OwnedShards (fst s)) s"

definition jetstreamDelivery_Event :: "message \<Rightarrow> EventEnvelope option" where
  "jetstreamDelivery_Event msg = unmarshal_EventEnvelope (msData msg)"

definition jetstreamDelivery_Attempt :: "message \<Rightarrow> nat" where
  "jetstreamDelivery_Attempt msg = (case msNumDelivered msg of None \<Rightarrow> 1 | Some n \<Rightarrow> if n = 0 then 1 else n)"

section \<open>Publishing\<close>

definition Publish :: "'j JetStream \<Rightarrow> string \<Rightarrow> string \<Rightarrow> 'j \<Rightarrow> gerr option \<times> 'j" where
  "Publish js subject data j =
     (case jsPublish js subject data j of
        (Some err, j') \<Rightarrow> (Some (Errorf [(''publish subject '' @ Quote subject @ '': '', err)] []), j')
      | (None, j') \<Rightarrow> (None, j'))"

definition PublishToShard :: "(string \<Rightarrow> string) \<Rightarrow> 'j JetStream \<Rightarrow> string list \<Rightarrow> string \<Rightarrow> u32 \<Rightarrow> string \<Rightarrow> 'j \<Rightarrow> gerr option \<times> 'j" where
  "PublishToShard H js ruleSets baseSubject shard data j = Publish js (subjectForMessage H baseSubject shard data ruleSets) data j"

primrec Publisher_PublishBatch_from :: "'j JetStream \<Rightarrow> nat \<Rightarrow> (string \<times> string) list \<Rightarrow> 'j \<Rightarrow> gerr option \<times> 'j" where
  "Publisher_PublishBatch_from js i [] j = (None, j)"
| "Publisher_PublishBatch_from js i (m # messages) j =
     (case Publish js (fst m) (snd m) j of
        (Some err, j') \<Rightarrow> (Some (Errorf [(''publish batch message '' @ nat_dec i @ '': '', err)] []), j')
      | (None, j') \<Rightarrow> Publisher_PublishBatch_from js (Suc i) messages j')"

definition SendOrderCreate :: "(string \<Rightarrow> string) \<Rightarrow> 'j JetStream \<Rightarrow> string list \<Rightarrow> u32 \<Rightarrow> string \<Rightarrow> 'j \<Rightarrow> gerr option \<times> 'j" where
  "SendOrderCreate H js ruleSets shard payload j = PublishToShard H js ruleSets ''orders.create'' shard payload j"

section \<open>The consumers of a shard\<close>

text \<open>The consumers of the adapter have distinct keys that belong to its subjects and rule sets, and
  names.\<close>

definition consumer_ok :: "Consumer \<Rightarrow> bool" where
  "consumer_ok c =
     (distinct (map fst (cnConsumers c)) \<and> (\<forall>p \<in> set (cnConsumers c). fst p \<in> set (shard_keys c (ckShard (fst p))) \<and> snd p \<noteq> []) \<and>
      cnSubjects c \<noteq> [] \<and> distinct (cnSubjects c) \<and> distinct ([] # cnRuleSets c))"

definition jetstream_up :: "'j JetStream \<Rightarrow> bool" where
  "jetstream_up js =
     ((\<forall>stream cfg j. fst (jsCreateOrUpdateConsumer js stream cfg j) = None) \<and> (\<forall>stream d j. fst (jsDeleteConsumer js stream d j) = None))"

abbreviation known :: "Consumer \<Rightarrow> consumerKey set" where
  "known c \<equiv> fst ` set (cnConsumers c)"

definition same_setup :: "Consumer \<Rightarrow> Consumer \<Rightarrow> bool" where
  "same_setup c c' = (cnSubjects c' = cnSubjects c \<and> cnRuleSets c' = cnRuleSets c)"

lemma same_setup_keys: "same_setup c c' \<Longrightarrow> shard_keys c' = shard_keys c"
  by (simp add: same_setup_def shard_keys_def fun_eq_iff)

lemma shard_keys_update [simp]: "shard_keys (c\<lparr>cnConsumers := x\<rparr>) shard = shard_keys c shard"
  by (simp add: shard_keys_def)

lemma shard_keys_shard: "k \<in> set (shard_keys c shard) \<Longrightarrow> ckShard k = shard"
  by (auto simp: shard_keys_def)

lemma shard_keys_nonempty: "consumer_ok c \<Longrightarrow> shard_keys c shard \<noteq> []"
  by (cases "cnSubjects c") (auto simp: consumer_ok_def shard_keys_def)

lemma shard_keys_length: "length (shard_keys c shard) = length (cnSubjects c) * (1 + length (cnRuleSets c))"
  by (simp add: shard_keys_def length_concat comp_def sum_list_triv)

lemma shard_keys_product:
  "shard_keys c shard =
     map (\<lambda>p. \<lparr>ckBaseSubject = fst p, ckRuleSet = snd p, ckShard = shard\<rparr>) (List.product (cnSubjects c) ([] # cnRuleSets c))"
  unfolding shard_keys_def by (induction "cnSubjects c" arbitrary: c rule: list.induct) (simp_all add: product_concat_map map_concat comp_def)

lemma shard_keys_distinct: "consumer_ok c \<Longrightarrow> distinct (shard_keys c shard)"
  unfolding shard_keys_product distinct_map
  by (auto simp: consumer_ok_def inj_on_def prod_eq_iff simp del: product.simps intro!: distinct_product)

text \<open>A shard counts as owned if all its consumers are known.\<close>

lemma OwnedShards_iff:
  assumes "consumer_ok c"
  shows "shard \<in> set (Consumer_OwnedShards c) \<longleftrightarrow> set (shard_keys c shard) \<subseteq> known c"
proof -
  let ?ks = "filter (\<lambda>k. ckShard k = shard) (map fst (cnConsumers c))"
  let ?expected = "length (cnSubjects c) * (1 + length (cnRuleSets c))"
  have count: "length (filter (\<lambda>s. s = shard) (map (\<lambda>p. ckShard (fst p)) (cnConsumers c))) = length ?ks"
    by (simp add: filter_map comp_def)
  have ks: "distinct ?ks" "set ?ks \<subseteq> set (shard_keys c shard)"
    using assms by (auto simp: consumer_ok_def)
  have "card (set (shard_keys c shard)) = ?expected"
    using shard_keys_distinct [OF assms, of shard] by (simp add: distinct_card shard_keys_length)
  then have full: "length ?ks = ?expected \<longleftrightarrow> set ?ks = set (shard_keys c shard)"
    using card_subset_eq [OF finite_set ks(2)] distinct_card [OF ks(1)] by metis
  have sub: "set (shard_keys c shard) \<subseteq> known c \<longleftrightarrow> set ?ks = set (shard_keys c shard)"
    using ks(2) shard_keys_shard [of _ c shard] by auto
  have "set ?ks = set (shard_keys c shard) \<Longrightarrow> shard \<in> set (map (\<lambda>p. ckShard (fst p)) (cnConsumers c))"
    using shard_keys_nonempty [OF assms, of shard] by (cases "shard_keys c shard") (auto 4 3 dest: equalityD2)
  then show ?thesis
    unfolding sub full [symmetric] Consumer_OwnedShards_def Let_def using count by auto
qed

lemma update_new: "map_of al k = None \<Longrightarrow> AList.update k v al = al @ [(k, v)]"
  by (induction al) (auto split: if_splits)

lemma known_delete: "fst ` set (AList.delete k al) = fst ` set al - {k}"
  using arg_cong [OF delete_keys [of k al], of set] by simp

lemma durable_nonempty: "durable_name H c key \<noteq> []"
  by (simp add: durable_name_def)

lemma ensureConsumerLocked_up:
  assumes "jetstream_up js" "consumer_ok c" "key \<in> set (shard_keys c (ckShard key))"
  obtains c' j' where "ensureConsumerLocked H js key (c, j) = (None, c', j')" "consumer_ok c'" "same_setup c c'" "known c' = insert key (known c)"
proof (cases "map_of (cnConsumers c) key")
  case None
  let ?c = "c\<lparr>cnConsumers := AList.update key (durable_name H c key) (cnConsumers c)\<rparr>"
  have "consumer_ok ?c"
    using assms(2,3) durable_nonempty [of H c key] None by (auto simp: consumer_ok_def update_new map_of_eq_None_iff)
  moreover obtain j' where "jsCreateOrUpdateConsumer js (cfStream (cnCfg c))
      \<lparr>ccDurable = durable_name H c key, ccFilterSubject = filter_subject H key, ccMaxDeliver = cfMaxDeliver (cnCfg c),
       ccAckWait = cfAckWait (cnCfg c)\<rparr> j = (None, j')"
    using assms(1) by (metis jetstream_up_def prod.collapse)
  ultimately show ?thesis
    using None that [of ?c j'] by (simp add: ensureConsumerLocked_def Let_def same_setup_def update_new)
next
  case (Some d)
  then have "insert key (known c) = known c"
    by (metis insert_absorb domI dom_map_of_conv_image_fst)
  then show ?thesis
    using Some that [of c j] assms(2) by (simp add: ensureConsumerLocked_def same_setup_def)
qed

lemma ensure_keys_up:
  assumes "jetstream_up js"
  shows "consumer_ok c \<Longrightarrow> set keys \<subseteq> set (shard_keys c shard) \<Longrightarrow>
    \<exists>c' j'. ensure_keys H js keys (c, j) = (None, c', j') \<and> consumer_ok c' \<and> same_setup c c' \<and> known c' = set keys \<union> known c"
proof (induction keys arbitrary: c j)
  case (Cons key keys)
  have "key \<in> set (shard_keys c (ckShard key))"
    using Cons.prems(2) shard_keys_shard by fastforce
  then obtain c1 j1 where 1: "ensureConsumerLocked H js key (c, j) = (None, c1, j1)" "consumer_ok c1" "same_setup c c1"
    "known c1 = insert key (known c)"
    using ensureConsumerLocked_up [OF assms Cons.prems(1)] by metis
  obtain c2 j2 where "ensure_keys H js keys (c1, j1) = (None, c2, j2)" "consumer_ok c2" "same_setup c1 c2" "known c2 = set keys \<union> known c1"
    using Cons.IH [OF 1(2), of j1] Cons.prems(2) same_setup_keys [OF 1(3)] by auto
  then show ?case
    using 1 by (auto simp: same_setup_def)
qed (simp add: same_setup_def)

lemma EnsureShardConsumer_up:
  assumes "jetstream_up js" "consumer_ok c"
  shows "\<exists>c' j'. EnsureShardConsumer H js shard (c, j) = (None, c', j') \<and> consumer_ok c' \<and> same_setup c c' \<and>
    known c' = set (shard_keys c shard) \<union> known c"
  using ensure_keys_up [OF assms, of "shard_keys c shard" shard H j] by (simp add: EnsureShardConsumer_def)

lemma remove_key_up:
  assumes "jetstream_up js" "consumer_ok c"
  shows "\<exists>c' j'. remove_key js key (errs, c, j) = (errs, c', j') \<and> consumer_ok c' \<and> same_setup c c' \<and> known c' = known c - {key}"
proof (cases "map_of (cnConsumers c) key")
  case None
  then show ?thesis
    using assms(2) by (intro exI [of _ c] exI [of _ j]) (simp add: remove_key_def same_setup_def map_of_eq_None_iff [symmetric])
next
  case (Some d)
  let ?c = "c\<lparr>cnConsumers := AList.delete key (cnConsumers c)\<rparr>"
  have "d \<noteq> []"
    using Some assms(2) by (auto simp: consumer_ok_def dest!: map_of_SomeD)
  moreover have "consumer_ok ?c"
    using assms(2) unfolding consumer_ok_def by (auto simp: distinct_delete) (auto simp: AList.delete_eq)
  moreover have "fst (jsDeleteConsumer js (cfStream (cnCfg c)) d j) = None"
    using assms(1) by (simp add: jetstream_up_def)
  then obtain j' where "jsDeleteConsumer js (cfStream (cnCfg c)) d j = (None, j')"
    by (metis prod.collapse)
  ultimately show ?thesis
    using Some by (auto simp: remove_key_def same_setup_def known_delete)
qed

lemma remove_keys_up:
  assumes "jetstream_up js"
  shows "consumer_ok c \<Longrightarrow>
    \<exists>c' j'. fold (remove_key js) keys (errs, c, j) = (errs, c', j') \<and> consumer_ok c' \<and> same_setup c c' \<and> known c' = known c - set keys"
proof (induction keys arbitrary: c j)
  case (Cons key keys)
  obtain c1 j1 where 1: "remove_key js key (errs, c, j) = (errs, c1, j1)" "consumer_ok c1" "same_setup c c1" "known c1 = known c - {key}"
    using remove_key_up [OF assms Cons.prems] by metis
  obtain c2 j2 where "fold (remove_key js) keys (errs, c1, j1) = (errs, c2, j2)" "consumer_ok c2" "same_setup c1 c2" "known c2 = known c1 - set keys"
    using Cons.IH [OF 1(2)] by metis
  then show ?case
    using 1 by (auto simp: same_setup_def)
qed (simp add: same_setup_def)

lemma RemoveShardConsumer_up:
  assumes "jetstream_up js" "consumer_ok c"
  shows "\<exists>c' j'. RemoveShardConsumer js shard (c, j) = (None, c', j') \<and> consumer_ok c' \<and> same_setup c c' \<and>
    known c' = {k \<in> known c. ckShard k \<noteq> shard}"
proof -
  let ?keys = "sort_key (\<lambda>k. (ckBaseSubject k, ckRuleSet k)) (filter (\<lambda>k. ckShard k = shard) (map fst (cnConsumers c)))"
  obtain c' j' where "fold (remove_key js) ?keys ([], c, j) = ([], c', j')" "consumer_ok c'" "same_setup c c'" "known c' = known c - set ?keys"
    using remove_keys_up [OF assms, of ?keys "[]" j] by metis
  then show ?thesis
    by (intro exI [of _ c'] exI [of _ j']) (auto simp: RemoveShardConsumer_def errors_Join_def)
qed

section \<open>Fetching in turn\<close>

definition next_fetch :: "nat \<Rightarrow> u32 list \<Rightarrow> Consumer \<Rightarrow> Consumer" where
  "next_fetch maxMessages shards c = snd (selectFetchConsumers maxMessages shards c)"

lemma next_fetch_consumers [simp]: "cnConsumers (next_fetch maxMessages shards c) = cnConsumers c"
  by (simp add: next_fetch_def selectFetchConsumers_def Let_def)

lemma fetches_consumers [simp]: "cnConsumers ((next_fetch maxMessages shards ^^ i) c) = cnConsumers c"
  by (induction i) simp_all

lemma fetches_cursor:
  assumes "keys = matchingConsumerKeys (cnConsumers c) shards" "keys \<noteq> []"
  shows "cnFetchCursor ((next_fetch maxMessages shards ^^ i) c) mod length keys =
    (cnFetchCursor c + i * min (length keys) maxMessages) mod length keys"
proof (induction i)
  case (Suc i)
  let ?c = "(next_fetch maxMessages shards ^^ i) c"
  have "cnFetchCursor ((next_fetch maxMessages shards ^^ Suc i) c) =
      (cnFetchCursor ?c mod length keys + min (length keys) maxMessages) mod length keys"
    using assms by (simp add: next_fetch_def [of _ _ ?c] selectFetchConsumers_def Let_def)
  then show ?case
    unfolding Suc.IH by (simp add: mod_simps algebra_simps)
qed simp

lemma round_robin:
  fixes n p s cnt :: nat
  assumes "p < n" "0 < cnt"
  obtains i t where "i * cnt + t < n" "t < cnt" "(s + i * cnt + t) mod n = p"
proof
  let ?dist = "(p + (n - s mod n)) mod n"
  have "?dist < n"
    using assms(1) by simp
  then show "?dist div cnt * cnt + ?dist mod cnt < n" "?dist mod cnt < cnt"
    using assms(2) by simp_all
  have "(s + ?dist) mod n = (s mod n + (p + (n - s mod n))) mod n"
    by (simp add: mod_simps)
  also have "s mod n + (p + (n - s mod n)) = p + n"
    using assms(1) mod_less_divisor [of n s] by linarith
  finally show "(s + ?dist div cnt * cnt + ?dist mod cnt) mod n = p"
    using assms(1) by (simp add: add.assoc)
qed

text \<open>Fetches serve every consumer: among as many fetches as it takes for their budgets to cover the
  consumers of the wanted shards, each of these consumers is asked.\<close>

lemma fetch_serves_all:
  assumes "0 < maxMessages" and "key \<in> set (matchingConsumerKeys (cnConsumers c) shards)"
    and "length (matchingConsumerKeys (cnConsumers c) shards) \<le> k * maxMessages"
  shows "\<exists>i < k. key \<in> fst ` set (fst (selectFetchConsumers maxMessages shards ((next_fetch maxMessages shards ^^ i) c)))"
proof -
  define keys where "keys = matchingConsumerKeys (cnConsumers c) shards"
  let ?cnt = "min (length keys) maxMessages"
  obtain p where p: "p < length keys" "keys ! p = key"
    using assms(2) by (auto simp: keys_def in_set_conv_nth)
  have cnt: "0 < ?cnt"
    using p(1) assms(1) by auto
  obtain i t where it: "i * ?cnt + t < length keys" "t < ?cnt" "(cnFetchCursor c + i * ?cnt + t) mod length keys = p"
    using round_robin [OF p(1) cnt] .
  let ?c = "(next_fetch maxMessages shards ^^ i) c"
  have "i < k"
  proof (rule ccontr)
    assume "\<not> i < k"
    then have "k * ?cnt \<le> i * ?cnt"
      by (intro mult_le_mono1) simp
    then have "\<not> length keys \<le> k * ?cnt"
      using it(1) by linarith
    moreover have "length keys \<le> k * maxMessages"
      using assms(3) by (simp add: keys_def)
    ultimately have "?cnt = length keys" "k = 0"
      using p(1) by (auto simp: min_def not_le split: if_splits)
    then show False
      using \<open>length keys \<le> k * maxMessages\<close> p(1) by simp
  qed
  moreover have "key \<in> fst ` set (fst (selectFetchConsumers maxMessages shards ?c))"
  proof -
    have "keys \<noteq> []"
      using p(1) by auto
    have "(cnFetchCursor ?c mod length keys + t) mod length keys = p"
      unfolding fetches_cursor [OF keys_def \<open>keys \<noteq> []\<close>] mod_add_left_eq by (rule it(3))
    then have "key \<in> (\<lambda>i. keys ! ((cnFetchCursor ?c mod length keys + i) mod length keys)) ` {0..<?cnt}"
      using it(2) p(2) by (intro image_eqI [of _ _ t]) simp_all
    then show ?thesis
      using \<open>keys \<noteq> []\<close> by (auto simp: selectFetchConsumers_def Let_def keys_def [symmetric] image_comp comp_def)
  qed
  ultimately show ?thesis
    by blast
qed

section \<open>Consumers that another worker removed\<close>

text \<open>What is relied on of JetStream: a deleted consumer is not found, and neither further deletions
  nor fetches bring it back.\<close>

definition jetstream_deletes :: "'j JetStream \<Rightarrow> bool" where
  "jetstream_deletes js =
     ((\<forall>stream d j. fst (jsDeleteConsumer js stream d j) = None \<longrightarrow> jsConsumer js stream d (snd (jsDeleteConsumer js stream d j)) \<noteq> None) \<and>
      (\<forall>stream d d' j. jsConsumer js stream d j \<noteq> None \<longrightarrow> jsConsumer js stream d (snd (jsDeleteConsumer js stream d' j)) \<noteq> None) \<and>
      (\<forall>stream d d' n j. jsConsumer js stream d j \<noteq> None \<longrightarrow> jsConsumer js stream d (snd (jsFetch js stream d' n j)) \<noteq> None))"

lemma remove_key_state:
  "remove_key js key (errs, c, j) = (errs', c', j') \<Longrightarrow> cnCfg c' = cnCfg c \<and> (\<exists>more. errs' = errs @ more)"
  by (auto simp: remove_key_def split: option.splits if_splits prod.splits)

lemma remove_keys_state:
  "fold (remove_key js) keys (errs, c, j) = (errs', c', j') \<Longrightarrow> cnCfg c' = cnCfg c \<and> (\<exists>more. errs' = errs @ more)"
proof (induction keys arbitrary: errs c j)
  case (Cons key keys)
  obtain e1 c1 j1 where "remove_key js key (errs, c, j) = (e1, c1, j1)"
    by (metis surj_pair)
  then show ?case
    using Cons.IH [of e1 c1 j1] Cons.prems remove_key_state [of js key errs c j] by auto
qed simp

lemma remove_key_gone:
  assumes "jetstream_deletes js" "jsConsumer js (cfStream (cnCfg c)) d j \<noteq> None" "remove_key js key (errs, c, j) = (errs', c', j')"
  shows "jsConsumer js (cfStream (cnCfg c)) d j' \<noteq> None"
  using assms by (auto simp: remove_key_def jetstream_deletes_def split: option.splits if_splits prod.splits) (metis option.simps(3) snd_conv)+

lemma remove_keys_gone:
  assumes "jetstream_deletes js"
  shows "jsConsumer js (cfStream (cnCfg c)) d j \<noteq> None \<Longrightarrow> fold (remove_key js) keys (errs, c, j) = (errs', c', j') \<Longrightarrow>
    jsConsumer js (cfStream (cnCfg c)) d j' \<noteq> None"
proof (induction keys arbitrary: errs c j)
  case (Cons key keys)
  obtain e1 c1 j1 where r: "remove_key js key (errs, c, j) = (e1, c1, j1)"
    by (metis surj_pair)
  then show ?case
    using Cons.IH [of c1 j1 e1] Cons.prems remove_key_state [OF r] remove_key_gone [OF assms Cons.prems(1) r] by simp
qed simp

lemma remove_keys_deletes:
  assumes "jetstream_deletes js"
  shows "key \<in> set keys \<Longrightarrow> map_of (cnConsumers c) key = Some d \<Longrightarrow> d \<noteq> [] \<Longrightarrow>
    fold (remove_key js) keys (errs, c, j) = ([], c', j') \<Longrightarrow> jsConsumer js (cfStream (cnCfg c)) d j' \<noteq> None"
proof (induction keys arbitrary: errs c j)
  case (Cons k keys)
  obtain e1 c1 j1 where r: "remove_key js k (errs, c, j) = (e1, c1, j1)"
    by (metis surj_pair)
  have rest: "fold (remove_key js) keys (e1, c1, j1) = ([], c', j')" and cfg: "cnCfg c1 = cnCfg c"
    using Cons.prems(4) r remove_key_state [OF r] by simp_all
  show ?case
  proof (cases "k = key")
    case True
    have "e1 = []"
      using remove_keys_state [OF rest] by simp
    then have "fst (jsDeleteConsumer js (cfStream (cnCfg c)) d j) = None" "j1 = snd (jsDeleteConsumer js (cfStream (cnCfg c)) d j)"
      using r True Cons.prems(2,3) by (auto simp: remove_key_def split: prod.splits option.splits)
    then have "jsConsumer js (cfStream (cnCfg c1)) d j1 \<noteq> None"
      using assms cfg by (simp add: jetstream_deletes_def)
    then show ?thesis
      using remove_keys_gone [OF assms _ rest] cfg by simp
  next
    case False
    then have "map_of (cnConsumers c1) key = Some d"
      using r Cons.prems(2) by (auto simp: remove_key_def delete_conv split: option.splits if_splits prod.splits)
    then show ?thesis
      using Cons.IH [OF _ _ Cons.prems(3) rest] Cons.prems(1) False cfg by simp
  qed
qed simp

lemma errors_Join_None: "errors_Join es = None \<longleftrightarrow> es = []"
  by (cases es) (auto simp: errors_Join_def split: list.splits)

lemma ensure_keys_present:
  "\<forall>key \<in> set keys. map_of (cnConsumers c) key \<noteq> None \<Longrightarrow> ensure_keys H js keys (c, j) = (None, c, j)"
  by (induction keys) (auto simp: ensureConsumerLocked_def)

lemma fetch_each_gone:
  assumes "jetstream_deletes js"
  shows "jsConsumer js stream d j \<noteq> None \<Longrightarrow> d \<in> fst ` set fs \<Longrightarrow> \<exists>r \<in> set (fst (fetch_each js stream fs j)). snd r \<noteq> None"
proof (induction fs arbitrary: j)
  case (Cons f fs)
  obtain r j1 where r: "fetchFromConsumer js stream (fst f) (snd f) j = (r, j1)"
    by (metis surj_pair)
  obtain rs j2 where rs: "fetch_each js stream fs j1 = (rs, j2)"
    by (metis surj_pair)
  show ?case
  proof (cases "fst f = d")
    case True
    then show ?thesis
      using Cons.prems(1) r rs by (auto simp: fetchFromConsumer_def)
  next
    case False
    have "j1 = j \<or> j1 = snd (jsFetch js stream (fst f) (snd f) j)"
      using r by (auto simp: fetchFromConsumer_def split: option.splits prod.splits sum.splits if_splits)
    then have "jsConsumer js stream d j1 \<noteq> None"
      using Cons.prems(1) assms by (auto simp: jetstream_deletes_def)
    then show ?thesis
      using Cons.IH [of j1] Cons.prems(2) False r rs by auto
  qed
qed simp

lemma fetch_budgets_length [simp]: "length (fetch_budgets maxMessages n) = n"
  by (simp add: fetch_budgets_def)

lemma collect_error:
  "r \<in> set results \<Longrightarrow> snd r \<noteq> None \<Longrightarrow> snd (collectFetchResults results maxMessages) \<noteq> None"
  by (auto simp: collectFetchResults_def Let_def errors_Join_None map_filter_def filter_empty_conv)

text \<open>C39. A worker that gives up a shard deletes the durable consumers that the new owner of the shard
  already uses, and the new owner does not recover: its own record says that the consumers exist,
  so ensuring them makes no call, and a fetch that asks one of them fails as a whole.\<close>

theorem removed_consumer_stalls_new_owner:
  assumes "jetstream_deletes js" and "\<And>results. mset (arrival results) = mset results"
    and "map_of (cnConsumers old) key = Some durable" and "durable \<noteq> []" and "ckShard key = shard"
    and "RemoveShardConsumer js shard (old, j) = (None, old', j')"
    and "\<forall>k \<in> set (shard_keys new shard). map_of (cnConsumers new) k \<noteq> None"
    and "cnStream new = cfStream (cnCfg old)" and "0 < maxMessages" and "shards \<noteq> []"
    and "(key, durable) \<in> set (fst (selectFetchConsumers (nat maxMessages) shards new))"
  shows "EnsureShardConsumer H js shard (new, j') = (None, new, j') \<and>
    snd (fst (FetchShards js arrival None maxMessages shards (new, j'))) \<noteq> None"
proof
  show "EnsureShardConsumer H js shard (new, j') = (None, new, j')"
    using ensure_keys_present [OF assms(7)] by (simp add: EnsureShardConsumer_def)
  let ?keys = "sort_key (\<lambda>k. (ckBaseSubject k, ckRuleSet k)) (filter (\<lambda>k. ckShard k = shard) (map fst (cnConsumers old)))"
  have key: "key \<in> set ?keys"
    using assms(5) domI [of "map_of (cnConsumers old)", OF assms(3)] by (simp add: dom_map_of_conv_image_fst)
  have removed: "fold (remove_key js) ?keys ([], old, j) = ([], old', j')"
    using assms(6) by (auto simp: RemoveShardConsumer_def Let_def errors_Join_None split: prod.splits)
  have gone: "jsConsumer js (cnStream new) durable j' \<noteq> None"
    unfolding assms(8) by (rule remove_keys_deletes [OF assms(1) key assms(3,4) removed])
  obtain selected new' where sel: "selectFetchConsumers (nat maxMessages) shards new = (selected, new')"
    by (metis surj_pair)
  let ?fs = "zip (map snd selected) (fetch_budgets (nat maxMessages) (length selected))"
  obtain results j2 where res: "fetch_each js (cnStream new) ?fs j' = (results, j2)"
    by (metis surj_pair)
  have "durable \<in> fst ` set ?fs"
    using assms(11) sel by (force simp: in_set_zip in_set_conv_nth image_iff)
  then obtain r where r: "r \<in> set results" "snd r \<noteq> None"
    using fetch_each_gone [OF assms(1) gone, of ?fs] res by auto
  then have "r \<in> set (arrival results)"
    using assms(2) [of results] by (metis set_mset_mset)
  moreover have "selected \<noteq> []"
    using assms(11) sel by auto
  ultimately show "snd (fst (FetchShards js arrival None maxMessages shards (new, j'))) \<noteq> None"
    using collect_error [OF _ r(2)] sel res assms(9,10)
    by (simp add: FetchShards_def validateFetchRequest_def fetchSelectedConsumers_def Let_def)
qed

text \<open>A JetStream that keeps the names of its durable consumers.\<close>

definition sample_jetstream :: "string list JetStream" where
  "sample_jetstream =
     \<lparr>jsCreateOrUpdateConsumer = (\<lambda>stream cfg j. (None, List.insert (ccDurable cfg) j)),
      jsDeleteConsumer = (\<lambda>stream d j. if d \<in> set j then (None, removeAll d j) else (Some (ErrorString ''consumer not found''), j)),
      jsConsumer = (\<lambda>stream d j. if d \<in> set j then None else Some (ErrorString ''consumer not found'')),
      jsFetch = (\<lambda>stream d n j. (Inr ([], None), j)),
      jsPublish = (\<lambda>subject data j. (None, j)),
      jsIsTimeout = (\<lambda>e. False), jsIsNoMessages = (\<lambda>e. False)\<rparr>"

definition sample_consumer :: Consumer where
  "sample_consumer =
     (NewConsumer_of \<lparr>cfStream = ''s'', cfConsumer = ''w'', cfSubjects = [''events''], cfRuleSets = [], cfAckWait = second,
        cfMaxDeliver = - 1, cfNumShards = 4\<rparr>)
     \<lparr>cnConsumers := [(\<lparr>ckBaseSubject = ''events'', ckRuleSet = [], ckShard = 1\<rparr>, ''w-shard-1'')]\<rparr>"

theorem removed_consumer_stalls_new_owner_witness:
  "EnsureShardConsumer id sample_jetstream 1 (sample_consumer, []) = (None, sample_consumer, []) \<and>
   snd (fst (FetchShards sample_jetstream id None 10 [1] (sample_consumer, []))) \<noteq> None"
proof (rule removed_consumer_stalls_new_owner [where old = sample_consumer and j = "[''w-shard-1'']" and durable = "''w-shard-1''"
      and key = "\<lparr>ckBaseSubject = ''events'', ckRuleSet = [], ckShard = 1\<rparr>" and old' = "sample_consumer\<lparr>cnConsumers := []\<rparr>"])
  show "jetstream_deletes sample_jetstream"
    by (simp add: jetstream_deletes_def sample_jetstream_def)
qed (simp_all add: sample_consumer_def NewConsumer_of_def RemoveShardConsumer_def remove_key_def sample_jetstream_def errors_Join_def
    shard_keys_def selectFetchConsumers_def matchingConsumerKeys_def Let_def)

end
