(* ===== verification/BatchRepository.thy ===== *)
theory BatchRepository
  imports EventHistory GoStrings "HOL-Library.Product_Lexorder"
begin

text \<open>
  \<^verbatim>\<open>internal/adapters/postgres/batch.go\<close>: batch runs, and the membership of inbox entries in them.  A batch is
  completed in one transaction that writes the run and claims all its members.

  The properties: completing a batch is atomic, and an entry never changes its batch once it has
  one.  The column of the batch is null only for rows that no operation of the program writes: an entry is
  inserted with the empty batch, so that nothing is ever unbatched.
\<close>

section \<open>Runs\<close>

definition on_batch_runs ::
  "(time \<Rightarrow> BatchRun table \<Rightarrow> BatchRun table \<times> 'a) \<Rightarrow> time \<Rightarrow> database \<Rightarrow> (database \<times> 'a) result" where
  "on_batch_runs f now db = (let (t, a) = f now (dbBatchRuns db) in Inr (db\<lparr>dbBatchRuns := t\<rparr>, a))"

definition GetRunForTenant :: "string \<Rightarrow> string \<Rightarrow> database world \<Rightarrow> BatchRun option result \<times> database world" where
  "GetRunForTenant tenantID batchID w =
     (case QueryRow (reading (\<lambda>now db. select_row (\<lambda>r. brTenantID r = tenantID \<and> brBatchID r = batchID) (dbBatchRuns db))) w of
        (Inl err, w') \<Rightarrow>
          if errors_Is err PgxErrNoRows then (Inr None, w') else (Inl (wrap ''get batch run for tenant'' err), w')
      | (Inr run, w') \<Rightarrow> (Inr (Some run), w'))"

definition ListRuns :: "string \<Rightarrow> string \<Rightarrow> int \<Rightarrow> int \<Rightarrow> database world \<Rightarrow> BatchRun list result \<times> database world" where
  "ListRuns tenantID ruleSet limit offset w =
     (if TrimSpace tenantID = [] then (Inl (ErrorString ''tenant ID is required to list batch runs''), w)
      else
        let limit = (if limit \<le> 0 then 100 else limit);
            limit = (if limit > 500 then 500 else limit);
            offset = (if offset < 0 then 0 else offset)
        in case Query (reading (\<lambda>now db. take (nat limit) (drop (nat offset)
                 (rev (sort_key (\<lambda>r. (brCreatedAt r, brBatchID r))
                    (select_rows (\<lambda>r. brTenantID r = tenantID \<and> (ruleSet \<noteq> [] \<longrightarrow> brRuleSet r = ruleSet)) (dbBatchRuns db))))))) w of
             (Inl err, w') \<Rightarrow> (Inl (wrap ''list batch runs'' err), w')
           | (Inr (runs, Some err), w') \<Rightarrow> (Inl (wrap ''iterate batch runs'' err), w')
           | (Inr (runs, None), w') \<Rightarrow> (Inr runs, w'))"

definition GetRun :: "string \<Rightarrow> database world \<Rightarrow> BatchRun option result \<times> database world" where
  "GetRun batchID w =
     (case QueryRow (reading (\<lambda>now db. select_row (\<lambda>r. brBatchID r = batchID) (dbBatchRuns db))) w of
        (Inl err, w') \<Rightarrow>
          if errors_Is err PgxErrNoRows then (Inr None, w') else (Inl (wrap ''get batch run'' err), w')
      | (Inr run, w') \<Rightarrow> (Inr (Some run), w'))"

text \<open>The columns that a conflicting run overwrites.\<close>

definition merge_run :: "BatchRun \<Rightarrow> BatchRun \<Rightarrow> BatchRun" where
  "merge_run run r =
     r\<lparr>brStatus := brStatus run, brMemberCount := brMemberCount run, brExecutionID := brExecutionID run,
       brDecisionHash := brDecisionHash run, brWindowFrom := brWindowFrom run, brWindowTo := brWindowTo run\<rparr>"

definition SaveRun :: "BatchRun \<Rightarrow> database world \<Rightarrow> unit result \<times> database world" where
  "SaveRun run w =
     (case Exec (on_batch_runs (\<lambda>now. insert_do_update brBatchID run (\<lambda>r. True) (merge_run run))) w of
        (Inl err, w') \<Rightarrow> (Inl (wrap ''save batch run'' err), w')
      | (Inr n, w') \<Rightarrow> (Inr (), w'))"

section \<open>Members\<close>

text \<open>The scan of the rows of a query, with the contexts of its two errors.\<close>

primrec scan_entries :: "string \<Rightarrow> string \<Rightarrow> inbox_row list \<Rightarrow> gerr option \<Rightarrow> InboxEntry list result" where
  "scan_entries scanning iterating [] rowsErr =
     (case rowsErr of None \<Rightarrow> Inr [] | Some err \<Rightarrow> Inl (wrap iterating err))"
| "scan_entries scanning iterating (r # rows) rowsErr =
     (case scan_inbox r of
        Inl err \<Rightarrow> Inl (wrap scanning err)
      | Inr e \<Rightarrow> (case scan_entries scanning iterating rows rowsErr of Inl err \<Rightarrow> Inl err | Inr es \<Rightarrow> Inr (e # es)))"

definition inbox_position :: "inbox_row \<Rightarrow> time \<times> string \<times> string" where
  "inbox_position r = (ixFirstSeenAt r, ixTenantID r, ixEventID r)"

definition unbatched :: "inbox_row \<Rightarrow> bool" where
  "unbatched r = (ixStatus r = InboxStatusCommitted \<and> ixBatchID r = None)"

definition ListUnbatched :: "int \<Rightarrow> database world \<Rightarrow> InboxEntry list result \<times> database world" where
  "ListUnbatched limit w =
     (let limit = (if limit \<le> 0 then 400 else limit)
      in case Query (reading (\<lambda>now db. order_limit inbox_position limit (select_rows unbatched (dbInbox db)))) w of
           (Inl err, w') \<Rightarrow> (Inl (wrap ''list unbatched'' err), w')
         | (Inr (rows, rowsErr), w') \<Rightarrow> (scan_entries ''scan unbatched'' ''iterate unbatched rows'' rows rowsErr, w'))"

definition in_scope :: "string \<Rightarrow> string \<Rightarrow> string \<Rightarrow> string list \<Rightarrow> inbox_row \<Rightarrow> bool" where
  "in_scope tenantID partitionKey ruleSet eventIDs r =
     (ixTenantID r = tenantID \<and> coalesce (ixPartitionKey r) = partitionKey \<and> coalesce (ixRuleSet r) = ruleSet \<and>
      ixEventID r \<in> set eventIDs)"

definition ListUnbatchedByIDs ::
  "string \<Rightarrow> string \<Rightarrow> string \<Rightarrow> string list \<Rightarrow> database world \<Rightarrow> InboxEntry list result \<times> database world" where
  "ListUnbatchedByIDs tenantID partitionKey ruleSet eventIDs w =
     (if eventIDs = [] then (Inr [], w)
      else case Query (reading (\<lambda>now db. sort_key inbox_position
                 (select_rows (\<lambda>r. in_scope tenantID partitionKey ruleSet eventIDs r \<and> unbatched r) (dbInbox db)))) w of
             (Inl err, w') \<Rightarrow> (Inl (wrap ''list requested unbatched events'' err), w')
           | (Inr (rows, rowsErr), w') \<Rightarrow>
               (scan_entries ''scan requested unbatched event'' ''iterate requested unbatched events'' rows rowsErr, w'))"

definition MarkBatched :: "string \<Rightarrow> string \<Rightarrow> string \<Rightarrow> database world \<Rightarrow> unit result \<times> database world" where
  "MarkBatched tenantID eventID batchID w =
     (case Exec (on_inbox (\<lambda>now. update_where (\<lambda>r. inbox_key r = (tenantID, eventID) \<and> ixBatchID r = None)
             (\<lambda>r. r\<lparr>ixBatchID := Some batchID\<rparr>))) w of
        (Inl err, w') \<Rightarrow> (Inl (wrap ''mark batched'' err), w')
      | (Inr n, w') \<Rightarrow> (Inr (), w'))"

section \<open>Completion\<close>

text \<open>The loop that looks for empty and repeated identifiers, with its two messages.\<close>

primrec check_ids :: "string \<Rightarrow> string \<Rightarrow> string set \<Rightarrow> string list \<Rightarrow> unit result" where
  "check_ids emptyMsg duplicateMsg seen [] = Inr ()"
| "check_ids emptyMsg duplicateMsg seen (eventID # eventIDs) =
     (if eventID = [] then Inl (ErrorString emptyMsg)
      else if eventID \<in> seen then Inl (ErrorString (duplicateMsg @ Quote eventID))
      else check_ids emptyMsg duplicateMsg (insert eventID seen) eventIDs)"

definition validateBatchCompletion :: "BatchRun option \<Rightarrow> string list \<Rightarrow> unit result" where
  "validateBatchCompletion run eventIDs =
     (case run of
        None \<Rightarrow> Inl (ErrorString ''batch run identity is required'')
      | Some r \<Rightarrow>
          if brBatchID r = [] \<or> brTenantID r = [] \<or> brPartitionKey r = [] \<or> brRuleSet r = []
          then Inl (ErrorString ''batch run identity is required'')
          else if eventIDs = [] \<or> int (length eventIDs) \<noteq> brMemberCount r
          then Inl (ErrorString ''batch member count does not match run'')
          else check_ids ''batch event ID must not be empty'' ''duplicate batch event ID '' {} eventIDs)"

definition same_scope :: "BatchRun \<Rightarrow> BatchRun \<Rightarrow> bool" where
  "same_scope run r = (brTenantID r = brTenantID run \<and> brPartitionKey r = brPartitionKey run \<and> brRuleSet r = brRuleSet run)"

definition upsertBatchRun :: "BatchRun \<Rightarrow> database world \<Rightarrow> unit result \<times> database world" where
  "upsertBatchRun run w =
     (case Exec (on_batch_runs (\<lambda>now. insert_do_update brBatchID run (same_scope run) (merge_run run))) w of
        (Inl err, w') \<Rightarrow> (Inl (wrap ''upsert batch run'' err), w')
      | (Inr n, w') \<Rightarrow>
          if n \<noteq> 1
          then (Inl (ErrorString (''batch ID '' @ Quote (brBatchID run) @ '' already belongs to a different tenant or scope'')), w')
          else (Inr (), w'))"

text \<open>A member is committed, and belongs to no batch or to this one.\<close>

definition eligible :: "BatchRun \<Rightarrow> string list \<Rightarrow> inbox_row \<Rightarrow> bool" where
  "eligible run eventIDs r =
     (in_scope (brTenantID run) (brPartitionKey run) (brRuleSet run) eventIDs r \<and> ixStatus r = InboxStatusCommitted \<and>
      (ixBatchID r = None \<or> ixBatchID r = Some (brBatchID run)))"

definition associateBatchMembers :: "BatchRun \<Rightarrow> string list \<Rightarrow> database world \<Rightarrow> unit result \<times> database world" where
  "associateBatchMembers run eventIDs w =
     (case Exec (on_inbox (\<lambda>now. update_where (eligible run eventIDs) (\<lambda>r. r\<lparr>ixBatchID := Some (brBatchID run)\<rparr>))) w of
        (Inl err, w') \<Rightarrow> (Inl (wrap ''associate batch members'' err), w')
      | (Inr n, w') \<Rightarrow>
          if n \<noteq> length eventIDs
          then (Inl (ErrorString (''batch membership conflict: matched '' @ nat_dec n @ '' of '' @ nat_dec (length eventIDs) @
                  '' requested events'')), w')
          else (Inr (), w'))"

definition completeInTx :: "BatchRun \<Rightarrow> string list \<Rightarrow> database world \<Rightarrow> unit result verdict \<times> database world" where
  "completeInTx run eventIDs w =
     (case upsertBatchRun run w of
        (Inl err, w1) \<Rightarrow> (Discard (Inl err), w1)
      | (Inr _, w1) \<Rightarrow>
          (case associateBatchMembers run eventIDs w1 of
             (Inl err, w2) \<Rightarrow> (Discard (Inl err), w2)
           | (Inr _, w2) \<Rightarrow> (Keep (Inr ()), w2)))"

text \<open>The callers never pass a nil run, and the connection can begin transactions.\<close>

definition CompleteBatch :: "BatchRun \<Rightarrow> string list \<Rightarrow> database world \<Rightarrow> unit result \<times> database world" where
  "CompleteBatch run eventIDs w =
     (case validateBatchCompletion (Some run) eventIDs of
        Inl err \<Rightarrow> (Inl err, w)
      | Inr _ \<Rightarrow>
          (case transaction (completeInTx run eventIDs) w of
             (BeginFailed err, w') \<Rightarrow> (Inl (wrap ''begin batch completion'' err), w')
           | (CommitFailed err, w') \<Rightarrow> (Inl (wrap ''commit batch completion'' err), w')
           | (Finished r, w') \<Rightarrow> (r, w')))"

section \<open>Completion is atomic\<close>

definition completed_db :: "BatchRun \<Rightarrow> string list \<Rightarrow> database \<Rightarrow> database" where
  "completed_db run eventIDs db =
     db\<lparr>dbBatchRuns := fst (insert_do_update brBatchID run (same_scope run) (merge_run run) (dbBatchRuns db)),
        dbInbox := fst (update_where (eligible run eventIDs) (\<lambda>r. r\<lparr>ixBatchID := Some (brBatchID run)\<rparr>) (dbInbox db))\<rparr>"

lemma check_ids_Inr: "check_ids emptyMsg duplicateMsg seen eventIDs = Inr () \<longleftrightarrow> [] \<notin> set eventIDs \<and> distinct eventIDs \<and> set eventIDs \<inter> seen = {}"
  by (induction eventIDs arbitrary: seen) auto

lemma quiet_upsertBatchRun:
  assumes "upsertBatchRun run w = (Inr (), w')" "quiet w"
  shows "quiet w'"
    "woDb w' = (woDb w)\<lparr>dbBatchRuns := fst (insert_do_update brBatchID run (same_scope run) (merge_run run) (dbBatchRuns (woDb w)))\<rparr>"
    "snd (insert_do_update brBatchID run (same_scope run) (merge_run run) (dbBatchRuns (woDb w))) = 1"
proof -
  have q: "Exec (on_batch_runs (\<lambda>now. insert_do_update brBatchID run (same_scope run) (merge_run run))) w = (Inr 1, w')"
    using assms(1) by (auto simp: upsertBatchRun_def split: prod.splits sum.splits if_splits)
  show "quiet w'"
    "woDb w' = (woDb w)\<lparr>dbBatchRuns := fst (insert_do_update brBatchID run (same_scope run) (merge_run run) (dbBatchRuns (woDb w)))\<rparr>"
    "snd (insert_do_update brBatchID run (same_scope run) (merge_run run) (dbBatchRuns (woDb w))) = 1"
    using quiet_Exec [OF q assms(2)] by (auto simp: on_batch_runs_def split: prod.splits)
qed

lemma quiet_associate:
  assumes "associateBatchMembers run eventIDs w = (Inr (), w')" "quiet w"
  shows "woDb w' = (woDb w)\<lparr>dbInbox :=
      fst (update_where (eligible run eventIDs) (\<lambda>r. r\<lparr>ixBatchID := Some (brBatchID run)\<rparr>) (dbInbox (woDb w)))\<rparr>"
    "length (filter (eligible run eventIDs) (dbInbox (woDb w))) = length eventIDs"
proof -
  let ?f = "on_inbox (\<lambda>now. update_where (eligible run eventIDs) (\<lambda>r. r\<lparr>ixBatchID := Some (brBatchID run)\<rparr>))"
  have q: "Exec ?f w = (Inr (length eventIDs), w')"
    using assms(1) by (auto simp: associateBatchMembers_def split: prod.splits sum.splits if_splits)
  show "woDb w' = (woDb w)\<lparr>dbInbox :=
      fst (update_where (eligible run eventIDs) (\<lambda>r. r\<lparr>ixBatchID := Some (brBatchID run)\<rparr>) (dbInbox (woDb w)))\<rparr>"
    "length (filter (eligible run eventIDs) (dbInbox (woDb w))) = length eventIDs"
    using quiet_Exec [OF q assms(2)] by (auto simp: on_inbox_def update_where_def)
qed

text \<open>If as many rows are eligible as distinct identifiers were asked for, every one of them is.\<close>

lemma all_eligible:
  assumes "distinct (map inbox_key t)" "distinct eventIDs" "length (filter (eligible run eventIDs) t) = length eventIDs"
    and "eventID \<in> set eventIDs"
  shows "\<exists>r \<in> set t. eligible run eventIDs r \<and> ixEventID r = eventID"
proof -
  let ?ids = "map ixEventID (filter (eligible run eventIDs) t)"
  have key: "inbox_key r = (brTenantID run, ixEventID r)" if "eligible run eventIDs r" for r
    using that by (simp add: eligible_def in_scope_def inbox_key_def)
  have "distinct (map inbox_key (filter (eligible run eventIDs) t))"
    using assms(1) by (rule distinct_map_filter)
  then have "distinct ?ids"
    unfolding distinct_map by (auto simp: inj_on_def key)
  then have "card (set ?ids) = card (set eventIDs)"
    using assms(2,3) by (simp only: distinct_card length_map)
  moreover have "set ?ids \<subseteq> set eventIDs"
    by (auto simp: eligible_def in_scope_def)
  ultimately have "set ?ids = set eventIDs"
    by (simp add: card_subset_eq)
  then have "eventID \<in> set ?ids"
    using assms(4) by (simp only:)
  then show ?thesis by auto
qed

definition members_of :: "database \<Rightarrow> BatchRun \<Rightarrow> string list \<Rightarrow> bool" where
  "members_of db run eventIDs =
     (\<forall>eventID \<in> set eventIDs. \<exists>r \<in> set (dbInbox db). inbox_key r = (brTenantID run, eventID) \<and>
        ixStatus r = InboxStatusCommitted \<and> ixBatchID r = Some (brBatchID run))"

definition run_recorded :: "database \<Rightarrow> BatchRun \<Rightarrow> bool" where
  "run_recorded db run = (\<exists>r \<in> set (dbBatchRuns db). brBatchID r = brBatchID run \<and> same_scope run r \<and> merge_run run r = r)"

lemma completed_members:
  assumes "distinct (map inbox_key (dbInbox db))" "distinct eventIDs"
    and "length (filter (eligible run eventIDs) (dbInbox db)) = length eventIDs"
  shows "members_of (completed_db run eventIDs db) run eventIDs"
  unfolding members_of_def
proof
  fix eventID assume "eventID \<in> set eventIDs"
  then obtain r where "r \<in> set (dbInbox db)" "eligible run eventIDs r" "ixEventID r = eventID"
    using all_eligible [OF assms] by blast
  then show "\<exists>r \<in> set (dbInbox (completed_db run eventIDs db)). inbox_key r = (brTenantID run, eventID) \<and>
      ixStatus r = InboxStatusCommitted \<and> ixBatchID r = Some (brBatchID run)"
    by (intro bexI [of _ "r\<lparr>ixBatchID := Some (brBatchID run)\<rparr>"])
      (auto simp: completed_db_def eligible_def in_scope_def inbox_key_def)
qed

lemma completed_run:
  assumes "snd (insert_do_update brBatchID run (same_scope run) (merge_run run) (dbBatchRuns db)) = 1"
  shows "run_recorded (completed_db run eventIDs db) run"
proof (cases "brBatchID run \<in> brBatchID ` set (dbBatchRuns db)")
  case True
  then have "filter (\<lambda>r. brBatchID r = brBatchID run \<and> same_scope run r) (dbBatchRuns db) \<noteq> []"
    using assms by (auto simp: insert_do_update_def)
  then obtain r where "r \<in> set (dbBatchRuns db)" "brBatchID r = brBatchID run" "same_scope run r"
    by (auto simp: filter_empty_conv)
  then show ?thesis
    using True unfolding run_recorded_def
    by (intro bexI [of _ "merge_run run r"]) (auto simp: completed_db_def insert_do_update_def merge_run_def same_scope_def)
next
  case False
  then show ?thesis
    unfolding run_recorded_def
    by (intro bexI [of _ run]) (auto simp: completed_db_def insert_do_update_def merge_run_def same_scope_def)
qed

lemma completeInTx_Keep:
  assumes "completeInTx run eventIDs tw = (Keep a, tw')" "quiet tw"
  shows "a = Inr ()" "woDb tw' = completed_db run eventIDs (woDb tw)"
    "length (filter (eligible run eventIDs) (dbInbox (woDb tw))) = length eventIDs"
    "snd (insert_do_update brBatchID run (same_scope run) (merge_run run) (dbBatchRuns (woDb tw))) = 1"
proof -
  obtain w1 where 1: "upsertBatchRun run tw = (Inr (), w1)" "associateBatchMembers run eventIDs w1 = (Inr (), tw')"
    and a: "a = Inr ()"
    using assms(1) by (auto simp: completeInTx_def split: prod.splits sum.splits)
  note upsert = quiet_upsertBatchRun [OF 1(1) assms(2)]
  note associate = quiet_associate [OF 1(2) upsert(1)]
  show "a = Inr ()" "woDb tw' = completed_db run eventIDs (woDb tw)"
    "length (filter (eligible run eventIDs) (dbInbox (woDb tw))) = length eventIDs"
    "snd (insert_do_update brBatchID run (same_scope run) (merge_run run) (dbBatchRuns (woDb tw))) = 1"
    using a upsert associate by (simp_all add: completed_db_def)
qed

lemma completeInTx_Discard: "completeInTx run eventIDs tw = (Discard a, tw') \<Longrightarrow> \<exists>err. a = Inl err"
  by (auto simp: completeInTx_def split: prod.splits sum.splits)

lemma CompleteBatch_cases:
  assumes "CompleteBatch run eventIDs w = (r, w')"
  obtains (unchanged) "woDb w' \<in> {woDb w, now_db w}" "r \<noteq> Inr ()"
  | (completed) "woDb w' = completed_db run eventIDs (now_db w)" "distinct eventIDs"
      "length (filter (eligible run eventIDs) (dbInbox (now_db w))) = length eventIDs"
      "snd (insert_do_update brBatchID run (same_scope run) (merge_run run) (dbBatchRuns (now_db w))) = 1"
proof (cases "validateBatchCompletion (Some run) eventIDs")
  case (Inl err)
  then have "r = Inl err" "w' = w"
    using assms by (simp_all add: CompleteBatch_def)
  then show thesis using unchanged by simp
next
  case (Inr u)
  then have d: "distinct eventIDs"
    by (auto simp: validateBatchCompletion_def check_ids_Inr split: if_splits)
  let ?tw = "transaction_world (shd (woFuture w)) (now_db w)"
  have keep: "completed_db run eventIDs (now_db w) = woDb tw \<and>
      length (filter (eligible run eventIDs) (dbInbox (now_db w))) = length eventIDs \<and>
      snd (insert_do_update brBatchID run (same_scope run) (merge_run run) (dbBatchRuns (now_db w))) = 1"
    if "completeInTx run eventIDs ?tw = (Keep a, tw)" for a tw
    using completeInTx_Keep [OF that quiet_transaction_world] by (simp add: transaction_world_now)
  obtain t where t: "transaction (completeInTx run eventIDs) w = (t, w')"
    and r: "r = (case t of BeginFailed err \<Rightarrow> Inl (wrap ''begin batch completion'' err)
      | CommitFailed err \<Rightarrow> Inl (wrap ''commit batch completion'' err) | Finished x \<Rightarrow> x)"
    using assms Inr by (auto simp: CompleteBatch_def split: prod.splits transaction_result.splits)
  from t show thesis
  proof (cases rule: transaction_cases)
    case (discarded a tw)
    then show thesis
      using unchanged r completeInTx_Discard [OF discarded(1)] by force
  next
    case (maybe_committed a tw err)
    then show thesis using keep [OF maybe_committed(1)] completed d by simp
  next
    case (committed a tw)
    then show thesis using keep [OF committed(1)] completed d by simp
  qed (use unchanged r in simp_all)
qed

text \<open>C10. Completing a batch is atomic: either nothing changes and an error is returned, or the run is
  on record in its scope and every event that was asked for, without exception, is a committed entry
  of this batch.  A success is always the latter.\<close>

theorem CompleteBatch_atomic:
  assumes "CompleteBatch run eventIDs w = (r, w')" and "distinct (map inbox_key (dbInbox (now_db w)))"
  shows "woDb w' \<in> {woDb w, now_db w} \<and> r \<noteq> Inr () \<or> members_of (woDb w') run eventIDs \<and> run_recorded (woDb w') run"
  using assms(1)
proof (cases rule: CompleteBatch_cases)
  case completed
  then show ?thesis
    using completed_members [OF assms(2)] completed_run by metis
qed blast

definition sample_run :: BatchRun where
  "sample_run =
     \<lparr>brBatchID = ''b'', brTenantID = ''t'', brPartitionKey = ''p'', brRuleSet = ''order'', brStatus = BatchRunStatusCompleted,
      brMemberCount = 1, brExecutionID = ''x'', brDecisionHash = ''h'', brWindowFrom = None, brWindowTo = None, brCreatedAt = 0\<rparr>"

text \<open>An inbox with one committed entry, in the batch given.\<close>

definition sample_inbox :: "string option \<Rightarrow> database" where
  "sample_inbox batch =
     empty_database\<lparr>dbInbox := [\<lparr>ixTenantID = ''t'', ixEventID = ''e'', ixStatus = InboxStatusCommitted, ixExecutionID = Some ''y'',
       ixFirstSeenAt = 0, ixCommittedAt = Some 1, ixPartitionKey = Some ''p'', ixRuleSet = Some ''order'', ixPayload = None,
       ixBatchID = batch\<rparr>]\<rparr>"

theorem CompleteBatch_atomic_witness:
  "\<exists>w'. CompleteBatch sample_run [''e''] (calm 5 (sample_inbox None)) = (Inr (), w') \<and> members_of (woDb w') sample_run [''e'']"
proof -
  obtain w' where w': "CompleteBatch sample_run [''e''] (calm 5 (sample_inbox None)) = (Inr (), w')"
    by (simp add: CompleteBatch_def validateBatchCompletion_def sample_run_def transaction_calm completeInTx_def upsertBatchRun_def
        associateBatchMembers_def calm_simps on_batch_runs_def on_inbox_def insert_do_update_def update_where_def eligible_def in_scope_def
        sample_inbox_def empty_database_def coalesce_def)
  then show ?thesis
    using CompleteBatch_atomic [OF w'] by (simp add: calm_def sample_inbox_def empty_database_def)
qed

section \<open>Membership is final\<close>

definition batch_grows :: "inbox_row \<Rightarrow> inbox_row \<Rightarrow> bool" where
  "batch_grows r r' = (inbox_key r' = inbox_key r \<and> (ixBatchID r \<noteq> None \<longrightarrow> ixBatchID r' = ixBatchID r))"

interpretation batch_rows: growing_rows inbox_key dbInbox batch_grows
  by unfold_locales (auto simp: batch_grows_def)

abbreviation batch_order :: "database \<Rightarrow> database \<Rightarrow> bool" where
  "batch_order \<equiv> table_order dbInbox inbox_key batch_grows"

lemma on_inbox_Inr: "on_inbox f now db = Inr (db', a) \<Longrightarrow> db' = db\<lparr>dbInbox := fst (f now (dbInbox db))\<rparr>"
  by (auto simp: on_inbox_def split: prod.splits)

lemma on_batch_runs_Inr: "on_batch_runs f now db = Inr (db', a) \<Longrightarrow> db' = db\<lparr>dbBatchRuns := fst (f now (dbBatchRuns db))\<rparr>"
  by (auto simp: on_batch_runs_def split: prod.splits)

lemma completed_live:
  "rows_live_on inbox_key batch_grows t (fst (update_where (eligible run eventIDs) (\<lambda>r. r\<lparr>ixBatchID := Some (brBatchID run)\<rparr>) t))"
  by (rule batch_rows.live_update) (auto simp: batch_grows_def eligible_def inbox_key_def)

text \<open>What the batch operations do to the inbox, for any order that their updates respect.\<close>

lemma MarkBatched_within:
  assumes "interference R"
    and "\<And>db. R db (db\<lparr>dbInbox := fst (update_where (\<lambda>r. inbox_key r = (tenantID, eventID) \<and> ixBatchID r = None)
      (\<lambda>r. r\<lparr>ixBatchID := Some batchID\<rparr>) (dbInbox db))\<rparr>)"
  shows "within R w (snd (MarkBatched tenantID eventID batchID w))"
proof -
  have "guarantees R (on_inbox (\<lambda>now. update_where (\<lambda>r. inbox_key r = (tenantID, eventID) \<and> ixBatchID r = None)
      (\<lambda>r. r\<lparr>ixBatchID := Some batchID\<rparr>)))"
    unfolding guarantees_def using assms(2) by (blast dest: on_inbox_Inr)
  then show ?thesis
    by (auto simp: MarkBatched_def split: prod.splits sum.splits intro: interference.withinI(1) [OF assms(1)])
qed

lemma SaveRun_within:
  assumes "interference R" and "\<And>db t. R db (db\<lparr>dbBatchRuns := t\<rparr>)"
  shows "within R w (snd (SaveRun run w))"
proof -
  have "guarantees R (on_batch_runs (\<lambda>now. insert_do_update brBatchID run (\<lambda>r. True) (merge_run run)))"
    unfolding guarantees_def using assms(2) by (blast dest: on_batch_runs_Inr)
  then show ?thesis
    by (auto simp: SaveRun_def split: prod.splits sum.splits intro: interference.withinI(1) [OF assms(1)])
qed

lemma GetRun_within: "interference R \<Longrightarrow> within R w (snd (GetRun batchID w))"
  by (auto simp: GetRun_def split: prod.splits sum.splits intro: interference.withinI_reading)

lemma ListUnbatched_within: "interference R \<Longrightarrow> within R w (snd (ListUnbatched limit w))"
  unfolding ListUnbatched_def Let_def by (auto split: prod.split sum.split intro: interference.withinI_reading)

lemma ListUnbatchedByIDs_within:
  "interference R \<Longrightarrow> within R w (snd (ListUnbatchedByIDs tenantID partitionKey ruleSet eventIDs w))"
  unfolding ListUnbatchedByIDs_def
  by (auto split: prod.split sum.split intro: interference.withinI_reading interference.within_refl)

lemma CompleteBatch_within:
  assumes "interference R" and "\<And>db. R db (completed_db run eventIDs db)"
  shows "within R w (snd (CompleteBatch run eventIDs w))"
  unfolding within_def
proof
  assume rely: "rely R w"
  note R = interference.R_refl [OF assms(1)] interference.R_trans [OF assms(1)]
  obtain r w' where c: "CompleteBatch run eventIDs w = (r, w')"
    by (metis prod.exhaust)
  have "rely R w'"
    using c rely interference.transaction_rely [OF assms(1) rely, of "completeInTx run eventIDs"]
    by (auto simp: CompleteBatch_def split: prod.splits sum.splits transaction_result.splits)
  moreover have others: "R (woDb w) (now_db w)"
    using assms(1) rely by (rule interference.rely_others)
  have "R (woDb w) (woDb w')"
    using c
  proof (cases rule: CompleteBatch_cases)
    case unchanged
    then show ?thesis using R(1) others by auto
  next
    case completed
    then show ?thesis using R(2) [OF others assms(2)] by simp
  qed
  ultimately show "R (woDb w) (woDb (snd (CompleteBatch run eventIDs w))) \<and> rely R (snd (CompleteBatch run eventIDs w))"
    using c by simp
qed

end
