(* ===== verification/BatchService.thy ===== *)
theory BatchService
  imports BatchRepository LeaseManager
begin

text \<open>
  \<^verbatim>\<open>internal/services/batches/service.go\<close>: committed inbox entries of one tenant, partition and rule set are
  grouped, and a group that is large or old enough is processed as one synthesized event under the
  lease of its shard and then completed as a batch.

  The repository is the PostgreSQL one and the lease provider the lease manager.  The event
  processor is a parameter; \<open>pg_event_processor\<close> is the event service of this program.  The readings of the
  clock are a function of the group they are made for.

  The properties: an entry never leaves its batch, whatever calls follow; but since the
  program never writes a null batch, the scheduler never finds an entry and never forms a batch.
\<close>

section \<open>The event processor\<close>

record EventProcessor =
  epProcess :: "EventEnvelope \<Rightarrow> int \<Rightarrow> u32 \<Rightarrow> string \<Rightarrow> database world \<Rightarrow> Execution option result \<times> database world"
  epQuarantineEvent :: "string \<Rightarrow> string \<Rightarrow> string \<Rightarrow> string \<Rightarrow> string \<Rightarrow> database world \<Rightarrow> unit result \<times> database world"

text \<open>The event service returns an execution whenever there is no error; what it reads from the clock
  may differ from event to event.\<close>

definition pg_event_processor ::
  "(string \<Rightarrow> string) \<Rightarrow> (EventEnvelope \<Rightarrow> clock) \<Rightarrow> (EventEnvelope \<Rightarrow> readings) \<Rightarrow> time \<Rightarrow> EventProcessor" where
  "pg_event_processor H clk rd now =
     \<lparr>epProcess = (\<lambda>event token shard worker w.
        case Process H (clk event) (rd event) event token shard worker w of
          (Inl err, w') \<Rightarrow> (Inl err, w') | (Inr x, w') \<Rightarrow> (Inr (Some x), w')),
      epQuarantineEvent = QuarantineEvent H now\<rparr>"

section \<open>The service\<close>

record BatchService =
  bsEvents :: "EventProcessor option"
  bsCfg :: BatchConfig
  bsLeaseProvider :: "LeaseManager option"
  bsWorkerID :: string
  bsNumShards :: u32

definition BatchService_New :: "EventProcessor option \<Rightarrow> BatchConfig \<Rightarrow> BatchService" where
  "BatchService_New events cfg =
     \<lparr>bsEvents = events, bsCfg = cfg, bsLeaseProvider = None, bsWorkerID = [], bsNumShards = 4096\<rparr>"

definition NewServiceWithLeaseProvider ::
  "EventProcessor option \<Rightarrow> BatchConfig \<Rightarrow> LeaseManager option \<Rightarrow> string \<Rightarrow> u32 \<Rightarrow> BatchService" where
  "NewServiceWithLeaseProvider events cfg leaseProvider worker numShards =
     (let service = (BatchService_New events cfg)\<lparr>bsLeaseProvider := leaseProvider, bsWorkerID := worker\<rparr>
      in if numShards > 0 then service\<lparr>bsNumShards := numShards\<rparr> else service)"

definition partition_envelope :: "string \<Rightarrow> string \<Rightarrow> EventEnvelope" where
  "partition_envelope tenantID partitionKey =
     \<lparr>evID = [], evType = [], evTenantID = tenantID, evPartitionKey = partitionKey, evWorkflowID = [], evOccurredAt = 0,
      evData = [], evHeaders = []\<rparr>"

definition ownsPartition :: "BatchService \<Rightarrow> string \<Rightarrow> string \<Rightarrow> bool" where
  "ownsPartition s tenantID partitionKey =
     (case bsLeaseProvider s of
        None \<Rightarrow> False
      | Some leases \<Rightarrow>
          if tenantID = [] \<or> partitionKey = [] then False
          else IsOwner leases (VirtualShard (partition_envelope tenantID partitionKey) (bsNumShards s)))"

record batchGroupKey =
  bgTenantID :: string
  bgPartitionKey :: string
  bgRuleSet :: string

datatype batch_reading = ReadyNow batchGroupKey | FormedNow batchGroupKey

type_synonym batch_clock = "batch_reading \<Rightarrow> time"

definition group_key :: "InboxEntry \<Rightarrow> batchGroupKey" where
  "group_key e = \<lparr>bgTenantID = inTenantID e, bgPartitionKey = inPartitionKey e, bgRuleSet = inRuleSet e\<rparr>"

definition loadUnbatchedEntries :: "BatchService \<Rightarrow> database world \<Rightarrow> InboxEntry list result \<times> database world" where
  "loadUnbatchedEntries s w =
     (let limit = bcMaxBatch (bsCfg s) * 10; limit = (if limit \<le> 0 then 400 else limit)
      in case ListUnbatched limit w of
           (Inl err, w') \<Rightarrow> (Inl (wrap ''list unbatched'' err), w')
         | (Inr entries, w') \<Rightarrow> (Inr entries, w'))"

definition group_entry ::
  "InboxEntry \<Rightarrow> (batchGroupKey \<times> InboxEntry list) list \<times> batchGroupKey list \<Rightarrow>
   (batchGroupKey \<times> InboxEntry list) list \<times> batchGroupKey list" where
  "group_entry entry = (\<lambda>(groups, order).
     if inTenantID entry = [] \<or> inPartitionKey entry = [] \<or> inRuleSet entry = [] then (groups, order)
     else
       let key = group_key entry
       in case map_of groups key of
            None \<Rightarrow> (AList.update key [entry] groups, order @ [key])
          | Some members \<Rightarrow> (AList.update key (members @ [entry]) groups, order))"

definition groupInboxEntries :: "InboxEntry list \<Rightarrow> (batchGroupKey \<times> InboxEntry list) list \<times> batchGroupKey list" where
  "groupInboxEntries entries = fold group_entry entries ([], [])"

text \<open>A group is never empty.\<close>

definition ready :: "BatchService \<Rightarrow> batch_clock \<Rightarrow> InboxEntry list \<Rightarrow> bool" where
  "ready s clk members =
     (case bcMode (bsCfg s) of
        BatchModeAccumulate \<Rightarrow> bcMaxBatch (bsCfg s) > 0 \<and> int (length members) \<ge> bcMaxBatch (bsCfg s)
      | BatchModeWindow \<Rightarrow>
          (case members of
             [] \<Rightarrow> False
           | oldest # _ \<Rightarrow> \<not> clk (ReadyNow (group_key oldest)) < inFirstSeenAt oldest + bcWindow (bsCfg s))
      | _ \<Rightarrow> False)"

section \<open>One group\<close>

definition limitBatchMembers :: "BatchService \<Rightarrow> InboxEntry list \<Rightarrow> InboxEntry list" where
  "limitBatchMembers s members =
     (if bcMaxBatch (bsCfg s) > 0 \<and> int (length members) > bcMaxBatch (bsCfg s)
      then take (nat (bcMaxBatch (bsCfg s))) members else members)"

record batchInput =
  biBatchID :: string
  biTenantID :: string
  biPartitionKey :: string
  biRuleSet :: string
  biEventIDs :: "string list"
  biBatchEvents :: "BatchMember list"
  biMembers :: "InboxEntry list"

text \<open>The members are not empty.\<close>

definition buildBatchInput :: "(string \<Rightarrow> string) \<Rightarrow> InboxEntry list \<Rightarrow> batchInput" where
  "buildBatchInput H members =
     (let first = hd members; eventIDs = map inEventID members
      in \<lparr>biBatchID = ComputeBatchID H (inTenantID first) (inPartitionKey first) (inRuleSet first) eventIDs,
          biTenantID = inTenantID first, biPartitionKey = inPartitionKey first, biRuleSet = inRuleSet first,
          biEventIDs = eventIDs,
          biBatchEvents = map (\<lambda>m. \<lparr>bmID = inEventID m, bmType = inRuleSet m, bmData = inPayload m\<rparr>) members,
          biMembers = members\<rparr>)"

definition enc_BatchMember :: "BatchMember \<Rightarrow> string option" where
  "enc_BatchMember m =
     json_struct ([(''id'', Some (json_string (bmID m))), (''type'', Some (json_string (bmType m)))] @
       omitempty (bmData m = []) ''data'' (json_raw (bmData m)))"

definition enc_BatchData :: "BatchData \<Rightarrow> string option" where
  "enc_BatchData d =
     json_struct
       [(''batch_id'', Some (json_string (bdBatchID d))), (''tenant_id'', Some (json_string (bdTenantID d))),
        (''partition_key'', Some (json_string (bdPartitionKey d))), (''rule_set'', Some (json_string (bdRuleSet d))),
        (''window_from'', json_time (bdWindowFrom d)), (''window_to'', json_time (bdWindowTo d)),
        (''events'', json_array (map enc_BatchMember (bdEvents d)))]"

definition buildBatchEnvelope :: "batchInput \<Rightarrow> time \<Rightarrow> (EventEnvelope \<times> time) result" where
  "buildBatchEnvelope input now =
     (let windowFrom = inFirstSeenAt (hd (biMembers input));
          payload = \<lparr>bdBatchID = biBatchID input, bdTenantID = biTenantID input, bdPartitionKey = biPartitionKey input,
            bdRuleSet = biRuleSet input, bdWindowFrom = windowFrom, bdWindowTo = now, bdEvents = biBatchEvents input\<rparr>
      in case enc_BatchData payload of
           None \<Rightarrow> Inl (wrap ''marshal batch data'' marshal_error)
         | Some d \<Rightarrow>
             Inr (\<lparr>evID = biBatchID input, evType = BatchRuleSet (biRuleSet input), evTenantID = biTenantID input,
                   evPartitionKey = biPartitionKey input, evWorkflowID = [], evOccurredAt = now, evData = d, evHeaders = []\<rparr>,
                  windowFrom))"

definition processBatchEnvelope ::
  "BatchService \<Rightarrow> EventProcessor \<Rightarrow> EventEnvelope \<Rightarrow> database world \<Rightarrow> Execution option result \<times> database world" where
  "processBatchEnvelope s events envelope w =
     (case bsLeaseProvider s of
        None \<Rightarrow> (Inl (ErrorString ''batch processing requires a configured shard lease provider and worker ID''), w)
      | Some leases \<Rightarrow>
          if bsWorkerID s = []
          then (Inl (ErrorString ''batch processing requires a configured shard lease provider and worker ID''), w)
          else
            let shard = VirtualShard envelope (bsNumShards s)
            in if \<not> IsOwner leases shard then (Inl (Sentinel ErrFencingTokenMismatch), w)
               else
                 let (token, ok) = GetFencingToken leases shard
                 in if \<not> ok \<or> token \<le> 0 then (Inl (Sentinel ErrFencingTokenMismatch), w)
                    else case epProcess events envelope token shard (bsWorkerID s) w of
                           (Inl err, w') \<Rightarrow>
                             if errors_Is err ErrRuleNotActive \<or> errors_Is err ErrRuleNotFound then (Inr None, w')
                             else (Inl (wrap ''process batch'' err), w')
                         | (Inr execution, w') \<Rightarrow> (Inr execution, w'))"

definition buildCompletedBatchRun :: "batchInput \<Rightarrow> Execution \<Rightarrow> time \<Rightarrow> time \<Rightarrow> BatchRun" where
  "buildCompletedBatchRun input execution windowFrom now =
     \<lparr>brBatchID = biBatchID input, brTenantID = biTenantID input, brPartitionKey = biPartitionKey input,
      brRuleSet = biRuleSet input, brStatus = BatchRunStatusCompleted, brMemberCount = int (length (biMembers input)),
      brExecutionID = exID execution, brDecisionHash = exDecisionHash execution, brWindowFrom = Some windowFrom,
      brWindowTo = Some now, brCreatedAt = now\<rparr>"

definition recoverCompletedBatch :: "BatchRun \<Rightarrow> string list \<Rightarrow> database world \<Rightarrow> int result \<times> database world" where
  "recoverCompletedBatch existing eventIDs w =
     (case CompleteBatch existing eventIDs w of
        (Inl err, w') \<Rightarrow> (Inl (wrap ''recover completed batch'' err), w')
      | (Inr _, w') \<Rightarrow> (Inr 0, w'))"

text \<open>A new batch: the synthesized event is processed, and its execution completes the batch.\<close>

definition formBatch ::
  "BatchService \<Rightarrow> EventProcessor \<Rightarrow> batch_clock \<Rightarrow> batchInput \<Rightarrow> database world \<Rightarrow> int result \<times> database world" where
  "formBatch s events clk input w =
     (let now = clk (FormedNow (group_key (hd (biMembers input))))
      in case buildBatchEnvelope input now of
           Inl err \<Rightarrow> (Inl err, w)
         | Inr (envelope, windowFrom) \<Rightarrow>
             (case processBatchEnvelope s events envelope w of
                (Inl err, w') \<Rightarrow> (Inl err, w')
              | (Inr None, w') \<Rightarrow> (Inr 0, w')
              | (Inr (Some execution), w1) \<Rightarrow>
                  (case CompleteBatch (buildCompletedBatchRun input execution windowFrom now) (biEventIDs input) w1 of
                     (Inl err, w') \<Rightarrow> (Inl (wrap ''complete batch'' err), w')
                   | (Inr _, w') \<Rightarrow> (Inr 1, w'))))"

definition processGroup ::
  "(string \<Rightarrow> string) \<Rightarrow> BatchService \<Rightarrow> batch_clock \<Rightarrow> InboxEntry list \<Rightarrow> database world \<Rightarrow> int result \<times> database world" where
  "processGroup H s clk members w =
     (case bsEvents s of
        None \<Rightarrow> (Inl (Sentinel ErrBatchProcessingUnavailable), w)
      | Some events \<Rightarrow>
          if members = [] then (Inr 0, w)
          else
            let input = buildBatchInput H (limitBatchMembers s members)
            in case GetRun (biBatchID input) w of
                 (Inl err, w1) \<Rightarrow> (Inl (wrap ''check existing batch'' err), w1)
               | (Inr (Some existing), w1) \<Rightarrow>
                   if brStatus existing = BatchRunStatusCompleted then recoverCompletedBatch existing (biEventIDs input) w1
                   else formBatch s events clk input w1
               | (Inr None, w1) \<Rightarrow> formBatch s events clk input w1)"

section \<open>Ticks and requests\<close>

primrec processReadyGroups ::
  "(string \<Rightarrow> string) \<Rightarrow> BatchService \<Rightarrow> batch_clock \<Rightarrow> (batchGroupKey \<times> InboxEntry list) list \<Rightarrow> batchGroupKey list \<Rightarrow> int \<Rightarrow>
   database world \<Rightarrow> (int \<times> gerr option) \<times> database world" where
  "processReadyGroups H s clk groups [] formed w = ((formed, None), w)"
| "processReadyGroups H s clk groups (key # order) formed w =
     (let members = sort_key inFirstSeenAt (the (map_of groups key))
      in if \<not> ready s clk members then processReadyGroups H s clk groups order formed w
         else if \<not> ownsPartition s (inTenantID (hd members)) (inPartitionKey (hd members))
         then processReadyGroups H s clk groups order formed w
         else case processGroup H s clk members w of
                (Inl err, w') \<Rightarrow> ((formed, Some err), w')
              | (Inr n, w') \<Rightarrow> processReadyGroups H s clk groups order (formed + n) w')"

definition Tick :: "(string \<Rightarrow> string) \<Rightarrow> BatchService \<Rightarrow> batch_clock \<Rightarrow> database world \<Rightarrow> (int \<times> gerr option) \<times> database world" where
  "Tick H s clk w =
     (if bcMode (bsCfg s) = BatchModeNone then ((0, None), w)
      else case loadUnbatchedEntries s w of
             (Inl err, w') \<Rightarrow> ((0, Some err), w')
           | (Inr entries, w') \<Rightarrow>
               (let (groups, order) = groupInboxEntries entries in processReadyGroups H s clk groups order 0 w'))"

definition validateUniqueEventIDs :: "string list \<Rightarrow> unit result" where
  "validateUniqueEventIDs eventIDs = check_ids ''event IDs must not be empty'' ''duplicate event ID '' {} eventIDs"

definition validateManualBatchRequest :: "BatchService \<Rightarrow> string \<Rightarrow> string \<Rightarrow> string \<Rightarrow> string list \<Rightarrow> unit result" where
  "validateManualBatchRequest s tenantID partitionKey ruleSet eventIDs =
     (if bsEvents s = None then Inl (Sentinel ErrBatchProcessingUnavailable)
      else if eventIDs = [] then Inl (ErrorString ''no event IDs provided'')
      else if tenantID = [] \<or> partitionKey = [] \<or> ruleSet = []
      then Inl (ErrorString ''tenant, partition key, and rule set are required'')
      else if bcMaxBatch (bsCfg s) > 0 \<and> int (length eventIDs) > bcMaxBatch (bsCfg s)
      then Inl (ErrorString (''requested batch size '' @ nat_dec (length eventIDs) @ '' exceeds maximum '' @
             int_dec (bcMaxBatch (bsCfg s))))
      else validateUniqueEventIDs eventIDs)"

definition validateRequestedBatchMembers :: "string list \<Rightarrow> InboxEntry list \<Rightarrow> unit result" where
  "validateRequestedBatchMembers eventIDs members =
     (if length members = length eventIDs then Inr ()
      else case find (\<lambda>eventID. eventID \<notin> inEventID ` set members) eventIDs of
             Some eventID \<Rightarrow>
               Inl (ErrorString (''requested event '' @ Quote eventID @ '' is missing, already batched, or outside the requested scope''))
           | None \<Rightarrow> Inl (ErrorString ''requested event set is incomplete''))"

definition loadManualBatchMembers ::
  "string \<Rightarrow> string \<Rightarrow> string \<Rightarrow> string list \<Rightarrow> database world \<Rightarrow> InboxEntry list result \<times> database world" where
  "loadManualBatchMembers tenantID partitionKey ruleSet eventIDs w =
     (case ListUnbatchedByIDs tenantID partitionKey ruleSet eventIDs w of
        (Inl err, w') \<Rightarrow> (Inl (wrap ''list requested unbatched events'' err), w')
      | (Inr members, w') \<Rightarrow>
          (case validateRequestedBatchMembers eventIDs members of
             Inl err \<Rightarrow> (Inl err, w')
           | Inr _ \<Rightarrow> (Inr members, w')))"

definition CreateBatch ::
  "(string \<Rightarrow> string) \<Rightarrow> BatchService \<Rightarrow> batch_clock \<Rightarrow> string \<Rightarrow> string \<Rightarrow> string \<Rightarrow> string list \<Rightarrow> database world \<Rightarrow>
   BatchRun option result \<times> database world" where
  "CreateBatch H s clk tenantID partitionKey ruleSet eventIDs w =
     (case validateManualBatchRequest s tenantID partitionKey ruleSet eventIDs of
        Inl err \<Rightarrow> (Inl err, w)
      | Inr _ \<Rightarrow>
          (case loadManualBatchMembers tenantID partitionKey ruleSet eventIDs w of
             (Inl err, w1) \<Rightarrow> (Inl err, w1)
           | (Inr members, w1) \<Rightarrow>
               (case processGroup H s clk (sort_key inFirstSeenAt members) w1 of
                  (Inl err, w2) \<Rightarrow> (Inl err, w2)
                | (Inr _, w2) \<Rightarrow> GetRun (ComputeBatchID H tenantID partitionKey ruleSet eventIDs) w2)))"

definition GetBatch :: "string \<Rightarrow> string \<Rightarrow> database world \<Rightarrow> BatchRun option result \<times> database world" where
  "GetBatch tenantID batchID w = GetRunForTenant tenantID batchID w"

definition ListBatches :: "string \<Rightarrow> string \<Rightarrow> int \<Rightarrow> int \<Rightarrow> database world \<Rightarrow> BatchRun list result \<times> database world" where
  "ListBatches tenantID ruleSet limit offset w = ListRuns tenantID ruleSet limit offset w"

section \<open>Calls\<close>

text \<open>What holds of the updates that batching makes holds of every call: an order on databases that
  completing a batch, marking an entry, writing runs and processing events respect.\<close>

locale batch_updates = interference R for R :: "database \<Rightarrow> database \<Rightarrow> bool" +
  assumes R_complete: "R db (completed_db run eventIDs db)"
    and R_mark: "R db (db\<lparr>dbInbox := fst (update_where (\<lambda>r. inbox_key r = (tenantID, eventID) \<and> ixBatchID r = None)
      (\<lambda>r. r\<lparr>ixBatchID := Some batchID\<rparr>) (dbInbox db))\<rparr>)"
    and R_runs: "R db (db\<lparr>dbBatchRuns := t\<rparr>)"
    and R_process: "event_step H clk rd envelope token shard worker now db r db' \<Longrightarrow> R db db'"
begin

lemma Process_R: "within R w (snd (Process H clk rd envelope token shard worker w))"
  using interference_axioms R_process by (rule Process_within)

lemma processor_within: "within R w (snd (epProcess (pg_event_processor H clk rd now) event token shard worker w))"
  using Process_R [of w H "clk event" "rd event" event token shard worker]
  by (auto simp: pg_event_processor_def split: prod.split sum.split)

lemma processBatchEnvelope_within: "within R w (snd (processBatchEnvelope s (pg_event_processor H clk rd now) envelope w))"
  using processor_within [of w H clk rd now envelope]
  by (auto simp: processBatchEnvelope_def Let_def within_refl split: option.split prod.split sum.split) (metis snd_conv)+

lemma CompleteBatch_R: "within R w (snd (CompleteBatch run eventIDs w))"
  by (rule CompleteBatch_within [OF interference_axioms R_complete])

lemma recover_within: "within R w (snd (recoverCompletedBatch existing eventIDs w))"
  using CompleteBatch_R [of w existing eventIDs] by (auto simp: recoverCompletedBatch_def split: prod.split sum.split)

lemma formBatch_within: "within R w (snd (formBatch s (pg_event_processor H clk rd now) bclk input w))"
proof (cases "buildBatchEnvelope input (bclk (FormedNow (group_key (hd (biMembers input)))))")
  case (Inr p)
  obtain envelope windowFrom where p: "p = (envelope, windowFrom)"
    by force
  obtain r w1 where 1: "processBatchEnvelope s (pg_event_processor H clk rd now) envelope w = (r, w1)"
    by force
  have "within R w w1"
    using processBatchEnvelope_within [of w s H clk rd now envelope] 1 by simp
  then show ?thesis
    using Inr p 1 CompleteBatch_R [of w1] within_trans [of w w1]
    by (auto simp: formBatch_def Let_def split: prod.split sum.split option.split) (metis snd_conv)+
qed (simp add: formBatch_def Let_def within_refl)

lemma processGroup_within:
  assumes "bsEvents s = Some (pg_event_processor H clk rd now)"
  shows "within R w (snd (processGroup H s bclk members w))"
proof -
  let ?input = "buildBatchInput H (limitBatchMembers s members)"
  obtain r w1 where 1: "GetRun (biBatchID ?input) w = (r, w1)"
    by force
  have "within R w w1"
    using GetRun_within [OF interference_axioms, of w] 1 by (metis snd_conv)
  then show ?thesis
    using assms 1 within_trans [of w w1] recover_within [of w1] formBatch_within [of w1]
    by (auto simp: processGroup_def Let_def within_refl split: sum.split option.split)
qed

lemma processReadyGroups_within:
  assumes "bsEvents s = Some (pg_event_processor H clk rd now)"
  shows "within R w (snd (processReadyGroups H s bclk groups order formed w))"
proof (induction order arbitrary: formed w)
  case (Cons key order)
  let ?members = "sort_key inFirstSeenAt (the (map_of groups key))"
  obtain r w1 where 1: "processGroup H s bclk ?members w = (r, w1)"
    by force
  have "within R w w1"
    using processGroup_within [OF assms, of w bclk ?members] 1 by simp
  then show ?case
    using 1 Cons.IH within_trans [of w w1] by (simp add: Let_def split: sum.split)
qed (simp add: within_refl)

lemma loadUnbatched_within: "within R w (snd (loadUnbatchedEntries s w))"
  using ListUnbatched_within [OF interference_axioms]
  by (auto simp: loadUnbatchedEntries_def Let_def split: prod.split sum.split) (metis snd_conv)+

lemma Tick_within:
  assumes "bsEvents s = Some (pg_event_processor H clk rd now)"
  shows "within R w (snd (Tick H s bclk w))"
proof -
  obtain r w1 where 1: "loadUnbatchedEntries s w = (r, w1)"
    by force
  have "within R w w1"
    using loadUnbatched_within [of w s] 1 by simp
  then show ?thesis
    using 1 within_trans [of w w1] processReadyGroups_within [OF assms]
    by (auto simp: Tick_def within_refl split: sum.split prod.split)
qed

lemma CreateBatch_within:
  assumes "bsEvents s = Some (pg_event_processor H clk rd now)"
  shows "within R w (snd (CreateBatch H s bclk tenantID partitionKey ruleSet eventIDs w))"
proof -
  obtain r w1 where 1: "loadManualBatchMembers tenantID partitionKey ruleSet eventIDs w = (r, w1)"
    by force
  have "within R w w1"
    using ListUnbatchedByIDs_within [OF interference_axioms, of w tenantID partitionKey ruleSet eventIDs] 1
    by (auto simp: loadManualBatchMembers_def split: prod.splits sum.splits)
  moreover have "within R w1 (snd (processGroup H s bclk members w1))" for members
    by (rule processGroup_within [OF assms])
  moreover have "within R w2 (snd (GetRun batchID w2))" for w2 batchID
    by (rule GetRun_within [OF interference_axioms])
  ultimately show ?thesis
    using 1 by (auto simp: CreateBatch_def within_refl split: sum.split prod.split) (metis snd_conv within_trans)+
qed

end

datatype batch_call =
    BatchProcess "string \<Rightarrow> string" clock readings EventEnvelope int u32 string
  | BatchTick "string \<Rightarrow> string" "EventEnvelope \<Rightarrow> clock" "EventEnvelope \<Rightarrow> readings" time BatchService batch_clock
  | BatchCreate "string \<Rightarrow> string" "EventEnvelope \<Rightarrow> clock" "EventEnvelope \<Rightarrow> readings" time BatchService batch_clock string string string
      "string list"
  | BatchComplete BatchRun "string list"
  | BatchMark string string string
  | BatchSaveRun BatchRun

primrec perform_batch :: "batch_call \<Rightarrow> database world \<Rightarrow> database world" where
  "perform_batch (BatchProcess H clk rd envelope token shard worker) w = snd (Process H clk rd envelope token shard worker w)"
| "perform_batch (BatchTick H clk rd now s bclk) w = snd (Tick H (s\<lparr>bsEvents := Some (pg_event_processor H clk rd now)\<rparr>) bclk w)"
| "perform_batch (BatchCreate H clk rd now s bclk tenantID partitionKey ruleSet eventIDs) w =
     snd (CreateBatch H (s\<lparr>bsEvents := Some (pg_event_processor H clk rd now)\<rparr>) bclk tenantID partitionKey ruleSet eventIDs w)"
| "perform_batch (BatchComplete run eventIDs) w = snd (CompleteBatch run eventIDs w)"
| "perform_batch (BatchMark tenantID eventID batchID) w = snd (MarkBatched tenantID eventID batchID w)"
| "perform_batch (BatchSaveRun run) w = snd (SaveRun run w)"

context batch_updates
begin

lemma perform_batch_within: "within R w (perform_batch c w)"
proof (cases c)
  case BatchProcess
  then show ?thesis by (simp add: Process_R)
next
  case BatchTick
  then show ?thesis by (simp add: Tick_within)
next
  case BatchCreate
  then show ?thesis by (simp add: CreateBatch_within)
next
  case BatchComplete
  then show ?thesis by (simp add: CompleteBatch_R)
next
  case BatchMark
  then show ?thesis by (simp add: MarkBatched_within [OF interference_axioms R_mark])
next
  case BatchSaveRun
  then show ?thesis by (simp add: SaveRun_within [OF interference_axioms R_runs])
qed

lemma perform_batches_within: "within R w (fold perform_batch calls w)"
  by (rule fold_within) (rule perform_batch_within)

end

section \<open>Membership is final\<close>

lemma recorded_row_key: "inbox_key (committed_row rd envelope executionID) = (evTenantID envelope, evID envelope)"
  by (simp add: committed_row_def inbox_key_def inbox_row_of_def inbox_entry_def)

interpretation batch_membership: batch_updates batch_order
proof unfold_locales
  fix db run eventIDs
  show "batch_order db (completed_db run eventIDs db)"
    unfolding completed_db_def table_order_def by (simp add: completed_live)
next
  fix db tenantID eventID batchID
  show "batch_order db (db\<lparr>dbInbox := fst (update_where (\<lambda>r. inbox_key r = (tenantID, eventID) \<and> ixBatchID r = None)
      (\<lambda>r. r\<lparr>ixBatchID := Some batchID\<rparr>) (dbInbox db))\<rparr>)"
    unfolding table_order_def by (simp, rule batch_rows.live_update) (auto simp: batch_grows_def inbox_key_def)
next
  fix db t
  show "batch_order db (db\<lparr>dbBatchRuns := t\<rparr>)"
    by (simp add: table_order_def batch_rows.live_refl)
next
  fix H clk rd envelope token shard worker now db r db'
  assume "event_step H clk rd envelope token shard worker now db r db'"
  then show "batch_order db db'"
    by (cases rule: event_step.cases)
      (auto simp: batch_rows.live_refl table_order_def recorded_db_def recorded_row_key intro: batch_rows.live_append)
qed

text \<open>C32. Membership is final: an entry that belongs to a batch belongs to that batch for ever, whatever
  is processed, ticked, requested or completed afterwards, amid failing calls and others that keep
  memberships too.\<close>

theorem batch_membership_is_final:
  assumes "rely batch_order w" and "distinct (map inbox_key (dbInbox (woDb w)))"
    and "r \<in> set (dbInbox (woDb w))" and "ixBatchID r = Some batchID"
  shows "\<exists>r' \<in> set (dbInbox (woDb (fold perform_batch calls w))). inbox_key r' = inbox_key r \<and> ixBatchID r' = Some batchID"
proof -
  have "batch_order (woDb w) (woDb (fold perform_batch calls w))"
    using batch_membership.perform_batches_within [of w calls] assms(1) by (simp add: within_def)
  then obtain r' where "r' \<in> set (dbInbox (woDb (fold perform_batch calls w)))" "batch_grows r r'"
    using assms(2,3) by (auto simp: table_order_def rows_live_on_def)
  then show ?thesis
    using assms(4) by (auto simp: batch_grows_def)
qed

theorem batch_membership_is_final_witness:
  "\<exists>r \<in> set (dbInbox (woDb (perform_batch (BatchMark ''t'' ''e'' ''c'') (calm 5 (sample_inbox (Some ''b'')))))).
     inbox_key r = (''t'', ''e'') \<and> ixBatchID r = Some ''b''"
  using batch_membership_is_final [of "calm 5 (sample_inbox (Some ''b''))" "hd (dbInbox (sample_inbox (Some ''b'')))" "''b''"
      "[BatchMark ''t'' ''e'' ''c'']"]
  by (simp add: rely_calm batch_rows.R_refl sample_inbox_def inbox_key_def)

section \<open>Nothing is ever unbatched\<close>

definition null_free :: "database \<Rightarrow> bool" where
  "null_free db = (\<forall>r \<in> set (dbInbox db). ixBatchID r \<noteq> None)"

definition null_free_order :: "database \<Rightarrow> database \<Rightarrow> bool" where
  "null_free_order db db' = (null_free db \<longrightarrow> null_free db')"

interpretation null_free: batch_updates null_free_order
proof unfold_locales
  fix H clk rd envelope token shard worker now db r db'
  assume "event_step H clk rd envelope token shard worker now db r db'"
  then show "null_free_order db db'"
    by (cases rule: event_step.cases)
      (auto simp: null_free_order_def null_free_def recorded_db_def committed_row_def inbox_row_of_def)
qed (auto simp: null_free_order_def null_free_def completed_db_def)

lemma ListUnbatched_null_free:
  assumes "null_free (now_db w)"
  shows "\<exists>err. fst (ListUnbatched limit w) \<in> {Inr [], Inl err}" "woDb (snd (ListUnbatched limit w)) = now_db w"
proof -
  have none: "select_rows unbatched (dbInbox (now_db w)) = []"
    using assms by (auto simp: null_free_def select_rows_def unbatched_def filter_empty_conv)
  have rows: "scan_entries a b (take k []) e \<in> {Inr [], Inl (wrap b (the e))}" for a b k e
    by (cases e) simp_all
  show "\<exists>err. fst (ListUnbatched limit w) \<in> {Inr [], Inl err}" "woDb (snd (ListUnbatched limit w)) = now_db w"
    using rows
    by (auto simp: ListUnbatched_def Let_def Query_def db_call_def none order_limit_def split: fault.split prod.split sum.split option.split)
qed

text \<open>C40. Batches never form: once every entry has a non-null batch, as is the case in the empty database, no
  sequence of calls changes that, because an entry is inserted with the batch \<^verbatim>\<open>''\<close>; and so every tick, in every mode,
  forms no batch and changes nothing.\<close>

theorem batches_never_form:
  assumes "rely null_free_order w" and "null_free (woDb w)"
    and "w' = fold perform_batch calls w"
  shows "fst (fst (Tick H s bclk w')) = 0 \<and> woDb (snd (Tick H s bclk w')) \<in> {woDb w', now_db w'} \<and> null_free (woDb w')"
proof -
  have w': "null_free (woDb w')" "rely null_free_order w'"
    using null_free.perform_batches_within [of w calls] assms by (auto simp: within_def null_free_order_def)
  then have now: "null_free (now_db w')"
    using null_free.rely_others [of w'] by (auto simp: null_free_order_def)
  show ?thesis
    using w'(1) ListUnbatched_null_free [OF now, of "bcMaxBatch (bsCfg s) * 10"] ListUnbatched_null_free [OF now, of 400]
    by (auto simp: Tick_def loadUnbatchedEntries_def Let_def groupInboxEntries_def split: prod.split sum.split)
qed

theorem batches_never_form_witness:
  "\<exists>s. bcMode (bsCfg s) = BatchModeWindow \<and>
     fst (fst (Tick id s (\<lambda>_. 1000) (perform_batch (BatchProcess id sample_clock sample_readings sample_event 2 0 ''w'')
       (calm 5 sample_database)))) = 0"
proof (intro exI conjI)
  let ?s = "BatchService_New None \<lparr>bcMode = BatchModeWindow, bcMaxBatch = 10, bcWindow = 1\<rparr>"
  show "bcMode (bsCfg ?s) = BatchModeWindow"
    by (simp add: BatchService_New_def)
  show "fst (fst (Tick id ?s (\<lambda>_. 1000) (perform_batch (BatchProcess id sample_clock sample_readings sample_event 2 0 ''w'')
      (calm 5 sample_database)))) = 0"
    using batches_never_form [of "calm 5 sample_database" _ "[BatchProcess id sample_clock sample_readings sample_event 2 0 ''w'']"
        id ?s "\<lambda>_. 1000"]
    by (simp add: rely_calm null_free_order_def null_free_def sample_database_def empty_database_def)
qed

end
