(* ===== verification/Worker.thy ===== *)
theory Worker
  imports NatsConsumer BatchService KeyQueue EffectPublisher
begin

text \<open>
  \<^verbatim>\<open>internal/application/worker.go\<close>, \<^verbatim>\<open>worker_delivery.go\<close>, \<^verbatim>\<open>worker_sharding.go\<close> and \<^verbatim>\<open>worker_lifecycle.go\<close>: the worker that fetches
  deliveries for the shards it owns, hands them to the per-key queue, processes them and settles
  them with the broker, while it publishes effects and forms batches in the background.

  A delivery comes with what the broker answers to its settlement; the source of random numbers is
  a parameter.  Beside their results the operations return the settlements they asked for.

  The properties: a delivery is settled exactly once, and only acknowledged when its event is on
  record or quarantined; the delay of a retry stays in its bounds; reconciling the consumers of the
  broker with the owned shards converges.
\<close>

section \<open>Configuration\<close>

record WorkerConfig =
  wcMaxGlobalInFlight :: int
  wcFetchBatchSize :: int
  wcEffectPublishInterval :: duration
  wcEffectPublishBatchSize :: int
  wcRetryDelay :: duration
  wcMaxPerKeyQueue :: int
  wcKeyQueueWorkers :: int
  wcHotKeyThreshold :: int
  wcHotKeyCheckInterval :: duration

definition DefaultWorkerConfig :: WorkerConfig where
  "DefaultWorkerConfig =
     \<lparr>wcMaxGlobalInFlight = 100, wcFetchBatchSize = 100, wcEffectPublishInterval = 5 * second, wcEffectPublishBatchSize = 10,
      wcRetryDelay = 5 * second, wcMaxPerKeyQueue = 100, wcKeyQueueWorkers = 1, wcHotKeyThreshold = 1000,
      wcHotKeyCheckInterval = 10 * second\<rparr>"

definition positive_or :: "int \<Rightarrow> int \<Rightarrow> int" where
  "positive_or x y = (if x \<le> 0 then y else x)"

definition applyWorkerConfigDefaults :: "WorkerConfig \<Rightarrow> WorkerConfig \<Rightarrow> WorkerConfig" where
  "applyWorkerConfigDefaults config defaults =
     config\<lparr>wcFetchBatchSize := positive_or (wcFetchBatchSize config) (wcFetchBatchSize defaults),
       wcEffectPublishInterval := positive_or (wcEffectPublishInterval config) (wcEffectPublishInterval defaults),
       wcEffectPublishBatchSize := positive_or (wcEffectPublishBatchSize config) (wcEffectPublishBatchSize defaults),
       wcRetryDelay := positive_or (wcRetryDelay config) (wcRetryDelay defaults),
       wcMaxPerKeyQueue := positive_or (wcMaxPerKeyQueue config) (wcMaxPerKeyQueue defaults),
       wcKeyQueueWorkers := positive_or (wcKeyQueueWorkers config) (wcKeyQueueWorkers defaults),
       wcHotKeyThreshold := positive_or (wcHotKeyThreshold config) (wcHotKeyThreshold defaults),
       wcHotKeyCheckInterval := positive_or (wcHotKeyCheckInterval config) (wcHotKeyCheckInterval defaults)\<rparr>"

definition normalizeWorkerConfig :: "WorkerConfig \<Rightarrow> WorkerConfig result" where
  "normalizeWorkerConfig config =
     (let defaults = DefaultWorkerConfig;
          config = (if wcMaxGlobalInFlight config = 0 then defaults else config);
          config = (if wcMaxGlobalInFlight config < 0 then config\<lparr>wcMaxGlobalInFlight := wcMaxGlobalInFlight defaults\<rparr> else config);
          config = applyWorkerConfigDefaults config defaults
      in if wcFetchBatchSize config > wcMaxGlobalInFlight config
         then Inl (ErrorString (''worker fetch batch size ('' @ int_dec (wcFetchBatchSize config) @ '') must not exceed max global in-flight ('' @
                int_dec (wcMaxGlobalInFlight config) @ '')''))
         else Inr config)"

text \<open>Which dependencies are set.\<close>

definition validateWorkerDependencies :: "bool \<Rightarrow> bool \<Rightarrow> bool \<Rightarrow> bool \<Rightarrow> bool \<Rightarrow> string \<Rightarrow> unit result" where
  "validateWorkerDependencies hasConsumer hasEvents hasEffects hasClock hasShardService worker =
     (if \<not> hasConsumer then Inl (ErrorString ''worker consumer is required'')
      else if \<not> hasEvents then Inl (ErrorString ''worker event processor is required'')
      else if \<not> hasEffects then Inl (ErrorString ''worker effect publisher is required'')
      else if \<not> hasClock then Inl (ErrorString ''worker clock is required'')
      else if \<not> hasShardService then Inl (ErrorString ''worker shard service is required'')
      else if worker = [] then Inl (ErrorString ''worker ID is required'')
      else Inr ())"

section \<open>Deliveries\<close>

record Delivery =
  dlID :: nat
  dlEvent :: "EventEnvelope option result"
  dlRaw :: string
  dlAttempt :: "nat option"
  dlAckErr :: "gerr option"
  dlNakErr :: "gerr option"
  dlRetryErr :: "gerr option"

datatype settlement = Acked | Nacked | RetryAfter duration

text \<open>The delivery of a JetStream message, with its number and the broker's answers.\<close>

definition jetstreamDelivery :: "nat \<Rightarrow> gerr option \<Rightarrow> gerr option \<Rightarrow> gerr option \<Rightarrow> message \<Rightarrow> Delivery" where
  "jetstreamDelivery n ackErr nakErr retryErr msg =
     \<lparr>dlID = n, dlEvent = (case jetstreamDelivery_Event msg of None \<Rightarrow> Inl json_error | Some e \<Rightarrow> Inr (Some e)), dlRaw = msData msg,
      dlAttempt = Some (jetstreamDelivery_Attempt msg), dlAckErr = ackErr, dlNakErr = nakErr, dlRetryErr = retryErr\<rparr>"

abbreviation maxDeliveryRetryDelay :: duration where
  "maxDeliveryRetryDelay \<equiv> 5 * minute"

text \<open>The doubling loop, with the number of rounds that are left.\<close>

primrec retry_ceiling :: "nat \<Rightarrow> duration \<Rightarrow> duration" where
  "retry_ceiling 0 ceiling = ceiling"
| "retry_ceiling (Suc n) ceiling =
     (if ceiling < maxDeliveryRetryDelay
      then if ceiling > maxDeliveryRetryDelay div 2 then maxDeliveryRetryDelay else retry_ceiling n (ceiling * 2)
      else ceiling)"

text \<open>\<open>rnd\<close> is \<^verbatim>\<open>rand.Int64N\<close>.\<close>

definition retryDelayForDelivery :: "(int \<Rightarrow> int) \<Rightarrow> duration \<Rightarrow> Delivery \<Rightarrow> duration" where
  "retryDelayForDelivery rnd base dl =
     (let base = (if base \<le> 0 then 5 * second else base);
          attempt = (case dlAttempt dl of Some n \<Rightarrow> if n > 0 then n else 1 | None \<Rightarrow> 1);
          ceiling = retry_ceiling (attempt - 1) base;
          ceiling = (if ceiling > maxDeliveryRetryDelay then maxDeliveryRetryDelay else ceiling);
          lower = ceiling div 2;
          jitterRange = ceiling - lower
      in if jitterRange \<le> 0 then ceiling else lower + rnd (jitterRange + 1))"

definition about_event :: "string \<Rightarrow> string \<Rightarrow> gerr \<Rightarrow> gerr" where
  "about_event before eventID err = Errorf [(before @ eventID @ '': '', err)] []"

definition Retry :: "(int \<Rightarrow> int) \<Rightarrow> WorkerConfig \<Rightarrow> Delivery \<Rightarrow> gerr option \<times> settlement list" where
  "Retry rnd config dl = (dlRetryErr dl, [RetryAfter (retryDelayForDelivery rnd (wcRetryDelay config) dl)])"

definition quarantinePermanentEvent ::
  "EventProcessor \<Rightarrow> (int \<Rightarrow> int) \<Rightarrow> WorkerConfig \<Rightarrow> EventEnvelope \<Rightarrow> Delivery \<Rightarrow> gerr \<Rightarrow> database world \<Rightarrow>
   gerr option \<times> settlement list \<times> database world" where
  "quarantinePermanentEvent events rnd config event dl processErr w =
     (case epQuarantineEvent events (evID event) (evID event) (evTenantID event)
             (error_class_string (ClassifyError (Some processErr))) (error_text processErr) w of
        (Inl err, w') \<Rightarrow>
          (let (retryErr, ss) = Retry rnd config dl
           in (errors_Join (about_event ''quarantine permanent event '' (evID event) err # (case retryErr of None \<Rightarrow> [] | Some e \<Rightarrow> [e])), ss, w'))
      | (Inr _, w') \<Rightarrow> (map_option (about_event ''ack quarantined event '' (evID event)) (dlAckErr dl), [Acked], w'))"

definition handleEventProcessingFailure ::
  "EventProcessor \<Rightarrow> (int \<Rightarrow> int) \<Rightarrow> WorkerConfig \<Rightarrow> EventEnvelope \<Rightarrow> Delivery \<Rightarrow> gerr \<Rightarrow> database world \<Rightarrow>
   gerr option \<times> settlement list \<times> database world" where
  "handleEventProcessingFailure events rnd config event dl processErr w =
     (if IsPermanent (Some processErr) then quarantinePermanentEvent events rnd config event dl processErr w
      else case Retry rnd config dl of
             (Some retryErr, ss) \<Rightarrow>
               (errors_Join [about_event ''process event '' (evID event) processErr, about_event ''retry event '' (evID event) retryErr], ss, w)
           | (None, ss) \<Rightarrow> (Some processErr, ss, w))"

definition settleEventResult ::
  "EventProcessor \<Rightarrow> (int \<Rightarrow> int) \<Rightarrow> WorkerConfig \<Rightarrow> EventEnvelope \<Rightarrow> Delivery \<Rightarrow> unit result \<Rightarrow> database world \<Rightarrow>
   gerr option \<times> settlement list \<times> database world" where
  "settleEventResult events rnd config event dl result w =
     (case result of
        Inl processErr \<Rightarrow> handleEventProcessingFailure events rnd config event dl processErr w
      | Inr _ \<Rightarrow> (map_option (about_event ''ack event '' (evID event)) (dlAckErr dl), [Acked], w))"

definition processDelivery ::
  "EventProcessor \<Rightarrow> (int \<Rightarrow> int) \<Rightarrow> WorkerConfig \<Rightarrow> EventEnvelope option \<Rightarrow> Delivery \<Rightarrow> int \<Rightarrow> u32 \<Rightarrow> string \<Rightarrow> database world \<Rightarrow>
   gerr option \<times> settlement list \<times> database world" where
  "processDelivery events rnd config envelope dl token shard worker w =
     (case envelope of
        None \<Rightarrow> (Some (ErrorString ''process delivery: event envelope is nil''), [], w)
      | Some event \<Rightarrow>
          (case epProcess events event token shard worker w of
             (Inl err, w') \<Rightarrow> settleEventResult events rnd config event dl (Inl err) w'
           | (Inr None, w') \<Rightarrow>
               settleEventResult events rnd config event dl
                 (Inl (ErrorString ''event processor returned a nil execution without an error'')) w'
           | (Inr (Some execution), w') \<Rightarrow> settleEventResult events rnd config event dl (Inr ()) w'))"

text \<open>A delivery that cannot be decoded.\<close>

definition quarantineInvalidDelivery ::
  "(string \<Rightarrow> string) \<Rightarrow> EventProcessor \<Rightarrow> (int \<Rightarrow> int) \<Rightarrow> WorkerConfig \<Rightarrow> Delivery \<Rightarrow> database world \<Rightarrow> settlement list \<times> database world" where
  "quarantineInvalidDelivery H events rnd config dl w =
     (let sourceID = ComputeSourceHash H (dlRaw dl)
      in case epQuarantineEvent events sourceID [] [] (error_class_string ErrorClassValidation) ''invalid event envelope JSON'' w of
           (Inl err, w') \<Rightarrow> (snd (Retry rnd config dl), w')
         | (Inr _, w') \<Rightarrow> ([Acked], w'))"

definition settleNak :: "Delivery \<Rightarrow> gerr option \<times> settlement list" where
  "settleNak dl = (dlNakErr dl, [Nacked])"

text \<open>\<open>submit\<close> is the outcome of the queue's \<^verbatim>\<open>Submit\<close>.\<close>

definition submitOwnedDelivery ::
  "(QueueItem \<Rightarrow> gerr option) \<Rightarrow> LeaseManager \<Rightarrow> string \<Rightarrow> EventEnvelope \<Rightarrow> Delivery \<Rightarrow> u32 \<Rightarrow> gerr option \<times> settlement list \<times> QueueItem list" where
  "submitOwnedDelivery submit m worker event dl shard =
     (let token = (case GetFencingToken m shard of (t, ok) \<Rightarrow> if ok then t else 0);
          item = \<lparr>qiEvent = Some event, qiDelivery = dlID dl, qiFencingToken = token, qiShard = shard, qiWorkerID = worker\<rparr>
      in case submit item of
           Some err \<Rightarrow> (Some err, snd (settleNak dl), [])
         | None \<Rightarrow> (None, [], [item]))"

definition processSingleDelivery ::
  "(string \<Rightarrow> string) \<Rightarrow> EventProcessor \<Rightarrow> (int \<Rightarrow> int) \<Rightarrow> WorkerConfig \<Rightarrow> (QueueItem \<Rightarrow> gerr option) \<Rightarrow> LeaseManager \<Rightarrow> string \<Rightarrow>
   Delivery \<Rightarrow> database world \<Rightarrow> gerr option \<times> settlement list \<times> QueueItem list \<times> database world" where
  "processSingleDelivery H events rnd config submit m worker dl w =
     (case dlEvent dl of
        Inr (Some event) \<Rightarrow>
          (let shard = VirtualShardForEvent m event
           in if \<not> IsOwner m shard then (None, snd (settleNak dl), [], w)
              else let (err, ss, items) = submitOwnedDelivery submit m worker event dl shard in (err, ss, items, w))
      | _ \<Rightarrow> (let (ss, w') = quarantineInvalidDelivery H events rnd config dl w in (None, ss, [], w')))"

text \<open>Errors of single deliveries are only logged; the result is whether there was work.\<close>

primrec process_deliveries ::
  "(string \<Rightarrow> string) \<Rightarrow> EventProcessor \<Rightarrow> (int \<Rightarrow> int) \<Rightarrow> WorkerConfig \<Rightarrow> (QueueItem \<Rightarrow> gerr option) \<Rightarrow> LeaseManager \<Rightarrow> string \<Rightarrow>
   Delivery list \<Rightarrow> database world \<Rightarrow> QueueItem list \<times> database world" where
  "process_deliveries H events rnd config submit m worker [] w = ([], w)"
| "process_deliveries H events rnd config submit m worker (dl # dls) w =
     (let (err, ss, items, w1) = processSingleDelivery H events rnd config submit m worker dl w;
          (items', w2) = process_deliveries H events rnd config submit m worker dls w1
      in (items @ items', w2))"

definition processFetchedDeliveries ::
  "(string \<Rightarrow> string) \<Rightarrow> EventProcessor \<Rightarrow> (int \<Rightarrow> int) \<Rightarrow> WorkerConfig \<Rightarrow> (QueueItem \<Rightarrow> gerr option) \<Rightarrow> LeaseManager \<Rightarrow> string \<Rightarrow>
   Delivery list \<Rightarrow> database world \<Rightarrow> bool \<times> QueueItem list \<times> database world" where
  "processFetchedDeliveries H events rnd config submit m worker dls w =
     (if dls = [] then (False, [], w) else (True, process_deliveries H events rnd config submit m worker dls w))"

text \<open>An error of the fetch drops the messages that came with it.\<close>

definition fetchAndProcessDeliveries ::
  "(string \<Rightarrow> string) \<Rightarrow> EventProcessor \<Rightarrow> (int \<Rightarrow> int) \<Rightarrow> WorkerConfig \<Rightarrow> (QueueItem \<Rightarrow> gerr option) \<Rightarrow> LeaseManager \<Rightarrow> string \<Rightarrow>
   'j JetStream \<Rightarrow> (shardFetchResult list \<Rightarrow> shardFetchResult list) \<Rightarrow> gerr option \<Rightarrow> (message \<Rightarrow> Delivery) \<Rightarrow> Consumer \<times> 'j \<Rightarrow>
   database world \<Rightarrow> (bool \<times> QueueItem list) result \<times> (Consumer \<times> 'j) \<times> database world" where
  "fetchAndProcessDeliveries H events rnd config submit m worker js arrival ctxErr mk s w =
     (let ownedShards = OwnedShards m
      in if ownedShards = [] then (Inr (False, []), s, w)
         else case FetchShards js arrival ctxErr (wcFetchBatchSize config) ownedShards s of
                ((msgs, Some err), s') \<Rightarrow> (Inl err, s', w)
              | ((msgs, None), s') \<Rightarrow>
                  (let (didWork, items, w') = processFetchedDeliveries H events rnd config submit m worker (map mk msgs) w
                   in (Inr (didWork, items), s', w')))"

section \<open>Consumers of shards\<close>

primrec removeUnownedShardConsumers ::
  "'j JetStream \<Rightarrow> u32 list \<Rightarrow> u32 list \<Rightarrow> u32 list \<Rightarrow> Consumer \<times> 'j \<Rightarrow> u32 list \<times> Consumer \<times> 'j" where
  "removeUnownedShardConsumers js owned [] activeSet s = (activeSet, s)"
| "removeUnownedShardConsumers js owned (shard # active) activeSet s =
     (if shard \<in> set owned then removeUnownedShardConsumers js owned active activeSet s
      else case RemoveShardConsumer js shard s of
             (Some err, s') \<Rightarrow> removeUnownedShardConsumers js owned active activeSet s'
           | (None, s') \<Rightarrow> removeUnownedShardConsumers js owned active (removeAll shard activeSet) s')"

primrec ensureOwnedShardConsumers ::
  "(string \<Rightarrow> string) \<Rightarrow> 'j JetStream \<Rightarrow> u32 list \<Rightarrow> u32 list \<Rightarrow> Consumer \<times> 'j \<Rightarrow> Consumer \<times> 'j" where
  "ensureOwnedShardConsumers H js activeSet [] s = s"
| "ensureOwnedShardConsumers H js activeSet (shard # owned) s =
     (if shard \<in> set activeSet then ensureOwnedShardConsumers H js activeSet owned s
      else ensureOwnedShardConsumers H js activeSet owned (snd (EnsureShardConsumer H js shard s)))"

definition syncConsumers :: "(string \<Rightarrow> string) \<Rightarrow> 'j JetStream \<Rightarrow> LeaseManager \<Rightarrow> Consumer \<times> 'j \<Rightarrow> Consumer \<times> 'j" where
  "syncConsumers H js m s =
     (let owned = OwnedShards m; active = Consumer_OwnedShards (fst s);
          (activeSet, s') = removeUnownedShardConsumers js owned active active s
      in ensureOwnedShardConsumers H js activeSet owned s')"

section \<open>The loops\<close>

text \<open>What one iteration meets: the leases when the consumers are reconciled and when deliveries are
  fetched, the queue, the broker, whether the context is done at its beginning, and whether the
  timer of a wait fires before the context ends.\<close>

record iteration =
  itCtxDone :: bool
  itReconciled :: LeaseManager
  itLeases :: LeaseManager
  itSubmit :: "QueueItem \<Rightarrow> gerr option"
  itArrival :: "shardFetchResult list \<Rightarrow> shardFetchResult list"
  itCtxErr :: "gerr option"
  itDelivery :: "message \<Rightarrow> Delivery"
  itTimerFires :: bool

definition runShardedIteration ::
  "(string \<Rightarrow> string) \<Rightarrow> EventProcessor \<Rightarrow> (int \<Rightarrow> int) \<Rightarrow> WorkerConfig \<Rightarrow> string \<Rightarrow> 'j JetStream \<Rightarrow> iteration \<Rightarrow> Consumer \<times> 'j \<Rightarrow>
   database world \<Rightarrow> bool \<times> QueueItem list \<times> (Consumer \<times> 'j) \<times> database world" where
  "runShardedIteration H events rnd config worker js it s w =
     (case fetchAndProcessDeliveries H events rnd config (itSubmit it) (itLeases it) worker js (itArrival it) (itCtxErr it) (itDelivery it)
             (syncConsumers H js (itReconciled it) s) w of
        (Inl err, s', w') \<Rightarrow> (itTimerFires it, [], s', w')
      | (Inr (didWork, items), s', w') \<Rightarrow> (if didWork then True else itTimerFires it, items, s', w'))"

primrec runSharded_loop ::
  "(string \<Rightarrow> string) \<Rightarrow> EventProcessor \<Rightarrow> (int \<Rightarrow> int) \<Rightarrow> WorkerConfig \<Rightarrow> string \<Rightarrow> 'j JetStream \<Rightarrow> iteration list \<Rightarrow> Consumer \<times> 'j \<Rightarrow>
   database world \<Rightarrow> QueueItem list \<times> (Consumer \<times> 'j) \<times> database world" where
  "runSharded_loop H events rnd config worker js [] s w = ([], s, w)"
| "runSharded_loop H events rnd config worker js (it # its) s w =
     (if itCtxDone it then ([], s, w)
      else case runShardedIteration H events rnd config worker js it s w of
             (continue, items, s', w') \<Rightarrow>
               if \<not> continue then (items, s', w')
               else let (items', s2, w2) = runSharded_loop H events rnd config worker js its s' w' in (items @ items', s2, w2))"

definition runSharded ::
  "(string \<Rightarrow> string) \<Rightarrow> EventProcessor \<Rightarrow> (int \<Rightarrow> int) \<Rightarrow> WorkerConfig \<Rightarrow> string \<Rightarrow> 'j JetStream \<Rightarrow> LeaseManager \<Rightarrow> iteration list \<Rightarrow>
   Consumer \<times> 'j \<Rightarrow> database world \<Rightarrow> QueueItem list \<times> (Consumer \<times> 'j) \<times> database world" where
  "runSharded H events rnd config worker js m its s w =
     runSharded_loop H events rnd config worker js its (syncConsumers H js m s) w"

text \<open>The loops in the background: what their \<^verbatim>\<open>select\<close> finds, a tick with the identifiers and the clock
  that the call of the service meets, or the end of the context.  Errors are only logged.\<close>

datatype publish_signal = PublishCtxDone | PublishTick string "string \<Rightarrow> string" "string \<Rightarrow> time"

fun publishLoop :: "EffectsService \<Rightarrow> WorkerConfig \<Rightarrow> publish_signal list \<Rightarrow> database world \<Rightarrow> database world" where
  "publishLoop effects config (PublishTick uuid newID clk # sigs) w =
     publishLoop effects config sigs (snd (snd (PublishBatch effects uuid newID clk (wcEffectPublishBatchSize config) w)))"
| "publishLoop effects config _ w = w"

datatype batch_signal = BatchCtxDone | BatchTicker batch_clock

fun batchLoop :: "(string \<Rightarrow> string) \<Rightarrow> BatchService \<Rightarrow> batch_signal list \<Rightarrow> database world \<Rightarrow> database world" where
  "batchLoop H batches (BatchTicker clk # sigs) w = batchLoop H batches sigs (snd (Tick H batches clk w))"
| "batchLoop H batches _ w = w"

text \<open>The order in which \<^verbatim>\<open>Run\<close> starts and stops its parts: the deferred calls run backwards on every
  return.  A nil context, a shard service or a queue that do not start are its errors.\<close>

datatype lifecycle_action =
    StartShardService | StartKeyQueue | StartPublishLoop | StartBatchLoop | RunSharded | WaitBackground | StopKeyQueue | StopShardService

definition startBackgroundLoops :: "bool \<Rightarrow> duration \<Rightarrow> lifecycle_action list" where
  "startBackgroundLoops hasBatches batchInterval =
     (if \<not> hasBatches \<or> batchInterval \<le> 0 then [StartPublishLoop] else [StartPublishLoop, StartBatchLoop])"

definition Run :: "bool \<Rightarrow> gerr option \<Rightarrow> gerr option \<Rightarrow> bool \<Rightarrow> duration \<Rightarrow> gerr option \<times> lifecycle_action list" where
  "Run hasContext startErr queueErr hasBatches batchInterval =
     (if \<not> hasContext then (Some (ErrorString ''worker context is required''), [])
      else case startErr of
             Some err \<Rightarrow> (Some (wrap ''start shard service'' err), [StartShardService])
           | None \<Rightarrow>
               (case queueErr of
                  Some err \<Rightarrow> (Some (wrap ''start key queue'' err), [StartShardService, StartKeyQueue, StopShardService])
                | None \<Rightarrow>
                    (None, [StartShardService, StartKeyQueue] @ startBackgroundLoops hasBatches batchInterval @
                       [RunSharded, WaitBackground, StopKeyQueue, StopShardService])))"

definition startKeyQueue :: "WorkerConfig \<Rightarrow> KeyQueue" where
  "startKeyQueue config =
     KeyQueue.Start (NewKeyQueue (wcMaxGlobalInFlight config) (wcMaxPerKeyQueue config) (wcKeyQueueWorkers config) (wcHotKeyThreshold config))"

section \<open>Settlement\<close>

definition quarantined :: "(string \<Rightarrow> string) \<Rightarrow> database \<Rightarrow> string \<Rightarrow> string \<Rightarrow> string \<Rightarrow> bool" where
  "quarantined H db sourceID eventID tenantID =
     (\<exists>errClass. ComputeSourceHash H (quarantine_id_text sourceID eventID tenantID errClass) \<in> quarantine_id ` set (dbQuarantine db))"

lemma QuarantineEvent_stored:
  assumes "QuarantineEvent H now sourceID eventID tenantID errClass errMsg w = (Inr u, w')"
  shows "quarantined H (woDb w') sourceID eventID tenantID"
proof -
  let ?qid = "ComputeSourceHash H (quarantine_id_text sourceID eventID tenantID errClass)"
  obtain n entry where e: "Exec (on_quarantine (\<lambda>now. insert_do_nothing quarantine_id entry)) w = (Inr n, w')" "quarantine_id entry = ?qid"
    using assms by (fastforce simp: QuarantineEvent_def Quarantine_Save_def split: prod.splits sum.splits)
  have "?qid \<in> quarantine_id ` set (dbQuarantine (woDb w'))"
    using Exec_Inr [OF e(1)] e(2) by (auto simp: on_quarantine_def insert_do_nothing_def split: if_splits)
  then show ?thesis
    by (auto simp: quarantined_def)
qed

lemma Retry_once: "length (snd (Retry rnd config dl)) = 1" "Acked \<notin> set (snd (Retry rnd config dl))"
  by (simp_all add: Retry_def)

text \<open>Whatever the processor is, every branch settles once, and an acknowledgement follows a successful
  call of it.\<close>

lemma settle_cases:
  assumes "settleEventResult events rnd config event dl result w = (r, ss, w')"
  shows "length ss = 1 \<and> (Acked \<in> set ss \<longrightarrow> result = Inr () \<and> w' = w \<or>
    (\<exists>errClass errMsg. epQuarantineEvent events (evID event) (evID event) (evTenantID event) errClass errMsg w = (Inr (), w')))"
  using assms Retry_once [of rnd config dl]
  by (cases result)
    (auto simp: settleEventResult_def handleEventProcessingFailure_def quarantinePermanentEvent_def Let_def
      split: prod.splits sum.splits if_splits option.splits)

lemma processDelivery_durable:
  assumes "processDelivery (pg_event_processor H clk rd now) rnd config (Some event) dl token shard worker w = (r, ss, w')"
  shows "length ss = 1 \<and>
    (Acked \<in> set ss \<longrightarrow> (\<exists>executionID. execution_known (woDb w') (evTenantID event) (evID event) executionID) \<or>
       quarantined H (woDb w') (evID event) (evID event) (evTenantID event))"
proof -
  let ?events = "pg_event_processor H clk rd now"
  obtain result w1 where process: "Process H (clk event) (rd event) event token shard worker w = (result, w1)"
    by (metis surj_pair)
  then have settle: "settleEventResult ?events rnd config event dl (case result of Inl err \<Rightarrow> Inl err | Inr x \<Rightarrow> Inr ()) w1 = (r, ss, w')"
    using assms by (cases result) (simp_all add: processDelivery_def pg_event_processor_def)
  note cases = settle_cases [OF settle]
  have "(\<exists>executionID. execution_known (woDb w') (evTenantID event) (evID event) executionID) \<or>
      quarantined H (woDb w') (evID event) (evID event) (evTenantID event)" if "Acked \<in> set ss"
  proof (cases result)
    case (Inr x)
    then show ?thesis
      using that cases Process_known [of H "clk event" "rd event" event token shard worker w x w1] process
      by (auto simp: pg_event_processor_def dest: QuarantineEvent_stored)
  qed (use that cases in \<open>auto simp: pg_event_processor_def dest: QuarantineEvent_stored\<close>)
  then show ?thesis
    using cases by blast
qed

text \<open>C4. No event is lost between the broker and the database.  A delivery that is processed is settled
  with the broker exactly once; it is acknowledged only if an execution of its event is on record, or
  the event is in quarantine; and a delivery that cannot be decoded is acknowledged only if
  it is in quarantine under the hash of its bytes.  This holds whatever calls fail.\<close>

theorem acknowledged_is_durable:
  assumes "processDelivery (pg_event_processor H clk rd now) rnd config (Some event) dl token shard worker w = (r, ss, w')"
    and "quarantineInvalidDelivery H (pg_event_processor H clk rd now) rnd config dl w = (ss2, w2)"
  shows "length ss = 1 \<and>
    (Acked \<in> set ss \<longrightarrow> (\<exists>executionID. execution_known (woDb w') (evTenantID event) (evID event) executionID) \<or>
       quarantined H (woDb w') (evID event) (evID event) (evTenantID event)) \<and>
    length ss2 = 1 \<and> (Acked \<in> set ss2 \<longrightarrow> quarantined H (woDb w2) (ComputeSourceHash H (dlRaw dl)) [] [])"
proof -
  have "length ss2 = 1 \<and> (Acked \<in> set ss2 \<longrightarrow> quarantined H (woDb w2) (ComputeSourceHash H (dlRaw dl)) [] [])"
    using assms(2) Retry_once [of rnd config dl]
    by (auto simp: quarantineInvalidDelivery_def pg_event_processor_def Let_def split: prod.splits sum.splits dest: QuarantineEvent_stored)
  then show ?thesis
    using processDelivery_durable [OF assms(1)] by blast
qed

definition sample_delivery :: Delivery where
  "sample_delivery =
     \<lparr>dlID = 0, dlEvent = Inr (Some sample_event), dlRaw = ''{}'', dlAttempt = Some 3, dlAckErr = None, dlNakErr = None, dlRetryErr = None\<rparr>"

theorem acknowledged_is_durable_witness:
  "let events = pg_event_processor id (\<lambda>_. sample_clock) (\<lambda>_. sample_readings) 5; w = calm 5 sample_database;
       (r, ss, w') = processDelivery events (\<lambda>n. 0) DefaultWorkerConfig (Some sample_event) sample_delivery 2 0 ''w'' w;
       (ss2, w2) = quarantineInvalidDelivery id events (\<lambda>n. 0) DefaultWorkerConfig sample_delivery w
   in length ss = 1 \<and> length ss2 = 1"
  unfolding Let_def using acknowledged_is_durable by (auto split: prod.split)

text \<open>An item that is handed to the queue belongs to a shard the worker owns, with its fencing token.\<close>

lemma submitted_is_owned:
  assumes "processSingleDelivery H events rnd config submit m worker dl w = (err, ss, items, w')" "item \<in> set items"
  shows "IsOwner m (qiShard item) \<and> GetFencingToken m (qiShard item) = (qiFencingToken item, True) \<and>
    (\<exists>event. dlEvent dl = Inr (Some event) \<and> qiEvent item = Some event \<and> qiShard item = VirtualShardForEvent m event)"
  using assms
  by (auto simp: processSingleDelivery_def submitOwnedDelivery_def settleNak_def IsOwner_def GetFencingToken_def Let_def
      split: sum.splits option.splits if_splits prod.splits)

text \<open>A delivery with an event is given back, or queued for its shard.\<close>

lemma decoded_delivery_cases:
  assumes "dlEvent dl = Inr (Some event)"
  obtains err where "processSingleDelivery H events rnd config submit m worker dl w = (err, [Nacked], [], w)"
  | item where "processSingleDelivery H events rnd config submit m worker dl w = (None, [], [item], w)"
    "qiEvent item = Some event" "qiShard item = VirtualShardForEvent m event" "IsOwner m (qiShard item)"
    "GetFencingToken m (qiShard item) = (qiFencingToken item, True)"
  using assms
  by (fastforce simp: processSingleDelivery_def submitOwnedDelivery_def settleNak_def IsOwner_def GetFencingToken_def Let_def
      split: option.splits if_splits prod.splits)

text \<open>The delay of a retry.\<close>

lemma retry_ceiling_power:
  "0 < c \<Longrightarrow> c \<le> maxDeliveryRetryDelay \<Longrightarrow> retry_ceiling n c = min maxDeliveryRetryDelay (c * 2 ^ n)"
proof (induction n arbitrary: c)
  case (Suc n)
  have one: "(1::int) \<le> 2 ^ n"
    by simp
  consider "c = maxDeliveryRetryDelay" | "c < maxDeliveryRetryDelay" "c > maxDeliveryRetryDelay div 2" | "c \<le> maxDeliveryRetryDelay div 2"
    using Suc.prems(2) by linarith
  then show ?case
  proof cases
    case 3
    then have "c * 2 \<le> maxDeliveryRetryDelay" "c < maxDeliveryRetryDelay"
      using Suc.prems(1) by (simp_all add: go_simps)
    then show ?thesis
      using Suc.IH [of "c * 2"] Suc.prems(1) 3 by (simp add: mult.assoc)
  next
    case 2
    then have "maxDeliveryRetryDelay \<le> c * 2 * 1"
      by (simp add: go_simps)
    also have "\<dots> \<le> c * 2 * 2 ^ n"
      using one Suc.prems(1) by (intro mult_left_mono) simp_all
    finally show ?thesis
      using 2 by (simp add: min_def mult.assoc)
  next
    case 1
    have "c * 1 \<le> c * 2 ^ Suc n"
      using Suc.prems(1) by (intro mult_left_mono one_le_power) simp_all
    then show ?thesis
      using 1 by (simp add: min_def)
  qed
qed (simp add: min_def)

text \<open>The delay of a retry doubles with the attempts from its base up to five minutes, and is drawn
  from the upper half of that, if the random numbers are in their range.\<close>

lemma retry_delay_bounds:
  assumes "\<And>n. 0 < n \<Longrightarrow> 0 \<le> rnd n \<and> rnd n < n" and "0 < base" and "dlAttempt dl = Some (Suc n)"
  shows "min maxDeliveryRetryDelay (base * 2 ^ n) div 2 \<le> retryDelayForDelivery rnd base dl \<and>
    retryDelayForDelivery rnd base dl \<le> min maxDeliveryRetryDelay (base * 2 ^ n)"
proof -
  let ?c = "min maxDeliveryRetryDelay (base * 2 ^ n)"
  have ceiling: "(if retry_ceiling n base > maxDeliveryRetryDelay then maxDeliveryRetryDelay else retry_ceiling n base) = ?c"
  proof (cases "base \<le> maxDeliveryRetryDelay")
    case True
    then show ?thesis
      using retry_ceiling_power [OF assms(2)] by simp
  next
    case False
    have "base * 1 \<le> base * 2 ^ n"
      using assms(2) by (intro mult_left_mono one_le_power) simp_all
    moreover have "retry_ceiling n base = base"
      using False by (cases n) simp_all
    ultimately show ?thesis
      using False by (simp add: min_def)
  qed
  have "0 \<le> ?c"
    using assms(2) by (simp add: go_simps)
  have "0 \<le> rnd (?c - ?c div 2 + 1) \<and> rnd (?c - ?c div 2 + 1) < ?c - ?c div 2 + 1"
    using \<open>0 \<le> ?c\<close> by (intro assms(1)) linarith
  moreover have "(if base \<le> 0 then 5 * second else base) = base"
    "(case dlAttempt dl of Some n \<Rightarrow> if n > 0 then n else 1 | None \<Rightarrow> 1) - 1 = n"
    using assms(2,3) by simp_all
  then have "retryDelayForDelivery rnd base dl = (if ?c - ?c div 2 \<le> 0 then ?c else ?c div 2 + rnd (?c - ?c div 2 + 1))"
    unfolding retryDelayForDelivery_def Let_def by (simp only: ceiling)
  ultimately show ?thesis
    using \<open>0 \<le> ?c\<close> by (cases "?c - ?c div 2 \<le> 0") (simp_all only: if_True if_False, linarith+)
qed

section \<open>Reconciling consumers\<close>

lemma removeUnowned_up:
  assumes "jetstream_up js"
  shows "consumer_ok c \<Longrightarrow>
    \<exists>c' j' activeSet'. removeUnownedShardConsumers js owned active activeSet (c, j) = (activeSet', c', j') \<and> consumer_ok c' \<and>
      same_setup c c' \<and> known c' = {k \<in> known c. ckShard k \<in> set active \<longrightarrow> ckShard k \<in> set owned} \<and>
      set activeSet' = set activeSet - (set active - set owned)"
proof (induction active arbitrary: activeSet c j)
  case (Cons shard active)
  show ?case
  proof (cases "shard \<in> set owned")
    case True
    obtain c' j' activeSet' where "removeUnownedShardConsumers js owned active activeSet (c, j) = (activeSet', c', j')" "consumer_ok c'"
      "same_setup c c'" "known c' = {k \<in> known c. ckShard k \<in> set active \<longrightarrow> ckShard k \<in> set owned}"
      "set activeSet' = set activeSet - (set active - set owned)"
      using Cons.IH [OF Cons.prems, of activeSet j] by blast
    then show ?thesis
      using True by (intro exI [of _ c'] exI [of _ j'] exI [of _ activeSet']) auto
  next
    case False
    obtain c1 j1 where 1: "RemoveShardConsumer js shard (c, j) = (None, c1, j1)" "consumer_ok c1" "same_setup c c1"
      "known c1 = {k \<in> known c. ckShard k \<noteq> shard}"
      using RemoveShardConsumer_up [OF assms Cons.prems, of shard j] by blast
    obtain c' j' activeSet' where 2: "removeUnownedShardConsumers js owned active (removeAll shard activeSet) (c1, j1) = (activeSet', c', j')"
      "consumer_ok c'" "same_setup c1 c'" "known c' = {k \<in> known c1. ckShard k \<in> set active \<longrightarrow> ckShard k \<in> set owned}"
      "set activeSet' = set (removeAll shard activeSet) - (set active - set owned)"
      using Cons.IH [OF 1(2), of "removeAll shard activeSet" j1] by blast
    show ?thesis
      using 1 2 False by (intro exI [of _ c'] exI [of _ j'] exI [of _ activeSet']) (auto simp: same_setup_def)
  qed
qed (simp add: same_setup_def)

lemma ensureOwned_up:
  assumes "jetstream_up js"
  shows "consumer_ok c \<Longrightarrow>
    \<exists>c' j'. ensureOwnedShardConsumers H js activeSet owned (c, j) = (c', j') \<and> consumer_ok c' \<and> same_setup c c' \<and>
      known c' = known c \<union> (\<Union>shard \<in> set owned - set activeSet. set (shard_keys c shard))"
proof (induction owned arbitrary: c j)
  case (Cons shard owned)
  show ?case
  proof (cases "shard \<in> set activeSet")
    case True
    then show ?thesis
      using Cons.IH [OF Cons.prems, of j] by (simp add: insert_Diff_if)
  next
    case False
    obtain c1 j1 where 1: "EnsureShardConsumer H js shard (c, j) = (None, c1, j1)" "consumer_ok c1" "same_setup c c1"
      "known c1 = set (shard_keys c shard) \<union> known c"
      using EnsureShardConsumer_up [OF assms Cons.prems, of H shard j] by blast
    obtain c2 j2 where "ensureOwnedShardConsumers H js activeSet owned (c1, j1) = (c2, j2)" "consumer_ok c2" "same_setup c1 c2"
      "known c2 = known c1 \<union> (\<Union>shard \<in> set owned - set activeSet. set (shard_keys c shard))"
      using Cons.IH [OF 1(2), of j1] same_setup_keys [OF 1(3)] by auto
    then show ?thesis
      using 1 False by (intro exI [of _ c2] exI [of _ j2]) (auto simp: same_setup_def)
  qed
qed (simp add: same_setup_def)

lemma syncConsumers_known:
  assumes "jetstream_up js" and "consumer_ok c" and "syncConsumers H js m (c, j) = (c', j')"
  shows "consumer_ok c'" "shard_keys c' = shard_keys c"
    "known c' = (\<Union>shard \<in> set (OwnedShards m). set (shard_keys c shard)) \<union>
      {k \<in> known c. ckShard k \<notin> set (OwnedShards m) \<and> ckShard k \<notin> set (Consumer_OwnedShards c)}"
proof -
  let ?owned = "OwnedShards m" and ?active = "Consumer_OwnedShards c"
  let ?rest = "{k \<in> known c. ckShard k \<notin> set ?owned \<and> ckShard k \<notin> set ?active}"
  obtain c1 j1 activeSet where 1: "removeUnownedShardConsumers js ?owned ?active ?active (c, j) = (activeSet, c1, j1)" "consumer_ok c1"
    "same_setup c c1" "known c1 = {k \<in> known c. ckShard k \<in> set ?active \<longrightarrow> ckShard k \<in> set ?owned}"
    "set activeSet = set ?active - (set ?active - set ?owned)"
    using removeUnowned_up [OF assms(1,2), of ?owned ?active ?active j] by blast
  obtain c2 j2 where 2: "ensureOwnedShardConsumers H js activeSet ?owned (c1, j1) = (c2, j2)" "consumer_ok c2" "same_setup c1 c2"
    "known c2 = known c1 \<union> (\<Union>shard \<in> set ?owned - set activeSet. set (shard_keys c1 shard))"
    using ensureOwned_up [OF assms(1) 1(2), of H activeSet ?owned j1] by blast
  have c': "c' = c2"
    using assms(3) 1(1) 2(1) by (simp add: syncConsumers_def Let_def)
  have keys: "shard_keys c1 = shard_keys c" "shard_keys c2 = shard_keys c"
    using same_setup_keys [OF 1(3)] same_setup_keys [OF 2(3)] by simp_all
  have own: "k \<in> known c \<Longrightarrow> k \<in> set (shard_keys c (ckShard k))" for k
    using assms(2) by (auto simp: consumer_ok_def)
  have active: "shard \<in> set ?active \<Longrightarrow> set (shard_keys c shard) \<subseteq> known c" for shard
    using OwnedShards_iff [OF assms(2), of shard] by simp
  show "consumer_ok c'" "shard_keys c' = shard_keys c"
    using 2(2) keys(2) c' by simp_all
  show "known c' = (\<Union>shard \<in> set ?owned. set (shard_keys c shard)) \<union> ?rest"
  proof (intro equalityI subsetI)
    fix k assume "k \<in> known c'"
    then show "k \<in> (\<Union>shard \<in> set ?owned. set (shard_keys c shard)) \<union> ?rest"
      using own [of k] unfolding c' 2(4) 1(4) keys(1) by blast
  next
    fix k assume "k \<in> (\<Union>shard \<in> set ?owned. set (shard_keys c shard)) \<union> ?rest"
    then show "k \<in> known c'"
      using active shard_keys_shard [of k c] unfolding c' 2(4) 1(4,5) keys(1) by blast
  qed
qed

text \<open>C30. Reconciliation converges: when the broker answers, one pass leaves the worker with the complete consumers of exactly the shards it owns, and
  with no other consumer but those of shards that it does not own and that were incomplete before, which it leaves.\<close>

theorem syncConsumers_converges:
  assumes "jetstream_up js" and "consumer_ok c" and "syncConsumers H js m (c, j) = (c', j')"
  shows "set (Consumer_OwnedShards c') = set (OwnedShards m) \<and>
    known c' = (\<Union>shard \<in> set (OwnedShards m). set (shard_keys c shard)) \<union>
      {k \<in> known c. ckShard k \<notin> set (OwnedShards m) \<and> ckShard k \<notin> set (Consumer_OwnedShards c)}"
proof -
  note sync = syncConsumers_known [OF assms]
  have "set (shard_keys c shard) \<subseteq> known c' \<longleftrightarrow> shard \<in> set (OwnedShards m)" for shard
  proof
    assume sub: "set (shard_keys c shard) \<subseteq> known c'"
    show "shard \<in> set (OwnedShards m)"
    proof (rule ccontr)
      assume "shard \<notin> set (OwnedShards m)"
      then have "set (shard_keys c shard) \<subseteq> {k \<in> known c. ckShard k \<notin> set (Consumer_OwnedShards c)}"
        using sub shard_keys_shard unfolding sync(3) by blast
      moreover obtain k where "k \<in> set (shard_keys c shard)"
        using shard_keys_nonempty [OF assms(2), of shard] by (meson list.set_sel(1))
      ultimately show False
        using OwnedShards_iff [OF assms(2), of shard] shard_keys_shard [of k c shard] by blast
    qed
  qed (use sync(3) in blast)
  then have "set (Consumer_OwnedShards c') = set (OwnedShards m)"
    using OwnedShards_iff [OF sync(1)] sync(2) by auto
  then show ?thesis
    using sync(3) by (rule conjI)
qed

definition sample_owner :: LeaseManager where
  "sample_owner = \<lparr>lmOwner = ''a'', lmNumShards = 4, lmReplicaCount = 2, lmTtl = second, lmRenewInterval = second,
     lmOwnedShards = [(2, \<lparr>slVirtualShard = 2, slOwner = ''a'', slFencingToken = 2, slExpiresAt = 10, slRoutingEpoch = 0\<rparr>)],
     lmStarted = True, lmStopped = False, lmLoopRunning = True\<rparr>"

theorem syncConsumers_converges_witness:
  "let c' = fst (syncConsumers id (sample_jetstream\<lparr>jsDeleteConsumer := \<lambda>stream d j. (None, removeAll d j)\<rparr>) sample_owner
     (sample_consumer, [''w-shard-1'']))
   in set (Consumer_OwnedShards c') = {2} \<and> known c' = set (shard_keys sample_consumer 2)"
proof -
  let ?js = "sample_jetstream\<lparr>jsDeleteConsumer := \<lambda>stream d j. (None, removeAll d j)\<rparr>"
  obtain c' j' where p: "syncConsumers id ?js sample_owner (sample_consumer, [''w-shard-1'']) = (c', j')"
    by (metis surj_pair)
  have up: "jetstream_up ?js"
    by (simp add: jetstream_up_def sample_jetstream_def)
  have ok: "consumer_ok sample_consumer"
    by (simp add: consumer_ok_def sample_consumer_def NewConsumer_of_def shard_keys_def)
  have "set (OwnedShards sample_owner) = {2}" "\<forall>k \<in> known sample_consumer. ckShard k = 1"
    by (simp_all add: sample_owner_def OwnedShards_def sample_consumer_def NewConsumer_of_def)
  moreover have "1 \<in> set (Consumer_OwnedShards sample_consumer)"
    unfolding OwnedShards_iff [OF ok] by (simp add: sample_consumer_def NewConsumer_of_def shard_keys_def)
  ultimately show ?thesis
    using syncConsumers_converges [OF up ok p] p by auto
qed

end
