(* ===== verification/Workflow.thy ===== *)
theory Workflow
  imports TableOrder Compiler "HOL-Library.Product_Lexorder"
begin

text \<open>
  \<^verbatim>\<open>internal/adapters/postgres/workflow.go\<close> and \<^verbatim>\<open>internal/services/workflow/service.go\<close>: workflow instances and definitions.  The
  service reads an instance, checks the transition and writes it back if its version is still the one
  read.

  The definitions are kept as values: the driver writes their parts as JSON and reads them back.
  \<^verbatim>\<open>context->>'correlation_id'\<close> is a parameter, a function from the JSON text to the text of the member; a fresh identifier and the
  readings of the clocks are arguments.

  The property: any number of services working on the same instances implement the state machine:
  the history of an instance is a path of legal transitions, one for each version.
\<close>

section \<open>Instances\<close>

definition on_workflows ::
  "(time \<Rightarrow> WorkflowInstance table \<Rightarrow> WorkflowInstance table \<times> 'a) \<Rightarrow> time \<Rightarrow> database \<Rightarrow> (database \<times> 'a) result" where
  "on_workflows f now db = (let (t, a) = f now (dbWorkflows db) in Inr (db\<lparr>dbWorkflows := t\<rparr>, a))"

definition sameWorkflowCreateIdentity :: "string \<Rightarrow> string \<Rightarrow> WorkflowInstance option \<Rightarrow> bool" where
  "sameWorkflowCreateIdentity existingTenantID existingWorkflowType requested =
     (case requested of
        None \<Rightarrow> False
      | Some r \<Rightarrow> existingTenantID = wfTenantID r \<and> existingWorkflowType = wfWorkflowType r)"

definition Workflow_Save :: "WorkflowInstance option \<Rightarrow> database world \<Rightarrow> unit result \<times> database world" where
  "Workflow_Save workflow w =
     (case workflow of
        None \<Rightarrow> (Inl (ErrorString ''workflow is required''), w)
      | Some inst \<Rightarrow>
          (case Exec (on_workflows (\<lambda>now. insert_do_nothing wfWorkflowID inst)) w of
             (Inl err, w1) \<Rightarrow> (Inl (wrap ''save workflow'' err), w1)
           | (Inr n, w1) \<Rightarrow>
               if n = 0
               then case QueryRow (reading (\<lambda>now db. map_option (\<lambda>r. (wfTenantID r, wfWorkflowType r))
                           (select_row (\<lambda>r. wfWorkflowID r = wfWorkflowID inst) (dbWorkflows db)))) w1 of
                      (Inl lookupErr, w2) \<Rightarrow> (Inl (wrap ''verify duplicate workflow'' lookupErr), w2)
                    | (Inr (existingTenantID, existingWorkflowType), w2) \<Rightarrow>
                        if \<not> sameWorkflowCreateIdentity existingTenantID existingWorkflowType workflow
                        then (Inl (Sentinel ErrWorkflowConflict), w2) else (Inr (), w2)
               else (Inr (), w1)))"

definition Workflow_Get :: "string \<Rightarrow> string \<Rightarrow> database world \<Rightarrow> WorkflowInstance option result \<times> database world" where
  "Workflow_Get tenantID workflowID w =
     (case QueryRow (reading (\<lambda>now db. select_row (\<lambda>r. wfTenantID r = tenantID \<and> wfWorkflowID r = workflowID) (dbWorkflows db))) w of
        (Inl err, w') \<Rightarrow> if errors_Is err PgxErrNoRows then (Inr None, w') else (Inl (wrap ''get workflow'' err), w')
      | (Inr inst, w') \<Rightarrow> (Inr (Some inst), w'))"

text \<open>The columns an update writes, and the row it writes them to.\<close>

definition written :: "WorkflowInstance \<Rightarrow> time \<Rightarrow> WorkflowInstance \<Rightarrow> WorkflowInstance" where
  "written inst updatedAt r =
     r\<lparr>wfState := wfState inst, wfVersion := wfVersion inst, wfCurrentRevision := wfCurrentRevision inst, wfContext := wfContext inst,
       wfUpdatedAt := updatedAt, wfCompletedAt := wfCompletedAt inst\<rparr>"

definition predecessor :: "WorkflowInstance \<Rightarrow> WorkflowInstance \<Rightarrow> bool" where
  "predecessor inst r = (wfTenantID r = wfTenantID inst \<and> wfWorkflowID r = wfWorkflowID inst \<and> wfVersion r = wfVersion inst - 1)"

definition Workflow_Update :: "time \<Rightarrow> WorkflowInstance \<Rightarrow> database world \<Rightarrow> unit result \<times> database world" where
  "Workflow_Update sysNow inst w =
     (let updatedAt = (if IsZero (wfUpdatedAt inst) then sysNow else wfUpdatedAt inst)
      in case Exec (on_workflows (\<lambda>now. update_where (predecessor inst) (written inst updatedAt))) w of
           (Inl err, w') \<Rightarrow> (Inl (wrap ''update workflow'' err), w')
         | (Inr n, w') \<Rightarrow> if n = 0 then (Inl (Sentinel ErrWorkflowConflict), w') else (Inr (), w'))"

text \<open>The errors of the iterations are not looked at.\<close>

definition Workflow_GetByTenantAndState ::
  "string \<Rightarrow> string \<Rightarrow> int \<Rightarrow> database world \<Rightarrow> WorkflowInstance list result \<times> database world" where
  "Workflow_GetByTenantAndState tenantID state limit w =
     (let limit = (if limit \<le> 0 then 100 else limit)
      in case Query (reading (\<lambda>now db. order_limit wfUpdatedAt limit
               (select_rows (\<lambda>r. wfTenantID r = tenantID \<and> (state \<noteq> [] \<longrightarrow> wfState r = state)) (dbWorkflows db)))) w of
           (Inl err, w') \<Rightarrow> (Inl (wrap ''get workflows by tenant and state'' err), w')
         | (Inr (rows, _), w') \<Rightarrow> (Inr rows, w'))"

definition Workflow_GetByCorrelation ::
  "(string \<Rightarrow> string option) \<Rightarrow> string \<Rightarrow> string \<Rightarrow> database world \<Rightarrow> WorkflowInstance list result \<times> database world" where
  "Workflow_GetByCorrelation correlation tenantID correlationID w =
     (case Query (reading (\<lambda>now db. sort_key wfUpdatedAt
               (select_rows (\<lambda>r. wfTenantID r = tenantID \<and> correlation (wfContext r) = Some correlationID) (dbWorkflows db)))) w of
        (Inl err, w') \<Rightarrow> (Inl (wrap ''get workflows by correlation'' err), w')
      | (Inr (rows, _), w') \<Rightarrow> (Inr rows, w'))"

section \<open>Definitions\<close>

definition on_definitions ::
  "(time \<Rightarrow> WorkflowDefinition table \<Rightarrow> WorkflowDefinition table \<times> 'a) \<Rightarrow> time \<Rightarrow> database \<Rightarrow> (database \<times> 'a) result" where
  "on_definitions f now db = (let (t, a) = f now (dbDefinitions db) in Inr (db\<lparr>dbDefinitions := t\<rparr>, a))"

definition definition_key :: "WorkflowDefinition \<Rightarrow> string \<times> int" where
  "definition_key d = (wdWorkflowType d, wdVersion d)"

definition Definition_Save :: "WorkflowDefinition \<Rightarrow> database world \<Rightarrow> unit result \<times> database world" where
  "Definition_Save def w =
     (case Exec (on_definitions (\<lambda>now. insert_do_update definition_key def (\<lambda>r. True)
             (\<lambda>r. r\<lparr>wdStates := wdStates def, wdTransitions := wdTransitions def, wdRules := wdRules def, wdUpdatedAt := wdUpdatedAt def\<rparr>))) w of
        (Inl err, w') \<Rightarrow> (Inl (wrap ''save workflow definition'' err), w')
      | (Inr n, w') \<Rightarrow> (Inr (), w'))"

definition Definition_Get :: "string \<Rightarrow> int \<Rightarrow> database world \<Rightarrow> WorkflowDefinition option result \<times> database world" where
  "Definition_Get workflowType version w =
     (case QueryRow (reading (\<lambda>now db. select_row (\<lambda>r. definition_key r = (workflowType, version)) (dbDefinitions db))) w of
        (Inl err, w') \<Rightarrow> if errors_Is err PgxErrNoRows then (Inr None, w') else (Inl (wrap ''get workflow definition'' err), w')
      | (Inr def, w') \<Rightarrow> (Inr (Some def), w'))"

definition Definition_List :: "database world \<Rightarrow> WorkflowDefinition list result \<times> database world" where
  "Definition_List w =
     (case Query (reading (\<lambda>now db. sort_key (\<lambda>r. (wdWorkflowType r, - wdVersion r)) (dbDefinitions db))) w of
        (Inl err, w') \<Rightarrow> (Inl (wrap ''list workflow definitions'' err), w')
      | (Inr (rows, _), w') \<Rightarrow> (Inr rows, w'))"

definition Definition_Delete :: "string \<Rightarrow> int \<Rightarrow> database world \<Rightarrow> unit result \<times> database world" where
  "Definition_Delete workflowType version w =
     (case Exec (on_definitions (\<lambda>now. delete_where (\<lambda>r. definition_key r = (workflowType, version)))) w of
        (Inl err, w') \<Rightarrow> (Inl (wrap ''delete workflow definition'' err), w')
      | (Inr n, w') \<Rightarrow> (Inr (), w'))"

section \<open>The service\<close>

definition Workflow_Create :: "string \<Rightarrow> time \<Rightarrow> time \<Rightarrow> WorkflowInstance \<Rightarrow> database world \<Rightarrow> unit result \<times> database world" where
  "Workflow_Create newID createdNow updatedNow inst w =
     (let inst = (if wfWorkflowID inst = [] then inst\<lparr>wfWorkflowID := newID\<rparr> else inst);
          inst = (if IsZero (wfCreatedAt inst) then inst\<lparr>wfCreatedAt := createdNow\<rparr> else inst)
      in Workflow_Save (Some (inst\<lparr>wfUpdatedAt := updatedNow, wfVersion := 1\<rparr>)) w)"

definition WorkflowService_Get :: "string \<Rightarrow> string \<Rightarrow> database world \<Rightarrow> WorkflowInstance option result \<times> database world" where
  "WorkflowService_Get tenantID workflowID w =
     (if tenantID = [] then (Inl (Sentinel ErrWorkflowNotFound), w) else Workflow_Get tenantID workflowID w)"

text \<open>What a transition writes: \<open>sysNow\<close> is read by the domain type and \<open>now\<close> by the service.\<close>

definition transitioned :: "time \<Rightarrow> time \<Rightarrow> string \<Rightarrow> int option \<Rightarrow> WorkflowInstance \<Rightarrow> WorkflowInstance result" where
  "transitioned sysNow now toState revision inst =
     (case Transition inst toState sysNow of
        Inl err \<Rightarrow> Inl err
      | Inr inst \<Rightarrow>
          (let inst = (case revision of None \<Rightarrow> inst | Some n \<Rightarrow> inst\<lparr>wfCurrentRevision := n\<rparr>);
               inst = inst\<lparr>wfUpdatedAt := now\<rparr>
           in Inr (if toState = WorkflowStatusCompleted \<or> toState = WorkflowStatusFailed then inst\<lparr>wfCompletedAt := Some now\<rparr> else inst)))"

definition transition ::
  "time \<Rightarrow> time \<Rightarrow> string \<Rightarrow> string \<Rightarrow> string \<Rightarrow> string \<Rightarrow> int option \<Rightarrow> database world \<Rightarrow> unit result \<times> database world" where
  "transition sysNow now tenantID workflowID expectedFrom toState revision w =
     (if tenantID = [] then (Inl (Sentinel ErrWorkflowNotFound), w)
      else case Workflow_Get tenantID workflowID w of
             (Inl err, w1) \<Rightarrow> (Inl (wrap ''get workflow'' err), w1)
           | (Inr None, w1) \<Rightarrow> (Inl (Sentinel ErrWorkflowNotFound), w1)
           | (Inr (Some inst), w1) \<Rightarrow>
               if expectedFrom \<noteq> [] \<and> wfState inst \<noteq> expectedFrom
               then (Inl (ErrorString (''workflow in state '' @ wfState inst @ '', expected '' @ expectedFrom)), w1)
               else if \<not> CanTransition (wfState inst) toState then (Inl (Sentinel ErrWorkflowInvalidTransition), w1)
               else case transitioned sysNow now toState revision inst of
                      Inl err \<Rightarrow> (Inl err, w1)
                    | Inr inst' \<Rightarrow> Workflow_Update sysNow inst' w1)"

definition UpdateState :: "time \<Rightarrow> time \<Rightarrow> string \<Rightarrow> string \<Rightarrow> string \<Rightarrow> int \<Rightarrow> database world \<Rightarrow> unit result \<times> database world" where
  "UpdateState sysNow now tenantID workflowID newState revision w =
     transition sysNow now tenantID workflowID [] newState (Some revision) w"

definition WorkflowService_Transition ::
  "time \<Rightarrow> time \<Rightarrow> string \<Rightarrow> string \<Rightarrow> string \<Rightarrow> string \<Rightarrow> database world \<Rightarrow> unit result \<times> database world" where
  "WorkflowService_Transition sysNow now tenantID workflowID fromState toState w =
     transition sysNow now tenantID workflowID fromState toState None w"

definition WorkflowService_GetByTenantAndState ::
  "string \<Rightarrow> string \<Rightarrow> int \<Rightarrow> database world \<Rightarrow> WorkflowInstance list result \<times> database world" where
  "WorkflowService_GetByTenantAndState tenantID state limit w =
     (let limit = (if limit \<le> 0 then 100 else limit) in Workflow_GetByTenantAndState tenantID state limit w)"

definition WorkflowService_GetByCorrelation ::
  "(string \<Rightarrow> string option) \<Rightarrow> string \<Rightarrow> string \<Rightarrow> database world \<Rightarrow> WorkflowInstance list result \<times> database world" where
  "WorkflowService_GetByCorrelation correlation tenantID correlationID w =
     (if tenantID = [] then (Inl (ErrorString ''tenant_id is required''), w)
      else Workflow_GetByCorrelation correlation tenantID correlationID w)"

section \<open>The history of an instance\<close>

text \<open>The abstract machine takes one legal transition per version.\<close>

definition workflow_grows :: "WorkflowInstance \<Rightarrow> WorkflowInstance \<Rightarrow> bool" where
  "workflow_grows r r' =
     (wfWorkflowID r' = wfWorkflowID r \<and> wfTenantID r' = wfTenantID r \<and> wfWorkflowType r' = wfWorkflowType r \<and>
      wfCreatedAt r' = wfCreatedAt r \<and> wfVersion r \<le> wfVersion r' \<and>
      (CanTransition ^^ nat (wfVersion r' - wfVersion r)) (wfState r) (wfState r') \<and> (wfVersion r' = wfVersion r \<longrightarrow> r' = r))"

lemma workflow_grows_trans:
  assumes "workflow_grows r r'" "workflow_grows r' r''"
  shows "workflow_grows r r''"
proof -
  have "nat (wfVersion r'' - wfVersion r) = nat (wfVersion r' - wfVersion r) + nat (wfVersion r'' - wfVersion r')"
    using assms by (simp add: workflow_grows_def nat_add_distrib [symmetric])
  then have "(CanTransition ^^ nat (wfVersion r'' - wfVersion r)) (wfState r) (wfState r'')"
    using assms by (auto simp: workflow_grows_def relpowp_add)
  then show ?thesis
    using assms by (auto simp: workflow_grows_def)
qed

interpretation workflow_rows: growing_rows wfWorkflowID dbWorkflows workflow_grows
proof unfold_locales
  show "workflow_grows r r" for r
    by (simp add: workflow_grows_def)
  show "workflow_grows r r''" if "workflow_grows r r'" "workflow_grows r' r''" for r r' r''
    using that by (rule workflow_grows_trans)
  show "wfWorkflowID r' = wfWorkflowID r" if "workflow_grows r r'" for r r'
    using that by (simp add: workflow_grows_def)
qed

abbreviation workflow_order :: "database \<Rightarrow> database \<Rightarrow> bool" where
  "workflow_order \<equiv> table_order dbWorkflows wfWorkflowID workflow_grows"

lemma on_workflows_Inr: "on_workflows f now db = Inr (db', a) \<Longrightarrow> db' = db\<lparr>dbWorkflows := fst (f now (dbWorkflows db))\<rparr>"
  by (auto simp: on_workflows_def split: prod.splits)

lemma Workflow_Save_within: "within workflow_order w (snd (Workflow_Save workflow w))"
proof (cases workflow)
  case (Some inst)
  have save: "guarantees workflow_order (on_workflows (\<lambda>now. insert_do_nothing wfWorkflowID inst))"
    by (auto simp: guarantees_def table_order_def workflow_rows.live_insert_do_nothing dest!: on_workflows_Inr)
  show ?thesis
    using Some
    by (auto simp: Workflow_Save_def split: prod.split sum.split
        intro: workflow_rows.withinI(1) [OF _ save] workflow_rows.within_trans [OF workflow_rows.withinI(1) [OF _ save]]
          workflow_rows.withinI_reading)
qed (simp add: Workflow_Save_def workflow_rows.within_refl)

text \<open>A legal transition of the row it was computed from is the next step of that row.\<close>

lemma transitioned_grows:
  assumes "transitioned sysNow now toState revision r = Inr inst"
  shows "workflow_grows r (written inst updatedAt r)" "predecessor inst r"
proof -
  have "CanTransition (wfState r) toState"
    using assms by (auto simp: transitioned_def Transition_def Let_def split: sum.splits if_splits)
  moreover have "wfState inst = toState" "wfVersion inst = wfVersion r + 1" "wfTenantID inst = wfTenantID r" "wfWorkflowID inst = wfWorkflowID r"
    using assms by (auto simp: transitioned_def Transition_def Let_def split: sum.splits if_splits option.splits)
  ultimately show "workflow_grows r (written inst updatedAt r)" "predecessor inst r"
    by (auto simp: workflow_grows_def written_def predecessor_def)
qed

text \<open>Optimistic concurrency: the row that still has the version that was read is the row that was read.\<close>

lemma update_read_row:
  assumes "workflow_order db0 db1" "distinct (map wfWorkflowID (dbWorkflows db0))" "r \<in> set (dbWorkflows db0)"
    and "transitioned sysNow now toState revision r = Inr inst"
  shows "rows_live_on wfWorkflowID workflow_grows (dbWorkflows db1) (fst (update_where (predecessor inst) (written inst updatedAt) (dbWorkflows db1)))"
proof (rule workflow_rows.live_update)
  fix r1 assume r1: "r1 \<in> set (dbWorkflows db1)" "predecessor inst r1"
  note t = transitioned_grows [OF assms(4)]
  have "workflow_grows r r1"
    using workflow_rows.lives [OF assms(1,2,3) r1(1)] r1(2) t(2) by (simp add: predecessor_def)
  then have "r1 = r"
    using r1(2) t(2) by (auto simp: predecessor_def workflow_grows_def)
  then show "workflow_grows r1 (written inst updatedAt r1)"
    using t(1) by simp
qed

lemma Exec_db: "woDb (snd (Exec f w)) = now_db w \<or> (\<exists>a. f (moNow (shd (woFuture w))) (now_db w) = Inr (woDb (snd (Exec f w)), a))"
  by (auto simp: Exec_def db_call_def Let_def split: fault.split prod.split sum.split)

lemma rely_future: "rely R w \<Longrightarrow> woFuture w' = stl (woFuture w) \<Longrightarrow> rely R w'"
  unfolding rely_def by (auto dest: stl_sset)

lemma Workflow_Update_world:
  obtains u where "snd (Workflow_Update sysNow inst w) = snd (Exec (on_workflows (\<lambda>now. update_where (predecessor inst) (written inst u))) w)"
  by (rule that [of "if IsZero (wfUpdatedAt inst) then sysNow else wfUpdatedAt inst"])
    (simp add: Workflow_Update_def Let_def split: prod.split sum.split)

lemma Workflow_Update_order:
  assumes "rely workflow_order w1" "workflow_order db0 (woDb w1)" "distinct (map wfWorkflowID (dbWorkflows db0))"
    and "r \<in> set (dbWorkflows db0)" "transitioned sysNow now toState revision r = Inr inst"
  shows "workflow_order db0 (woDb (snd (Workflow_Update sysNow inst w1)))"
proof -
  have now: "workflow_order db0 (now_db w1)"
    using assms(2) workflow_rows.rely_others [OF assms(1)] by (rule workflow_rows.R_trans)
  have upd: "workflow_order db0 ((now_db w1)\<lparr>dbWorkflows := fst (update_where (predecessor inst) (written inst u) (dbWorkflows (now_db w1)))\<rparr>)" for u
    using update_read_row [OF now assms(3,4,5)] by (intro workflow_rows.R_trans [OF now]) (simp add: table_order_def)
  obtain u where u: "snd (Workflow_Update sysNow inst w1) = snd (Exec (on_workflows (\<lambda>now. update_where (predecessor inst) (written inst u))) w1)"
    by (rule Workflow_Update_world)
  show ?thesis
    unfolding u using now upd [of u] Exec_db [of "on_workflows (\<lambda>now. update_where (predecessor inst) (written inst u))" w1]
    by (auto dest!: on_workflows_Inr)
qed

lemma Workflow_Get_found:
  assumes "Workflow_Get tenantID workflowID w = (Inr (Some inst), w1)"
  shows "inst \<in> set (dbWorkflows (now_db w))" "woDb w1 = now_db w" "woFuture w1 = stl (woFuture w)"
proof -
  have "QueryRow (reading (\<lambda>now db. select_row (\<lambda>r. wfTenantID r = tenantID \<and> wfWorkflowID r = workflowID) (dbWorkflows db))) w = (Inr inst, w1)"
    using assms by (auto simp: Workflow_Get_def split: prod.splits sum.splits if_splits)
  from QueryRow_Inr [OF this] show "inst \<in> set (dbWorkflows (now_db w))" "woDb w1 = now_db w" "woFuture w1 = stl (woFuture w)"
    by (auto simp: select_row_def dest: find_SomeD)
qed

lemma Workflow_Get_within: "within workflow_order w (snd (Workflow_Get tenantID workflowID w))"
  by (auto simp: Workflow_Get_def split: prod.split sum.split intro: workflow_rows.withinI_reading)

lemma transition_within: "within workflow_order w (snd (transition sysNow now tenantID workflowID expectedFrom toState revision w))"
proof (cases "\<exists>inst w1 inst'. Workflow_Get tenantID workflowID w = (Inr (Some inst), w1) \<and> transitioned sysNow now toState revision inst = Inr inst' \<and>
    transition sysNow now tenantID workflowID expectedFrom toState revision w = Workflow_Update sysNow inst' w1")
  case True
  then obtain inst w1 inst' where get: "Workflow_Get tenantID workflowID w = (Inr (Some inst), w1)"
    and inst': "transitioned sysNow now toState revision inst = Inr inst'"
    and upd: "transition sysNow now tenantID workflowID expectedFrom toState revision w = Workflow_Update sysNow inst' w1"
    by blast
  note found = Workflow_Get_found [OF get]
  show ?thesis
    unfolding within_def
  proof (intro impI conjI)
    assume rely: "rely workflow_order w"
    then have rely1: "rely workflow_order w1"
      using found(3) by (rule rely_future)
    have others: "workflow_order (woDb w) (now_db w)"
      using rely by (rule workflow_rows.rely_others)
    show "rely workflow_order (snd (transition sysNow now tenantID workflowID expectedFrom toState revision w))"
      using rely1 Workflow_Update_world [of sysNow inst' w1] unfolding upd by (metis call_future(1) rely_future)
    show "workflow_order (woDb w) (woDb (snd (transition sysNow now tenantID workflowID expectedFrom toState revision w)))"
    proof (cases "distinct (map wfWorkflowID (dbWorkflows (woDb w)))")
      case True
      then have "distinct (map wfWorkflowID (dbWorkflows (now_db w)))"
        using others by (simp add: table_order_def rows_live_on_def)
      then have "workflow_order (now_db w) (woDb (snd (Workflow_Update sysNow inst' w1)))"
        using Workflow_Update_order [OF rely1 _ _ found(1) inst'] found(2) workflow_rows.R_refl [of "now_db w"] by simp
      then show ?thesis
        using others upd workflow_rows.R_trans by simp
    qed (simp add: table_order_def rows_live_on_def)
  qed
next
  case False
  then have "snd (transition sysNow now tenantID workflowID expectedFrom toState revision w) \<in> {w, snd (Workflow_Get tenantID workflowID w)}"
    by (auto simp: transition_def split: prod.splits sum.splits option.splits)
  then show ?thesis
    using Workflow_Get_within workflow_rows.within_refl by auto
qed

datatype workflow_call =
    CallCreate string time time WorkflowInstance
  | CallUpdateState time time string string string int
  | CallTransition time time string string string string

primrec perform_workflow :: "workflow_call \<Rightarrow> database world \<Rightarrow> database world" where
  "perform_workflow (CallCreate newID createdNow updatedNow inst) w = snd (Workflow_Create newID createdNow updatedNow inst w)"
| "perform_workflow (CallUpdateState sysNow now tenantID workflowID newState revision) w =
     snd (UpdateState sysNow now tenantID workflowID newState revision w)"
| "perform_workflow (CallTransition sysNow now tenantID workflowID fromState toState) w =
     snd (WorkflowService_Transition sysNow now tenantID workflowID fromState toState w)"

lemma perform_workflow_within: "within workflow_order w (perform_workflow c w)"
  by (cases c)
    (simp_all add: Workflow_Create_def Let_def Workflow_Save_within UpdateState_def WorkflowService_Transition_def transition_within)

lemma no_exit: "s \<in> {WorkflowStatusCompleted, WorkflowStatusFailed} \<Longrightarrow> \<not> CanTransition s s'"
  by (auto simp: CanTransition_def validTransitions_def go_simps)

lemma final_states: "s \<in> {WorkflowStatusCompleted, WorkflowStatusFailed} \<Longrightarrow> (CanTransition ^^ n) s s' \<Longrightarrow> n = 0"
  using no_exit [of s] by (cases n) (blast dest: relpowp_Suc_D2)+

text \<open>C13. The service implements the state machine of workflows: whatever instances are created and
  transitions asked for, by any number of services at once and amid failing calls, an instance keeps its
  identity and reaches its later state by a path of legal transitions, exactly one for every increment
  of its version; so a completed or failed instance never changes again.\<close>

theorem workflow_refines_state_machine:
  assumes "rely workflow_order w" and "distinct (map wfWorkflowID (dbWorkflows (woDb w)))" and "r \<in> set (dbWorkflows (woDb w))"
  shows "\<exists>r' \<in> set (dbWorkflows (woDb (fold perform_workflow calls w))).
    wfWorkflowID r' = wfWorkflowID r \<and> wfTenantID r' = wfTenantID r \<and> wfVersion r \<le> wfVersion r' \<and>
    (CanTransition ^^ nat (wfVersion r' - wfVersion r)) (wfState r) (wfState r') \<and>
    (wfState r \<in> {WorkflowStatusCompleted, WorkflowStatusFailed} \<longrightarrow> r' = r)"
proof -
  have "within workflow_order w (fold perform_workflow calls w)"
    by (rule workflow_rows.fold_within) (rule perform_workflow_within)
  then obtain r' where r': "r' \<in> set (dbWorkflows (woDb (fold perform_workflow calls w)))" "workflow_grows r r'"
    using assms by (auto simp: within_def table_order_def rows_live_on_def)
  moreover have "r' = r" if "wfState r \<in> {WorkflowStatusCompleted, WorkflowStatusFailed}"
    using r'(2) final_states [OF that, of "nat (wfVersion r' - wfVersion r)" "wfState r'"] by (simp add: workflow_grows_def)
  ultimately show ?thesis
    by (auto simp: workflow_grows_def)
qed

definition sample_workflow :: WorkflowInstance where
  "sample_workflow =
     \<lparr>wfWorkflowID = ''x'', wfTenantID = ''t'', wfWorkflowType = ''order'', wfState = WorkflowStatusPending, wfVersion = 1,
      wfCurrentRevision = 0, wfContext = [], wfCreatedAt = 1, wfUpdatedAt = 1, wfCompletedAt = None\<rparr>"

theorem workflow_refines_state_machine_witness:
  "\<exists>r' \<in> set (dbWorkflows (woDb (perform_workflow (CallTransition 2 2 ''t'' ''x'' [] WorkflowStatusRunning)
       (calm 2 (empty_database\<lparr>dbWorkflows := [sample_workflow]\<rparr>))))).
     wfWorkflowID r' = ''x'' \<and> (CanTransition ^^ nat (wfVersion r' - 1)) WorkflowStatusPending (wfState r')"
  using workflow_refines_state_machine [of "calm 2 (empty_database\<lparr>dbWorkflows := [sample_workflow]\<rparr>)" sample_workflow
      "[CallTransition 2 2 ''t'' ''x'' [] WorkflowStatusRunning]"]
  by (auto simp: rely_calm workflow_rows.R_refl sample_workflow_def)

end
