(* ===== verification/PublicAddress.thy ===== *)
theory PublicAddress
  imports DomainErrors GoStrings
begin

text \<open>
  The addresses a tenant's endpoint may have: \<^verbatim>\<open>isPublicIP\<close>, \<^verbatim>\<open>isNonPublicAddress\<close> and \<^verbatim>\<open>isInCIDRList\<close> of
  \<^verbatim>\<open>internal/adapters/effects/domain_service_sender.go\<close>, on the addresses and networks of the package \<^verbatim>\<open>net\<close>.  An address is its 4 or
  16 bytes, nil is the empty list; the constant networks are given by their bytes and prefix length.

  The reference is a list of networks and the bits of an address: an address is special if its first
  bits are those of a network of the list.  The lemma \<open>isPublicIP_iff\<close> says that the code accepts exactly the
  addresses that are not special, where an IPv4 address wrapped as an IPv6 address counts as the IPv4
  address it is.
\<close>

unbundle bit_operations_syntax

section \<open>The package net\<close>

type_synonym byte = "8 word"
type_synonym ip = "byte list"

abbreviation v4InV6Prefix :: "byte list" where
  "v4InV6Prefix \<equiv> [0, 0, 0, 0, 0, 0, 0, 0, 0, 0, 255, 255]"

definition To4 :: "ip \<Rightarrow> ip option" where
  "To4 ip = (if length ip = 4 then Some ip
     else if length ip = 16 \<and> take 12 ip = v4InV6Prefix then Some (drop 12 ip) else None)"

definition ip_Equal :: "ip \<Rightarrow> ip \<Rightarrow> bool" where
  "ip_Equal ip x =
     (if length ip = length x then ip = x
      else if length ip = 4 \<and> length x = 16 then take 12 x = v4InV6Prefix \<and> ip = drop 12 x
      else if length ip = 16 \<and> length x = 4 then take 12 ip = v4InV6Prefix \<and> drop 12 ip = x
      else False)"

definition IPv4zero :: ip where
  "IPv4zero = v4InV6Prefix @ [0, 0, 0, 0]"

definition IPv4bcast :: ip where
  "IPv4bcast = v4InV6Prefix @ [255, 255, 255, 255]"

definition IPv6unspecified :: ip where
  "IPv6unspecified = replicate 16 0"

definition IPv6loopback :: ip where
  "IPv6loopback = replicate 15 0 @ [1]"

definition IsUnspecified :: "ip \<Rightarrow> bool" where
  "IsUnspecified ip = (ip_Equal ip IPv4zero \<or> ip_Equal ip IPv6unspecified)"

definition IsLoopback :: "ip \<Rightarrow> bool" where
  "IsLoopback ip = (case To4 ip of Some ip4 \<Rightarrow> ip4 ! 0 = 127 | None \<Rightarrow> ip_Equal ip IPv6loopback)"

definition IsPrivate :: "ip \<Rightarrow> bool" where
  "IsPrivate ip =
     (case To4 ip of
        Some ip4 \<Rightarrow> ip4 ! 0 = 10 \<or> ip4 ! 0 = 172 \<and> ip4 ! 1 AND 0xf0 = 16 \<or> ip4 ! 0 = 192 \<and> ip4 ! 1 = 168
      | None \<Rightarrow> length ip = 16 \<and> ip ! 0 AND 0xfe = 0xfc)"

definition IsMulticast :: "ip \<Rightarrow> bool" where
  "IsMulticast ip =
     (case To4 ip of Some ip4 \<Rightarrow> ip4 ! 0 AND 0xf0 = 0xe0 | None \<Rightarrow> length ip = 16 \<and> ip ! 0 = 0xff)"

definition IsLinkLocalMulticast :: "ip \<Rightarrow> bool" where
  "IsLinkLocalMulticast ip =
     (case To4 ip of
        Some ip4 \<Rightarrow> ip4 ! 0 = 224 \<and> ip4 ! 1 = 0 \<and> ip4 ! 2 = 0
      | None \<Rightarrow> length ip = 16 \<and> ip ! 0 = 0xff \<and> ip ! 1 AND 0x0f = 0x02)"

definition IsLinkLocalUnicast :: "ip \<Rightarrow> bool" where
  "IsLinkLocalUnicast ip =
     (case To4 ip of
        Some ip4 \<Rightarrow> ip4 ! 0 = 169 \<and> ip4 ! 1 = 254
      | None \<Rightarrow> length ip = 16 \<and> ip ! 0 = 0xfe \<and> ip ! 1 AND 0xc0 = 0x80)"

definition IsGlobalUnicast :: "ip \<Rightarrow> bool" where
  "IsGlobalUnicast ip =
     ((length ip = 4 \<or> length ip = 16) \<and> \<not> ip_Equal ip IPv4bcast \<and> \<not> IsUnspecified ip \<and> \<not> IsLoopback ip \<and>
      \<not> IsMulticast ip \<and> \<not> IsLinkLocalUnicast ip)"

text \<open>A network: its bytes and the number of ones of its mask.\<close>

type_synonym cidr = "ip \<times> nat"

primrec CIDRMask :: "nat \<Rightarrow> nat \<Rightarrow> byte list" where
  "CIDRMask n 0 = []"
| "CIDRMask n (Suc l) = (if n \<ge> 8 then 255 # CIDRMask (n - 8) l else NOT (drop_bit n 255) # CIDRMask 0 l)"

definition masked :: "byte list \<Rightarrow> byte list \<Rightarrow> byte list" where
  "masked m ip = map2 (AND) ip m"

definition Contains :: "cidr \<Rightarrow> ip \<Rightarrow> bool" where
  "Contains network ip =
     (let (nn, ones) = network; ip = (case To4 ip of Some x \<Rightarrow> x | None \<Rightarrow> ip); m = CIDRMask ones (length nn)
      in length ip = length nn \<and> masked m nn = masked m ip)"

section \<open>Public addresses\<close>

definition v6 :: "byte list \<Rightarrow> ip" where
  "v6 bs = bs @ replicate (16 - length bs) 0"

definition reservedIPv4CIDRs :: "cidr list" where
  "reservedIPv4CIDRs =
     [([0, 0, 0, 0], 8), ([100, 64, 0, 0], 10), ([192, 0, 0, 0], 24), ([192, 88, 99, 0], 24), ([192, 0, 2, 0], 24),
      ([198, 18, 0, 0], 15), ([198, 51, 100, 0], 24), ([203, 0, 113, 0], 24), ([240, 0, 0, 0], 4)]"

definition reservedIPv6CIDRs :: "cidr list" where
  "reservedIPv6CIDRs =
     [(v6 [], 96), (v6 [0x00, 0x64, 0xff, 0x9b], 96), (v6 [0x00, 0x64, 0xff, 0x9b, 0x00, 0x01], 48), (v6 [0x01, 0x00], 64),
      (v6 [0x20, 0x01], 23), (v6 [0x20, 0x01, 0x0d, 0xb8], 32), (v6 [0x20, 0x02], 16), (v6 [0x3f, 0xff], 20),
      (v6 [0xfe, 0xc0], 10)]"

primrec isInCIDRList :: "ip \<Rightarrow> cidr list \<Rightarrow> bool" where
  "isInCIDRList ip [] = False"
| "isInCIDRList ip (network # cidrs) = (if Contains network ip then True else isInCIDRList ip cidrs)"

definition isNonPublicAddress :: "ip \<Rightarrow> bool" where
  "isNonPublicAddress ip =
     (ip = [] \<or> IsPrivate ip \<or> IsLoopback ip \<or> IsLinkLocalUnicast ip \<or> IsLinkLocalMulticast ip \<or>
      IsUnspecified ip \<or> IsMulticast ip \<or> \<not> IsGlobalUnicast ip)"

definition isPublicIP :: "ip \<Rightarrow> bool" where
  "isPublicIP ip =
     (if isNonPublicAddress ip then False
      else case To4 ip of
             Some ip4 \<Rightarrow> \<not> isInCIDRList ip4 reservedIPv4CIDRs
           | None \<Rightarrow> \<not> isInCIDRList ip reservedIPv6CIDRs)"

section \<open>The reference\<close>

definition byte_bits :: "byte \<Rightarrow> bool list" where
  "byte_bits b = map (\<lambda>k. bit b (7 - k)) [0..<8]"

definition address_bits :: "ip \<Rightarrow> bool list" where
  "address_bits ip = concat (map byte_bits ip)"

definition in_network :: "cidr \<Rightarrow> ip \<Rightarrow> bool" where
  "in_network network ip =
     (length ip = length (fst network) \<and> take (snd network) (address_bits ip) = take (snd network) (address_bits (fst network)))"

text \<open>The networks that are not public: private use, loopback, link-local, multicast, and the reserved
  ones.\<close>

definition special_networks :: "cidr list" where
  "special_networks =
     [([10, 0, 0, 0], 8), ([172, 16, 0, 0], 12), ([192, 168, 0, 0], 16), ([127, 0, 0, 0], 8), ([169, 254, 0, 0], 16),
      ([224, 0, 0, 0], 4), (v6 [0xfc], 7), (v6 [0xfe, 0x80], 10), (v6 [0xff], 8)] @
     reservedIPv4CIDRs @ reservedIPv6CIDRs"

definition canonical :: "ip \<Rightarrow> ip" where
  "canonical ip = (case To4 ip of Some x \<Rightarrow> x | None \<Rightarrow> ip)"

definition public_address :: "ip \<Rightarrow> bool" where
  "public_address ip =
     ((length ip = 4 \<or> length ip = 16) \<and> \<not> (\<exists>network \<in> set special_networks. in_network network (canonical ip)))"

subsection \<open>Masks and prefixes\<close>

lemma byte_255: "(255 :: byte) = - 1"
  by simp

lemma bit_byte_255: "bit (255 :: byte) j \<longleftrightarrow> j < 8"
  unfolding byte_255 by (simp add: possible_bit_word)

lemma and_255: "(b :: byte) AND 255 = b"
  unfolding byte_255 by simp

lemma length_byte_bits [simp]: "length (byte_bits b) = 8"
  by (simp add: byte_bits_def)

lemma take_byte_bits: "n \<le> 8 \<Longrightarrow> take n (byte_bits a) = take n (byte_bits b) \<longleftrightarrow> (\<forall>k < n. bit a (7 - k) = bit b (7 - k))"
  by (auto simp: list_eq_iff_nth_eq byte_bits_def)

lemma byte_eq_iff: "(a :: byte) = b \<longleftrightarrow> byte_bits a = byte_bits b"
proof
  assume "byte_bits a = byte_bits b"
  then have eq: "\<forall>k < 8. bit a (7 - k) = bit b (7 - k)"
    using take_byte_bits [of 8 a b] by simp
  have "bit a j = bit b j" if "j < 8" for j
    using eq [rule_format, of "7 - j"] that by simp
  then show "a = b"
    by (intro bit_word_eqI) simp
qed simp

text \<open>The byte of a mask with fewer than eight ones keeps the leading bits.\<close>

lemma mask_byte_bits:
  assumes "n < 8"
  shows "a AND NOT (drop_bit n 255) = b AND NOT (drop_bit n (255 :: byte)) \<longleftrightarrow> take n (byte_bits a) = take n (byte_bits b)"
proof -
  have "a AND NOT (drop_bit n 255) = b AND NOT (drop_bit n 255) \<longleftrightarrow> (\<forall>j < 8. 8 \<le> n + j \<longrightarrow> bit a j = bit b j)"
    unfolding bit_eq_iff byte_255 by (auto simp: bit_and_iff bit_not_iff bit_mask_iff possible_bit_word)
  also have "\<dots> \<longleftrightarrow> (\<forall>k < n. bit a (7 - k) = bit b (7 - k))"
  proof (rule iffI; intro allI impI)
    fix k assume "\<forall>j < 8. 8 \<le> n + j \<longrightarrow> bit a j = bit b j" "k < n"
    then show "bit a (7 - k) = bit b (7 - k)"
      using assms by simp
  next
    fix j assume h: "\<forall>k < n. bit a (7 - k) = bit b (7 - k)" and j: "j < 8" "8 \<le> n + j"
    have "7 - j < n" "7 - (7 - j) = j"
      using j by linarith+
    then show "bit a j = bit b j"
      using h by metis
  qed
  finally show ?thesis
    using assms by (simp add: take_byte_bits)
qed

lemma no_mask: "b AND NOT (drop_bit 0 255) = (0 :: byte)"
  unfolding byte_255 by simp

lemma masked_0: "masked (CIDRMask 0 l) a = replicate (min (length a) l) 0"
proof (induction l arbitrary: a)
  case (Suc l)
  then show ?case
    using no_mask by (cases a) (simp_all add: masked_def del: drop_bit_0 drop_bit_of_nat)
qed (simp add: masked_def)

lemma masked_iff:
  "length a = l \<Longrightarrow> length b = l \<Longrightarrow> masked (CIDRMask n l) a = masked (CIDRMask n l) b \<longleftrightarrow> take n (address_bits a) = take n (address_bits b)"
proof (induction l arbitrary: a b n)
  case (Suc l)
  obtain x a' y b' where ab: "a = x # a'" "b = y # b'" "length a' = l" "length b' = l"
    using Suc.prems by (metis length_Suc_conv)
  show ?case
  proof (cases "n \<ge> 8")
    case True
    have "masked (CIDRMask n (Suc l)) a = masked (CIDRMask n (Suc l)) b \<longleftrightarrow>
        byte_bits x = byte_bits y \<and> take (n - 8) (address_bits a') = take (n - 8) (address_bits b')"
      using True Suc.IH [OF ab(3,4), of "n - 8"] by (simp add: ab masked_def and_255 byte_eq_iff)
    also have "\<dots> \<longleftrightarrow> take n (address_bits a) = take n (address_bits b)"
      using True by (simp add: ab address_bits_def)
    finally show ?thesis .
  next
    case False
    have "masked (CIDRMask n (Suc l)) a = masked (CIDRMask n (Suc l)) b \<longleftrightarrow>
        x AND NOT (drop_bit n 255) = y AND NOT (drop_bit n 255) \<and> masked (CIDRMask 0 l) a' = masked (CIDRMask 0 l) b'"
      using False by (simp add: ab masked_def)
    also have "\<dots> \<longleftrightarrow> take n (address_bits a) = take n (address_bits b)"
      using False ab(3,4) mask_byte_bits [of n x y] by (simp add: ab address_bits_def masked_0)
    finally show ?thesis .
  qed
qed (simp add: masked_def)

declare CIDRMask.simps [simp del]

lemma in_network_masked:
  "in_network network ip \<longleftrightarrow>
     length ip = length (fst network) \<and>
     masked (CIDRMask (snd network) (length (fst network))) ip = masked (CIDRMask (snd network) (length (fst network))) (fst network)"
  using masked_iff [of ip "length (fst network)" "fst network"] by (auto simp: in_network_def)

lemma Contains_iff: "Contains network ip \<longleftrightarrow> in_network network (canonical ip)"
  unfolding in_network_masked by (auto simp: Contains_def canonical_def Let_def split: prod.split)

lemma isInCIDRList_iff: "isInCIDRList ip cidrs \<longleftrightarrow> (\<exists>network \<in> set cidrs. in_network network (canonical ip))"
  by (induction cidrs) (auto simp: Contains_iff)

subsection \<open>The code accepts exactly the public addresses\<close>

text \<open>The tests of the package, byte by byte, as membership in networks.\<close>

lemma v4_cases:
  assumes "length ip = 4"
  obtains a b c d where "ip = [a, b, c, d]"
  using assms by (auto simp: numeral_eq_Suc length_Suc_conv)

lemma IPv6_constants:
  "IPv6unspecified = [0, 0, 0, 0, 0, 0, 0, 0, 0, 0, 0, 0, 0, 0, 0, 0]" "IPv6loopback = [0, 0, 0, 0, 0, 0, 0, 0, 0, 0, 0, 0, 0, 0, 0, 1]"
  by (simp_all add: IPv6unspecified_def IPv6loopback_def numeral_eq_Suc)

lemma To4_cases:
  assumes "To4 ip = Some ip4"
  shows "ip = ip4 \<or> ip = v4InV6Prefix @ ip4" "length ip4 = 4"
  using assms append_take_drop_id [of 12 ip] by (auto simp: To4_def simp del: append_take_drop_id split: if_splits)

lemma To4_Equal:
  assumes "To4 ip = Some ip4"
  shows "ip_Equal ip IPv4zero \<longleftrightarrow> ip4 = [0, 0, 0, 0]" "ip_Equal ip IPv4bcast \<longleftrightarrow> ip4 = [255, 255, 255, 255]"
    "\<not> ip_Equal ip IPv6unspecified" "ip \<noteq> []" "length ip = 4 \<or> length ip = 16"
  using To4_cases [OF assms] by (auto simp: ip_Equal_def IPv4zero_def IPv4bcast_def IPv6_constants)

lemma nonpublic_v4:
  assumes "To4 ip = Some [a, b, c, d]"
  shows "isNonPublicAddress ip \<longleftrightarrow>
    a = 10 \<or> a = 172 \<and> b AND 0xf0 = 16 \<or> a = 192 \<and> b = 168 \<or> a = 127 \<or> a = 169 \<and> b = 254 \<or> a AND 0xf0 = 0xe0 \<or>
    [a, b, c, d] = [0, 0, 0, 0] \<or> [a, b, c, d] = [255, 255, 255, 255]"
proof -
  have nth: "[a, b, c, d] ! 0 = a" "[a, b, c, d] ! 1 = b" "[a, b, c, d] ! 2 = c"
    by simp_all
  have "a = 224 \<longrightarrow> a AND 0xf0 = 0xe0"
    by simp
  then show ?thesis
    unfolding isNonPublicAddress_def IsPrivate_def IsLoopback_def IsLinkLocalUnicast_def IsLinkLocalMulticast_def
      IsUnspecified_def IsMulticast_def IsGlobalUnicast_def To4_Equal(1,2) [OF assms] assms option.case nth
    using To4_Equal(3-5) [OF assms] by argo
qed

lemma in_network_byte: "8 \<le> n \<Longrightarrow> in_network (k # ks, n) (x # xs) \<longleftrightarrow> x = k \<and> in_network (ks, n - 8) xs"
  by (auto simp: in_network_def address_bits_def byte_eq_iff)

lemma in_network_bits:
  "n < 8 \<Longrightarrow> in_network (k # ks, n) (x # xs) \<longleftrightarrow> length xs = length ks \<and> x AND NOT (drop_bit n 255) = k AND NOT (drop_bit n 255)"
  unfolding mask_byte_bits by (simp add: in_network_def address_bits_def)

lemma in_network_0: "in_network (ks, 0) xs \<longleftrightarrow> length xs = length ks"
  by (simp add: in_network_def)

lemma mask_bytes:
  "NOT (drop_bit 2 255) = (0xc0 :: byte)" "NOT (drop_bit 4 255) = (0xf0 :: byte)" "NOT (drop_bit 7 255) = (0xfe :: byte)"
  by simp_all

lemmas in_network_steps = in_network_byte in_network_0 in_network_bits [of 2, unfolded mask_bytes]
  in_network_bits [of 4, unfolded mask_bytes] in_network_bits [of 7, unfolded mask_bytes]

lemma in_v4:
  "in_network ([k, 0, 0, 0], 8) [a, b, c, d] \<longleftrightarrow> a = k"
  "in_network ([k, l, 0, 0], 16) [a, b, c, d] \<longleftrightarrow> a = k \<and> b = l"
  "in_network ([k, 0, 0, 0], 4) [a, b, c, d] \<longleftrightarrow> a AND 0xf0 = k AND 0xf0"
  "in_network ([k, l, 0, 0], 12) [a, b, c, d] \<longleftrightarrow> a = k \<and> b AND 0xf0 = l AND 0xf0"
  by (simp_all add: in_network_steps)

lemma length_v6: "length bs \<le> 16 \<Longrightarrow> length (v6 bs) = 16"
  by (simp add: v6_def)

lemma in_v6:
  assumes "length r = 14"
  shows "in_network (v6 [k], 7) (x # y # r) \<longleftrightarrow> x AND 0xfe = k AND 0xfe"
    "in_network (v6 [k], 8) (x # y # r) \<longleftrightarrow> x = k"
    "in_network (v6 [k, l], 10) (x # y # r) \<longleftrightarrow> x = k \<and> y AND 0xc0 = l AND 0xc0"
  using assms by (simp_all add: v6_def in_network_steps)

lemma in_network_append: "length a = length b \<Longrightarrow> in_network (p @ a, 8 * length p) (p @ b)"
proof (induction p)
  case (Cons x p)
  then show ?case by (simp add: in_network_byte)
qed (simp add: in_network_0)

lemma nonpublic_v4_networks:
  assumes "To4 ip = Some [a, b, c, d]"
  shows "isNonPublicAddress ip \<or> isInCIDRList [a, b, c, d] reservedIPv4CIDRs \<longleftrightarrow> (\<exists>network \<in> set special_networks. in_network network [a, b, c, d])"
proof -
  let ?net = "\<lambda>nets. \<exists>network \<in> set nets. in_network network [a, b, c, d]"
  let ?local = "a = 10 \<or> a = 172 \<and> b AND 0xf0 = 16 \<or> a = 192 \<and> b = 168 \<or> a = 127 \<or> a = 169 \<and> b = 254 \<or> a AND 0xf0 = 0xe0"
  have c: "canonical [a, b, c, d] = [a, b, c, d]"
    by (simp add: canonical_def To4_def)
  have v6: "\<not> in_network (v6 bs, n) [a, b, c, d]" if "length bs \<le> 16" for bs n
    using that by (simp add: in_network_def length_v6)
  have reserved: "isInCIDRList [a, b, c, d] reservedIPv4CIDRs \<longleftrightarrow> ?net reservedIPv4CIDRs"
    by (simp add: isInCIDRList_iff c)
  have "([0, 0, 0, 0], 8) \<in> set reservedIPv4CIDRs" "([240, 0, 0, 0], 4) \<in> set reservedIPv4CIDRs"
    by (simp_all add: reservedIPv4CIDRs_def)
  then have ends: "?net reservedIPv4CIDRs" if "[a, b, c, d] = [0, 0, 0, 0] \<or> [a, b, c, d] = [255, 255, 255, 255]"
    using that by (force simp: in_v4)
  have none: "\<not> ?net reservedIPv6CIDRs"
    by (simp add: reservedIPv6CIDRs_def v6)
  have "?net special_networks \<longleftrightarrow> ?local \<or> ?net reservedIPv4CIDRs \<or> ?net reservedIPv6CIDRs"
    unfolding special_networks_def set_append bex_Un by (simp add: in_v4 v6)
  then show ?thesis
    unfolding nonpublic_v4 [OF assms] reserved using ends none by argo
qed

lemma To4_None:
  assumes "To4 ip = None" "length ip = 16"
  shows "\<not> ip_Equal ip IPv4zero" "\<not> ip_Equal ip IPv4bcast" "ip_Equal ip IPv6unspecified \<longleftrightarrow> ip = IPv6unspecified"
    "ip_Equal ip IPv6loopback \<longleftrightarrow> ip = IPv6loopback" "ip \<noteq> []"
  using assms by (auto simp: To4_def ip_Equal_def IPv4zero_def IPv4bcast_def IPv6_constants split: if_splits)

lemma nonpublic_v6:
  assumes "To4 (x # y # r) = None" "length r = 14"
  shows "isNonPublicAddress (x # y # r) \<longleftrightarrow>
    x AND 0xfe = 0xfc \<or> x = 0xfe \<and> y AND 0xc0 = 0x80 \<or> x = 0xff \<or> x # y # r = IPv6unspecified \<or> x # y # r = IPv6loopback"
proof -
  have l: "length (x # y # r) = 16"
    using assms(2) by simp
  have nth: "(x # y # r) ! 0 = x" "(x # y # r) ! 1 = y"
    by simp_all
  show ?thesis
    unfolding isNonPublicAddress_def IsPrivate_def IsLoopback_def IsLinkLocalUnicast_def IsLinkLocalMulticast_def
      IsUnspecified_def IsMulticast_def IsGlobalUnicast_def To4_None(3,4) [OF assms(1) l] assms(1) option.case nth
    using To4_None(1,2,5) [OF assms(1) l] l by argo
qed

lemma low_addresses:
  assumes "ip = IPv6unspecified \<or> ip = IPv6loopback"
  shows "in_network (v6 [], 96) ip"
proof -
  have split: "IPv6unspecified = replicate 12 0 @ replicate 4 0" "IPv6loopback = replicate 12 0 @ (replicate 3 0 @ [1])"
    "v6 [] = replicate 12 0 @ replicate 4 0"
    unfolding IPv6unspecified_def IPv6loopback_def v6_def append_assoc [symmetric] replicate_add [symmetric] by simp_all
  have "in_network (v6 [], 96) (replicate 12 0 @ b)" if "length b = 4" for b
    unfolding split(3) using in_network_append [of "replicate 4 0" b "replicate 12 0"] that by simp
  from this [of "replicate 4 0"] this [of "replicate 3 0 @ [1]"] show ?thesis
    using assms unfolding split(1,2) by auto
qed

lemma nonpublic_v6_networks:
  assumes "To4 (x # y # r) = None" "length r = 14"
  shows "isNonPublicAddress (x # y # r) \<or> isInCIDRList (x # y # r) reservedIPv6CIDRs \<longleftrightarrow> (\<exists>network \<in> set special_networks. in_network network (x # y # r))"
proof -
  let ?net = "\<lambda>nets. \<exists>network \<in> set nets. in_network network (x # y # r)"
  let ?local = "x AND 0xfe = 0xfc \<or> x = 0xfe \<and> y AND 0xc0 = 0x80 \<or> x = 0xff"
  have v4: "\<not> in_network ([k, l, m, p], n) (x # y # r)" for k l m p n
    using assms(2) by (simp add: in_network_def)
  have reserved: "isInCIDRList (x # y # r) reservedIPv6CIDRs \<longleftrightarrow> ?net reservedIPv6CIDRs"
    by (simp add: isInCIDRList_iff canonical_def assms(1))
  have "(v6 [], 96) \<in> set reservedIPv6CIDRs"
    by (simp add: reservedIPv6CIDRs_def)
  then have low: "?net reservedIPv6CIDRs" if "x # y # r = IPv6unspecified \<or> x # y # r = IPv6loopback"
    using low_addresses [OF that] by blast
  have none: "\<not> ?net reservedIPv4CIDRs"
    by (simp add: reservedIPv4CIDRs_def v4)
  have "?net special_networks \<longleftrightarrow> ?local \<or> ?net reservedIPv4CIDRs \<or> ?net reservedIPv6CIDRs"
    unfolding special_networks_def set_append bex_Un by (simp add: in_v6 [OF assms(2)] v4)
  then show ?thesis
    unfolding nonpublic_v6 [OF assms] reserved using low none by argo
qed

lemma isPublicIP_iff: "isPublicIP ip \<longleftrightarrow> public_address ip"
proof (cases "To4 ip")
  case (Some ip4)
  obtain a b c d where ip4: "ip4 = [a, b, c, d]"
    using To4_cases(2) [OF Some] by (rule v4_cases)
  show ?thesis
    using nonpublic_v4_networks [of ip a b c d] To4_Equal(5) [OF Some] Some
    by (auto simp: isPublicIP_def public_address_def canonical_def ip4)
next
  case None
  show ?thesis
  proof (cases "length ip = 16")
    case True
    obtain x y r where ip: "ip = x # y # r" "length r = 14"
      using True by (cases ip; cases "tl ip") auto
    show ?thesis
      using nonpublic_v6_networks [of x y r] None True ip by (auto simp: isPublicIP_def public_address_def canonical_def)
  next
    case False
    then have "\<not> IsGlobalUnicast ip" "\<not> (length ip = 4 \<or> length ip = 16)"
      using None by (auto simp: IsGlobalUnicast_def To4_def)
    then show ?thesis
      by (simp add: isPublicIP_def isNonPublicAddress_def public_address_def)
  qed
qed

end
