(* ===== verification/ServiceSender.thy ===== *)
theory ServiceSender
  imports PublicAddress NatsConsumer DomainServiceRepository
begin

text \<open>
  Where effects go: \<^verbatim>\<open>internal/services/effects/router.go\<close> sends child events to the broker, service events to
  the sender of \<^verbatim>\<open>internal/adapters/effects/domain_service_sender.go\<close>, which delivers them over HTTP to the
  endpoints of the tenants' services, and other effects to an external sender.

  \<^verbatim>\<open>url.Parse\<close> is an argument, as are the network's operations on a state of their own: the address the
  HTTP transport dials for a URL, the resolver, the dialer for one address, and the exchange of a
  request for a response.  A transport reuses an idle connection while it has one and retries on the
  next when the server has closed it; a fresh connection is dialed through \<^verbatim>\<open>dialDomainService\<close>.
  Beside its error a call returns the addresses it dialed.
\<close>

section \<open>Addresses of endpoints\<close>

definition addr_error :: "string \<Rightarrow> string \<Rightarrow> gerr" where
  "addr_error addr why = ErrorString (''address '' @ addr @ '': '' @ why)"

text \<open>The text before the first occurrence of a byte, and the text after the last one.\<close>

definition before_byte :: "char \<Rightarrow> string \<Rightarrow> string" where
  "before_byte c s = takeWhile (\<lambda>x. x \<noteq> c) s"

definition after_last :: "char \<Rightarrow> string \<Rightarrow> string" where
  "after_last c s = rev (takeWhile (\<lambda>x. x \<noteq> c) (rev s))"

definition SplitHostPort :: "string \<Rightarrow> (string \<times> string) result" where
  "SplitHostPort hostport =
     (if CHR '':'' \<notin> set hostport then Inl (addr_error hostport ''missing port in address'')
      else
        let port = after_last CHR '':'' hostport; i = length hostport - length port - 1
        in if hd hostport = CHR ''['' then
             (if CHR '']'' \<notin> set hostport then Inl (addr_error hostport ''missing ']' in address'')
              else
                let end = length (before_byte CHR '']'' hostport)
                in if end + 1 = length hostport then Inl (addr_error hostport ''missing port in address'')
                   else if end + 1 = i then
                     (if CHR ''['' \<in> set (drop 1 hostport) then Inl (addr_error hostport ''unexpected '[' in address'')
                      else if CHR '']'' \<in> set (drop (end + 1) hostport) then Inl (addr_error hostport ''unexpected ']' in address'')
                      else Inr (drop 1 (take end hostport), port))
                   else if hostport ! (end + 1) = CHR '':'' then Inl (addr_error hostport ''too many colons in address'')
                   else Inl (addr_error hostport ''missing port in address''))
           else if CHR '':'' \<in> set (take i hostport) then Inl (addr_error hostport ''too many colons in address'')
           else if CHR ''['' \<in> set hostport then Inl (addr_error hostport ''unexpected '[' in address'')
           else if CHR '']'' \<in> set hostport then Inl (addr_error hostport ''unexpected ']' in address'')
           else Inr (take i hostport, port))"

text \<open>\<^verbatim>\<open>strconv.Atoi\<close>: an optional sign and digits, in the range of 64 bits.\<close>

definition digits_value :: "string \<Rightarrow> int" where
  "digits_value s = fold (\<lambda>c n. 10 * n + int (of_char c - of_char CHR ''0'' :: nat)) s 0"

definition Atoi :: "string \<Rightarrow> int result" where
  "Atoi s =
     (let digits = (if s \<noteq> [] \<and> (hd s = CHR ''+'' \<or> hd s = CHR ''-'') then tl s else s);
          value = (if s \<noteq> [] \<and> hd s = CHR ''-'' then - digits_value digits else digits_value digits)
      in if digits = [] \<or> \<not> list_all is_digit digits
         then Inl (ErrorString (''strconv.Atoi: parsing '' @ Quote s @ '': invalid syntax''))
         else if value < - (2 ^ 63) \<or> 2 ^ 63 \<le> value
         then Inl (ErrorString (''strconv.Atoi: parsing '' @ Quote s @ '': value out of range''))
         else Inr value)"

definition parseDomainServiceAddress :: "string \<Rightarrow> (string \<times> string) result" where
  "parseDomainServiceAddress address =
     (case SplitHostPort address of
        Inl err \<Rightarrow> Inl (wrap ''split tenant service endpoint'' err)
      | Inr (host, port) \<Rightarrow>
          (case Atoi port of
             Inl err \<Rightarrow> Inl (wrap ''invalid tenant service endpoint port'' err)
           | Inr portNumber \<Rightarrow>
               if portNumber < 1 \<or> portNumber > 65535
               then Inl (ErrorString (''invalid tenant service endpoint port '' @ Quote port))
               else Inr (host, port)))"

section \<open>The network\<close>

text \<open>What the code reads of a parsed URL; a nil \<^verbatim>\<open>User\<close> is \<open>False\<close>.\<close>

record URL =
  urScheme :: string
  urOpaque :: string
  urHasUser :: bool
  urHostname :: string
  urPort :: string
  urFragment :: string
  urString :: string

record Request =
  rqURL :: URL
  rqHeader :: "(string \<times> string) list"
  rqBody :: string

text \<open>The status of a response, and the error of reading the start of its body.\<close>

record Response =
  rsStatusCode :: int
  rsDrainErr :: "gerr option"

record 'n Network =
  nwAddress :: "URL \<Rightarrow> string"
  nwLookupIPAddr :: "string \<Rightarrow> 'n \<Rightarrow> ip list result \<times> 'n"
  nwDial :: "ip \<Rightarrow> string \<Rightarrow> 'n \<Rightarrow> gerr option \<times> 'n"
  nwIdle :: "string \<Rightarrow> 'n \<Rightarrow> nat"
  nwReuse :: "Request \<Rightarrow> 'n \<Rightarrow> Response result option \<times> 'n"
  nwExchange :: "Request \<Rightarrow> 'n \<Rightarrow> Response result \<times> 'n"

primrec check_resolved :: "string \<Rightarrow> bool \<Rightarrow> ip list \<Rightarrow> ip list result" where
  "check_resolved host allowPrivate [] = Inr []"
| "check_resolved host allowPrivate (ip # resolved) =
     (if ip = [] \<or> IsUnspecified ip \<or> IsMulticast ip
      then Inl (ErrorString (''tenant service endpoint '' @ Quote host @ '' resolves to an invalid address''))
      else if \<not> allowPrivate \<and> \<not> isPublicIP ip
      then Inl (ErrorString (''tenant service endpoint '' @ Quote host @ '' resolves to a non-public address''))
      else case check_resolved host allowPrivate resolved of
             Inl err \<Rightarrow> Inl err
           | Inr ips \<Rightarrow> Inr (ip # ips))"

definition resolveDomainServiceIPs :: "'n Network \<Rightarrow> string \<Rightarrow> bool \<Rightarrow> 'n \<Rightarrow> ip list result \<times> 'n" where
  "resolveDomainServiceIPs net host allowPrivate n =
     (case nwLookupIPAddr net host n of
        (Inl err, n') \<Rightarrow> (Inl (wrap ''resolve tenant service endpoint'' err), n')
      | (Inr resolved, n') \<Rightarrow>
          if resolved = [] then (Inl (ErrorString (''tenant service endpoint '' @ Quote host @ '' resolved to no addresses'')), n')
          else (check_resolved host allowPrivate resolved, n'))"

text \<open>The loop, with the failures so far; the address is tried as it is, which the text of an address
  parses back to.\<close>

primrec dial_each :: "'n Network \<Rightarrow> string \<Rightarrow> ip list \<Rightarrow> gerr list \<Rightarrow> 'n \<Rightarrow> gerr option \<times> (ip \<times> string) list \<times> 'n" where
  "dial_each net port [] failures n =
     (Some (case errors_Join failures of
              None \<Rightarrow> ErrorString ''connect to tenant service endpoint: %!w(<nil>)''
            | Some err \<Rightarrow> wrap ''connect to tenant service endpoint'' err), [], n)"
| "dial_each net port (ip # ips) failures n =
     (case nwDial net ip port n of
        (None, n') \<Rightarrow> (None, [(ip, port)], n')
      | (Some err, n') \<Rightarrow>
          (let (r, dialed, n'') = dial_each net port ips (failures @ [err]) n' in (r, (ip, port) # dialed, n'')))"

definition dialResolvedDomainServiceIPs :: "'n Network \<Rightarrow> string \<Rightarrow> ip list \<Rightarrow> 'n \<Rightarrow> gerr option \<times> (ip \<times> string) list \<times> 'n" where
  "dialResolvedDomainServiceIPs net port ips n = dial_each net port ips [] n"

definition dialDomainService :: "'n Network \<Rightarrow> string \<Rightarrow> bool \<Rightarrow> 'n \<Rightarrow> gerr option \<times> (ip \<times> string) list \<times> 'n" where
  "dialDomainService net address allowPrivate n =
     (case parseDomainServiceAddress address of
        Inl err \<Rightarrow> (Some err, [], n)
      | Inr (host, port) \<Rightarrow>
          (case resolveDomainServiceIPs net host allowPrivate n of
             (Inl err, n') \<Rightarrow> (Some err, [], n')
           | (Inr ips, n') \<Rightarrow> dialResolvedDomainServiceIPs net port ips n'))"

text \<open>\<^verbatim>\<open>http.Client.Do\<close> with the transport of the sender: idle connections first, then a fresh one.
  Redirects are not followed.\<close>

primrec round_trip :: "'n Network \<Rightarrow> bool \<Rightarrow> Request \<Rightarrow> nat \<Rightarrow> 'n \<Rightarrow> Response result \<times> (ip \<times> string) list \<times> 'n" where
  "round_trip net allowPrivate request 0 n =
     (case dialDomainService net (nwAddress net (rqURL request)) allowPrivate n of
        (Some err, dialed, n') \<Rightarrow> (Inl err, dialed, n')
      | (None, dialed, n') \<Rightarrow> (case nwExchange net request n' of (r, n'') \<Rightarrow> (r, dialed, n'')))"
| "round_trip net allowPrivate request (Suc idle) n =
     (case nwReuse net request n of
        (Some r, n') \<Rightarrow> (r, [], n')
      | (None, n') \<Rightarrow> round_trip net allowPrivate request idle n')"

definition client_Do :: "'n Network \<Rightarrow> bool \<Rightarrow> Request \<Rightarrow> 'n \<Rightarrow> Response result \<times> (ip \<times> string) list \<times> 'n" where
  "client_Do net allowPrivate request n =
     (case round_trip net allowPrivate request (nwIdle net (nwAddress net (rqURL request)) n) n of
        (Inl err, dialed, n') \<Rightarrow> (Inl (Errorf [(''Post '' @ Quote (urString (rqURL request)) @ '': '', err)] []), dialed, n')
      | (Inr response, dialed, n') \<Rightarrow> (Inr response, dialed, n'))"

section \<open>The sender\<close>

record DomainServiceSender =
  ssHasServices :: bool
  ssAllowPrivate :: bool

definition NewDomainServiceSender :: "bool \<Rightarrow> bool \<Rightarrow> DomainServiceSender" where
  "NewDomainServiceSender services allowPrivate = \<lparr>ssHasServices = services, ssAllowPrivate = allowPrivate\<rparr>"

definition maxDomainServicePayloadBytes :: nat where
  "maxDomainServicePayloadBytes = 2 ^ 20"

primrec effect_type_text :: "EffectType \<Rightarrow> string" where
  "effect_type_text EffectTypeEmit = ''emit''"
| "effect_type_text EffectTypeEmitEvent = ''emit_event''"
| "effect_type_text EffectTypeCommand = ''command''"
| "effect_type_text EffectTypeServiceEvent = ''service_event''"
| "effect_type_text (EffectTypeOther s) = s"

definition validateAndDecodeEffect :: "Effect option \<Rightarrow> EventEnvelope result" where
  "validateAndDecodeEffect effect =
     (case effect of
        None \<Rightarrow> Inl (ErrorString ''send domain service event: effect is nil'')
      | Some e \<Rightarrow>
          if efTenantID e = [] \<or> efDestination e = [] \<or> efName e = []
          then Inl (ErrorString ''send domain service event: tenant, service, and event type are required'')
          else if efEffectType e \<noteq> EffectTypeServiceEvent
          then Inl (ErrorString (''send domain service event: unsupported effect type '' @ Quote (effect_type_text (efEffectType e))))
          else if length (efPayload e) = 0 \<or> length (efPayload e) > maxDomainServicePayloadBytes
          then Inl (ErrorString (''send domain service event: payload must be between 1 and '' @
                 nat_dec maxDomainServicePayloadBytes @ '' bytes''))
          else case unmarshal_EventEnvelope (efPayload e) of
                 None \<Rightarrow> Inl (wrap ''decode tenant service event'' json_error)
               | Some event \<Rightarrow>
                   (case Validate event of
                      Inl err \<Rightarrow> Inl (wrap ''validate tenant service event'' err)
                    | Inr _ \<Rightarrow>
                        if evTenantID event \<noteq> efTenantID e \<or> evType event \<noteq> efName e
                        then Inl (ErrorString ''send domain service event: event identity does not match outbox effect'')
                        else Inr event))"

definition loadActiveService :: "DomainServiceSender \<Rightarrow> Effect \<Rightarrow> database world \<Rightarrow> DomainService result \<times> database world" where
  "loadActiveService s effect w =
     (if \<not> ssHasServices s then (Inl (ErrorString ''send domain service event: service repository is not configured''), w)
      else case GetService (efTenantID effect) (efDestination effect) w of
             (Inl err, w') \<Rightarrow> (Inl (wrap ''get subscribed tenant service'' err), w')
           | (Inr service, w') \<Rightarrow>
               (case service of
                  None \<Rightarrow> (Inl (ErrorString (''subscribed tenant service '' @ Quote (efDestination effect) @ '' is unavailable'')), w')
                | Some sv \<Rightarrow>
                    if \<not> dsActive sv
                    then (Inl (ErrorString (''subscribed tenant service '' @ Quote (efDestination effect) @ '' is unavailable'')), w')
                    else (Inr sv, w')))"

definition validateServiceEndpoint :: "(string \<Rightarrow> URL result) \<Rightarrow> DomainServiceSender \<Rightarrow> string \<Rightarrow> URL result" where
  "validateServiceEndpoint parse s endpoint =
     (case parse endpoint of
        Inl err \<Rightarrow> Inl (wrap ''parse tenant service endpoint'' err)
      | Inr target \<Rightarrow>
          if urHostname target = [] \<or> urScheme target = [] \<or> urOpaque target \<noteq> [] \<or> urHasUser target \<or>
             urFragment target \<noteq> [] \<or> length endpoint > 2048
          then Inl (ErrorString ''tenant service endpoint is not a valid absolute URL'')
          else if urScheme target \<noteq> ''https'' \<and> (\<not> ssAllowPrivate s \<or> urScheme target \<noteq> ''http'')
          then Inl (ErrorString ''tenant service endpoint must use HTTPS'')
          else Inr target)"

text \<open>\<^verbatim>\<open>http.Header.Set\<close> writes the name of a header with capitals at the start and after a hyphen.\<close>

definition upper_ascii :: "char \<Rightarrow> char" where
  "upper_ascii c = (if CHR ''a'' \<le> c \<and> c \<le> CHR ''z'' then char_of (of_char c - 32 :: nat) else c)"

definition lower_ascii :: "char \<Rightarrow> char" where
  "lower_ascii c = (if CHR ''A'' \<le> c \<and> c \<le> CHR ''Z'' then char_of (of_char c + 32 :: nat) else c)"

primrec canonical_key :: "bool \<Rightarrow> string \<Rightarrow> string" where
  "canonical_key start [] = []"
| "canonical_key start (c # s) = (if start then upper_ascii c else lower_ascii c) # canonical_key (c = CHR ''-'') s"

definition Header_Set :: "string \<Rightarrow> string \<Rightarrow> (string \<times> string) list \<Rightarrow> (string \<times> string) list" where
  "Header_Set name v header = AList.update (canonical_key True name) v header"

definition buildServiceRequest ::
  "(string \<Rightarrow> URL result) \<Rightarrow> URL \<Rightarrow> Effect \<Rightarrow> EventEnvelope \<Rightarrow> string \<Rightarrow> string \<Rightarrow> Request result" where
  "buildServiceRequest parse target effect event serviceID idempotencyKey =
     (case parse (urString target) of
        Inl err \<Rightarrow> Inl (wrap ''create tenant service request'' err)
      | Inr url \<Rightarrow>
          Inr \<lparr>rqURL = url,
               rqHeader = (Header_Set ''X-FlowRule-Service-ID'' serviceID \<circ> Header_Set ''X-FlowRule-Tenant-ID'' (efTenantID effect) \<circ>
                 Header_Set ''X-FlowRule-Event-ID'' (evID event) \<circ> Header_Set ''X-FlowRule-Effect-ID'' (efID effect) \<circ>
                 Header_Set ''Idempotency-Key'' idempotencyKey \<circ> Header_Set ''Content-Type'' ''application/json'') [],
               rqBody = efPayload effect\<rparr>)"

definition deliverRequest :: "'n Network \<Rightarrow> DomainServiceSender \<Rightarrow> Request \<Rightarrow> string \<Rightarrow> 'n \<Rightarrow> gerr option \<times> (ip \<times> string) list \<times> 'n" where
  "deliverRequest net s request serviceID n =
     (case client_Do net (ssAllowPrivate s) request n of
        (Inl err, dialed, n') \<Rightarrow> (Some (Errorf [(''deliver event to tenant service '' @ Quote serviceID @ '': '', err)] []), dialed, n')
      | (Inr response, dialed, n') \<Rightarrow>
          if rsStatusCode response < 200 \<or> rsStatusCode response \<ge> 300
          then (case rsDrainErr response of
                  Some drainErr \<Rightarrow>
                    (Some (Errorf [(''tenant service '' @ Quote serviceID @ '' returned status '' @ int_dec (rsStatusCode response) @
                       ''; drain response: '', drainErr)] []), dialed, n')
                | None \<Rightarrow>
                    (Some (ErrorString (''tenant service '' @ Quote serviceID @ '' returned non-success status '' @
                       int_dec (rsStatusCode response))), dialed, n'))
          else (case rsDrainErr response of
                  Some drainErr \<Rightarrow>
                    (Some (Errorf [(''read tenant service '' @ Quote serviceID @ '' response: '', drainErr)] []), dialed, n')
                | None \<Rightarrow> (None, dialed, n')))"

definition Sender_Send ::
  "(string \<Rightarrow> URL result) \<Rightarrow> 'n Network \<Rightarrow> DomainServiceSender \<Rightarrow> Effect option \<Rightarrow> string \<Rightarrow> database world \<times> 'n \<Rightarrow>
   gerr option \<times> (ip \<times> string) list \<times> database world \<times> 'n" where
  "Sender_Send parse net s effect idempotencyKey = (\<lambda>(w, n).
     case validateAndDecodeEffect effect of
       Inl err \<Rightarrow> (Some err, [], w, n)
     | Inr event \<Rightarrow>
         (case loadActiveService s (the effect) w of
            (Inl err, w') \<Rightarrow> (Some err, [], w', n)
          | (Inr service, w') \<Rightarrow>
              (case validateServiceEndpoint parse s (dsEndpointURL service) of
                 Inl err \<Rightarrow> (Some err, [], w', n)
               | Inr target \<Rightarrow>
                   (case buildServiceRequest parse target (the effect) event (dsID service) idempotencyKey of
                      Inl err \<Rightarrow> (Some err, [], w', n)
                    | Inr request \<Rightarrow>
                        (case deliverRequest net s request (dsID service) n of
                           (r, dialed, n') \<Rightarrow> (r, dialed, w', n'))))))"

section \<open>Only public addresses are dialed\<close>

lemma check_resolved_Inr:
  "check_resolved host False resolved = Inr ips \<Longrightarrow> ips = resolved \<and> (\<forall>ip \<in> set ips. public_address ip)"
  by (induction resolved arbitrary: ips) (auto simp: isPublicIP_iff split: if_splits sum.splits)

lemma dial_each_subset: "dial_each net port ips failures n = (r, dialed, n') \<Longrightarrow> set dialed \<subseteq> set ips \<times> {port}"
  by (induction ips arbitrary: failures n r dialed n') (force split: prod.splits option.splits)+

lemma dial_public:
  assumes "dialDomainService net address False n = (r, dialed, n')"
  shows "\<forall>(ip, port) \<in> set dialed. public_address ip"
proof (cases "parseDomainServiceAddress address")
  case (Inr hp)
  obtain host port where hp: "hp = (host, port)"
    by force
  obtain res n1 where res: "resolveDomainServiceIPs net host False n = (res, n1)"
    by force
  show ?thesis
  proof (cases res)
    case (Inr ips)
    then have "\<forall>ip \<in> set ips. public_address ip"
      using res check_resolved_Inr
      by (fastforce simp: resolveDomainServiceIPs_def split: prod.splits sum.splits if_splits)
    moreover have "set dialed \<subseteq> set ips \<times> {port}"
      using assms \<open>parseDomainServiceAddress address = Inr hp\<close> hp res Inr dial_each_subset
      by (fastforce simp: dialDomainService_def dialResolvedDomainServiceIPs_def)
    ultimately show ?thesis
      by auto
  qed (use assms Inr hp res in \<open>simp add: dialDomainService_def\<close>)
qed (use assms in \<open>simp add: dialDomainService_def\<close>)

lemma round_trip_public:
  "round_trip net False request idle n = (r, dialed, n') \<Longrightarrow> \<forall>(ip, port) \<in> set dialed. public_address ip"
proof (induction idle arbitrary: n)
  case 0
  then show ?case
    using dial_public [of net "nwAddress net (rqURL request)" n] by (auto split: prod.splits option.splits)
next
  case (Suc idle)
  then show ?case
    by (auto split: prod.splits option.splits)
qed

lemma deliver_public:
  assumes "deliverRequest net s request serviceID n = (r, dialed, n')" and "\<not> ssAllowPrivate s"
  shows "\<forall>(ip, port) \<in> set dialed. public_address ip"
proof -
  obtain r1 d1 n1 where 1: "round_trip net False request (nwIdle net (nwAddress net (rqURL request)) n) n = (r1, d1, n1)"
    using prod_cases3 by blast
  have "d1 = dialed"
    using assms 1
    by (cases r1) (auto simp: deliverRequest_def client_Do_def split: if_splits option.splits)
  then show ?thesis
    using round_trip_public [OF 1] by simp
qed

text \<open>A service the sender delivers to is one the effect's tenant has, and active.\<close>

lemma GetService_Inr:
  assumes "GetService tenantID serviceID w = (Inr (Some sv), w')"
  shows "dsTenantID sv = tenantID \<and> dsID sv = serviceID \<and>
    (\<exists>row \<in> set (dbServices (now_db w)). service_key row = (tenantID, serviceID) \<and> svActive row = dsActive sv \<and> svEndpointURL row = dsEndpointURL sv)"
proof -
  obtain row w1 where q: "QueryRow (reading (\<lambda>now db. select_row (\<lambda>s. service_key s = (tenantID, serviceID)) (dbServices db))) w = (Inr row, w1)"
    using assms by (auto simp: GetService_def split: prod.splits sum.splits if_splits)
  have "select_row (\<lambda>s. service_key s = (tenantID, serviceID)) (dbServices (now_db w)) = Some row"
    using QueryRow_Inr [OF q] by (auto split: prod.splits)
  then have row: "row \<in> set (dbServices (now_db w))" "service_key row = (tenantID, serviceID)"
    by (auto simp: select_row_def find_Some_iff)
  then show ?thesis
    using assms q by (auto simp: GetService_def service_of_row_def service_key_def split: prod.splits sum.splits)
qed

text \<open>What the sender has checked when it delivers, or dials.\<close>

definition may_deliver :: "(string \<Rightarrow> URL result) \<Rightarrow> database \<Rightarrow> Effect \<Rightarrow> bool" where
  "may_deliver parse db e =
     (\<exists>row \<in> set (dbServices db). service_key row = (efTenantID e, efDestination e) \<and> svActive row \<and>
       (case parse (svEndpointURL row) of Inl _ \<Rightarrow> False | Inr target \<Rightarrow> urScheme target = ''https'' \<and> \<not> urHasUser target))"

lemma loadActiveService_Inr:
  assumes "loadActiveService s e w = (Inr sv, w')"
  shows "\<exists>row \<in> set (dbServices (now_db w)). service_key row = (efTenantID e, efDestination e) \<and> svActive row \<and> svEndpointURL row = dsEndpointURL sv"
proof -
  have sv: "GetService (efTenantID e) (efDestination e) w = (Inr (Some sv), w')" "dsActive sv"
    using assms by (auto simp: loadActiveService_def split: if_splits prod.splits sum.splits option.splits)
  then show ?thesis
    using GetService_Inr [OF sv(1)] by auto
qed

text \<open>C14. No request reaches a network of the operator: unless private endpoints are allowed, every address
  the sender dials, whatever the endpoint's URL, the resolver's answers and the state of the connections, is
  a public address, one outside every private, loopback, link-local, multicast and reserved network.  And the
  sender dials or reports a delivery only for an active service of the effect's tenant with an HTTPS endpoint.\<close>

theorem dialed_is_public:
  assumes "Sender_Send parse net (NewDomainServiceSender services False) effect key (w, n) = (r, dialed, w', n')"
  shows "(\<forall>(ip, port) \<in> set dialed. public_address ip) \<and>
    (dialed \<noteq> [] \<or> r = None \<longrightarrow> (\<exists>e. effect = Some e \<and> may_deliver parse (now_db w) e))"
proof (cases "dialed = [] \<and> r \<noteq> None")
  case False
  let ?s = "NewDomainServiceSender services False"
  have strict: "\<not> ssAllowPrivate ?s"
    by (simp add: NewDomainServiceSender_def)
  obtain event sv w1 target request where
      event: "validateAndDecodeEffect effect = Inr event" and sv: "loadActiveService ?s (the effect) w = (Inr sv, w1)"
    and target: "validateServiceEndpoint parse ?s (dsEndpointURL sv) = Inr target"
    and deliver: "deliverRequest net ?s request (dsID sv) n = (r, dialed, n')"
    using assms False by (auto simp: Sender_Send_def split: prod.splits sum.splits)
  obtain e where e: "effect = Some e"
    using event by (cases effect) (auto simp: validateAndDecodeEffect_def)
  have https: "case parse (dsEndpointURL sv) of Inl _ \<Rightarrow> False | Inr target \<Rightarrow> urScheme target = ''https'' \<and> \<not> urHasUser target"
    using target strict by (auto simp: validateServiceEndpoint_def split: sum.splits if_splits)
  have "may_deliver parse (now_db w) e"
    using loadActiveService_Inr [OF sv] https e by (auto simp: may_deliver_def)
  then show ?thesis
    using deliver_public [OF deliver strict] e by blast
qed auto

definition sample_payload :: string where
  "sample_payload =
     ''{\"id\":\"e\",\"type\":\"x\",\"tenant_id\":\"t\",\"partition_key\":\"p\",\"occurred_at\":\"2024-01-02T03:04:05Z\",\"data\":1}''"

definition sample_service_effect :: Effect where
  "sample_service_effect =
     \<lparr>efID = ''f'', efExecutionID = ''x'', efTenantID = ''t'', efDestination = ''s'', efName = ''x'', efPayload = sample_payload,
      efEffectType = EffectTypeServiceEvent, efCreatedAt = 0\<rparr>"

definition sample_services :: database where
  "sample_services = empty_database\<lparr>dbServices :=
     [\<lparr>svTenantID = ''t'', svServiceID = ''s'', svName = ''n'', svEndpointURL = ''https://h'', svActive = True, svCreatedAt = 0, svUpdatedAt = 0\<rparr>]\<rparr>"

definition sample_url :: "string \<Rightarrow> URL result" where
  "sample_url raw = Inr \<lparr>urScheme = ''https'', urOpaque = [], urHasUser = False, urHostname = ''h'', urPort = [], urFragment = [], urString = raw\<rparr>"

definition sample_network :: "unit Network" where
  "sample_network =
     \<lparr>nwAddress = (\<lambda>url. urHostname url @ '':443''), nwLookupIPAddr = (\<lambda>host n. (Inr [[8, 8, 8, 8]], n)), nwDial = (\<lambda>ip port n. (None, n)),
      nwIdle = (\<lambda>address n. 0), nwReuse = (\<lambda>request n. (None, n)), nwExchange = (\<lambda>request n. (Inr \<lparr>rsStatusCode = 200, rsDrainErr = None\<rparr>, n))\<rparr>"

lemma sample_payload_decoded:
  "\<exists>event. unmarshal_EventEnvelope sample_payload = Some event \<and> Validate event = Inr () \<and> evTenantID event = ''t'' \<and> evType event = ''x''"
proof -
  have "case unmarshal_EventEnvelope sample_payload of None \<Rightarrow> False | Some event \<Rightarrow> Validate event = Inr () \<and> evTenantID event = ''t'' \<and> evType event = ''x''"
    by code_simp
  then show ?thesis
    by (simp split: option.splits)
qed

lemma sample_decoded: "\<exists>event. validateAndDecodeEffect (Some sample_service_effect) = Inr event"
proof -
  note sample_payload_decoded
  moreover have "length sample_payload \<noteq> 0" "length sample_payload \<le> maxDomainServicePayloadBytes"
    by (simp_all add: sample_payload_def maxDomainServicePayloadBytes_def)
  ultimately show ?thesis
    by (auto simp: validateAndDecodeEffect_def sample_service_effect_def split: option.splits)
qed

lemma sample_address: "parseDomainServiceAddress ''h:443'' = Inr (''h'', ''443'')"
  by (simp add: parseDomainServiceAddress_def SplitHostPort_def after_last_def before_byte_def Atoi_def digits_value_def Let_def)

lemma public_8: "isPublicIP [8, 8, 8, 8]" "\<not> IsUnspecified [8, 8, 8, 8]" "\<not> IsMulticast [8, 8, 8, 8]"
proof -
  have "\<not> isNonPublicAddress [8, 8, 8, 8]"
    using nonpublic_v4 [of "[8, 8, 8, 8]" 8 8 8 8] by (simp add: To4_def)
  then show "isPublicIP [8, 8, 8, 8]" "\<not> IsUnspecified [8, 8, 8, 8]" "\<not> IsMulticast [8, 8, 8, 8]"
    by (auto simp: isPublicIP_def isNonPublicAddress_def To4_def isInCIDRList_iff canonical_def reservedIPv4CIDRs_def in_network_steps)
qed

lemma sample_sent:
  "Sender_Send sample_url sample_network (NewDomainServiceSender True False) (Some sample_service_effect) ''k'' (calm 5 sample_services, ()) =
     (None, [([8, 8, 8, 8], ''443'')], calm 5 sample_services, ())"
proof -
  obtain event where "validateAndDecodeEffect (Some sample_service_effect) = Inr event"
    using sample_decoded ..
  then show ?thesis
    by (simp add: Sender_Send_def loadActiveService_def NewDomainServiceSender_def GetService_def listServiceDomains_def calm_simps
        sample_services_def empty_database_def sample_service_effect_def select_row_def select_rows_def service_key_def service_of_row_def
        validateServiceEndpoint_def sample_url_def buildServiceRequest_def deliverRequest_def client_Do_def sample_network_def dialDomainService_def
        sample_address resolveDomainServiceIPs_def public_8 dialResolvedDomainServiceIPs_def)
qed

theorem dialed_is_public_witness: "public_address [8, 8, 8, 8] \<and> may_deliver sample_url (now_db (calm 5 sample_services)) sample_service_effect"
  using dialed_is_public [OF sample_sent] by simp

section \<open>The router\<close>

text \<open>The destinations are functions on a shared state; a nil one is absent.\<close>

type_synonym 's sender = "Effect option \<Rightarrow> string \<Rightarrow> 's \<Rightarrow> gerr option \<times> 's"

record 's Router =
  rtPublisher :: "(string \<Rightarrow> u32 \<Rightarrow> string \<Rightarrow> 's \<Rightarrow> gerr option \<times> 's) option"
  rtExternal :: "'s sender option"
  rtService :: "'s sender option"
  rtBaseSubject :: string
  rtNumShards :: u32

definition NewRouterWithConfig ::
  "(string \<Rightarrow> u32 \<Rightarrow> string \<Rightarrow> 's \<Rightarrow> gerr option \<times> 's) option \<Rightarrow> 's sender option \<Rightarrow> string \<Rightarrow> u32 \<Rightarrow> 's sender option list \<Rightarrow> 's Router" where
  "NewRouterWithConfig publisher external baseSubject numShards serviceSenders =
     \<lparr>rtPublisher = publisher, rtExternal = external, rtService = (case serviceSenders of [] \<Rightarrow> None | s # _ \<Rightarrow> s),
      rtBaseSubject = (if baseSubject = [] then ''events'' else baseSubject),
      rtNumShards = (if numShards = 0 then 4096 else numShards)\<rparr>"

definition NewRouter ::
  "(string \<Rightarrow> u32 \<Rightarrow> string \<Rightarrow> 's \<Rightarrow> gerr option \<times> 's) option \<Rightarrow> 's sender option \<Rightarrow> 's Router" where
  "NewRouter publisher external = NewRouterWithConfig publisher external ''events'' 4096 []"

definition Router_Send :: "'s Router \<Rightarrow> Effect option \<Rightarrow> string \<Rightarrow> 's \<Rightarrow> gerr option \<times> 's" where
  "Router_Send r effect idempotencyKey st =
     (case effect of
        None \<Rightarrow> (Some (ErrorString ''send effect: effect is nil''), st)
      | Some e \<Rightarrow>
          if efEffectType e \<noteq> EffectTypeEmitEvent then
            if efEffectType e = EffectTypeServiceEvent then
              (case rtService r of
                 None \<Rightarrow> (Some (ErrorString ''send subscribed service event: service sender is not configured''), st)
               | Some service \<Rightarrow> service effect idempotencyKey st)
            else
              (case rtExternal r of
                 None \<Rightarrow> (Some (ErrorString ''send external effect: destination is not configured''), st)
               | Some external \<Rightarrow> external effect idempotencyKey st)
          else
            (case rtPublisher r of
               None \<Rightarrow> (Some (ErrorString ''publish child event: broker publisher is not configured''), st)
             | Some publish \<Rightarrow>
                 (case unmarshal_EventEnvelope (efPayload e) of
                    None \<Rightarrow> (Some (wrap ''decode child event'' json_error), st)
                  | Some child \<Rightarrow>
                      (case Validate child of
                         Inl err \<Rightarrow> (Some (wrap ''validate child event'' err), st)
                       | Inr _ \<Rightarrow> publish (rtBaseSubject r) (VirtualShard child (rtNumShards r)) (efPayload e) st))))"

text \<open>A message is published on the subject of one of the keys of its shard.\<close>

lemma containsRuleSet_iff: "containsRuleSet ruleSets x \<longleftrightarrow> x \<in> set ruleSets"
  by (induction ruleSets) auto

lemma subjectForMessage_key:
  assumes "baseSubject \<in> set (cnSubjects c)"
  shows "\<exists>key \<in> set (shard_keys c shard). subjectForMessage H baseSubject shard data (cnRuleSets c) = filter_subject H key"
proof -
  let ?key = "\<lambda>ruleSet. \<lparr>ckBaseSubject = baseSubject, ckRuleSet = ruleSet, ckShard = shard\<rparr>"
  have key: "?key ruleSet \<in> set (shard_keys c shard)" if "ruleSet \<in> set ([] # cnRuleSets c)" for ruleSet
    using assms that by (auto simp: shard_keys_def)
  show ?thesis
  proof (cases "\<exists>envelope. unmarshal_EventEnvelope data = Some envelope \<and> evType envelope \<noteq> [] \<and> evType envelope \<in> set (cnRuleSets c)")
    case True
    then obtain envelope where "unmarshal_EventEnvelope data = Some envelope" "evType envelope \<noteq> []" "evType envelope \<in> set (cnRuleSets c)"
      by blast
    then show ?thesis
      by (intro bexI [OF _ key [of "evType envelope"]]) (simp_all add: subjectForMessage_def filter_subject_def containsRuleSet_iff)
  next
    case False
    then have "subjectForMessage H baseSubject shard data (cnRuleSets c) = baseSubject @ ''.shard.'' @ shard_dec shard"
      by (cases "unmarshal_EventEnvelope data") (auto simp: subjectForMessage_def containsRuleSet_iff)
    then show ?thesis
      by (intro bexI [OF _ key [of "[]"]]) (simp_all add: filter_subject_def)
  qed
qed

definition emitted_child :: "Effect \<Rightarrow> EventEnvelope option" where
  "emitted_child e =
     (if efEffectType e \<noteq> EffectTypeEmitEvent then None
      else case unmarshal_EventEnvelope (efPayload e) of
             None \<Rightarrow> None
           | Some child \<Rightarrow> (case Validate child of Inl _ \<Rightarrow> None | Inr _ \<Rightarrow> Some child))"

lemma Router_Send_child:
  assumes "emitted_child e = Some child" "rtPublisher r = Some publish"
  shows "Router_Send r (Some e) idempotencyKey j = publish (rtBaseSubject r) (VirtualShard child (rtNumShards r)) (efPayload e) j"
  using assms by (simp add: emitted_child_def Router_Send_def split: if_splits option.splits sum.splits)

text \<open>The router of the worker (\<^verbatim>\<open>cmd/worker/main.go\<close>): child events go to the broker, service events to the sender of the registered
  services, and other effects to the destination \<open>external\<close> that the configuration names.  The three act on parts of the state of their own.\<close>

type_synonym ('j, 'n, 'x) outside = "'j \<times> (database world \<times> 'n) \<times> 'x"

definition on_broker ::
  "(string \<Rightarrow> u32 \<Rightarrow> string \<Rightarrow> 'j \<Rightarrow> gerr option \<times> 'j) \<Rightarrow> string \<Rightarrow> u32 \<Rightarrow> string \<Rightarrow> ('j, 'n, 'x) outside \<Rightarrow> gerr option \<times> ('j, 'n, 'x) outside" where
  "on_broker publish subject shard payload = (\<lambda>(j, n, x). case publish subject shard payload j of (err, j') \<Rightarrow> (err, j', n, x))"

definition on_services ::
  "(Effect option \<Rightarrow> string \<Rightarrow> database world \<times> 'n \<Rightarrow> gerr option \<times> (ip \<times> string) list \<times> database world \<times> 'n) \<Rightarrow> ('j, 'n, 'x) outside sender" where
  "on_services send e key = (\<lambda>(j, n, x). case send e key n of (err, dialed, n') \<Rightarrow> (err, j, n', x))"

definition on_destination :: "'x sender \<Rightarrow> ('j, 'n, 'x) outside sender" where
  "on_destination send e key = (\<lambda>(j, n, x). case send e key x of (err, x') \<Rightarrow> (err, j, n, x'))"

definition worker_router ::
  "(string \<Rightarrow> string) \<Rightarrow> 'j JetStream \<Rightarrow> string list \<Rightarrow> (string \<Rightarrow> URL result) \<Rightarrow> 'n Network \<Rightarrow> bool \<Rightarrow> 'x sender \<Rightarrow> string \<Rightarrow> u32 \<Rightarrow>
   ('j, 'n, 'x) outside Router" where
  "worker_router H js ruleSets parse net allowPrivate external eventSubject numShards =
     NewRouterWithConfig (Some (on_broker (PublishToShard H js ruleSets))) (Some (on_destination external)) eventSubject numShards
       [Some (on_services (Sender_Send parse net (NewDomainServiceSender True allowPrivate)))]"

lemma Router_Send_invalid:
  assumes "efEffectType e = EffectTypeEmitEvent" "emitted_child e = None"
  shows "\<exists>err. Router_Send r (Some e) idempotencyKey st = (Some err, st)"
  using assms
  by (cases "rtPublisher r"; cases "unmarshal_EventEnvelope (efPayload e)"; cases "Validate (the (unmarshal_EventEnvelope (efPayload e)))")
    (simp_all add: emitted_child_def Router_Send_def)

text \<open>C16. Where the worker's router sends an effect, if router and consumers share subject, rule sets and number of shards.  An effect that emits a
  valid event is published, once, on the subject that one of the consumers of the event's shard filters; one that emits anything else is an error
  that changes nothing.  A service event goes to the sender of services and any other effect to the external destination, and the broker is left
  alone.\<close>

theorem routed_child_is_consumed:
  assumes "0 < cnNumShards c" "eventSubject \<in> set (cnSubjects c)" "eventSubject \<noteq> []"
    and "r = worker_router H js (cnRuleSets c) parse net allowPrivate external eventSubject (cnNumShards c)"
  shows "if efEffectType e = EffectTypeEmitEvent then
      (case emitted_child e of
         Some child \<Rightarrow> VirtualShard child (cnNumShards c) < cnNumShards c \<and>
           (\<exists>key \<in> set (shard_keys c (VirtualShard child (cnNumShards c))). \<exists>err j'.
              Publish js (filter_subject H key) (efPayload e) j = (err, j') \<and> Router_Send r (Some e) idempotencyKey (j, n, x) = (err, j', n, x))
       | None \<Rightarrow> \<exists>err. Router_Send r (Some e) idempotencyKey (j, n, x) = (Some err, j, n, x))
    else if efEffectType e = EffectTypeServiceEvent then
      (\<exists>err dialed n'. Sender_Send parse net (NewDomainServiceSender True allowPrivate) (Some e) idempotencyKey n = (err, dialed, n') \<and>
         Router_Send r (Some e) idempotencyKey (j, n, x) = (err, j, n', x))
    else (\<exists>err x'. external (Some e) idempotencyKey x = (err, x') \<and> Router_Send r (Some e) idempotencyKey (j, n, x) = (err, j, n, x'))"
proof -
  have r: "rtPublisher r = Some (on_broker (PublishToShard H js (cnRuleSets c)))" "rtBaseSubject r = eventSubject" "rtNumShards r = cnNumShards c"
    "rtExternal r = Some (on_destination external)" "rtService r = Some (on_services (Sender_Send parse net (NewDomainServiceSender True allowPrivate)))"
    using assms by (auto simp: worker_router_def NewRouterWithConfig_def)
  consider (child) child where "efEffectType e = EffectTypeEmitEvent" "emitted_child e = Some child"
    | (invalid) "efEffectType e = EffectTypeEmitEvent" "emitted_child e = None"
    | (service) "efEffectType e = EffectTypeServiceEvent" | (other) "efEffectType e \<notin> {EffectTypeEmitEvent, EffectTypeServiceEvent}"
    by blast
  then show ?thesis
  proof cases
    case child
    show ?thesis
      using child(1) subjectForMessage_key [OF assms(2), of "VirtualShard child (cnNumShards c)" H "efPayload e"] VirtualShard_bound [OF assms(1)]
      by (auto simp: child(2) Router_Send_child [OF child(2) r(1)] r(2,3) on_broker_def PublishToShard_def split: prod.split)
  next
    case invalid
    then show ?thesis
      using Router_Send_invalid [OF invalid] by simp
  qed (simp_all add: Router_Send_def r(4,5) on_services_def on_destination_def split: prod.split)
qed

theorem routed_child_is_consumed_witness:
  "\<exists>child. emitted_child (sample_service_effect\<lparr>efEffectType := EffectTypeEmitEvent\<rparr>) = Some child \<and>
    (\<exists>key \<in> set (shard_keys sample_consumer (VirtualShard child 4)). \<exists>err j'.
      Publish sample_jetstream (filter_subject id key) sample_payload [] = (err, j') \<and>
      Router_Send (worker_router id sample_jetstream [] sample_url sample_network False (\<lambda>e k x. (None, Suc x)) ''events'' 4)
        (Some (sample_service_effect\<lparr>efEffectType := EffectTypeEmitEvent\<rparr>)) ''k'' ([], (calm 5 sample_services, ()), 0) =
      (err, j', (calm 5 sample_services, ()), 0))"
proof -
  let ?e = "sample_service_effect\<lparr>efEffectType := EffectTypeEmitEvent\<rparr>"
  obtain child where child: "unmarshal_EventEnvelope sample_payload = Some child" "Validate child = Inr ()"
    using sample_payload_decoded by blast
  have "emitted_child ?e = Some child"
    using child by (simp add: emitted_child_def sample_service_effect_def)
  moreover have c: "cnNumShards sample_consumer = 4" "cnRuleSets sample_consumer = []" "''events'' \<in> set (cnSubjects sample_consumer)"
    by (simp_all add: sample_consumer_def NewConsumer_of_def)
  ultimately show ?thesis
    using routed_child_is_consumed [OF _ c(3) _ refl, where e = ?e and H = id and js = sample_jetstream and parse = sample_url and net = sample_network
        and allowPrivate = False and external = "\<lambda>e k x. (None, Suc x)" and j = "[]" and n = "(calm 5 sample_services, ())" and x = 0
        and idempotencyKey = "''k''"]
    by (simp add: sample_service_effect_def)
qed

end
