(* ===== verification/EventIngestion.thy ===== *)
theory EventIngestion
  imports ServiceSender
begin

text \<open>
  \<^verbatim>\<open>internal/adapters/http/handlers/events_ingest.go\<close>: the endpoint that takes an event and publishes its envelope.  The
  arguments are the decoded body or the error of decoding it, the path parameter, and the tenant of the authenticated
  request, which is empty when there is none.  A response is its status with the message and code of an error, or the
  acceptance.  A map of headers is kept in key order.
\<close>

section \<open>The handler\<close>

record eventIngestionRequest =
  irID :: string
  irType :: string
  irTenantID :: string
  irPartitionKey :: string
  irWorkflowID :: string
  irOccurredAt :: time
  irData :: string
  irHeaders :: "(string \<times> string) list"
  irCorrelationID :: string
  irCausationID :: string
  irSchemaVersion :: string

datatype response =
    ErrorResponse int string string
  | AcceptedResponse string u32

text \<open>A handler with a publisher or without, and its number of shards.\<close>

record 'j EventIngestionHandler =
  ehPublisher :: "(string \<Rightarrow> u32 \<Rightarrow> string \<Rightarrow> 'j \<Rightarrow> gerr option \<times> 'j) option"
  ehNumShards :: u32

definition NewEventIngestionHandler :: "(string \<Rightarrow> u32 \<Rightarrow> string \<Rightarrow> 'j \<Rightarrow> gerr option \<times> 'j) option \<Rightarrow> u32 \<Rightarrow> 'j EventIngestionHandler" where
  "NewEventIngestionHandler publisher numShards =
     \<lparr>ehPublisher = publisher, ehNumShards = (if numShards = 0 then 4096 else numShards)\<rparr>"

definition validateEventIngestionRequest :: "eventIngestionRequest \<Rightarrow> string \<Rightarrow> string \<Rightarrow> response option" where
  "validateEventIngestionRequest request eventType tenantID =
     (if eventType = [] \<or> irType request \<noteq> eventType
      then Some (ErrorResponse 400 ''event type must match the eventType path parameter'' ''VALIDATION_FAILED'')
      else if tenantID = [] then Some (ErrorResponse 401 ''authenticated tenant identity is required'' ''TENANT_REQUIRED'')
      else if irTenantID request \<noteq> [] \<and> irTenantID request \<noteq> tenantID
      then Some (ErrorResponse 403 ''tenant_id does not match request tenant'' ''FORBIDDEN'')
      else if length (irData request) = 0 \<or> \<not> json_Valid (irData request)
      then Some (ErrorResponse 400 ''data must contain a valid JSON value'' ''VALIDATION_FAILED'')
      else None)"

definition set_header :: "string \<Rightarrow> string \<Rightarrow> (string \<times> string) list \<Rightarrow> (string \<times> string) list" where
  "set_header name v headers = (if v = [] then headers else obj_put name v headers)"

definition buildEventHeaders :: "eventIngestionRequest \<Rightarrow> (string \<times> string) list" where
  "buildEventHeaders request =
     set_header ''Schema-Version'' (irSchemaVersion request)
       (set_header ''Causation-ID'' (irCausationID request)
         (set_header ''Correlation-ID'' (irCorrelationID request) (irHeaders request)))"

definition buildEventEnvelope :: "eventIngestionRequest \<Rightarrow> string \<Rightarrow> string \<Rightarrow> EventEnvelope" where
  "buildEventEnvelope request eventType tenantID =
     \<lparr>evID = TrimSpace (irID request), evType = eventType, evTenantID = tenantID, evPartitionKey = TrimSpace (irPartitionKey request),
      evWorkflowID = irWorkflowID request, evOccurredAt = irOccurredAt request, evData = irData request,
      evHeaders = buildEventHeaders request\<rparr>"

definition PublishEvent ::
  "'j EventIngestionHandler \<Rightarrow> eventIngestionRequest result \<Rightarrow> string \<Rightarrow> string \<Rightarrow> 'j \<Rightarrow> response \<times> 'j" where
  "PublishEvent h body path tenantID j =
     (case ehPublisher h of
        None \<Rightarrow> (ErrorResponse 503 ''event ingestion is not configured'' ''INTERNAL_ERROR'', j)
      | Some publish \<Rightarrow>
          (case body of
             Inl err \<Rightarrow> (ErrorResponse 400 (''invalid event envelope: '' @ error_text err) ''INVALID_JSON'', j)
           | Inr request \<Rightarrow>
               let eventType = TrimSpace path
               in case validateEventIngestionRequest request eventType tenantID of
                    Some refused \<Rightarrow> (refused, j)
                  | None \<Rightarrow>
                      let event = buildEventEnvelope request eventType tenantID
                      in case Validate event of
                           Inl err \<Rightarrow> (ErrorResponse 400 (error_text err) ''VALIDATION_FAILED'', j)
                         | Inr _ \<Rightarrow>
                             (case json_EventEnvelope event of
                                None \<Rightarrow> (ErrorResponse 500 ''failed to encode event envelope'' ''INTERNAL_ERROR'', j)
                              | Some payload \<Rightarrow>
                                  let shard = VirtualShard event (ehNumShards h)
                                  in case publish ''events'' shard payload j of
                                       (Some err, j') \<Rightarrow> (ErrorResponse 503 ''event publication failed'' ''INTERNAL_ERROR'', j')
                                     | (None, j') \<Rightarrow> (AcceptedResponse (evID event) shard, j'))))"

section \<open>What is accepted is published\<close>

lemma PublishEvent_accepted:
  assumes "PublishEvent h body path tenantID j = (AcceptedResponse eventID shard, j')"
  obtains publish request payload event where "ehPublisher h = Some publish" "body = Inr request"
    "event = buildEventEnvelope request (TrimSpace path) tenantID" "tenantID \<noteq> []" "irTenantID request \<in> {[], tenantID}"
    "Validate event = Inr ()" "json_EventEnvelope event = Some payload" "eventID = evID event" "shard = VirtualShard event (ehNumShards h)"
    "publish ''events'' shard payload j = (None, j')"
  using assms
  by (auto simp: PublishEvent_def validateEventIngestionRequest_def Let_def split: option.splits sum.splits if_splits prod.splits)

text \<open>An accepted event reaches the worker of its shard: when the endpoint answers that it has accepted an event, the
  event belongs to the authenticated tenant and has the type of the path, and its envelope was published, and the broker acknowledged it,
  on the subject that one of the consumers of the event's shard filters, for consumers with the same rule sets and number of shards; and
  the consumer reads back the envelope with its data compacted, if its texts are UTF-8 and its data may be nested once more.\<close>

lemma accepted_event_is_published:
  assumes "PublishEvent (NewEventIngestionHandler (Some (PublishToShard H js (cnRuleSets c))) (cnNumShards c)) body path tenantID j =
      (AcceptedResponse eventID shard, j')"
    and "''events'' \<in> set (cnSubjects c)" "0 < cnNumShards c"
  shows "\<exists>request event payload key. body = Inr request \<and> event = buildEventEnvelope request (TrimSpace path) tenantID \<and>
    tenantID \<noteq> [] \<and> evTenantID event = tenantID \<and> evType event = TrimSpace path \<and> evID event = eventID \<and> Validate event = Inr () \<and>
    shard = VirtualShard event (cnNumShards c) \<and> shard < cnNumShards c \<and> key \<in> set (shard_keys c shard) \<and>
    Publish js (filter_subject H key) payload j = (None, j') \<and>
    (envelope_ok event \<longrightarrow> unmarshal_EventEnvelope payload = Some (on_wire event))"
  using assms(1)
proof (rule PublishEvent_accepted)
  fix publish request payload event
  assume publish: "ehPublisher (NewEventIngestionHandler (Some (PublishToShard H js (cnRuleSets c))) (cnNumShards c)) = Some publish"
    and "body = Inr request" and event: "event = buildEventEnvelope request (TrimSpace path) tenantID" and "tenantID \<noteq> []"
    and "Validate event = Inr ()" and payload: "json_EventEnvelope event = Some payload" and "eventID = evID event"
    and shard: "shard = VirtualShard event (ehNumShards (NewEventIngestionHandler (Some (PublishToShard H js (cnRuleSets c))) (cnNumShards c)))"
    and published: "publish ''events'' shard payload j = (None, j')"
  have shards: "shard = VirtualShard event (cnNumShards c)" "shard < cnNumShards c"
    using shard assms(3) VirtualShard_bound [OF assms(3), of event] by (auto simp: NewEventIngestionHandler_def)
  obtain key where key: "key \<in> set (shard_keys c shard)" "subjectForMessage H ''events'' shard payload (cnRuleSets c) = filter_subject H key"
    using subjectForMessage_key [OF assms(2)] by blast
  have "Publish js (filter_subject H key) payload j = (None, j')"
    using publish published key(2) by (auto simp: NewEventIngestionHandler_def PublishToShard_def)
  moreover have "envelope_ok event \<longrightarrow> unmarshal_EventEnvelope payload = Some (on_wire event)"
    using envelope_decodes(1) [OF _ payload] by blast
  ultimately show ?thesis
    using \<open>body = Inr request\<close> event \<open>tenantID \<noteq> []\<close> \<open>Validate event = Inr ()\<close> \<open>eventID = evID event\<close> shards key(1)
    by (auto simp: buildEventEnvelope_def)
qed

definition sample_request :: eventIngestionRequest where
  "sample_request =
     \<lparr>irID = '' e1'', irType = ''order.placed'', irTenantID = [], irPartitionKey = ''p'', irWorkflowID = [],
      irOccurredAt = 63870000000500000000, irData = ''[1, {}]'', irHeaders = [], irCorrelationID = ''k'', irCausationID = [], irSchemaVersion = []\<rparr>"

definition sample_ingested :: EventEnvelope where
  "sample_ingested =
     \<lparr>evID = ''e1'', evType = ''order.placed'', evTenantID = ''t'', evPartitionKey = ''p'', evWorkflowID = [],
      evOccurredAt = 63870000000500000000, evData = ''[1, {}]'', evHeaders = [(''Correlation-ID'', ''k'')]\<rparr>"

lemma sample_ingested:
  "buildEventEnvelope sample_request ''order.placed'' ''t'' = sample_ingested" "TrimSpace ''order.placed'' = ''order.placed''"
  "validateEventIngestionRequest sample_request ''order.placed'' ''t'' = None" "Validate sample_ingested = Inr ()"
  by code_simp+

lemma sample_ingested_written: "\<exists>payload. json_EventEnvelope sample_ingested = Some payload"
proof -
  have "json_time (evOccurredAt sample_ingested) \<noteq> None"
    by (simp add: json_time_def year_of_def year_yday_def sample_ingested_def Let_def ns_per_day_def second_def)
  moreover have "json_raw (evData sample_ingested) \<noteq> None"
    by code_simp
  ultimately show ?thesis
    by (auto simp: json_EventEnvelope_def)
qed

end
