(* ===== verification/DomainServices.thy ===== *)
theory DomainServices
  imports ServiceSender
begin

text \<open>
  \<^verbatim>\<open>internal/services/domainservices/service.go\<close>: the registry of the tenants' domains and services, over the
  PostgreSQL repository.  \<^verbatim>\<open>url.Parse\<close>, the identifier of \<^verbatim>\<open>domain.NewID()\<close> and the reading of the clock are
  arguments.  A call returns the item as it was saved; the item of the caller after an error is not
  modelled.
\<close>

section \<open>Validation\<close>

abbreviation is_lower :: "char \<Rightarrow> bool" where
  "is_lower c \<equiv> CHR ''a'' \<le> c \<and> c \<le> CHR ''z''"

definition namePattern :: "string \<Rightarrow> bool" where
  "namePattern s = (s \<noteq> [] \<and> is_lower (hd s) \<and> list_all (\<lambda>c. is_lower c \<or> is_digit c \<or> c = CHR ''-'') (tl s) \<and> length (tl s) \<le> 62)"

definition eventTypePattern :: "string \<Rightarrow> bool" where
  "eventTypePattern s =
     (s \<noteq> [] \<and> is_lower (hd s) \<and>
      list_all (\<lambda>c. is_lower c \<or> is_digit c \<or> c = CHR ''_'' \<or> c = CHR ''.'' \<or> c = CHR ''-'') (tl s) \<and> length (tl s) \<le> 127)"

definition maxEventTypesPerDomain :: nat where
  "maxEventTypesPerDomain = 100"

definition maxDomainsPerService :: nat where
  "maxDomainsPerService = 25"

text \<open>\<^verbatim>\<open>unicode.IsControl\<close> of some rune: a control byte of ASCII, or the two bytes of U+0080 to U+009F.\<close>

fun has_control :: "string \<Rightarrow> bool" where
  "has_control [] = False"
| "has_control (c # s) =
     (c < CHR 0x20 \<or> c = CHR 0x7F \<or> c = CHR 0xC2 \<and> s \<noteq> [] \<and> CHR 0x80 \<le> hd s \<and> hd s \<le> CHR 0x9F \<or> has_control s)"

definition validTenantID :: "string \<Rightarrow> bool" where
  "validTenantID tenantID = (if tenantID = [] \<or> length tenantID > 128 then False else \<not> has_control tenantID)"

text \<open>The values seen so far are those of the result.\<close>

primrec uniqueTrimmed_loop :: "string list \<Rightarrow> string list \<Rightarrow> string list" where
  "uniqueTrimmed_loop [] acc = acc"
| "uniqueTrimmed_loop (v # values) acc =
     (let value = TrimSpace v
      in if value = [] \<or> value \<in> set acc then uniqueTrimmed_loop values acc else uniqueTrimmed_loop values (acc @ [value]))"

definition uniqueTrimmed :: "string list \<Rightarrow> string list" where
  "uniqueTrimmed values = uniqueTrimmed_loop values []"

definition validateEndpoint :: "(string \<Rightarrow> URL result) \<Rightarrow> string \<Rightarrow> bool \<Rightarrow> unit result" where
  "validateEndpoint parse raw allowHTTP =
     (let absolute = Inl (ErrorString ''endpoint_url must be an absolute HTTP(S) URL without credentials or a fragment'')
      in if length raw > 2048 then absolute
         else case parse raw of
                Inl err \<Rightarrow> absolute
              | Inr parsed \<Rightarrow>
                  if urHostname parsed = [] \<or> urScheme parsed = [] \<or> urOpaque parsed \<noteq> [] \<or> urHasUser parsed \<or> urFragment parsed \<noteq> []
                  then absolute
                  else if urScheme parsed \<noteq> ''https'' \<and> (\<not> allowHTTP \<or> urScheme parsed \<noteq> ''http'')
                  then Inl (ErrorString ''endpoint_url must use HTTPS (HTTP is allowed only in development)'')
                  else if \<not> list_all is_digit (urPort parsed) then Inl (ErrorString ''endpoint_url port is invalid'')
                  else Inr ())"

primrec check_event_types :: "string list \<Rightarrow> unit result" where
  "check_event_types [] = Inr ()"
| "check_event_types (eventType # eventTypes) =
     (if \<not> eventTypePattern eventType
      then Inl (Errorf [([], Sentinel ErrInvalidInput)] ('': invalid event type '' @ Quote eventType))
      else check_event_types eventTypes)"

definition normalizeAndValidateDomain :: "TenantDomain option \<Rightarrow> string \<Rightarrow> TenantDomain result" where
  "normalizeAndValidateDomain item tenantID =
     (case item of
        None \<Rightarrow> Inl (Errorf [([], Sentinel ErrInvalidInput)] '': domain is required'')
      | Some d \<Rightarrow>
          let d = d\<lparr>tdTenantID := tenantID, tdName := TrimSpace (tdName d), tdEventTypes := uniqueTrimmed (tdEventTypes d)\<rparr>
          in if \<not> validTenantID tenantID \<or> \<not> namePattern (tdName d) \<or> length (tdEventTypes d) = 0 \<or>
                length (tdEventTypes d) > maxEventTypesPerDomain
             then Inl (Errorf [([], Sentinel ErrInvalidInput)]
                    ('': domain name and 1-'' @ nat_dec maxEventTypesPerDomain @ '' event_types are required''))
             else case check_event_types (tdEventTypes d) of Inl err \<Rightarrow> Inl err | Inr _ \<Rightarrow> Inr d)"

definition normalizeAndValidateService :: "(string \<Rightarrow> URL result) \<Rightarrow> DomainService option \<Rightarrow> string \<Rightarrow> bool \<Rightarrow> DomainService result" where
  "normalizeAndValidateService parse item tenantID allowHTTP =
     (case item of
        None \<Rightarrow> Inl (Errorf [([], Sentinel ErrInvalidInput)] '': service is required'')
      | Some s \<Rightarrow>
          let s = s\<lparr>dsTenantID := tenantID, dsName := TrimSpace (dsName s), dsEndpointURL := TrimSpace (dsEndpointURL s),
                dsDomainIDs := uniqueTrimmed (dsDomainIDs s)\<rparr>
          in if \<not> validTenantID tenantID \<or> \<not> namePattern (dsName s) \<or> length (dsDomainIDs s) > maxDomainsPerService
             then Inl (Errorf [([], Sentinel ErrInvalidInput)]
                    ('': service name and at most '' @ nat_dec maxDomainsPerService @ '' domain_ids are required''))
             else case validateEndpoint parse (dsEndpointURL s) allowHTTP of
                    Inl err \<Rightarrow> Inl (Errorf [([], Sentinel ErrInvalidInput), ('': '', err)] [])
                  | Inr _ \<Rightarrow> Inr s)"

section \<open>Domains\<close>

definition already_exists :: "string \<Rightarrow> string \<Rightarrow> gerr" where
  "already_exists what name = Errorf [([], Sentinel ErrConflict)] ('': '' @ what @ '' name '' @ Quote name @ '' already exists'')"

definition ensureDomainNameAvailable :: "TenantDomain \<Rightarrow> database world \<Rightarrow> unit result \<times> database world" where
  "ensureDomainNameAvailable item w =
     (case ListDomains (tdTenantID item) w of
        (Inl err, w') \<Rightarrow> (Inl (wrap ''check tenant domain names'' err), w')
      | (Inr existingDomains, w') \<Rightarrow>
          if list_ex (\<lambda>existing. tdID existing \<noteq> tdID item \<and> tdName existing = tdName item) existingDomains
          then (Inl (already_exists ''domain'' (tdName item)), w') else (Inr (), w'))"

definition initializeDomainIdentity :: "string \<Rightarrow> string \<Rightarrow> TenantDomain \<Rightarrow> database world \<Rightarrow> TenantDomain result \<times> database world" where
  "initializeDomainIdentity newID tenantID item w =
     (if tdID item = [] then (Inr (item\<lparr>tdID := newID\<rparr>), w)
      else case GetDomain tenantID (tdID item) w of
             (Inl err, w') \<Rightarrow> (Inl (wrap ''get tenant domain before update'' err), w')
           | (Inr None, w') \<Rightarrow> (Inl (Sentinel ErrNotFound), w')
           | (Inr (Some existing), w') \<Rightarrow> (Inr (item\<lparr>tdCreatedAt := tdCreatedAt existing\<rparr>), w'))"

definition persistDomain :: "time \<Rightarrow> TenantDomain \<Rightarrow> database world \<Rightarrow> TenantDomain result \<times> database world" where
  "persistDomain now item w =
     (let item = item\<lparr>tdCreatedAt := (if IsZero (tdCreatedAt item) then now else tdCreatedAt item), tdUpdatedAt := now\<rparr>
      in case SaveDomain item w of
           (Inl err, w') \<Rightarrow>
             if errors_Is err ErrDomainServiceConflict then (Inl (already_exists ''domain'' (tdName item)), w')
             else (Inl (wrap ''save tenant domain'' err), w')
         | (Inr _, w') \<Rightarrow> (Inr item, w'))"

definition DomainServices_SaveDomain ::
  "string \<Rightarrow> time \<Rightarrow> string \<Rightarrow> TenantDomain option \<Rightarrow> database world \<Rightarrow> TenantDomain result \<times> database world" where
  "DomainServices_SaveDomain newID now tenantID item w =
     (case normalizeAndValidateDomain item tenantID of
        Inl err \<Rightarrow> (Inl err, w)
      | Inr item1 \<Rightarrow>
          (case ensureDomainNameAvailable item1 w of
             (Inl err, w1) \<Rightarrow> (Inl err, w1)
           | (Inr _, w1) \<Rightarrow>
               (case initializeDomainIdentity newID tenantID item1 w1 of
                  (Inl err, w2) \<Rightarrow> (Inl err, w2)
                | (Inr item2, w2) \<Rightarrow> persistDomain now item2 w2)))"

definition DomainServices_GetDomain :: "string \<Rightarrow> string \<Rightarrow> database world \<Rightarrow> TenantDomain result \<times> database world" where
  "DomainServices_GetDomain tenantID domainID w =
     (case GetDomain tenantID domainID w of
        (Inl err, w') \<Rightarrow> (Inl (wrap ''get tenant domain'' err), w')
      | (Inr None, w') \<Rightarrow> (Inl (Sentinel ErrNotFound), w')
      | (Inr (Some item), w') \<Rightarrow> (Inr item, w'))"

definition DomainServices_ListDomains :: "string \<Rightarrow> database world \<Rightarrow> TenantDomain list result \<times> database world" where
  "DomainServices_ListDomains tenantID w =
     (case ListDomains tenantID w of
        (Inl err, w') \<Rightarrow> (Inl (wrap ''list tenant domains'' err), w')
      | (Inr items, w') \<Rightarrow> (Inr items, w'))"

definition DomainServices_DeleteDomain :: "string \<Rightarrow> string \<Rightarrow> database world \<Rightarrow> unit result \<times> database world" where
  "DomainServices_DeleteDomain tenantID domainID w =
     (case DomainServices_GetDomain tenantID domainID w of
        (Inl err, w1) \<Rightarrow> (Inl err, w1)
      | (Inr _, w1) \<Rightarrow>
          (case DeleteDomain tenantID domainID w1 of
             (Inl err, w') \<Rightarrow> (Inl (wrap ''delete tenant domain'' err), w')
           | (Inr _, w') \<Rightarrow> (Inr (), w')))"

section \<open>Services\<close>

primrec validateServiceDomains :: "string \<Rightarrow> string list \<Rightarrow> database world \<Rightarrow> unit result \<times> database world" where
  "validateServiceDomains tenantID [] w = (Inr (), w)"
| "validateServiceDomains tenantID (domainID # domainIDs) w =
     (case DomainServices_GetDomain tenantID domainID w of
        (Inl err, w') \<Rightarrow>
          if errors_Is err ErrNotFound
          then (Inl (Errorf [([], Sentinel ErrInvalidInput)] ('': domain '' @ Quote domainID @ '' does not belong to this tenant'')), w')
          else (Inl err, w')
      | (Inr _, w') \<Rightarrow> validateServiceDomains tenantID domainIDs w')"

definition ensureServiceNameAvailable :: "DomainService \<Rightarrow> database world \<Rightarrow> unit result \<times> database world" where
  "ensureServiceNameAvailable item w =
     (case ListServices (dsTenantID item) w of
        (Inl err, w') \<Rightarrow> (Inl (wrap ''check tenant service names'' err), w')
      | (Inr existingServices, w') \<Rightarrow>
          if list_ex (\<lambda>existing. dsID existing \<noteq> dsID item \<and> dsName existing = dsName item) existingServices
          then (Inl (already_exists ''service'' (dsName item)), w') else (Inr (), w'))"

definition initializeServiceIdentity :: "string \<Rightarrow> string \<Rightarrow> DomainService \<Rightarrow> database world \<Rightarrow> DomainService result \<times> database world" where
  "initializeServiceIdentity newID tenantID item w =
     (if dsID item = [] then (Inr (item\<lparr>dsID := newID, dsActive := True\<rparr>), w)
      else case GetService tenantID (dsID item) w of
             (Inl err, w') \<Rightarrow> (Inl (wrap ''get tenant service before update'' err), w')
           | (Inr None, w') \<Rightarrow> (Inl (Sentinel ErrNotFound), w')
           | (Inr (Some existing), w') \<Rightarrow>
               (Inr (item\<lparr>dsCreatedAt := dsCreatedAt existing, dsActive := dsActive existing\<rparr>), w'))"

definition persistService :: "time \<Rightarrow> DomainService \<Rightarrow> database world \<Rightarrow> DomainService result \<times> database world" where
  "persistService now item w =
     (let item = item\<lparr>dsCreatedAt := (if IsZero (dsCreatedAt item) then now else dsCreatedAt item), dsUpdatedAt := now\<rparr>
      in case SaveService item w of
           (Inl err, w') \<Rightarrow>
             if errors_Is err ErrDomainServiceConflict then (Inl (already_exists ''service'' (dsName item)), w')
             else (Inl (wrap ''save tenant service'' err), w')
         | (Inr _, w') \<Rightarrow> (Inr item, w'))"

definition DomainServices_SaveService ::
  "(string \<Rightarrow> URL result) \<Rightarrow> bool \<Rightarrow> string \<Rightarrow> time \<Rightarrow> string \<Rightarrow> DomainService option \<Rightarrow> database world \<Rightarrow> DomainService result \<times> database world" where
  "DomainServices_SaveService parse allowHTTP newID now tenantID item w =
     (case normalizeAndValidateService parse item tenantID allowHTTP of
        Inl err \<Rightarrow> (Inl err, w)
      | Inr item1 \<Rightarrow>
          (case validateServiceDomains tenantID (dsDomainIDs item1) w of
             (Inl err, w1) \<Rightarrow> (Inl err, w1)
           | (Inr _, w1) \<Rightarrow>
               (case ensureServiceNameAvailable item1 w1 of
                  (Inl err, w2) \<Rightarrow> (Inl err, w2)
                | (Inr _, w2) \<Rightarrow>
                    (case initializeServiceIdentity newID tenantID item1 w2 of
                       (Inl err, w3) \<Rightarrow> (Inl err, w3)
                     | (Inr item2, w3) \<Rightarrow> persistService now item2 w3))))"

definition DomainServices_GetService :: "string \<Rightarrow> string \<Rightarrow> database world \<Rightarrow> DomainService result \<times> database world" where
  "DomainServices_GetService tenantID serviceID w =
     (case GetService tenantID serviceID w of
        (Inl err, w') \<Rightarrow> (Inl (wrap ''get tenant service'' err), w')
      | (Inr None, w') \<Rightarrow> (Inl (Sentinel ErrNotFound), w')
      | (Inr (Some item), w') \<Rightarrow> (Inr item, w'))"

definition DomainServices_ListServices :: "string \<Rightarrow> database world \<Rightarrow> DomainService list result \<times> database world" where
  "DomainServices_ListServices tenantID w =
     (case ListServices tenantID w of
        (Inl err, w') \<Rightarrow> (Inl (wrap ''list tenant services'' err), w')
      | (Inr items, w') \<Rightarrow> (Inr items, w'))"

definition DomainServices_DeleteService :: "time \<Rightarrow> string \<Rightarrow> string \<Rightarrow> database world \<Rightarrow> unit result \<times> database world" where
  "DomainServices_DeleteService now tenantID serviceID w =
     (case DomainServices_GetService tenantID serviceID w of
        (Inl err, w1) \<Rightarrow> (Inl err, w1)
      | (Inr _, w1) \<Rightarrow>
          (case DeleteService now tenantID serviceID w1 of
             (Inl err, w') \<Rightarrow> (Inl (wrap ''deactivate tenant service'' err), w')
           | (Inr _, w') \<Rightarrow> (Inr (), w')))"

definition SubscribersForEvent :: "string \<Rightarrow> string \<Rightarrow> database world \<Rightarrow> DomainService list result \<times> database world" where
  "SubscribersForEvent tenantID eventType w =
     (case ListSubscribersForEvent tenantID eventType w of
        (Inl err, w') \<Rightarrow> (Inl (wrap ''list event subscribers'' err), w')
      | (Inr items, w') \<Rightarrow>
          if length items > 100
          then (Inl (ErrorString (''event '' @ Quote eventType @ '' exceeds the 100-service fan-out limit'')), w')
          else (Inr items, w'))"

section \<open>The registry stays well-formed\<close>

definition valid_domain :: "TenantDomain \<Rightarrow> bool" where
  "valid_domain d =
     (validTenantID (tdTenantID d) \<and> namePattern (tdName d) \<and> tdEventTypes d \<noteq> [] \<and> length (tdEventTypes d) \<le> maxEventTypesPerDomain \<and>
      distinct (tdEventTypes d) \<and> list_all eventTypePattern (tdEventTypes d))"

definition valid_service :: "(string \<Rightarrow> URL result) \<Rightarrow> bool \<Rightarrow> service_row \<Rightarrow> bool" where
  "valid_service parse allowHTTP s =
     (validTenantID (svTenantID s) \<and> namePattern (svName s) \<and> validateEndpoint parse (svEndpointURL s) allowHTTP = Inr ())"

abbreviation domain_name :: "TenantDomain \<Rightarrow> string \<times> string" where
  "domain_name d \<equiv> (tdTenantID d, tdName d)"

abbreviation service_name :: "service_row \<Rightarrow> string \<times> string" where
  "service_name s \<equiv> (svTenantID s, svName s)"

definition registry_ok :: "(string \<Rightarrow> URL result) \<Rightarrow> bool \<Rightarrow> database \<Rightarrow> bool" where
  "registry_ok parse allowHTTP db =
     (distinct (map domain_key (dbDomains db)) \<and> distinct (map service_key (dbServices db)) \<and>
      distinct (map subscription_key (dbSubscriptions db)) \<and>
      distinct (map domain_name (dbDomains db)) \<and> distinct (map service_name (dbServices db)) \<and>
      (\<forall>d \<in> set (dbDomains db). valid_domain d) \<and> (\<forall>s \<in> set (dbServices db). valid_service parse allowHTTP s) \<and>
      (\<forall>u \<in> set (dbSubscriptions db).
        (suTenantID u, suServiceID u) \<in> service_key ` set (dbServices db) \<and> (suTenantID u, suDomainID u) \<in> domain_key ` set (dbDomains db)))"

definition registry_order :: "(string \<Rightarrow> URL result) \<Rightarrow> bool \<Rightarrow> database \<Rightarrow> database \<Rightarrow> bool" where
  "registry_order parse allowHTTP db db' = (registry_ok parse allowHTTP db \<longrightarrow> registry_ok parse allowHTTP db')"

subsection \<open>Statements\<close>

text \<open>An upsert that is refused when another row has its name keeps names unique.\<close>

lemma upsert_names_distinct:
  assumes "distinct (map key t)" "distinct (map nm t)"
    and other: "\<And>x. x \<in> set t \<Longrightarrow> nm x = nm r \<Longrightarrow> key x = key r"
    and named: "\<And>x. x \<in> set t \<Longrightarrow> key x = key r \<Longrightarrow> nm (f x) = nm r"
  shows "distinct (map nm (fst (insert_do_update key r (\<lambda>x. True) f t)))"
proof (cases "key r \<in> key ` set t")
  case False
  have "nm r \<notin> nm ` set t"
  proof
    assume "nm r \<in> nm ` set t"
    then obtain x where "x \<in> set t" "nm x = nm r"
      by (auto simp: image_iff)
    then show False
      using other [of x] False by (auto simp: image_iff)
  qed
  then show ?thesis
    using assms(2) False by (simp add: insert_do_update_def)
next
  case True
  let ?g = "\<lambda>x. if key x = key r then f x else x"
  have keys: "inj_on key (set t)" and names: "inj_on nm (set t)"
    using assms(1,2) by (simp_all add: distinct_map)
  have "inj_on (\<lambda>x. nm (?g x)) (set t)"
  proof (rule inj_onI)
    fix x y assume x: "x \<in> set t" and y: "y \<in> set t" and eq: "nm (?g x) = nm (?g y)"
    have "key x = key r \<longleftrightarrow> key y = key r"
      using eq named [OF x] named [OF y] other [OF x] other [OF y] by (auto split: if_splits)
    then show "x = y"
      using eq inj_onD [OF keys _ x y] inj_onD [OF names _ x y] by (auto split: if_splits)
  qed
  then show ?thesis
    using True assms(1) by (simp add: insert_do_update_def update_where_def distinct_map comp_def)
qed

lemma upsert_set:
  "x \<in> set (fst (insert_do_update key r P f t)) \<Longrightarrow> x = r \<or> x \<in> set t \<or> (\<exists>y \<in> set t. key y = key r \<and> x = f y)"
  by (auto simp: insert_do_update_def split: if_splits)

lemma update_keys:
  assumes "\<And>x. key (f x) = key x"
  shows "map key (fst (update_where Q f t)) = map key t" "key ` set (fst (update_where Q f t)) = key ` set t"
proof -
  show m: "map key (fst (update_where Q f t)) = map key t"
    using assms by (simp add: update_where_def)
  show "key ` set (fst (update_where Q f t)) = key ` set t"
    unfolding set_map [symmetric] m by simp
qed

lemma upsert_keys:
  assumes "\<And>x. key (f x) = key x"
  shows "key ` set t \<subseteq> key ` set (fst (insert_do_update key r P f t))"
proof (cases "key r \<in> key ` set t")
  case True
  then show ?thesis
    unfolding insert_do_update_def if_P [OF True] update_keys(2) [of key f, OF assms] by simp
qed (auto simp: insert_do_update_def)

lemma save_domain_ok:
  assumes "valid_domain item"
  shows "guarantees (registry_order parse allowHTTP) (save_domain_statement item)"
  unfolding guarantees_def registry_order_def
proof (intro allI impI)
  fix now db db' a
  assume step: "save_domain_statement item now db = Inr (db', a)" and ok: "registry_ok parse allowHTTP db"
  let ?f = "\<lambda>d. d\<lparr>tdName := tdName item, tdEventTypes := tdEventTypes item, tdUpdatedAt := tdUpdatedAt item\<rparr>"
  let ?t = "fst (insert_do_update domain_key item (\<lambda>d. True) ?f (dbDomains db))"
  have db': "db' = db\<lparr>dbDomains := ?t\<rparr>"
    and free: "\<And>d. d \<in> set (dbDomains db) \<Longrightarrow> domain_name d = domain_name item \<Longrightarrow> domain_key d = domain_key item"
    using step by (auto simp: save_domain_statement_def domain_key_def split: if_splits prod.splits)
  have "distinct (map domain_key ?t)"
    by (rule domain_pk.unique_insert_do_update) (use ok in \<open>simp_all add: registry_ok_def domain_key_def\<close>)
  moreover have "distinct (map domain_name ?t)"
    by (rule upsert_names_distinct) (use ok free in \<open>auto simp: registry_ok_def domain_key_def\<close>)
  moreover have "\<forall>d \<in> set ?t. valid_domain d"
    using ok assms by (auto simp: registry_ok_def valid_domain_def domain_key_def dest!: upsert_set)
  moreover have "domain_key ` set (dbDomains db) \<subseteq> domain_key ` set ?t"
    by (rule upsert_keys) (simp add: domain_key_def)
  ultimately show "registry_ok parse allowHTTP db'"
    using ok unfolding db' registry_ok_def by (simp add: subset_iff)
qed

lemma save_service_ok:
  assumes "valid_service parse allowHTTP (service_row_of item)"
  shows "guarantees (registry_order parse allowHTTP) (save_service_statement item)"
  unfolding guarantees_def registry_order_def
proof (intro allI impI)
  fix now db db' a
  assume step: "save_service_statement item now db = Inr (db', a)" and ok: "registry_ok parse allowHTTP db"
  let ?f = "\<lambda>s. s\<lparr>svName := dsName item, svEndpointURL := dsEndpointURL item, svActive := dsActive item, svUpdatedAt := dsUpdatedAt item\<rparr>"
  let ?r = "service_row_of item"
  let ?t = "fst (insert_do_update service_key ?r (\<lambda>s. True) ?f (dbServices db))"
  have db': "db' = db\<lparr>dbServices := ?t\<rparr>"
    and free: "\<And>s. s \<in> set (dbServices db) \<Longrightarrow> service_name s = service_name ?r \<Longrightarrow> service_key s = service_key ?r"
    using step by (auto simp: save_service_statement_def service_key_def service_row_of_def split: if_splits prod.splits)
  have "distinct (map service_key ?t)"
    by (rule service_pk.unique_insert_do_update) (use ok in \<open>simp_all add: registry_ok_def service_key_def\<close>)
  moreover have "distinct (map service_name ?t)"
    by (rule upsert_names_distinct) (use ok free in \<open>auto simp: registry_ok_def service_key_def service_row_of_def\<close>)
  moreover have "\<forall>s \<in> set ?t. valid_service parse allowHTTP s"
    using ok assms by (auto simp: registry_ok_def valid_service_def service_key_def service_row_of_def dest!: upsert_set)
  moreover have "service_key ` set (dbServices db) \<subseteq> service_key ` set ?t"
    by (rule upsert_keys) (simp add: service_key_def)
  ultimately show "registry_ok parse allowHTTP db'"
    using ok unfolding db' registry_ok_def by (simp add: subset_iff)
qed

lemma delete_domain_ok: "guarantees (registry_order parse allowHTTP) (delete_domain_statement tenantID domainID)"
  by (auto simp: guarantees_def registry_order_def registry_ok_def delete_domain_statement_def delete_where_def distinct_map_filter
      domain_key_def)

lemma clear_subscriptions_ok: "guarantees (registry_order parse allowHTTP) (clear_subscriptions_statement tenantID serviceID)"
  by (auto simp: guarantees_def registry_order_def registry_ok_def clear_subscriptions_statement_def delete_where_def distinct_map_filter)

lemma subscribe_ok: "guarantees (registry_order parse allowHTTP) (subscribe_statement tenantID serviceID domainID)"
  by (auto simp: guarantees_def registry_order_def registry_ok_def subscribe_statement_def Let_def split: if_splits)

lemma deactivate_ok:
  "guarantees (registry_order parse allowHTTP) (\<lambda>_ db. let (t, n) = update_where (\<lambda>s. service_key s = (tenantID, serviceID))
     (\<lambda>s. s\<lparr>svActive := False, svUpdatedAt := now\<rparr>) (dbServices db) in Inr (db\<lparr>dbServices := t\<rparr>, n))"
  unfolding guarantees_def registry_order_def
proof (intro allI impI)
  fix now' a and db db' :: database
  let ?f = "\<lambda>s. s\<lparr>svActive := False, svUpdatedAt := now\<rparr>"
  let ?t = "fst (update_where (\<lambda>s. service_key s = (tenantID, serviceID)) ?f (dbServices db))"
  assume step: "(let (t, n) = update_where (\<lambda>s. service_key s = (tenantID, serviceID)) ?f (dbServices db) in Inr (db\<lparr>dbServices := t\<rparr>, n)) = Inr (db', a)"
    and ok: "registry_ok parse allowHTTP db"
  have db': "db' = db\<lparr>dbServices := ?t\<rparr>"
    using step by (auto split: prod.splits)
  have k: "map service_key ?t = map service_key (dbServices db)" "service_key ` set ?t = service_key ` set (dbServices db)"
    "map service_name ?t = map service_name (dbServices db)"
    by (rule update_keys, simp add: service_key_def)+
  have "\<forall>s \<in> set ?t. valid_service parse allowHTTP s"
    using ok by (auto simp: registry_ok_def valid_service_def)
  then show "registry_ok parse allowHTTP db'"
    using ok unfolding registry_ok_def db' by (simp add: k del: set_update_where)
qed

subsection \<open>Operations\<close>

lemma uniqueTrimmed_loop_distinct: "distinct acc \<Longrightarrow> distinct (uniqueTrimmed_loop values acc)"
  by (induction "values" arbitrary: acc) (simp_all add: Let_def)

lemma check_event_types_Inr: "check_event_types ts = Inr () \<Longrightarrow> list_all eventTypePattern ts"
  by (induction ts) (auto split: if_splits)

lemma normalized_domain:
  assumes "normalizeAndValidateDomain item tenantID = Inr d"
  shows "valid_domain d"
  using assms check_event_types_Inr
  by (auto simp: normalizeAndValidateDomain_def valid_domain_def Let_def uniqueTrimmed_def uniqueTrimmed_loop_distinct
      split: option.splits if_splits sum.splits)

lemma normalized_service:
  assumes "normalizeAndValidateService parse item tenantID allowHTTP = Inr s"
  shows "valid_service parse allowHTTP (service_row_of s)"
  using assms by (auto simp: normalizeAndValidateService_def valid_service_def service_row_of_def Let_def split: option.splits if_splits sum.splits)

lemma snd_persistDomain:
  "snd (persistDomain now d w) = snd (SaveDomain (d\<lparr>tdCreatedAt := if IsZero (tdCreatedAt d) then now else tdCreatedAt d, tdUpdatedAt := now\<rparr>) w)"
proof -
  obtain r w' where s: "SaveDomain (d\<lparr>tdCreatedAt := if IsZero (tdCreatedAt d) then now else tdCreatedAt d, tdUpdatedAt := now\<rparr>) w = (r, w')"
    by (metis prod.exhaust)
  show ?thesis
    unfolding persistDomain_def Let_def s by (cases r) simp_all
qed

lemma snd_persistService:
  "snd (persistService now s w) = snd (SaveService (s\<lparr>dsCreatedAt := if IsZero (dsCreatedAt s) then now else dsCreatedAt s, dsUpdatedAt := now\<rparr>) w)"
proof -
  obtain r w' where s: "SaveService (s\<lparr>dsCreatedAt := if IsZero (dsCreatedAt s) then now else dsCreatedAt s, dsUpdatedAt := now\<rparr>) w = (r, w')"
    by (metis prod.exhaust)
  show ?thesis
    unfolding persistService_def Let_def s by (cases r) simp_all
qed

text \<open>The interface: a preorder that the statements for validated items respect.  What is validated does
  not depend on the identifier, the times and the activity of an item.\<close>

locale registry_updates = interference R for R :: "database \<Rightarrow> database \<Rightarrow> bool" +
  fixes parse :: "string \<Rightarrow> URL result" and allowHTTP :: bool
  assumes R_save_domain: "normalizeAndValidateDomain item tenantID = Inr d \<Longrightarrow>
      guarantees R (save_domain_statement (d\<lparr>tdID := i, tdCreatedAt := c, tdUpdatedAt := u\<rparr>))"
    and R_delete_domain: "guarantees R (delete_domain_statement tenantID domainID)"
    and R_save_service: "normalizeAndValidateService parse item' tenantID allowHTTP = Inr s \<Longrightarrow>
      guarantees R (save_service_statement (s\<lparr>dsID := i, dsActive := active, dsCreatedAt := c, dsUpdatedAt := u\<rparr>))"
    and R_clear: "guarantees R (clear_subscriptions_statement tenantID serviceID)"
    and R_subscribe: "guarantees R (subscribe_statement tenantID serviceID domainID)"
    and R_deactivate: "guarantees R (\<lambda>_ db. let (t, n) = update_where (\<lambda>s. service_key s = (tenantID, serviceID))
      (\<lambda>s. s\<lparr>svActive := False, svUpdatedAt := now\<rparr>) (dbServices db) in Inr (db\<lparr>dbServices := t\<rparr>, n))"
begin

lemma GetDomain_within: "within R w (snd (GetDomain tenantID domainID w))"
  by (auto simp: GetDomain_def split: prod.split sum.split intro: withinI_reading)

lemma ServiceGetDomain_within: "within R w (snd (DomainServices_GetDomain tenantID domainID w))"
  using GetDomain_within [of w tenantID domainID] by (auto simp: DomainServices_GetDomain_def split: prod.split sum.split option.split)

lemma validateServiceDomains_within: "within R w (snd (validateServiceDomains tenantID domainIDs w))"
proof (induction domainIDs arbitrary: w)
  case (Cons domainID domainIDs)
  obtain r w1 where 1: "DomainServices_GetDomain tenantID domainID w = (r, w1)"
    by force
  then show ?case
    using ServiceGetDomain_within [of w tenantID domainID] within_trans [OF _ Cons] by (auto split: sum.split)
qed (simp add: within_refl)

lemma listServiceDomains_within: "within R w (snd (listServiceDomains tenantID serviceID w))"
  by (auto simp: listServiceDomains_def split: prod.split sum.split option.split intro: withinI_reading)

lemma withDomains_within: "within R w (snd (withDomains tenantID rows w))"
proof (induction rows arbitrary: w)
  case (Cons s rows)
  obtain r w1 where 1: "listServiceDomains tenantID (svServiceID s) w = (r, w1)"
    by force
  moreover obtain r2 w2 where "withDomains tenantID rows w1 = (r2, w2)"
    by force
  ultimately show ?case
    using listServiceDomains_within [of w tenantID "svServiceID s"] Cons [of w1] by (auto split: sum.split intro: within_trans)
qed (simp add: within_refl)

lemma ListServices_within: "within R w (snd (ListServices tenantID w))"
  unfolding ListServices_def
  by (auto split: prod.split sum.split option.split intro: withinI_reading within_trans [OF withinI_reading(2) withDomains_within])

lemma GetService_within: "within R w (snd (GetService tenantID serviceID w))"
proof -
  obtain r w1 where q: "QueryRow (reading (\<lambda>now db. select_row (\<lambda>s. service_key s = (tenantID, serviceID)) (dbServices db))) w = (r, w1)"
    by force
  obtain r2 w2 where l: "listServiceDomains tenantID serviceID w1 = (r2, w2)"
    by force
  have "within R w w1" "within R w1 w2"
    using withinI_reading(1) [OF q] listServiceDomains_within [of w1 tenantID serviceID] l by simp_all
  then show ?thesis
    using q l by (auto simp: GetService_def split: sum.split intro: within_trans)
qed

lemma saveSubscriptions_within: "within R w (snd (saveSubscriptions tenantID serviceID domainIDs w))"
proof (induction domainIDs arbitrary: w)
  case (Cons domainID domainIDs)
  obtain r w1 where 1: "Exec (subscribe_statement tenantID serviceID domainID) w = (r, w1)"
    by force
  then show ?case
    using Exec_within [OF R_subscribe, of w tenantID serviceID domainID] within_trans [OF _ Cons] by (auto split: sum.split)
qed (simp add: within_refl)

lemma SaveService_within:
  assumes "guarantees R (save_service_statement item)"
  shows "within R w (snd (SaveService item w))"
proof -
  have body: "within R tw (snd (saveService item tw))" for tw
  proof -
    obtain r w1 where 1: "Exec (save_service_statement item) tw = (r, w1)"
      by force
    obtain r2 w2 where 2: "Exec (clear_subscriptions_statement (dsTenantID item) (dsID item)) w1 = (r2, w2)"
      by force
    have "within R tw w1" "within R w1 w2"
      using Exec_within [OF assms, of tw] 1 Exec_within [OF R_clear, of w1] 2 by (metis snd_conv)+
    then show ?thesis
      using 1 2 within_trans saveSubscriptions_within by (auto simp: saveService_def split: sum.split)
  qed
  have "within R w (snd (transaction (\<lambda>tw. case saveService item tw of
      (Inl err, tw') \<Rightarrow> (Discard (Inl err), tw') | (Inr _, tw') \<Rightarrow> (Keep (Inr ()), tw')) w))"
    by (rule transaction_within) (use body in \<open>auto split: prod.split sum.split, (metis snd_conv)+\<close>)
  then show ?thesis
    by (auto simp: SaveService_def split: prod.split transaction_result.split)
qed

lemma SaveDomain_within: "guarantees R (save_domain_statement item) \<Longrightarrow> within R w (snd (SaveDomain item w))"
  using Exec_within [of "save_domain_statement item" w] by (auto simp: SaveDomain_def split: prod.split sum.split)

lemma ServiceSaveDomain_within: "within R w (snd (DomainServices_SaveDomain newID now tenantID item w))"
proof (cases "normalizeAndValidateDomain item tenantID")
  case (Inr d)
  obtain r1 w1 where 1: "ensureDomainNameAvailable d w = (r1, w1)"
    by force
  obtain r2 w2 where 2: "initializeDomainIdentity newID tenantID d w1 = (r2, w2)"
    by force
  have "within R w w1"
    using 1 by (auto simp: ensureDomainNameAvailable_def ListDomains_def split: prod.splits sum.splits option.splits if_splits intro: withinI_reading)
  moreover have "within R w1 w2"
    using 2 GetDomain_within [of w1 tenantID "tdID d"]
    by (auto simp: initializeDomainIdentity_def within_refl split: prod.splits sum.splits option.splits if_splits)
  moreover have "within R w2 (snd (persistDomain now d' w2))" if "r2 = Inr d'" for d'
  proof -
    have "d'\<lparr>tdCreatedAt := c, tdUpdatedAt := u\<rparr> = d\<lparr>tdID := tdID d', tdCreatedAt := c, tdUpdatedAt := u\<rparr>" for c u
      using 2 that by (cases d) (auto simp: initializeDomainIdentity_def split: prod.splits sum.splits option.splits if_splits)
    then have g: "guarantees R (save_domain_statement (d'\<lparr>tdCreatedAt := c, tdUpdatedAt := u\<rparr>))" for c u
      using R_save_domain [OF Inr] by simp
    show ?thesis
      using SaveDomain_within [OF g [where c = "if IsZero (tdCreatedAt d') then now else tdCreatedAt d'" and u = now], of w2]
      by (simp only: snd_persistDomain)
  qed
  ultimately show ?thesis
    using Inr 1 2 by (auto simp: DomainServices_SaveDomain_def split: sum.split intro: within_trans)
qed (simp add: DomainServices_SaveDomain_def within_refl)

lemma ServiceSaveService_within: "within R w (snd (DomainServices_SaveService parse allowHTTP newID now tenantID item w))"
proof (cases "normalizeAndValidateService parse item tenantID allowHTTP")
  case (Inr s)
  obtain r1 w1 where 1: "validateServiceDomains tenantID (dsDomainIDs s) w = (r1, w1)"
    by force
  obtain r2 w2 where 2: "ensureServiceNameAvailable s w1 = (r2, w2)"
    by force
  obtain r3 w3 where 3: "initializeServiceIdentity newID tenantID s w2 = (r3, w3)"
    by force
  have "within R w w1"
    using validateServiceDomains_within [of w tenantID "dsDomainIDs s"] 1 by simp
  moreover have "within R w1 w2"
    using 2 ListServices_within [of w1 "dsTenantID s"] by (auto simp: ensureServiceNameAvailable_def split: prod.splits sum.splits if_splits)
  moreover have "within R w2 w3"
    using 3 GetService_within [of w2 tenantID "dsID s"]
    by (auto simp: initializeServiceIdentity_def within_refl split: prod.splits sum.splits option.splits if_splits)
  moreover have "within R w3 (snd (persistService now s' w3))" if "r3 = Inr s'" for s'
  proof -
    have "s'\<lparr>dsCreatedAt := c, dsUpdatedAt := u\<rparr> = s\<lparr>dsID := dsID s', dsActive := dsActive s', dsCreatedAt := c, dsUpdatedAt := u\<rparr>" for c u
      using 3 that by (cases s) (auto simp: initializeServiceIdentity_def split: prod.splits sum.splits option.splits if_splits)
    then have g: "guarantees R (save_service_statement (s'\<lparr>dsCreatedAt := c, dsUpdatedAt := u\<rparr>))" for c u
      using R_save_service [OF Inr] by simp
    show ?thesis
      using SaveService_within [OF g [where c = "if IsZero (dsCreatedAt s') then now else dsCreatedAt s'" and u = now], of w3]
      by (simp only: snd_persistService)
  qed
  ultimately show ?thesis
    using Inr 1 2 3 by (auto simp: DomainServices_SaveService_def split: sum.split intro: within_trans)
qed (simp add: DomainServices_SaveService_def within_refl)

lemma ServiceDeleteDomain_within: "within R w (snd (DomainServices_DeleteDomain tenantID domainID w))"
proof -
  obtain r w1 where 1: "DomainServices_GetDomain tenantID domainID w = (r, w1)"
    by force
  obtain r2 w2 where 2: "Exec (delete_domain_statement tenantID domainID) w1 = (r2, w2)"
    by force
  have "within R w w1" "within R w1 w2"
    using ServiceGetDomain_within [of w tenantID domainID] 1 withinI(1) [OF 2 R_delete_domain] by simp_all
  then show ?thesis
    using 1 2 by (auto simp: DomainServices_DeleteDomain_def DeleteDomain_def split: sum.split intro: within_trans)
qed

lemma ServiceDeleteService_within: "within R w (snd (DomainServices_DeleteService now tenantID serviceID w))"
proof -
  obtain r w1 where 1: "GetService tenantID serviceID w = (r, w1)"
    by force
  have "within R w w1" "within R w1 (snd (DeleteService now tenantID serviceID w1))"
    using GetService_within [of w tenantID serviceID] 1 Exec_within [OF R_deactivate, of w1 tenantID serviceID now]
    by (auto simp: DeleteService_def split: prod.split sum.split)
  then show ?thesis
    using 1 by (auto simp: DomainServices_DeleteService_def DomainServices_GetService_def split: sum.split option.split prod.splits intro: within_trans)
qed

end

interpretation registry: registry_updates "registry_order parse allowHTTP" parse allowHTTP for parse allowHTTP
proof unfold_locales
  fix db db' db''
  show "registry_order parse allowHTTP db db"
    by (simp add: registry_order_def)
  show "registry_order parse allowHTTP db db' \<Longrightarrow> registry_order parse allowHTTP db' db'' \<Longrightarrow> registry_order parse allowHTTP db db''"
    by (simp add: registry_order_def)
next
  fix item tenantID d i c u
  assume "normalizeAndValidateDomain item tenantID = Inr d"
  then have "valid_domain (d\<lparr>tdID := i, tdCreatedAt := c, tdUpdatedAt := u\<rparr>)"
    using normalized_domain by (fastforce simp: valid_domain_def)
  then show "guarantees (registry_order parse allowHTTP) (save_domain_statement (d\<lparr>tdID := i, tdCreatedAt := c, tdUpdatedAt := u\<rparr>))"
    by (rule save_domain_ok)
next
  fix item' tenantID s i active c u
  assume "normalizeAndValidateService parse item' tenantID allowHTTP = Inr s"
  then have "valid_service parse allowHTTP (service_row_of (s\<lparr>dsID := i, dsActive := active, dsCreatedAt := c, dsUpdatedAt := u\<rparr>))"
    using normalized_service by (fastforce simp: valid_service_def service_row_of_def)
  then show "guarantees (registry_order parse allowHTTP)
      (save_service_statement (s\<lparr>dsID := i, dsActive := active, dsCreatedAt := c, dsUpdatedAt := u\<rparr>))"
    by (rule save_service_ok)
qed (rule delete_domain_ok clear_subscriptions_ok subscribe_ok deactivate_ok)+

datatype registry_call =
    RegSaveDomain string time string "TenantDomain option"
  | RegDeleteDomain string string
  | RegSaveService string time string "DomainService option"
  | RegDeleteService time string string

primrec perform_registry :: "(string \<Rightarrow> URL result) \<Rightarrow> bool \<Rightarrow> registry_call \<Rightarrow> database world \<Rightarrow> database world" where
  "perform_registry parse allowHTTP (RegSaveDomain newID now tenantID item) w = snd (DomainServices_SaveDomain newID now tenantID item w)"
| "perform_registry parse allowHTTP (RegDeleteDomain tenantID domainID) w = snd (DomainServices_DeleteDomain tenantID domainID w)"
| "perform_registry parse allowHTTP (RegSaveService newID now tenantID item) w =
     snd (DomainServices_SaveService parse allowHTTP newID now tenantID item w)"
| "perform_registry parse allowHTTP (RegDeleteService now tenantID serviceID) w = snd (DomainServices_DeleteService now tenantID serviceID w)"

text \<open>C31. The registry stays well-formed: whatever domains and services are saved and deleted, with whatever input, amid
  failing calls and others that keep it so, every stored domain and service is valid (names, event types, tenant,
  endpoint), names are unique within a tenant, and a subscription refers to a service and a domain of the same tenant.\<close>

theorem registry_stays_valid:
  assumes "rely (registry_order parse allowHTTP) w" and "registry_ok parse allowHTTP (woDb w)"
  shows "registry_ok parse allowHTTP (woDb (fold (perform_registry parse allowHTTP) calls w))"
proof -
  have "within (registry_order parse allowHTTP) w (perform_registry parse allowHTTP c w)" for c w
    by (cases c) (simp_all add: registry.ServiceSaveDomain_within registry.ServiceDeleteDomain_within registry.ServiceSaveService_within
        registry.ServiceDeleteService_within)
  then have "within (registry_order parse allowHTTP) w (fold (perform_registry parse allowHTTP) calls w)"
    by (rule registry.fold_within)
  then show ?thesis
    using assms by (simp add: within_def registry_order_def)
qed

theorem registry_stays_valid_witness:
  "registry_ok sample_url False (woDb (fold (perform_registry sample_url False)
     [RegSaveService ''s'' 7 ''t'' (Some \<lparr>dsID = [], dsTenantID = [], dsName = '' n '', dsEndpointURL = ''https://h'', dsDomainIDs = [],
        dsActive = False, dsCreatedAt = 0, dsUpdatedAt = 0\<rparr>), RegDeleteService 8 ''t'' ''s''] (calm 5 empty_database)))"
  by (rule registry_stays_valid) (simp_all add: rely_calm registry.R_refl registry_ok_def empty_database_def)

section \<open>An update can reactivate a service\<close>

text \<open>An update reads the activity of the service and writes it back, which is meant to keep a disabled service
  disabled.  But the two are not one transaction: a service that another process deactivates in between is active
  again.\<close>

definition moment :: "(database \<Rightarrow> database) \<Rightarrow> database moment" where
  "moment others = \<lparr>moNow = 5, moOthers = others, moFault = NoFault, moInner = sconst NoFault\<rparr>"

definition deactivating :: "database \<Rightarrow> database" where
  "deactivating db = woDb (snd (DomainServices_DeleteService 6 ''t'' ''s'' (calm 6 db)))"

definition racing_world :: "database world" where
  "racing_world =
     \<lparr>woDb = sample_services,
      woFuture = moment id ## moment id ## moment id ## moment id ## moment deactivating ## sconst (moment id)\<rparr>"

lemma transaction_moment:
  "transaction body \<lparr>woDb = db, woFuture = moment others ## sconst (moment id)\<rparr> =
     (case body (calm 5 (others db)) of
        (Discard a, tw) \<Rightarrow> (Finished a, \<lparr>woDb = others db, woFuture = sconst (moment id)\<rparr>)
      | (Keep a, tw) \<Rightarrow> (Finished a, \<lparr>woDb = woDb tw, woFuture = sconst (moment id)\<rparr>))"
proof -
  have world: "transaction_world (moment others) db' = calm 5 db'" for db'
    by (simp add: moment_def transaction_world_def calm_def smap_sconst)
  have "moFault (moment f) = NoFault" "moOthers (moment f) = f" for f
    by (simp_all add: moment_def)
  then show ?thesis
    by (simp add: transaction_def Let_def world split: prod.split verdict.split)
qed

lemma deactivating_sample:
  "deactivating sample_services =
     sample_services\<lparr>dbServices := [(hd (dbServices sample_services))\<lparr>svActive := False, svUpdatedAt := 6\<rparr>]\<rparr>"
  by (simp add: deactivating_def DomainServices_DeleteService_def DomainServices_GetService_def GetService_def listServiceDomains_def DeleteService_def
      calm_simps sample_services_def empty_database_def select_row_def select_rows_def service_key_def update_where_def)

lemma sample_item_valid:
  "normalizeAndValidateService sample_url (Some (service_of_row (hd (dbServices sample_services)) [])) ''t'' False =
     Inr (service_of_row (hd (dbServices sample_services)) [])"
proof -
  have "TrimSpace ''n'' = ''n''" "TrimSpace ''https://h'' = ''https://h''" "validTenantID ''t''" "namePattern ''n''"
    by code_simp+
  then show ?thesis
    by (simp add: normalizeAndValidateService_def service_of_row_def sample_services_def uniqueTrimmed_def validateEndpoint_def sample_url_def Let_def)
qed

lemma moment_calls:
  "Query (reading f) \<lparr>woDb = db, woFuture = moment id ## s\<rparr> = (Inr (f 5 db, None), \<lparr>woDb = db, woFuture = s\<rparr>)"
  "QueryRow (reading g) \<lparr>woDb = db, woFuture = moment id ## s\<rparr> =
     (case g 5 db of None \<Rightarrow> Inl (Sentinel PgxErrNoRows) | Some a \<Rightarrow> Inr a, \<lparr>woDb = db, woFuture = s\<rparr>)"
  by (simp_all add: Query_def QueryRow_def Exec_def db_call_def moment_def Let_def split: option.split)

lemmas sample_steps = ListServices_def withDomains.simps listServiceDomains_def GetService_def moment_calls
  sample_services_def empty_database_def select_row_def select_rows_def service_key_def service_of_row_def

lemma stale_update_reactivates:
  "\<exists>item w'. DomainServices_SaveService sample_url False [] 9 ''t'' (Some (service_of_row (hd (dbServices sample_services)) [])) racing_world =
     (Inr item, w') \<and> map svActive (dbServices (woDb w')) = [True]"
proof -
  let ?item = "service_of_row (hd (dbServices sample_services)) []"
  let ?w2 = "\<lparr>woDb = sample_services, woFuture = moment id ## moment id ## moment deactivating ## sconst (moment id)\<rparr>"
  let ?w3 = "\<lparr>woDb = sample_services, woFuture = moment deactivating ## sconst (moment id)\<rparr>"
  have 1: "validateServiceDomains ''t'' (dsDomainIDs ?item) racing_world = (Inr (), racing_world)"
    by (simp add: service_of_row_def)
  have 2: "ensureServiceNameAvailable ?item racing_world = (Inr (), ?w2)"
    by (simp add: ensureServiceNameAvailable_def racing_world_def sample_steps)
  have 3: "initializeServiceIdentity [] ''t'' ?item ?w2 = (Inr ?item, ?w3)"
    by (simp add: initializeServiceIdentity_def sample_steps)
  have saved: "\<exists>w'. SaveService (?item\<lparr>dsCreatedAt := c, dsUpdatedAt := 9\<rparr>) ?w3 = (Inr (), w') \<and> map svActive (dbServices (woDb w')) = [True]" for c
    unfolding SaveService_def transaction_moment deactivating_sample
    by (simp add: saveService_def calm_simps save_service_statement_def clear_subscriptions_statement_def insert_do_update_def update_where_def
        delete_where_def sample_steps service_row_of_def)
  obtain w' where w': "SaveService (?item\<lparr>dsCreatedAt := if IsZero (dsCreatedAt ?item) then 9 else dsCreatedAt ?item, dsUpdatedAt := 9\<rparr>) ?w3 = (Inr (), w')"
      "map svActive (dbServices (woDb w')) = [True]"
    using saved [of "if IsZero (dsCreatedAt ?item) then 9 else dsCreatedAt ?item"] by (elim exE conjE)
  have 4: "\<exists>item. persistService 9 ?item ?w3 = (Inr item, w')"
    unfolding persistService_def Let_def w'(1) by simp
  show ?thesis
    unfolding DomainServices_SaveService_def sample_item_valid 1 2 3 sum.case prod.case
    using 4 w'(2) by (elim exE) (intro exI conjI)
qed

end
