(* ===== verification/NatsConnection.thy ===== *)
theory NatsConnection
  imports NatsConsumer
begin

text \<open>
  The rest of \<^verbatim>\<open>internal/adapters/nats/jetstream.go\<close>: connecting, the stream, health, and the publishing methods of the
  consumer.  The client library is a record of operations on its state.  A consumer that is created has a normalized
  configuration, and every subject the adapters publish on is one of the stream's.
\<close>

section \<open>Connections\<close>

text \<open>To connect, to open JetStream, to close, to create or update a stream with its subjects, whether the connection is
  up, and to look up a stream.\<close>

record 'j Broker =
  brConnect :: "Config \<Rightarrow> 'j \<Rightarrow> gerr option \<times> 'j"
  brJetStream :: "'j \<Rightarrow> gerr option"
  brClose :: "'j \<Rightarrow> 'j"
  brCreateOrUpdateStream :: "string \<Rightarrow> string list \<Rightarrow> 'j \<Rightarrow> gerr option \<times> 'j"
  brConnected :: "'j \<Rightarrow> bool"
  brStream :: "string \<Rightarrow> 'j \<Rightarrow> gerr option"

definition ensureStream :: "'j Broker \<Rightarrow> Config \<Rightarrow> 'j \<Rightarrow> gerr option \<times> 'j" where
  "ensureStream br cfg j =
     (case brCreateOrUpdateStream br (cfStream cfg) (streamSubjects cfg) j of
        (Some err, j') \<Rightarrow> (Some (wrap ''create stream'' err), j')
      | (None, j') \<Rightarrow> (None, j'))"

text \<open>Both constructors, up to the texts of their errors: the configuration they run with.\<close>

definition open_connection :: "'j Broker \<Rightarrow> string \<Rightarrow> string \<Rightarrow> Config \<Rightarrow> 'j \<Rightarrow> Config result \<times> 'j" where
  "open_connection br connecting creating cfg0 j =
     (case normalizeConfig cfg0 of
        Inl err \<Rightarrow> (Inl err, j)
      | Inr cfg \<Rightarrow>
          (case brConnect br cfg j of
             (Some err, j1) \<Rightarrow> (Inl (wrap connecting err), j1)
           | (None, j1) \<Rightarrow>
               (case brJetStream br j1 of
                  Some err \<Rightarrow> (Inl (wrap creating err), brClose br j1)
                | None \<Rightarrow>
                    (case ensureStream br cfg j1 of
                       (Some err, j2) \<Rightarrow> (Inl err, brClose br j2)
                     | (None, j2) \<Rightarrow> (Inr cfg, j2)))))"

definition NewConsumer :: "'j Broker \<Rightarrow> Config \<Rightarrow> 'j \<Rightarrow> Consumer result \<times> 'j" where
  "NewConsumer br cfg j =
     (case open_connection br ''connect nats'' ''create jetstream'' cfg j of
        (Inl err, j') \<Rightarrow> (Inl err, j')
      | (Inr cfg', j') \<Rightarrow> (Inr (NewConsumer_of cfg'), j'))"

record Publisher =
  puStream :: string
  puNumShards :: u32
  puRuleSets :: "string list"

definition NewPublisher :: "'j Broker \<Rightarrow> Config \<Rightarrow> 'j \<Rightarrow> Publisher result \<times> 'j" where
  "NewPublisher br cfg j =
     (case open_connection br ''connect nats publisher'' ''create jetstream publisher'' cfg j of
        (Inl err, j') \<Rightarrow> (Inl err, j')
      | (Inr cfg', j') \<Rightarrow> (Inr \<lparr>puStream = cfStream cfg', puNumShards = cfNumShards cfg', puRuleSets = cfRuleSets cfg'\<rparr>, j'))"

definition Consumer_Ping :: "'j Broker \<Rightarrow> Consumer \<Rightarrow> 'j \<Rightarrow> gerr option" where
  "Consumer_Ping br c j =
     (if \<not> brConnected br j then Some (ErrorString ''nats connection is not established'')
      else case brStream br (cnStream c) j of
             Some err \<Rightarrow> Some (Errorf [(''look up stream '' @ Quote (cnStream c) @ '': '', err)] [])
           | None \<Rightarrow> None)"

definition Publisher_Ping :: "'j Broker \<Rightarrow> Publisher \<Rightarrow> 'j \<Rightarrow> gerr option" where
  "Publisher_Ping br p j =
     (if \<not> brConnected br j then Some (ErrorString ''nats publisher connection is not established'')
      else case brStream br (puStream p) j of
             Some err \<Rightarrow> Some (Errorf [(''look up stream '' @ Quote (puStream p) @ '': '', err)] [])
           | None \<Rightarrow> None)"

definition Consumer_Close :: "'j Broker \<Rightarrow> 'j \<Rightarrow> 'j" where
  "Consumer_Close br j = brClose br j"

section \<open>Publishing through the consumer\<close>

definition Consumer_Publish :: "'j JetStream \<Rightarrow> string \<Rightarrow> string \<Rightarrow> 'j \<Rightarrow> gerr option \<times> 'j" where
  "Consumer_Publish js subject data j =
     (case jsPublish js subject data j of
        (Some err, j') \<Rightarrow> (Some (Errorf [(''publish subject '' @ Quote subject @ '': '', err)] []), j')
      | (None, j') \<Rightarrow> (None, j'))"

primrec Consumer_PublishBatch_from :: "'j JetStream \<Rightarrow> nat \<Rightarrow> (string \<times> string) list \<Rightarrow> 'j \<Rightarrow> gerr option \<times> 'j" where
  "Consumer_PublishBatch_from js i [] j = (None, j)"
| "Consumer_PublishBatch_from js i (m # messages) j =
     (case jsPublish js (fst m) (snd m) j of
        (Some err, j') \<Rightarrow> (Some (Errorf [(''publish batch message '' @ nat_dec i @ '' to '' @ Quote (fst m) @ '': '', err)] []), j')
      | (None, j') \<Rightarrow> Consumer_PublishBatch_from js (Suc i) messages j')"

definition Consumer_PublishToShard ::
  "(string \<Rightarrow> string) \<Rightarrow> 'j JetStream \<Rightarrow> Consumer \<Rightarrow> string \<Rightarrow> u32 \<Rightarrow> string \<Rightarrow> 'j \<Rightarrow> gerr option \<times> 'j" where
  "Consumer_PublishToShard H js c baseSubject shard data j =
     Consumer_Publish js (subjectForMessage H baseSubject shard data (cnRuleSets c)) data j"

definition Consumer_SendOrderCreate :: "(string \<Rightarrow> string) \<Rightarrow> 'j JetStream \<Rightarrow> Consumer \<Rightarrow> u32 \<Rightarrow> string \<Rightarrow> 'j \<Rightarrow> gerr option \<times> 'j" where
  "Consumer_SendOrderCreate H js c shard payload j = Consumer_PublishToShard H js c ''orders.create'' shard payload j"

text \<open>The first value of each header.\<close>

definition delivery_Headers :: "(string \<times> string list) list \<Rightarrow> (string \<times> string) list" where
  "delivery_Headers headers = map (\<lambda>(k, v). (k, hd v)) (filter (\<lambda>(k, v). v \<noteq> []) headers)"

section \<open>A new consumer is well-formed\<close>

lemma normalizeSubjects_loop_ok:
  "normalizeSubjects_loop values acc = Inr subjects \<Longrightarrow> distinct acc \<Longrightarrow> distinct subjects \<and> (values \<noteq> [] \<or> acc \<noteq> [] \<longrightarrow> subjects \<noteq> [])"
  by (induction "values" arbitrary: acc) (fastforce simp: Let_def split: if_splits)+

lemma normalizeRuleSets_loop_ok:
  "normalizeRuleSets_loop values acc = Inr ruleSets \<Longrightarrow> distinct acc \<Longrightarrow> [] \<notin> set acc \<Longrightarrow> distinct ruleSets \<and> [] \<notin> set ruleSets"
  by (induction "values" arbitrary: acc) (auto simp: Let_def split: if_splits)

lemma NewConsumer_ok:
  assumes "NewConsumer br cfg j = (Inr c, j')"
  shows "consumer_ok c \<and> cnConsumers c = [] \<and> 0 < cnNumShards c \<and> cfMaxDeliver (cnCfg c) = - 1"
proof -
  obtain cfg' where c: "normalizeConfig cfg = Inr cfg'" "c = NewConsumer_of cfg'"
    using assms by (auto simp: NewConsumer_def open_connection_def split: prod.splits sum.splits option.splits)
  have "cfSubjects (applyConfigDefaults cfg) \<noteq> []" "0 < cfNumShards (applyConfigDefaults cfg)"
    by (simp_all add: applyConfigDefaults_def word_gt_0)
  then show ?thesis
    using c normalizeSubjects_loop_ok [of "cfSubjects (applyConfigDefaults cfg)" "[]"]
      normalizeRuleSets_loop_ok [of "cfRuleSets (applyConfigDefaults cfg)" "[]"]
    by (auto simp: normalizeConfig_def consumer_ok_def NewConsumer_of_def normalizeSubjects_def normalizeRuleSets_def
        validateConsumerConfig_def Let_def split: sum.splits if_splits)
qed

section \<open>Subjects of the stream\<close>

text \<open>Subjects are tokens separated by dots; the token \<^verbatim>\<open>*\<close> of a stream's subject stands for any one token.\<close>

fun tokens :: "string \<Rightarrow> string list" where
  "tokens [] = [[]]"
| "tokens (c # s) = (if c = CHR ''.'' then [] # tokens s else (c # hd (tokens s)) # tl (tokens s))"

definition subject_matches :: "string \<Rightarrow> string \<Rightarrow> bool" where
  "subject_matches pattern subject = list_all2 (\<lambda>p t. p = ''*'' \<or> p = t) (tokens pattern) (tokens subject)"

lemma tokens_nonempty: "tokens s \<noteq> []"
  by (induction s) auto

lemma tokens_dot: "tokens (a @ CHR ''.'' # b) = tokens a @ tokens b"
  by (induction a) (auto simp: tokens_nonempty)

lemma tokens_plain: "CHR ''.'' \<notin> set a \<Longrightarrow> tokens a = [a]"
  by (induction a) auto

lemma shard_dec_plain: "CHR ''.'' \<notin> set (shard_dec shard)"
  by (auto simp: shard_dec_def int_dec_def dest: nat_dec_digits)

lemma matches_refl: "list_all2 (\<lambda>p t. p = ''*'' \<or> p = t) ts ts"
  by (induction ts) auto

lemma published_subject_in_stream:
  assumes "baseSubject \<in> set (cfSubjects cfg)" and "\<And>ruleSet. CHR ''.'' \<notin> set (H ruleSet)"
  shows "\<exists>pattern \<in> set (streamSubjects cfg). subject_matches pattern (subjectForMessage H baseSubject shard data ruleSets)"
proof -
  have plain: "subject_matches (baseSubject @ ''.shard.*'') (baseSubject @ ''.shard.'' @ shard_dec shard)"
    using shard_dec_plain [of shard]
    by (simp add: subject_matches_def tokens_dot tokens_plain matches_refl list_all2_append)
  have ruled: "subject_matches (baseSubject @ ''.ruleset.*.shard.*'') (ruleSetSubject H baseSubject ruleSet shard)" for ruleSet
    using shard_dec_plain [of shard] assms(2) [of ruleSet]
    by (simp add: subject_matches_def ruleSetSubject_def ruleSetToken_def tokens_dot tokens_plain matches_refl list_all2_append)
  show ?thesis
    using assms(1) plain ruled by (auto simp: subjectForMessage_def streamSubjects_def split: option.split)
qed

end
