(* ===== verification/QuarantineService.thy ===== *)
theory QuarantineService
  imports QuarantineRepository TableOrder
begin

text \<open>
  \<^verbatim>\<open>internal/services/quarantine/service.go\<close>: the service over the quarantine repository.  The identifier of
  \<^verbatim>\<open>domain.NewID()\<close> is an argument.  Tenants are isolated: no call of a tenant touches the entries of another.
\<close>

definition QuarantineService_Save :: "string \<Rightarrow> QuarantineEntry \<Rightarrow> database world \<Rightarrow> unit result \<times> database world" where
  "QuarantineService_Save newID entry w =
     Quarantine_Save (if qeID entry = [] then entry\<lparr>qeID := newID\<rparr> else entry) w"

definition QuarantineService_Get :: "string \<Rightarrow> string \<Rightarrow> database world \<Rightarrow> QuarantineEntry option result \<times> database world" where
  "QuarantineService_Get tenantID qid w =
     (if tenantID = [] then (Inl (Sentinel ErrQuarantineNotFound), w) else Quarantine_Get tenantID qid w)"

definition QuarantineService_List :: "QuarantineFilter \<Rightarrow> database world \<Rightarrow> QuarantineEntry list result \<times> database world" where
  "QuarantineService_List f w =
     (if qfTenantID f = [] then (Inl (ErrorString ''tenant_id is required''), w)
      else Quarantine_List (if qfLimit f \<le> 0 then f\<lparr>qfLimit := 100\<rparr> else f) w)"

definition QuarantineService_Replay :: "string \<Rightarrow> string \<Rightarrow> database world \<Rightarrow> unit result \<times> database world" where
  "QuarantineService_Replay tenantID qid w =
     (if tenantID = [] then (Inl (Sentinel ErrQuarantineNotFound), w) else Quarantine_Replay tenantID qid w)"

definition QuarantineService_Delete :: "string \<Rightarrow> string \<Rightarrow> database world \<Rightarrow> unit result \<times> database world" where
  "QuarantineService_Delete tenantID qid w =
     (if tenantID = [] then (Inl (Sentinel ErrQuarantineNotFound), w) else Quarantine_Delete tenantID qid w)"

definition ReplayAndDelete :: "string \<Rightarrow> string \<Rightarrow> database world \<Rightarrow> unit result \<times> database world" where
  "ReplayAndDelete tenantID qid w =
     (case QuarantineService_Replay tenantID qid w of
        (Inl err, w') \<Rightarrow> (Inl (wrap ''replay'' err), w')
      | (Inr _, w') \<Rightarrow> QuarantineService_Delete tenantID qid w')"

section \<open>Tenants are isolated\<close>

definition others_entries :: "string \<Rightarrow> database \<Rightarrow> quarantine_row list" where
  "others_entries tenantID db = filter (\<lambda>r. qeTenantID (qrEntry r) \<noteq> tenantID) (dbQuarantine db)"

definition isolated :: "string \<Rightarrow> database \<Rightarrow> database \<Rightarrow> bool" where
  "isolated tenantID db db' = (others_entries tenantID db' = others_entries tenantID db)"

interpretation isolation: interference "isolated tenantID" for tenantID
  by unfold_locales (auto simp: isolated_def)

lemma filter_map_other: "(\<And>x. P (f x) = P x) \<Longrightarrow> (\<And>x. P x \<Longrightarrow> f x = x) \<Longrightarrow> filter P (map f xs) = filter P xs"
  by (induction xs) auto

lemma replay_isolated: "guarantees (isolated tenantID) (on_quarantine (\<lambda>now. update_where (of_tenant tenantID qid) (\<lambda>r. r\<lparr>qrUpdatedAt := now\<rparr>)))"
  by (auto simp: guarantees_def isolated_def others_entries_def on_quarantine_def update_where_def of_tenant_def intro!: filter_map_other split: if_splits)

lemma delete_isolated: "guarantees (isolated tenantID) (on_quarantine (\<lambda>now. delete_where (of_tenant tenantID qid)))"
  by (auto simp: guarantees_def isolated_def others_entries_def on_quarantine_def delete_where_def of_tenant_def intro!: filter_cong)

lemma Replay_isolated: "within (isolated tenantID) w (snd (QuarantineService_Replay tenantID qid w))"
  by (auto simp: QuarantineService_Replay_def Quarantine_Replay_def isolation.within_refl split: prod.split sum.split
      intro: isolation.withinI(1) [OF _ replay_isolated])

lemma Delete_isolated: "within (isolated tenantID) w (snd (QuarantineService_Delete tenantID qid w))"
  by (auto simp: QuarantineService_Delete_def Quarantine_Delete_def isolation.within_refl split: prod.split sum.split
      intro: isolation.withinI(1) [OF _ delete_isolated])

lemma ReplayAndDelete_isolated: "within (isolated tenantID) w (snd (ReplayAndDelete tenantID qid w))"
proof -
  obtain r w1 where 1: "QuarantineService_Replay tenantID qid w = (r, w1)"
    by force
  then show ?thesis
    using Replay_isolated [of tenantID w qid] isolation.within_trans [OF _ Delete_isolated] by (auto simp: ReplayAndDelete_def split: sum.split)
qed

text \<open>What a tenant reads is its own.\<close>

lemma Quarantine_List_own:
  assumes "QuarantineService_List f w = (Inr entries, w')" and "e \<in> set entries"
  shows "qeTenantID e = qfTenantID f \<and> length entries \<le> 500"
proof -
  let ?f = "if qfLimit f \<le> 0 then f\<lparr>qfLimit := 100\<rparr> else f"
  have "Quarantine_List ?f w = (Inr entries, w')" "qfTenantID ?f = qfTenantID f"
    using assms(1) by (auto simp: QuarantineService_List_def split: if_splits)
  then show ?thesis
    using assms(2)
    by (auto simp: Quarantine_List_def normalizeQuarantinePagination_def select_rows_def matches_filter_def Let_def
        split: if_splits prod.splits sum.splits option.splits dest!: Query_Inr in_set_takeD in_set_dropD)
qed

end
