(* ===== verification/MongoLeases.thy ===== *)
theory MongoLeases
  imports ShardLeases TableOrder
begin

text \<open>
  \<^verbatim>\<open>internal/adapters/mongo/shard.go\<close>: the leases of the virtual shards in the other backend.  A collection is the list of its
  documents, with a unique index on the shard (\<^verbatim>\<open>indexModels\<close> of \<^verbatim>\<open>db.go\<close>); documents are held in the lease table of the
  database.  Times are readings of the clock of the worker that calls, an argument of every call, so that nothing is
  assumed of how the clocks of different workers agree.  A release clears the owner and keeps the token.

  Fencing holds here too, whatever the clocks say: \<open>mongo_lease_fencing\<close>.
\<close>

section \<open>Commands of the driver\<close>

definition mongo_duplicate_key :: gerr where
  "mongo_duplicate_key = ErrorString ''E11000 duplicate key error''"

definition IsDuplicateKeyError :: "gerr \<Rightarrow> bool" where
  "IsDuplicateKeyError err = (err = mongo_duplicate_key)"

text \<open>\<^verbatim>\<open>FindOne\<close>: no document is \<open>None\<close>, the error \<^verbatim>\<open>mongo.ErrNoDocuments\<close>.\<close>

definition FindOne :: "(ShardLease \<Rightarrow> bool) \<Rightarrow> database world \<Rightarrow> ShardLease option result \<times> database world" where
  "FindOne P w = Exec (reading (\<lambda>now db. select_row P (dbLeases db))) w"

text \<open>\<^verbatim>\<open>UpdateOne\<close> changes the first document that matches and counts it.\<close>

primrec update_first :: "('r \<Rightarrow> bool) \<Rightarrow> ('r \<Rightarrow> 'r) \<Rightarrow> 'r list \<Rightarrow> 'r list \<times> nat" where
  "update_first P f [] = ([], 0)"
| "update_first P f (r # t) = (if P r then (f r # t, 1) else let (t', n) = update_first P f t in (r # t', n))"

definition UpdateOne :: "(ShardLease \<Rightarrow> bool) \<Rightarrow> (ShardLease \<Rightarrow> ShardLease) \<Rightarrow> database world \<Rightarrow> nat result \<times> database world" where
  "UpdateOne P f w = Exec (on_leases (\<lambda>_. update_first P f)) w"

text \<open>\<^verbatim>\<open>FindOneAndUpdate\<close> with \<^verbatim>\<open>SetUpsert\<close> and \<^verbatim>\<open>ReturnDocument(After)\<close>: the document that matches is updated and returned, or
  the given one inserted, unless the unique index has its key.\<close>

definition find_and_upsert ::
  "(ShardLease \<Rightarrow> bool) \<Rightarrow> (ShardLease \<Rightarrow> ShardLease) \<Rightarrow> ShardLease \<Rightarrow> time \<Rightarrow> database \<Rightarrow> (database \<times> ShardLease) result" where
  "find_and_upsert P f new now db =
     (case select_row P (dbLeases db) of
        Some doc \<Rightarrow> Inr (db\<lparr>dbLeases := fst (update_first P f (dbLeases db))\<rparr>, f doc)
      | None \<Rightarrow>
          if slVirtualShard new \<in> slVirtualShard ` set (dbLeases db) then Inl mongo_duplicate_key
          else Inr (db\<lparr>dbLeases := dbLeases db @ [new]\<rparr>, new))"

text \<open>Dates are stored and compared in milliseconds.\<close>

definition bson_date :: "time \<Rightarrow> time" where
  "bson_date t = t div millisecond * millisecond"

section \<open>The repository\<close>

definition mongo_available :: "u32 \<Rightarrow> string \<Rightarrow> time \<Rightarrow> ShardLease \<Rightarrow> bool" where
  "mongo_available shard owner now r = (slVirtualShard r = shard \<and> (slExpiresAt r < bson_date now \<or> slOwner r = owner))"

text \<open>An upsert takes the shard from the filter, and increments a token that is missing to 1.\<close>

definition Mongo_Acquire :: "time \<Rightarrow> u32 \<Rightarrow> string \<Rightarrow> duration \<Rightarrow> database world \<Rightarrow> ShardLease option result \<times> database world" where
  "Mongo_Acquire now shard owner ttl w =
     (case Exec (find_and_upsert (mongo_available shard owner now)
             (\<lambda>r. r\<lparr>slOwner := owner, slExpiresAt := bson_date (now + ttl), slFencingToken := slFencingToken r + 1\<rparr>)
             \<lparr>slVirtualShard = shard, slOwner = owner, slFencingToken = 1, slExpiresAt = bson_date (now + ttl), slRoutingEpoch = 0\<rparr>) w of
        (Inl err, w') \<Rightarrow>
          if IsDuplicateKeyError err then (Inl (Sentinel ErrLeaseOwnedByOther), w') else (Inl (wrap ''acquire lease'' err), w')
      | (Inr doc, w') \<Rightarrow> if slOwner doc \<noteq> owner then (Inl (Sentinel ErrLeaseOwnedByOther), w') else (Inr (Some doc), w'))"

definition mongo_held :: "u32 \<Rightarrow> string \<Rightarrow> int \<Rightarrow> time \<Rightarrow> ShardLease \<Rightarrow> bool" where
  "mongo_held shard owner fencingToken now r =
     (slVirtualShard r = shard \<and> slOwner r = owner \<and> slFencingToken r = fencingToken \<and> bson_date now < slExpiresAt r)"

definition Mongo_GetOwner :: "u32 \<Rightarrow> database world \<Rightarrow> ShardLease option result \<times> database world" where
  "Mongo_GetOwner shard w =
     (case FindOne (\<lambda>r. slVirtualShard r = shard) w of
        (Inl err, w') \<Rightarrow> (Inl (wrap ''get owner'' err), w')
      | (Inr doc, w') \<Rightarrow> (Inr doc, w'))"

definition Mongo_Renew :: "time \<Rightarrow> u32 \<Rightarrow> string \<Rightarrow> int \<Rightarrow> duration \<Rightarrow> database world \<Rightarrow> ShardLease option result \<times> database world" where
  "Mongo_Renew now shard owner fencingToken ttl w =
     (case UpdateOne (mongo_held shard owner fencingToken now) (\<lambda>r. r\<lparr>slExpiresAt := bson_date (now + ttl)\<rparr>) w of
        (Inl err, w') \<Rightarrow> (Inl (wrap ''renew lease'' err), w')
      | (Inr n, w') \<Rightarrow> if n = 0 then (Inl (Sentinel ErrLeaseExpired), w') else Mongo_GetOwner shard w')"

definition Mongo_Release :: "time \<Rightarrow> u32 \<Rightarrow> string \<Rightarrow> database world \<Rightarrow> unit result \<times> database world" where
  "Mongo_Release now shard owner w =
     (case UpdateOne (\<lambda>r. slVirtualShard r = shard \<and> slOwner r = owner) (\<lambda>r. r\<lparr>slOwner := [], slExpiresAt := bson_date now\<rparr>) w of
        (Inl err, w') \<Rightarrow> (Inl (wrap ''release lease'' err), w')
      | (Inr n, w') \<Rightarrow> (Inr (), w'))"

definition Mongo_ValidateFencingToken :: "time \<Rightarrow> u32 \<Rightarrow> string \<Rightarrow> int \<Rightarrow> database world \<Rightarrow> unit result \<times> database world" where
  "Mongo_ValidateFencingToken now shard owner fencingToken w =
     (case FindOne (mongo_held shard owner fencingToken now) w of
        (Inl err, w') \<Rightarrow> (Inl (wrap ''validate fencing token'' err), w')
      | (Inr None, w') \<Rightarrow> (Inl (Sentinel ErrFencingTokenMismatch), w')
      | (Inr (Some doc), w') \<Rightarrow> (Inr (), w'))"

definition Mongo_AssertHeld :: "time \<Rightarrow> u32 \<Rightarrow> string \<Rightarrow> int \<Rightarrow> database world \<Rightarrow> unit result \<times> database world" where
  "Mongo_AssertHeld now shard owner fencingToken w =
     (case FindOne (mongo_held shard owner fencingToken now) w of
        (Inl err, w') \<Rightarrow> (Inl (wrap ''assert held'' err), w')
      | (Inr None, w') \<Rightarrow> (Inl (Sentinel ErrFencingTokenMismatch), w')
      | (Inr (Some doc), w') \<Rightarrow> if fencingToken \<le> 0 then (Inl (Sentinel ErrFencingTokenMismatch), w') else (Inr (), w'))"

datatype mongo_call =
    MongoAcquire time u32 string duration
  | MongoRenew time u32 string int duration
  | MongoRelease time u32 string
  | MongoGetOwner u32
  | MongoValidate time u32 string int
  | MongoAssertHeld time u32 string int

primrec perform_mongo :: "mongo_call \<Rightarrow> database world \<Rightarrow> database world" where
  "perform_mongo (MongoAcquire now shard owner ttl) w = snd (Mongo_Acquire now shard owner ttl w)"
| "perform_mongo (MongoRenew now shard owner token ttl) w = snd (Mongo_Renew now shard owner token ttl w)"
| "perform_mongo (MongoRelease now shard owner) w = snd (Mongo_Release now shard owner w)"
| "perform_mongo (MongoGetOwner shard) w = snd (Mongo_GetOwner shard w)"
| "perform_mongo (MongoValidate now shard owner token) w = snd (Mongo_ValidateFencingToken now shard owner token w)"
| "perform_mongo (MongoAssertHeld now shard owner token) w = snd (Mongo_AssertHeld now shard owner token w)"

section \<open>Fencing\<close>

text \<open>A document lives on; its token grows, or it keeps its owner, or loses it.\<close>

definition mongo_grows :: "ShardLease \<Rightarrow> ShardLease \<Rightarrow> bool" where
  "mongo_grows r r' =
     (slVirtualShard r' = slVirtualShard r \<and>
      (slFencingToken r < slFencingToken r' \<or> slFencingToken r' = slFencingToken r \<and> slOwner r' \<in> {slOwner r, []}))"

interpretation mongo_rows: growing_rows slVirtualShard dbLeases mongo_grows
  by unfold_locales (auto simp: mongo_grows_def)

abbreviation mongo_order :: "database \<Rightarrow> database \<Rightarrow> bool" where
  "mongo_order \<equiv> table_order dbLeases slVirtualShard mongo_grows"

lemma update_first_live:
  assumes "\<And>r. P r \<Longrightarrow> mongo_grows r (f r)"
  shows "rows_live_on slVirtualShard mongo_grows t (fst (update_first P f t))"
proof -
  have grows: "list_all2 mongo_grows t (fst (update_first P f t))"
    by (induction t) (auto simp: assms mongo_rows.grows_refl list.rel_refl split: prod.splits)
  then have "map slVirtualShard (fst (update_first P f t)) = map slVirtualShard t"
    by (induction rule: list_all2_induct) (auto simp: mongo_grows_def)
  then show ?thesis
    using grows by (auto simp: rows_live_on_def list_all2_conv_all_nth in_set_conv_nth) (metis nth_mem)
qed

lemma UpdateOne_within:
  assumes "\<And>r. P r \<Longrightarrow> mongo_grows r (f r)"
  shows "within mongo_order w (snd (UpdateOne P f w))"
proof -
  have "guarantees mongo_order (on_leases (\<lambda>_. update_first P f))"
    unfolding guarantees_def
  proof (intro allI impI)
    fix now db db' a
    assume "on_leases (\<lambda>_. update_first P f) now db = Inr (db', a)"
    then have "dbLeases db' = fst (update_first P f (dbLeases db))"
      by (auto simp: on_leases_def split: prod.splits)
    then show "mongo_order db db'"
      using update_first_live [of P f "dbLeases db"] assms by (simp add: table_order_def)
  qed
  then show ?thesis
    unfolding UpdateOne_def by (rule mongo_rows.Exec_within)
qed

lemma FindOne_within: "within mongo_order w (snd (FindOne P w))"
  unfolding FindOne_def by (rule mongo_rows.Exec_within [OF mongo_rows.guarantees_reading])

lemma Mongo_GetOwner_within: "within mongo_order w (snd (Mongo_GetOwner shard w))"
  using FindOne_within [of w] by (auto simp: Mongo_GetOwner_def split: prod.split sum.split) (metis snd_conv)+

lemma Mongo_Acquire_within: "within mongo_order w (snd (Mongo_Acquire now shard owner ttl w))"
proof -
  let ?f = "\<lambda>r. r\<lparr>slOwner := owner, slExpiresAt := bson_date (now + ttl), slFencingToken := slFencingToken r + 1\<rparr>"
  let ?new = "\<lparr>slVirtualShard = shard, slOwner = owner, slFencingToken = 1, slExpiresAt = bson_date (now + ttl), slRoutingEpoch = 0\<rparr>"
  have "guarantees mongo_order (find_and_upsert (mongo_available shard owner now) ?f ?new)"
    by (auto simp: guarantees_def find_and_upsert_def table_order_def mongo_grows_def split: option.splits if_splits
        intro!: update_first_live mongo_rows.live_append)
  then have "within mongo_order w (snd (Exec (find_and_upsert (mongo_available shard owner now) ?f ?new) w))"
    by (rule mongo_rows.Exec_within)
  then show ?thesis
    by (auto simp: Mongo_Acquire_def split: prod.split sum.split)
qed

lemma Mongo_Renew_within: "within mongo_order w (snd (Mongo_Renew now shard owner token ttl w))"
proof -
  obtain r w1 where 1: "UpdateOne (mongo_held shard owner token now) (\<lambda>r. r\<lparr>slExpiresAt := bson_date (now + ttl)\<rparr>) w = (r, w1)"
    by force
  have "within mongo_order w w1"
    using UpdateOne_within [of "mongo_held shard owner token now" "\<lambda>r. r\<lparr>slExpiresAt := bson_date (now + ttl)\<rparr>" w] 1
    by (simp add: mongo_grows_def)
  then show ?thesis
    using 1 mongo_rows.within_trans [OF _ Mongo_GetOwner_within] by (auto simp: Mongo_Renew_def split: sum.split)
qed

lemma Mongo_Release_within: "within mongo_order w (snd (Mongo_Release now shard owner w))"
  using UpdateOne_within [of "\<lambda>r. slVirtualShard r = shard \<and> slOwner r = owner" "\<lambda>r. r\<lparr>slOwner := [], slExpiresAt := bson_date now\<rparr>" w]
  by (auto simp: Mongo_Release_def mongo_grows_def split: prod.split sum.split)

lemma Mongo_AssertHeld_within: "within mongo_order w (snd (Mongo_AssertHeld now shard owner token w))"
  using FindOne_within [of w "mongo_held shard owner token now"]
  by (auto simp: Mongo_AssertHeld_def split: prod.split sum.split option.split)

lemma Mongo_Validate_within: "within mongo_order w (snd (Mongo_ValidateFencingToken now shard owner token w))"
  using FindOne_within [of w "mongo_held shard owner token now"]
  by (auto simp: Mongo_ValidateFencingToken_def split: prod.split sum.split option.split)

lemma perform_mongo_within: "within mongo_order w (perform_mongo c w)"
  by (cases c) (simp_all add: Mongo_Acquire_within Mongo_Renew_within Mongo_Release_within Mongo_GetOwner_within Mongo_Validate_within
      Mongo_AssertHeld_within)

lemma Mongo_AssertHeld_Inr:
  assumes "Mongo_AssertHeld now shard owner token w = (Inr (), w')"
  shows "\<exists>r \<in> set (dbLeases (woDb w')). slVirtualShard r = shard \<and> slOwner r = owner \<and> slFencingToken r = token"
  using assms
  by (auto simp: Mongo_AssertHeld_def FindOne_def mongo_held_def select_row_def split: prod.splits sum.splits option.splits if_splits
      dest!: Exec_Inr find_SomeD)

text \<open>C24. Fencing on MongoDB.  Once a worker has been accepted with a token, and any sequence of calls of any workers
  has followed, with whatever readings of their clocks, amid failing calls and other traffic on the leases, whoever
  is accepted for the shard has a token at least as large, and another worker, if it has a name, a larger one.\<close>

theorem mongo_lease_fencing:
  assumes "distinct (map slVirtualShard (dbLeases (woDb w)))" and "rely mongo_order w"
    and "Mongo_AssertHeld now shard a token w = (Inr (), w1)"
    and "fold perform_mongo calls w1 = w2"
    and "Mongo_AssertHeld now' shard b token' w2 = (Inr (), w3)"
  shows "token \<le> token' \<and> (a \<noteq> b \<and> b \<noteq> [] \<longrightarrow> token < token')"
proof -
  have w1: "mongo_order (woDb w) (woDb w1) \<and> rely mongo_order w1"
    using Mongo_AssertHeld_within [of w now shard a token] assms(2,3) by (simp add: within_def)
  have "within mongo_order w1 w2"
    unfolding assms(4) [symmetric] by (rule mongo_rows.fold_within) (rule perform_mongo_within)
  then have w3: "mongo_order (woDb w1) (woDb w3)"
    using mongo_rows.within_trans [OF _ Mongo_AssertHeld_within [of w2 now' shard b token']] assms(5) w1 by (simp add: within_def)
  obtain r where r: "r \<in> set (dbLeases (woDb w1))" "slVirtualShard r = shard" "slOwner r = a" "slFencingToken r = token"
    using Mongo_AssertHeld_Inr [OF assms(3)] by blast
  obtain r' where r': "r' \<in> set (dbLeases (woDb w3))" "slVirtualShard r' = shard" "slOwner r' = b" "slFencingToken r' = token'"
    using Mongo_AssertHeld_Inr [OF assms(5)] by blast
  have "distinct (map slVirtualShard (dbLeases (woDb w1)))"
    using w1 assms(1) by (simp add: table_order_def rows_live_on_def)
  then have "mongo_grows r r'"
    using mongo_rows.lives [OF w3] r r' by auto
  then show ?thesis
    using r r' by (auto simp: mongo_grows_def)
qed

theorem mongo_lease_fencing_witness:
  "\<exists>w1 w3. Mongo_AssertHeld 0 0 ''a'' 1 (calm 5 (woDb takeover_world)) = (Inr (), w1) \<and>
     Mongo_AssertHeld 0 0 ''b'' 2 (fold perform_mongo [MongoRelease second 0 ''a'', MongoAcquire (2 * second) 0 ''b'' second] w1) = (Inr (), w3) \<and>
     (1 :: int) < 2"
proof -
  let ?w = "calm 5 (woDb takeover_world)"
  let ?calls = "[MongoRelease second 0 ''a'', MongoAcquire (2 * second) 0 ''b'' second]"
  have ok: "distinct (map slVirtualShard (dbLeases (woDb ?w)))" "rely mongo_order ?w"
    by (simp_all add: takeover_world_def rely_calm mongo_rows.R_refl [of "db :: database" for db])
  have 1: "Mongo_AssertHeld 0 0 ''a'' 1 ?w = (Inr (), ?w)"
    by (simp add: Mongo_AssertHeld_def FindOne_def mongo_held_def bson_date_def takeover_world_def calm_simps select_row_def go_simps)
  obtain w3 where 3: "Mongo_AssertHeld 0 0 ''b'' 2 (fold perform_mongo ?calls ?w) = (Inr (), w3)"
    by (simp add: Mongo_AssertHeld_def Mongo_Release_def Mongo_Acquire_def UpdateOne_def FindOne_def mongo_held_def mongo_available_def bson_date_def
        find_and_upsert_def on_leases_def takeover_world_def empty_database_def calm_simps select_row_def go_simps)
  show ?thesis
    using mongo_lease_fencing [OF ok 1 refl 3] 1 3 by auto
qed

end
