(* ===== verification/Spec2Isabelle.thy ===== *)
theory Spec2Isabelle
  imports KeyQueue LeaseRenewal EffectPublisher EventHistory Scheduler RuleService Worker Workflow EventIngestion DomainServices NatsConnection
    QuarantineService MongoLeases
begin

text \<open>
  \<^bold>\<open>The program.\<close>  FlowRule is an event-driven rules runtime.  Events enter through an HTTP endpoint, which
  publishes their envelopes to NATS JetStream on the subject of their shard, the hash of tenant and partition key.
  Worker processes share the shards by leases with fencing tokens in PostgreSQL.  A worker fetches the deliveries of its
  shards, queues them per partition key, and processes each event in one transaction: it asserts its lease, enters the
  event in the inbox, evaluates the tenant's active rule revision, and records the execution and its effects in the
  outbox; then it acknowledges the delivery, has it retried, or quarantines the event.  A publisher claims effects of
  the outbox and sends them: child events back to the broker, service events to the HTTP endpoints of the tenants'
  services, others to an external sender.  Beside this path a scheduler publishes events that have become due, a
  batch service groups events, and services manage rules, workflows, domains and the quarantine.

  \<^bold>\<open>Theories and sources\<close> (paths below \<^verbatim>\<open>src/\<close>).  Foundations:

  \<^item> \<open>Prelude\<close>: strings, decimal numbers, shared list lemmas and the collections of simplification rules.
  \<^item> \<open>GoStrings\<close>, \<open>GoFloat\<close>, \<open>GoTime\<close>, \<open>TimeParse\<close>, \<open>GoJson\<close>, \<open>JsonRead\<close>: \<^verbatim>\<open>strings\<close>, \<^verbatim>\<open>strconv\<close>, \<^verbatim>\<open>time\<close> and \<^verbatim>\<open>encoding/json\<close> as far as
    the code uses them, with the lemmas that reading undoes writing.
  \<^item> \<open>SqlTable\<close>, \<open>Database\<close>, \<open>TableOrder\<close>: the statements of the adapters as functions on lists of rows, and the database
    as a world: before each call other processes may change it, and the call may fail before or after it took
    effect.  Rely and guarantee are the locale \<open>interference\<close>, tables whose rows only grow the locale \<open>growing_rows\<close>, keys the
    locale \<open>primary_key\<close>.
  \<^item> \<open>Reachability\<close>: runs of a step relation, invariants and monotone quantities.
  \<^item> \<open>DomainErrors\<close>, \<open>DomainTypes\<close>: \<^verbatim>\<open>internal/domain\<close>.

  Rules and events:

  \<^item> \<open>Compiler\<close>, \<open>Evaluator\<close>: \<^verbatim>\<open>internal/rules\<close>.  The compiler accepts exactly the acceptable rule sets; a predicate it
    accepted evaluates to its truth value up to named errors of its leaves, and a decision names exactly the rules that match and is the same on replay.
  \<^item> \<open>InboxRepository\<close>, \<open>OutboxRepository\<close>, \<open>QuarantineRepository\<close>, \<open>RuleRepository\<close>, \<open>DomainServiceRepository\<close>,
    \<open>ScheduledRepository\<close>, \<open>BatchRepository\<close>, \<open>ShardLeases\<close>: the adapters of \<^verbatim>\<open>internal/adapters/postgres\<close>, one function per method.
  \<^item> \<open>MongoLeases\<close>: \<^verbatim>\<open>internal/adapters/mongo/shard.go\<close>, the leases in the other database, with the same fencing.
  \<^item> \<open>EventService\<close>, \<open>EventHistory\<close>: \<^verbatim>\<open>internal/services/events\<close>.  Processing refines an abstract step that refuses,
    repeats or records an event as a whole; hence events are processed at most once, and a worker with a
    stale token records nothing.
  \<^item> \<open>EffectPublisher\<close>: \<^verbatim>\<open>internal/services/effects/service.go\<close>.  Effects are durable, delivered only after they were sent, and
    settled within their attempts; without faults a batch delivers what is due.
  \<^item> \<open>JsonCompact\<close>, \<open>EnvelopeCodec\<close>: compacting a JSON text keeps its meaning; the envelope on the wire and its round trip, in which the
    data comes back compacted.
  \<^item> \<open>RuleService\<close>, \<open>Scheduler\<close>, \<open>BatchService\<close>, \<open>Workflow\<close>, \<open>DomainServices\<close>, \<open>QuarantineService\<close>: the services and the scheduler with
    what each keeps invariant.  \<open>Workflow\<close> includes its repository and refines the state machine of the domain.
  \<^item> \<open>PublicAddress\<close>, \<open>ServiceSender\<close>: \<^verbatim>\<open>internal/adapters/effects/domain_service_sender.go\<close> and the effect router
    as \<^verbatim>\<open>cmd/worker\<close> builds it.  The test of public addresses is equivalent to a list of special networks, which is the code's own list, and nothing
    else is dialed.
  \<^item> \<open>EventIngestion\<close>: \<^verbatim>\<open>internal/adapters/http/handlers/events_ingest.go\<close>.

  The runtime:

  \<^item> \<open>KeyQueue\<close>: \<^verbatim>\<open>internal/runtime/keyqueue\<close> as interleaved steps of submitters, workers and shutdown: mutual exclusion per key,
    order, bounds, draining.
  \<^item> \<open>LeaseManager\<close>, \<open>LeaseRenewal\<close>: \<^verbatim>\<open>internal/runtime/shard\<close>: tokens, the equivalence of the two ways to renew, rebalancing.
  \<^item> \<open>NatsConsumer\<close>, \<open>NatsConnection\<close>: \<^verbatim>\<open>internal/adapters/nats\<close>.
  \<^item> \<open>Worker\<close>: \<^verbatim>\<open>internal/application\<close>: what is acknowledged is on record, consumers converge to the owned shards, the loops.

  The theorem of this theory joins the parts: an event that the endpoint accepted is acknowledged by a
  worker only when it is on record or in quarantine.

  \<^bold>\<open>Conventions.\<close>  A string or byte slice is a \<open>string\<close>, nil the empty one; \<^verbatim>\<open>int\<close> and \<^verbatim>\<open>int64\<close> are \<open>int\<close>, \<^verbatim>\<open>uint32\<close> is a 32-bit
  word; a time is its nanoseconds; a pointer that may be nil is an \<open>option\<close>, a pair of value and error a sum; maps are
  association lists, in key order where JSON prints them; errors are trees of wrapped sentinels and texts.  Readings of
  the clock, fresh identifiers, random numbers, SHA-256, \<^verbatim>\<open>url.Parse\<close>, the broker's client and the network are
  arguments.

  \<^bold>\<open>Simplifications.\<close>  The body of a transaction sees no concurrent commits (the isolation the code asks for on the rows it
  locks); texts in columns of type \<^verbatim>\<open>jsonb\<close> are kept as they were written; errors of the driver are their texts; zones of times are not
  kept; parallel fetches are collected in an order that is an argument; the leases a batch tick sees are read
  once; logging is left out.  Structural recursion is used for every loop over data; the loops of goroutines run over a
  list of the signals they receive, so that every finite run is covered.  Converting a \<^verbatim>\<open>float64\<close> that is out of range to \<^verbatim>\<open>int64\<close>, which
  Go leaves to the implementation, is that of amd64.  The sender a batch of effects is published with answers by effect and key alone.  The JSON reader has fuel, twice the length of its input
  plus one, and \<open>json_parse_fuel\<close> shows that more fuel never changes what it reads; the decimal point of a
  \<^verbatim>\<open>float64\<close> is sought for 400 places (its range is 309 and -324) and its shortest digits up to 17.

  \<^bold>\<open>What goes wrong.\<close>  Theorems also state defects of the code: \<open>keyqueue_stats_panics\<close>, \<open>fresh_schedule_blocks_tick\<close>,
  \<open>removed_consumer_stalls_new_owner\<close>, \<open>batches_never_form\<close>, and the lemma \<open>stale_update_reactivates\<close>.

  \<^bold>\<open>Not modelled.\<close>  The MongoDB adapters other than the leases (a second backend for the same ports, in the query language of its driver); the contract
  registries; the code generator (text templates); the configuration (environment variables); the rest of the HTTP
  API and the decoding of request bodies, which wrap the services; authentication (a JWT library); the Redis adapters,
  which no command constructs; observability; the commands, which construct the components, apart from the worker's router; the SDK; test doubles and
  examples.
\<close>

section \<open>From the endpoint to the database\<close>

text \<open>What a worker does with a delivery of an event of a shard: it gives the delivery back, or it owns the shard and queues
  the event with its fencing token; and when the queued event is processed, whatever the database is by then, the
  delivery is settled once, and acknowledged only if the event is on record or in quarantine.\<close>

definition delivery_safe ::
  "(string \<Rightarrow> string) \<Rightarrow> EventProcessor \<Rightarrow> (int \<Rightarrow> int) \<Rightarrow> WorkerConfig \<Rightarrow> (QueueItem \<Rightarrow> gerr option) \<Rightarrow> LeaseManager \<Rightarrow> string \<Rightarrow>
   u32 \<Rightarrow> string \<Rightarrow> string \<Rightarrow> Delivery \<Rightarrow> bool" where
  "delivery_safe H events rnd config submit m worker shard tenantID eventID dl =
     (\<forall>w. (\<exists>err. processSingleDelivery H events rnd config submit m worker dl w = (err, [Nacked], [], w)) \<or>
       (\<exists>item. processSingleDelivery H events rnd config submit m worker dl w = (None, [], [item], w) \<and>
          qiShard item = shard \<and> IsOwner m shard \<and> GetFencingToken m shard = (qiFencingToken item, True) \<and>
          (\<forall>w r ss w'. processDelivery events rnd config (qiEvent item) dl (qiFencingToken item) shard worker w = (r, ss, w') \<longrightarrow>
             length ss = 1 \<and>
             (Acked \<in> set ss \<longrightarrow> (\<exists>executionID. execution_known (woDb w') tenantID eventID executionID) \<or>
                quarantined H (woDb w') eventID eventID tenantID))))"

lemma decoded_delivery_safe:
  assumes event: "dlEvent dl = Inr (Some event)" and shard: "VirtualShardForEvent m event = shard"
  shows "delivery_safe H (pg_event_processor H clk rd now) rnd config submit m worker shard (evTenantID event) (evID event) dl"
  unfolding delivery_safe_def
proof
  fix w
  let ?events = "pg_event_processor H clk rd now"
  consider err where "processSingleDelivery H ?events rnd config submit m worker dl w = (err, [Nacked], [], w)"
    | item where "processSingleDelivery H ?events rnd config submit m worker dl w = (None, [], [item], w)"
      "qiEvent item = Some event" "qiShard item = shard" "IsOwner m shard" "GetFencingToken m shard = (qiFencingToken item, True)"
    using decoded_delivery_cases [OF event, of H ?events rnd config submit m worker w] shard by metis
  then show "(\<exists>err. processSingleDelivery H ?events rnd config submit m worker dl w = (err, [Nacked], [], w)) \<or>
     (\<exists>item. processSingleDelivery H ?events rnd config submit m worker dl w = (None, [], [item], w) \<and>
        qiShard item = shard \<and> IsOwner m shard \<and> GetFencingToken m shard = (qiFencingToken item, True) \<and>
        (\<forall>w r ss w'. processDelivery ?events rnd config (qiEvent item) dl (qiFencingToken item) shard worker w = (r, ss, w') \<longrightarrow>
           length ss = 1 \<and>
           (Acked \<in> set ss \<longrightarrow> (\<exists>executionID. execution_known (woDb w') (evTenantID event) (evID event) executionID) \<or>
              quarantined H (woDb w') (evID event) (evID event) (evTenantID event))))"
  proof cases
    case (2 item)
    have "length ss = 1 \<and> (Acked \<in> set ss \<longrightarrow> (\<exists>executionID. execution_known (woDb w') (evTenantID event) (evID event) executionID) \<or>
        quarantined H (woDb w') (evID event) (evID event) (evTenantID event))"
      if "processDelivery ?events rnd config (qiEvent item) dl (qiFencingToken item) shard worker v = (r, ss, w')" for v r ss w'
      using processDelivery_durable that unfolding 2(2) by blast
    with 2(1,3-5) show ?thesis
      by blast
  qed simp
qed

text \<open>C15. An accepted event is not lost on its way to the database.  When the endpoint accepts an event, the event
  belongs to the authenticated tenant, and its envelope was published on the subject that a consumer of the event's
  shard filters.  Whenever the broker delivers that message, a worker with the same number of shards either gives it
  back, or owns the shard and queues the event with its fencing token; and when the queued event is processed, the message
  is settled once, and acknowledged only if an execution of the event is on record for the tenant, or the event is in
  quarantine.  The texts of the envelope have to be UTF-8, as decoded JSON is, and its data
  nested less than 10000 levels; any call to the database may fail.\<close>

theorem accepted_event_is_settled:
  assumes "PublishEvent (NewEventIngestionHandler (Some (PublishToShard H js (cnRuleSets c))) (cnNumShards c)) (Inr request) path tenantID j =
      (AcceptedResponse eventID shard, j')"
    and "''events'' \<in> set (cnSubjects c)" "0 < cnNumShards c" "lmNumShards m = cnNumShards c"
    and "envelope_ok (buildEventEnvelope request (TrimSpace path) tenantID)"
  shows "\<exists>payload key. tenantID \<noteq> [] \<and> key \<in> set (shard_keys c shard) \<and> NatsConsumer.Publish js (filter_subject H key) payload j = (None, j') \<and>
    (\<forall>i ackErr nakErr retryErr n. delivery_safe H (pg_event_processor H clk rd now) rnd config submit m worker shard tenantID eventID
       (jetstreamDelivery i ackErr nakErr retryErr \<lparr>msData = payload, msNumDelivered = n\<rparr>))"
proof -
  obtain event payload key where event: "event = buildEventEnvelope request (TrimSpace path) tenantID"
      "evTenantID event = tenantID" "evID event = eventID" "shard = VirtualShard event (cnNumShards c)"
    and published: "tenantID \<noteq> []" "key \<in> set (shard_keys c shard)" "NatsConsumer.Publish js (filter_subject H key) payload j = (None, j')"
    and decoded: "envelope_ok event \<longrightarrow> unmarshal_EventEnvelope payload = Some (on_wire event)"
    using accepted_event_is_published [OF assms(1-3)] by auto
  have shard: "VirtualShardForEvent m (on_wire event) = shard"
    using event(4) assms(4) by (simp add: VirtualShardForEvent_def VirtualShard_def)
  have "delivery_safe H (pg_event_processor H clk rd now) rnd config submit m worker shard tenantID eventID
      (jetstreamDelivery i ackErr nakErr retryErr \<lparr>msData = payload, msNumDelivered = n\<rparr>)" for i ackErr nakErr retryErr n
  proof -
    have "dlEvent (jetstreamDelivery i ackErr nakErr retryErr \<lparr>msData = payload, msNumDelivered = n\<rparr>) = Inr (Some (on_wire event))"
      using decoded assms(5) event(1) by (simp add: jetstreamDelivery_def jetstreamDelivery_Event_def)
    from decoded_delivery_safe [OF this shard] show ?thesis
      using event(2,3) by simp
  qed
  with published show ?thesis
    by (intro exI [of _ payload] exI [of _ key] conjI allI)
qed

theorem accepted_event_is_settled_witness:
  "\<exists>payload key. key \<in> set (shard_keys sample_consumer (VirtualShard sample_ingested 4)) \<and>
     NatsConsumer.Publish sample_jetstream (filter_subject id key) payload [] = (None, []) \<and>
     delivery_safe id (pg_event_processor id (\<lambda>_. sample_clock) (\<lambda>_. sample_readings) 5) (\<lambda>n. 0) DefaultWorkerConfig (\<lambda>_. None) sample_owner ''a''
       (VirtualShard sample_ingested 4) ''t'' ''e1'' (jetstreamDelivery 0 None None None \<lparr>msData = payload, msNumDelivered = None\<rparr>)"
proof -
  obtain payload where payload: "json_EventEnvelope sample_ingested = Some payload"
    using sample_ingested_written ..
  have c: "cnNumShards sample_consumer = 4" "cnRuleSets sample_consumer = []" "cnSubjects sample_consumer = [''events'']"
    by (simp_all add: sample_consumer_def NewConsumer_of_def)
  have accepted: "PublishEvent (NewEventIngestionHandler (Some (PublishToShard id sample_jetstream (cnRuleSets sample_consumer))) (cnNumShards sample_consumer))
      (Inr sample_request) ''order.placed'' ''t'' [] = (AcceptedResponse ''e1'' (VirtualShard sample_ingested 4), [])"
    by (simp add: PublishEvent_def NewEventIngestionHandler_def sample_ingested(1-4) payload Let_def PublishToShard_def NatsConsumer.Publish_def sample_jetstream_def c)
      (simp add: sample_ingested_def)
  have ok: "envelope_ok (buildEventEnvelope sample_request (TrimSpace ''order.placed'') ''t'')"
    unfolding sample_ingested(1,2) by code_simp
  have hyps: "''events'' \<in> set (cnSubjects sample_consumer)" "0 < cnNumShards sample_consumer" "lmNumShards sample_owner = cnNumShards sample_consumer"
    by (simp_all add: c sample_owner_def)
  show ?thesis
    using accepted_event_is_settled [OF accepted hyps ok] by blast
qed

end
